(* ===== verification/Prelude.thy ===== *)
theory Prelude
  imports Main "HOL-Library.Word" "HOL-Library.Signed_Division"
begin

unbundle bit_operations_syntax

text \<open>
  What the components share: the C types of the program and their conversions, the
  characters and strings of the C locale, and the list, bit and arithmetic lemmas the
  component theories use.

  A C \<open>int\<close> (and \<open>lirc_t\<close>, which \<open>include/media/lirc.h\<close> defines as \<open>int\<close>) is a HOL
  \<open>int\<close>; the conversions between signed and unsigned types are written out with
  \<open>s32\<close> and \<open>u32\<close>. Signed overflow is undefined in C, so a model value outside the range
  of \<open>in_s32\<close> stands for no execution; the lemmas on ranges say where that cannot happen.
  \<open>unsigned long\<close> has 32 bits: the target of the program is an armv7 board (readme.md).
  Unsigned 64 bit codes (\<open>ir_code\<close>, \<open>__u64\<close>) are \<open>64 word\<close>.
\<close>

section \<open>Rule collections\<close>

named_theorems cdefs "definitions of small source helpers, unfolded by the proofs that evaluate them"
named_theorems range_intros "rules that bound a value of the model"

section \<open>Integer conversions\<close>

type_synonym lirc_t = int
type_synonym ir_code = "64 word"

definition u32 :: "int \<Rightarrow> int" where
  "u32 x = x mod 4294967296"

definition s32 :: "int \<Rightarrow> int" where
  "s32 x = (x + 2147483648) mod 4294967296 - 2147483648"

definition in_s32 :: "int \<Rightarrow> bool" where
  "in_s32 x \<longleftrightarrow> - 2147483648 \<le> x \<and> x < 2147483648"

definition in_u32 :: "int \<Rightarrow> bool" where
  "in_u32 x \<longleftrightarrow> 0 \<le> x \<and> x < 4294967296"

lemma s32_id [simp]: "in_s32 x \<Longrightarrow> s32 x = x"
  by (simp add: s32_def in_s32_def)

lemma u32_id [simp]: "in_u32 x \<Longrightarrow> u32 x = x"
  by (simp add: u32_def in_u32_def)

lemma in_s32_s32 [simp, range_intros]: "in_s32 (s32 x)"
proof -
  have "0 \<le> (x + 2147483648) mod (4294967296 :: int)"
    "(x + 2147483648) mod (4294967296 :: int) < 4294967296"
    by simp_all
  then show ?thesis unfolding s32_def in_s32_def by linarith
qed

lemma in_u32_u32 [simp, range_intros]: "in_u32 (u32 x)"
  by (simp add: u32_def in_u32_def)

lemma in_s32I [range_intros]: "- 2147483648 \<le> x \<Longrightarrow> x < 2147483648 \<Longrightarrow> in_s32 x"
  by (simp add: in_s32_def)

lemma s32_u32 [simp]: "s32 (u32 x) = s32 x"
  by (simp add: s32_def u32_def mod_add_left_eq)

text \<open>The two readings of a 32 bit word.\<close>

lemma s32_word: "s32 x = sint (word_of_int x :: 32 word)"
  by (simp add: s32_def int_word_sint)

lemma u32_word: "u32 x = uint (word_of_int x :: 32 word)"
  by (simp add: u32_def unsigned_of_int take_bit_eq_mod)

text \<open>C's integer division truncates towards zero.\<close>

lemma sdiv_nonneg: "0 \<le> (a::int) \<Longrightarrow> 0 < b \<Longrightarrow> a sdiv b = a div b"
  by (simp add: signed_divide_int_def sgn_if)

lemma sdiv_pos_nonneg [range_intros]: "0 \<le> (a::int) \<Longrightarrow> 0 < b \<Longrightarrow> 0 \<le> a sdiv b"
  by (simp add: sdiv_nonneg pos_imp_zdiv_nonneg_iff)

section \<open>Characters and strings\<close>

text \<open>
  A C string is the list of its characters before the terminating NUL. The character
  classes are those of the C locale.
\<close>

definition char_code :: "char \<Rightarrow> nat" where
  "char_code c = of_char c"

definition c_tolower :: "char \<Rightarrow> char" where
  "c_tolower c =
     (if 65 \<le> char_code c \<and> char_code c \<le> 90 then char_of (char_code c + 32) else c)"

definition c_isspace :: "char \<Rightarrow> bool" where
  "c_isspace c \<longleftrightarrow> c \<in> set [CHR '' '', CHR 0x09, CHR 0x0A, CHR 0x0B, CHR 0x0C, CHR 0x0D]"

definition c_isdigit :: "char \<Rightarrow> bool" where
  "c_isdigit c \<longleftrightarrow> 48 \<le> char_code c \<and> char_code c \<le> 57"

definition strcasecmp_eq :: "string \<Rightarrow> string \<Rightarrow> bool" where
  "strcasecmp_eq a b \<longleftrightarrow> map c_tolower a = map c_tolower b"

lemma strcasecmp_eq_refl [simp]: "strcasecmp_eq a a"
  by (simp add: strcasecmp_eq_def)

lemma strcasecmp_eq_sym: "strcasecmp_eq a b \<Longrightarrow> strcasecmp_eq b a"
  by (simp add: strcasecmp_eq_def)

lemma strcasecmp_eq_trans: "strcasecmp_eq a b \<Longrightarrow> strcasecmp_eq b c \<Longrightarrow> strcasecmp_eq a c"
  by (simp add: strcasecmp_eq_def)

section \<open>Numbers as text\<close>

definition digit_char :: "nat \<Rightarrow> char" where
  "digit_char d = (if d < 10 then char_of (48 + d) else char_of (87 + d))"

text \<open>The digits of a number in a base, most significant first; one digit for 0.\<close>

function digits_of :: "nat \<Rightarrow> nat \<Rightarrow> nat list" where
  "digits_of b n = (if b < 2 \<or> n < b then [n] else digits_of b (n div b) @ [n mod b])"
  by pat_completeness auto
termination
  by (relation "measure snd") auto

declare digits_of.simps [simp del]

definition show_base :: "nat \<Rightarrow> nat \<Rightarrow> string" where
  "show_base b n = map digit_char (digits_of b n)"

definition pad_left :: "nat \<Rightarrow> char \<Rightarrow> string \<Rightarrow> string" where
  "pad_left w c s = replicate (w - length s) c @ s"

definition pad_right :: "nat \<Rightarrow> string \<Rightarrow> string" where
  "pad_right w s = s @ replicate (w - length s) CHR '' ''"

text \<open>Reading digits back, as \<open>strtoul\<close> does: the value of the digits read so far.\<close>

definition digit_val :: "char \<Rightarrow> nat" where
  "digit_val c = (if char_code c \<le> 57 then char_code c - 48 else char_code c - 87)"

definition read_base :: "nat \<Rightarrow> string \<Rightarrow> nat" where
  "read_base b s = foldl (\<lambda>v c. v * b + digit_val c) 0 s"

lemma digit_val_char: "d < 16 \<Longrightarrow> digit_val (digit_char d) = d"
  by (simp add: digit_val_def digit_char_def char_code_def)

lemma digits_of_less: "2 \<le> b \<Longrightarrow> d \<in> set (digits_of b n) \<Longrightarrow> d < b"
proof (induction b n rule: digits_of.induct)
  case (1 b n)
  then show ?case by (subst (asm) (2) digits_of.simps) (auto split: if_splits)
qed

lemma foldl_digits_of: "2 \<le> b \<Longrightarrow> foldl (\<lambda>v d. v * b + d) 0 (digits_of b n) = n"
proof (induction b n rule: digits_of.induct)
  case (1 b n)
  then show ?case by (subst digits_of.simps) auto
qed

lemma foldl_digit_val:
  "\<forall>d\<in>set ds. d < 16 \<Longrightarrow>
   foldl (\<lambda>v c. v * b + digit_val c) a (map digit_char ds) = foldl (\<lambda>v d. v * b + d) a ds"
  by (induction ds arbitrary: a) (auto simp: digit_val_char)

lemma read_show_base: "2 \<le> b \<Longrightarrow> b \<le> 16 \<Longrightarrow> read_base b (show_base b n) = n"
  unfolding read_base_def show_base_def
  by (subst foldl_digit_val) (auto simp: foldl_digits_of dest: digits_of_less)

lemma read_base_pad: "read_base b (pad_left w CHR ''0'' s) = read_base b s"
proof -
  have "foldl (\<lambda>v c. v * b + digit_val c) 0 (replicate k CHR ''0'') = 0" for k
    by (induction k) (auto simp: digit_val_def char_code_def)
  then show ?thesis by (simp add: read_base_def pad_left_def)
qed

lemma length_digits_of:
  "2 \<le> b \<Longrightarrow> 0 < w \<Longrightarrow> n < b ^ w \<Longrightarrow> length (digits_of b n) \<le> w"
proof (induction w arbitrary: n)
  case (Suc w)
  show ?case
  proof (cases "n < b")
    case True
    then show ?thesis by (subst digits_of.simps) simp
  next
    case False
    then have "w \<noteq> 0" using Suc.prems by (cases w) auto
    moreover have "n div b < b ^ w"
      using Suc.prems by (simp add: less_mult_imp_div_less mult.commute)
    ultimately show ?thesis
      using Suc False by (subst digits_of.simps) auto
  qed
qed simp

lemma length_pad_show_base:
  "2 \<le> b \<Longrightarrow> 0 < w \<Longrightarrow> n < b ^ w \<Longrightarrow> length (pad_left w c (show_base b n)) = w"
  using length_digits_of [of b w n] by (simp add: pad_left_def show_base_def)

end
