(* ===== verification/Ir_Types.thy ===== *)
theory Ir_Types
  imports Prelude
begin

text \<open>
  The data model of the infrared library:
  \<open>lib/ir_remote_types.h\<close> (\<open>struct ir_ncode\<close>, \<open>struct ir_remote\<close>, \<open>struct decode_ctx_t\<close>),
  the part of \<open>lib/driver.h\<close> the library reads, and \<open>include/media/lirc.h\<close> (the pulse/space
  encoding of a \<open>lirc_t\<close>). The inline operations on it are in \<open>Ir_Inline\<close>.

  A pointer into a linked list or an array is the index of what it points to: the pointers
  \<open>current\<close> and \<open>transmit_state\<close> of a code are indices into its list \<open>next\<close>, \<open>None\<close> for
  NULL; a pointer to one of a remote's codes is an \<open>ncode_ref\<close>.
\<close>

section \<open>Constants\<close>

definition PULSE_BIT :: lirc_t where "PULSE_BIT = 0x01000000"
definition PULSE_MASK :: lirc_t where "PULSE_MASK = 0x00FFFFFF"
definition LIRC_MODE2_MASK :: lirc_t where "LIRC_MODE2_MASK = 0xFF000000"
definition LIRC_MODE2_TIMEOUT :: lirc_t where "LIRC_MODE2_TIMEOUT = 0x03000000"
definition LIRC_EOF :: lirc_t where "LIRC_EOF = 0x08000000"

definition LIRC_VALUE :: "lirc_t \<Rightarrow> lirc_t" where
  "LIRC_VALUE v = v AND PULSE_MASK"

definition LIRC_IS_TIMEOUT :: "lirc_t \<Rightarrow> bool" where
  "LIRC_IS_TIMEOUT v \<longleftrightarrow> u32 v AND LIRC_MODE2_MASK = LIRC_MODE2_TIMEOUT"

definition LIRC_MODE_RAW :: int where "LIRC_MODE_RAW = 0x01"
definition LIRC_MODE_PULSE :: int where "LIRC_MODE_PULSE = 0x02"
definition LIRC_MODE_MODE2 :: int where "LIRC_MODE_MODE2 = 0x04"
definition LIRC_MODE_LIRCCODE :: int where "LIRC_MODE_LIRCCODE = 0x10"

definition IR_PROTOCOL_MASK :: "32 word" where "IR_PROTOCOL_MASK = 0x07ff"
definition RAW_CODES :: "32 word" where "RAW_CODES = 0x0001"
definition RC5 :: "32 word" where "RC5 = 0x0002"
definition RC6 :: "32 word" where "RC6 = 0x0004"
definition RCMM :: "32 word" where "RCMM = 0x0008"
definition SPACE_ENC :: "32 word" where "SPACE_ENC = 0x0010"
definition SPACE_FIRST :: "32 word" where "SPACE_FIRST = 0x0020"
definition GOLDSTAR :: "32 word" where "GOLDSTAR = 0x0040"
definition GRUNDIG :: "32 word" where "GRUNDIG = 0x0080"
definition BO :: "32 word" where "BO = 0x0100"
definition SERIAL :: "32 word" where "SERIAL = 0x0200"
definition XMP :: "32 word" where "XMP = 0x0400"
definition REVERSE :: "32 word" where "REVERSE = 0x0800"
definition NO_HEAD_REP :: "32 word" where "NO_HEAD_REP = 0x1000"
definition NO_FOOT_REP :: "32 word" where "NO_FOOT_REP = 0x2000"
definition CONST_LENGTH :: "32 word" where "CONST_LENGTH = 0x4000"
definition REPEAT_HEADER :: "32 word" where "REPEAT_HEADER = 0x8000"
definition COMPAT_REVERSE :: "32 word" where "COMPAT_REVERSE = 0x00010000"

definition IR_PARITY_NONE :: int where "IR_PARITY_NONE = 0"
definition IR_PARITY_EVEN :: int where "IR_PARITY_EVEN = 1"
definition IR_PARITY_ODD :: int where "IR_PARITY_ODD = 2"

lemmas mode2_defs = PULSE_BIT_def PULSE_MASK_def LIRC_MODE2_MASK_def LIRC_MODE2_TIMEOUT_def
  LIRC_EOF_def

lemmas rec_mode_defs = LIRC_MODE_RAW_def LIRC_MODE_PULSE_def LIRC_MODE_MODE2_def
  LIRC_MODE_LIRCCODE_def

lemmas flag_defs = IR_PROTOCOL_MASK_def RAW_CODES_def RC5_def RC6_def RCMM_def SPACE_ENC_def
  SPACE_FIRST_def GOLDSTAR_def GRUNDIG_def BO_def SERIAL_def XMP_def REVERSE_def
  NO_HEAD_REP_def NO_FOOT_REP_def CONST_LENGTH_def REPEAT_HEADER_def COMPAT_REVERSE_def

lemmas parity_defs = IR_PARITY_NONE_def IR_PARITY_EVEN_def IR_PARITY_ODD_def

section \<open>Structures\<close>

record timeval =
  tv_sec :: int
  tv_usec :: int

definition timerclear :: timeval where
  "timerclear = \<lparr>tv_sec = 0, tv_usec = 0\<rparr>"

definition timerisset :: "timeval \<Rightarrow> bool" where
  "timerisset t \<longleftrightarrow> tv_sec t \<noteq> 0 \<or> tv_usec t \<noteq> 0"

text \<open>The fields of \<open>struct driver\<close> that the library reads.\<close>

record driver =
  d_rec_mode :: int
  d_code_length :: int
  d_resolution :: int

record ir_ncode =
  nc_name :: string
  nc_code :: ir_code
  nc_length :: int
  nc_signals :: "lirc_t list option"
  nc_next :: "ir_code list"
  nc_current :: "nat option"
  nc_transmit_state :: "nat option"

text \<open>
  What a \<open>struct ir_ncode*\<close> can point to: an entry of the array \<open>codes\<close> of its remote, one
  of the two \<open>dyncodes\<close> of its remote, or the constant \<open>NCODE_EOF\<close>.
\<close>

datatype ncode_ref = Code_Ref nat | Dyn_Ref nat | Eof_Ref

record decode_ctx_t =
  ctx_code :: ir_code
  ctx_pre :: ir_code
  ctx_post :: ir_code
  ctx_repeat_flag :: bool
  ctx_max_remaining_gap :: lirc_t
  ctx_min_remaining_gap :: lirc_t

record ir_remote =
  r_name :: string
  r_driver :: string
  r_codes :: "ir_ncode list option"
  r_bits :: int
  r_flags :: "32 word"
  r_eps :: int
  r_aeps :: int
  r_dyncodes_name :: string
  r_dyncode :: nat
  r_dyncodes :: "ir_ncode list"
  r_phead :: lirc_t
  r_shead :: lirc_t
  r_pthree :: lirc_t
  r_sthree :: lirc_t
  r_ptwo :: lirc_t
  r_stwo :: lirc_t
  r_pone :: lirc_t
  r_sone :: lirc_t
  r_pzero :: lirc_t
  r_szero :: lirc_t
  r_plead :: lirc_t
  r_ptrail :: lirc_t
  r_pfoot :: lirc_t
  r_sfoot :: lirc_t
  r_prepeat :: lirc_t
  r_srepeat :: lirc_t
  r_pre_data_bits :: int
  r_pre_data :: ir_code
  r_post_data_bits :: int
  r_post_data :: ir_code
  r_pre_p :: lirc_t
  r_pre_s :: lirc_t
  r_post_p :: lirc_t
  r_post_s :: lirc_t
  r_gap :: int
  r_gap2 :: int
  r_repeat_gap :: int
  r_toggle_bit :: int
  r_toggle_bit_mask :: ir_code
  r_suppress_repeat :: int
  r_min_repeat :: int
  r_min_code_repeat :: int
  r_freq :: int
  r_duty_cycle :: int
  r_toggle_mask :: ir_code
  r_rc6_mask :: ir_code
  r_baud :: int
  r_bits_in_byte :: int
  r_parity :: int
  r_stop_bits :: int
  r_ignore_mask :: ir_code
  r_repeat_mask :: ir_code
  r_toggle_bit_mask_state :: ir_code
  r_toggle_mask_state :: int
  r_repeat_countdown :: int
  r_last_code :: "ncode_ref option"
  r_toggle_code :: "ncode_ref option"
  r_reps :: int
  r_last_send :: timeval
  r_min_remaining_gap :: lirc_t
  r_max_remaining_gap :: lirc_t
  r_min_total_signal_length :: lirc_t
  r_max_total_signal_length :: lirc_t
  r_min_gap_length :: lirc_t
  r_max_gap_length :: lirc_t
  r_min_pulse_length :: lirc_t
  r_max_pulse_length :: lirc_t
  r_min_space_length :: lirc_t
  r_max_space_length :: lirc_t
  r_release_detected :: bool
  r_manual_sort :: int

text \<open>
  \<open>calloc\<close> or a static initializer gives a remote whose fields are all zero; its two helper
  codes for unknown buttons are zero as well.
\<close>

definition zero_ncode :: ir_ncode where
  "zero_ncode = \<lparr>nc_name = [], nc_code = 0, nc_length = 0, nc_signals = None, nc_next = [],
     nc_current = None, nc_transmit_state = None\<rparr>"

definition zero_remote :: "string \<Rightarrow> ir_remote" where
  "zero_remote nm = \<lparr>r_name = nm, r_driver = [], r_codes = None, r_bits = 0, r_flags = 0,
     r_eps = 0, r_aeps = 0, r_dyncodes_name = [], r_dyncode = 0,
     r_dyncodes = [zero_ncode, zero_ncode],
     r_phead = 0, r_shead = 0, r_pthree = 0, r_sthree = 0, r_ptwo = 0, r_stwo = 0,
     r_pone = 0, r_sone = 0, r_pzero = 0, r_szero = 0, r_plead = 0, r_ptrail = 0,
     r_pfoot = 0, r_sfoot = 0, r_prepeat = 0, r_srepeat = 0,
     r_pre_data_bits = 0, r_pre_data = 0, r_post_data_bits = 0, r_post_data = 0,
     r_pre_p = 0, r_pre_s = 0, r_post_p = 0, r_post_s = 0,
     r_gap = 0, r_gap2 = 0, r_repeat_gap = 0, r_toggle_bit = 0, r_toggle_bit_mask = 0,
     r_suppress_repeat = 0, r_min_repeat = 0, r_min_code_repeat = 0, r_freq = 0,
     r_duty_cycle = 0, r_toggle_mask = 0, r_rc6_mask = 0,
     r_baud = 0, r_bits_in_byte = 0, r_parity = 0, r_stop_bits = 0,
     r_ignore_mask = 0, r_repeat_mask = 0,
     r_toggle_bit_mask_state = 0, r_toggle_mask_state = 0, r_repeat_countdown = 0,
     r_last_code = None, r_toggle_code = None, r_reps = 0, r_last_send = timerclear,
     r_min_remaining_gap = 0, r_max_remaining_gap = 0,
     r_min_total_signal_length = 0, r_max_total_signal_length = 0,
     r_min_gap_length = 0, r_max_gap_length = 0,
     r_min_pulse_length = 0, r_max_pulse_length = 0,
     r_min_space_length = 0, r_max_space_length = 0,
     r_release_detected = False, r_manual_sort = 0\<rparr>"

end
