(* ===== verification/Ir_Inline.thy ===== *)
theory Ir_Inline
  imports Ir_Types
begin

text \<open>
  The \<open>static inline\<close> functions of \<open>lib/ir_remote.h\<close> and \<open>receive_timeout\<close> of
  \<open>lib/receive.h\<close>: the walk along the codes of a button, bit counting and reversal, the
  protocol predicates on the flags, the gaps, the tolerance tests \<open>expect\<close>,
  \<open>expect_at_least\<close> and \<open>expect_at_most\<close> with the limits they are compared with, and the
  composition of a whole code out of its pre, main and post parts.
\<close>

section \<open>Signal words\<close>

definition is_pulse :: "lirc_t \<Rightarrow> bool" where
  "is_pulse data \<longleftrightarrow> data AND PULSE_BIT \<noteq> 0"

definition is_space :: "lirc_t \<Rightarrow> bool" where
  "is_space data \<longleftrightarrow> \<not> is_pulse data"

section \<open>Codes of a button\<close>

text \<open>\<open>node\<close> is \<open>None\<close> for NULL, else an index into the list \<open>next\<close>.\<close>

definition get_ir_code :: "ir_ncode \<Rightarrow> nat option \<Rightarrow> ir_code" where
  "get_ir_code ncode node =
     (case node of
        Some i \<Rightarrow> if nc_next ncode \<noteq> [] then nc_next ncode ! i else nc_code ncode
      | None \<Rightarrow> nc_code ncode)"

definition next_index :: "'a list \<Rightarrow> nat \<Rightarrow> nat option" where
  "next_index xs i = (if Suc i < length xs then Some (Suc i) else None)"

definition get_next_ir_code_node :: "ir_ncode \<Rightarrow> nat option \<Rightarrow> nat option" where
  "get_next_ir_code_node ncode node =
     (case node of
        None \<Rightarrow> if nc_next ncode = [] then None else Some 0
      | Some i \<Rightarrow> next_index (nc_next ncode) i)"

text \<open>The codes of a remote, \<open>NCODE_EOF\<close>, and what a reference points to.\<close>

definition codes_of :: "ir_remote \<Rightarrow> ir_ncode list" where
  "codes_of r = (case r_codes r of None \<Rightarrow> [] | Some cs \<Rightarrow> cs)"

definition NCODE_EOF :: ir_ncode where
  "NCODE_EOF = zero_ncode\<lparr>nc_name := ''__EOF'', nc_code := word_of_int LIRC_EOF, nc_length := 1\<rparr>"

definition deref :: "ir_remote \<Rightarrow> ncode_ref \<Rightarrow> ir_ncode" where
  "deref r c =
     (case c of
        Code_Ref i \<Rightarrow> codes_of r ! i
      | Dyn_Ref i \<Rightarrow> r_dyncodes r ! i
      | Eof_Ref \<Rightarrow> NCODE_EOF)"

section \<open>Bits\<close>

definition bit_count :: "ir_remote \<Rightarrow> int" where
  "bit_count remote = r_pre_data_bits remote + r_bits remote + r_post_data_bits remote"

function bits_set :: "ir_code \<Rightarrow> nat" where
  "bits_set data =
     (if data = 0 then 0
      else (if data AND 1 \<noteq> 0 then 1 else 0) + bits_set (drop_bit 1 data))"
  by pat_completeness auto
termination
proof (relation "measure unat")
  fix data :: ir_code
  assume "data \<noteq> 0"
  then have "0 < unat data" by (simp add: unat_gt_0)
  then show "(drop_bit 1 data, data) \<in> measure unat"
    by (simp add: drop_bit_eq_div unat_div_distrib)
qed simp

declare bits_set.simps [simp del]

definition reverse_step :: "ir_code \<Rightarrow> nat \<Rightarrow> nat \<Rightarrow> ir_code \<Rightarrow> ir_code" where
  "reverse_step data bits i c =
     c OR push_bit (bits - 1 - i) (if data AND push_bit i 1 \<noteq> 0 then 1 else 0)"

definition reverse :: "ir_code \<Rightarrow> int \<Rightarrow> ir_code" where
  "reverse data bits = fold (reverse_step data (nat bits)) [0..<nat bits] 0"

definition gen_mask :: "int \<Rightarrow> ir_code" where
  "gen_mask bits = fold (\<lambda>_ m. push_bit 1 m OR 1) [0..<nat bits] 0"

section \<open>Protocol predicates\<close>

definition has_flag :: "ir_remote \<Rightarrow> 32 word \<Rightarrow> bool" where
  "has_flag remote f \<longleftrightarrow> r_flags remote AND f \<noteq> 0"

definition set_protocol :: "ir_remote \<Rightarrow> 32 word \<Rightarrow> ir_remote" where
  "set_protocol remote protocol =
     remote\<lparr>r_flags := (r_flags remote AND NOT IR_PROTOCOL_MASK) OR protocol\<rparr>"

definition has_repeat :: "ir_remote \<Rightarrow> bool" where
  "has_repeat remote \<longleftrightarrow> r_prepeat remote > 0 \<and> r_srepeat remote > 0"

definition is_raw :: "ir_remote \<Rightarrow> bool" where
  "is_raw remote \<longleftrightarrow> r_flags remote AND IR_PROTOCOL_MASK = RAW_CODES"

definition is_space_enc :: "ir_remote \<Rightarrow> bool" where
  "is_space_enc remote \<longleftrightarrow> r_flags remote AND IR_PROTOCOL_MASK = SPACE_ENC"

definition is_space_first :: "ir_remote \<Rightarrow> bool" where
  "is_space_first remote \<longleftrightarrow> r_flags remote AND IR_PROTOCOL_MASK = SPACE_FIRST"

definition is_rc5 :: "ir_remote \<Rightarrow> bool" where
  "is_rc5 remote \<longleftrightarrow> r_flags remote AND IR_PROTOCOL_MASK = RC5"

definition is_rc6 :: "ir_remote \<Rightarrow> bool" where
  "is_rc6 remote \<longleftrightarrow> r_flags remote AND IR_PROTOCOL_MASK = RC6 \<or> r_rc6_mask remote \<noteq> 0"

definition is_biphase :: "ir_remote \<Rightarrow> bool" where
  "is_biphase remote \<longleftrightarrow> is_rc5 remote \<or> is_rc6 remote"

definition is_rcmm :: "ir_remote \<Rightarrow> bool" where
  "is_rcmm remote \<longleftrightarrow> r_flags remote AND IR_PROTOCOL_MASK = RCMM"

definition is_goldstar :: "ir_remote \<Rightarrow> bool" where
  "is_goldstar remote \<longleftrightarrow> r_flags remote AND IR_PROTOCOL_MASK = GOLDSTAR"

definition is_grundig :: "ir_remote \<Rightarrow> bool" where
  "is_grundig remote \<longleftrightarrow> r_flags remote AND IR_PROTOCOL_MASK = GRUNDIG"

definition is_bo :: "ir_remote \<Rightarrow> bool" where
  "is_bo remote \<longleftrightarrow> r_flags remote AND IR_PROTOCOL_MASK = BO"

definition is_serial :: "ir_remote \<Rightarrow> bool" where
  "is_serial remote \<longleftrightarrow> r_flags remote AND IR_PROTOCOL_MASK = SERIAL"

definition is_xmp :: "ir_remote \<Rightarrow> bool" where
  "is_xmp remote \<longleftrightarrow> r_flags remote AND IR_PROTOCOL_MASK = XMP"

definition is_const :: "ir_remote \<Rightarrow> bool" where
  "is_const remote \<longleftrightarrow> has_flag remote CONST_LENGTH"

definition has_repeat_gap :: "ir_remote \<Rightarrow> bool" where
  "has_repeat_gap remote \<longleftrightarrow> r_repeat_gap remote > 0"

definition has_pre :: "ir_remote \<Rightarrow> bool" where
  "has_pre remote \<longleftrightarrow> r_pre_data_bits remote > 0"

definition has_post :: "ir_remote \<Rightarrow> bool" where
  "has_post remote \<longleftrightarrow> r_post_data_bits remote > 0"

definition has_header :: "ir_remote \<Rightarrow> bool" where
  "has_header remote \<longleftrightarrow> r_phead remote > 0 \<and> r_shead remote > 0"

definition has_foot :: "ir_remote \<Rightarrow> bool" where
  "has_foot remote \<longleftrightarrow> r_pfoot remote > 0 \<and> r_sfoot remote > 0"

definition has_toggle_bit_mask :: "ir_remote \<Rightarrow> bool" where
  "has_toggle_bit_mask remote \<longleftrightarrow> r_toggle_bit_mask remote > 0"

definition has_ignore_mask :: "ir_remote \<Rightarrow> bool" where
  "has_ignore_mask remote \<longleftrightarrow> r_ignore_mask remote > 0"

definition has_repeat_mask :: "ir_remote \<Rightarrow> bool" where
  "has_repeat_mask remote \<longleftrightarrow> r_repeat_mask remote > 0"

definition has_toggle_mask :: "ir_remote \<Rightarrow> bool" where
  "has_toggle_mask remote \<longleftrightarrow> r_toggle_mask remote > 0"

section \<open>Gaps\<close>

definition min_gap :: "ir_remote \<Rightarrow> lirc_t" where
  "min_gap remote =
     (if r_gap2 remote \<noteq> 0 \<and> r_gap2 remote < r_gap remote
      then s32 (r_gap2 remote) else s32 (r_gap remote))"

definition max_gap :: "ir_remote \<Rightarrow> lirc_t" where
  "max_gap remote =
     (if r_gap2 remote > r_gap remote then s32 (r_gap2 remote) else s32 (r_gap remote))"

section \<open>Tolerances\<close>

definition eff_aeps :: "driver \<Rightarrow> ir_remote \<Rightarrow> int" where
  "eff_aeps drv remote =
     s32 (if d_resolution drv > r_aeps remote then d_resolution drv else r_aeps remote)"

definition expect :: "driver \<Rightarrow> ir_remote \<Rightarrow> lirc_t \<Rightarrow> lirc_t \<Rightarrow> bool" where
  "expect drv remote delta exdelta \<longleftrightarrow>
     \<bar>exdelta - delta\<bar> \<le> exdelta * r_eps remote sdiv 100
     \<or> \<bar>exdelta - delta\<bar> \<le> eff_aeps drv remote"

definition expect_at_least :: "driver \<Rightarrow> ir_remote \<Rightarrow> lirc_t \<Rightarrow> lirc_t \<Rightarrow> bool" where
  "expect_at_least drv remote delta exdelta \<longleftrightarrow>
     delta + exdelta * r_eps remote sdiv 100 \<ge> exdelta
     \<or> delta + eff_aeps drv remote \<ge> exdelta"

definition expect_at_most :: "driver \<Rightarrow> ir_remote \<Rightarrow> lirc_t \<Rightarrow> lirc_t \<Rightarrow> bool" where
  "expect_at_most drv remote delta exdelta \<longleftrightarrow>
     delta \<le> exdelta + exdelta * r_eps remote sdiv 100
     \<or> delta \<le> exdelta + eff_aeps drv remote"

definition upper_limit :: "driver \<Rightarrow> ir_remote \<Rightarrow> lirc_t \<Rightarrow> lirc_t" where
  "upper_limit drv remote val =
     (let eps_val = val * (100 + r_eps remote) sdiv 100;
          aeps_val = val + eff_aeps drv remote
      in if eps_val > aeps_val then eps_val else aeps_val)"

definition lower_limit :: "driver \<Rightarrow> ir_remote \<Rightarrow> lirc_t \<Rightarrow> lirc_t" where
  "lower_limit drv remote val =
     (let eps_val = val * (100 - r_eps remote) sdiv 100;
          aeps_val = val - eff_aeps drv remote;
          eps_val = (if eps_val \<le> 0 then 1 else eps_val);
          aeps_val = (if aeps_val \<le> 0 then 1 else aeps_val)
      in if eps_val < aeps_val then eps_val else aeps_val)"

section \<open>Time\<close>

definition time_elapsed :: "timeval \<Rightarrow> timeval \<Rightarrow> int" where
  "time_elapsed earlier current =
     (let secs = u32 (tv_sec current - tv_sec earlier)
      in u32 (1000000 * secs + tv_usec current - tv_usec earlier))"

definition receive_timeout :: "lirc_t \<Rightarrow> lirc_t" where
  "receive_timeout usec = (if 2 * usec < 100000 then 100000 else 2 * usec)"

section \<open>Whole codes\<close>

definition gen_ir_code :: "ir_remote \<Rightarrow> ir_code \<Rightarrow> ir_code \<Rightarrow> ir_code \<Rightarrow> ir_code" where
  "gen_ir_code remote pre code post =
     (let all = pre AND gen_mask (r_pre_data_bits remote);
          all = push_bit (nat (r_bits remote)) all;
          all = all OR (if is_raw remote then code else code AND gen_mask (r_bits remote));
          all = push_bit (nat (r_post_data_bits remote)) all
      in all OR (post AND gen_mask (r_post_data_bits remote)))"

lemmas protocol_defs [cdefs] = is_raw_def is_space_enc_def is_space_first_def is_rc5_def
  is_rc6_def is_biphase_def is_rcmm_def is_goldstar_def is_grundig_def is_bo_def is_serial_def
  is_xmp_def is_const_def has_flag_def

lemmas feature_defs [cdefs] = has_repeat_def has_repeat_gap_def has_pre_def has_post_def
  has_header_def has_foot_def has_toggle_bit_mask_def has_ignore_mask_def has_repeat_mask_def
  has_toggle_mask_def

section \<open>Bit counting, masks and reversal\<close>

lemma bits_set_0 [simp]: "bits_set 0 = 0"
  by (simp add: bits_set.simps)

lemma mask_step: "push_bit 1 (mask n) OR 1 = (mask (Suc n) :: ir_code)"
proof -
  have "push_bit 1 (mask n :: ir_code) = 2 * mask n"
    by (simp add: push_bit_eq_mult mult.commute)
  then show ?thesis by (simp only: mask_Suc_double or.commute)
qed

lemma gen_mask_eq: "gen_mask bits = mask (nat bits)"
proof -
  have "fold (\<lambda>_ m. push_bit 1 m OR 1) [0..<n] (0::ir_code) = mask n" for n
  proof (induction n)
    case (Suc n)
    have "fold (\<lambda>_ m. push_bit 1 m OR 1) [0..<Suc n] (0::ir_code) = push_bit 1 (mask n) OR 1"
      using Suc.IH by simp
    then show ?case by (simp only: mask_step)
  qed simp
  then show ?thesis by (simp only: gen_mask_def)
qed

lemma and_gen_mask: "c AND gen_mask bits = take_bit (nat bits) c"
  by (simp add: gen_mask_eq take_bit_eq_mask)

lemma test_bit_mask: "(d AND push_bit i 1 \<noteq> (0::ir_code)) \<longleftrightarrow> bit d i"
  by (simp add: push_bit_of_1 and_exp_eq_0_iff_not_bit)

lemma test_bit_1: "(d AND 1 \<noteq> (0::ir_code)) \<longleftrightarrow> bit d 0"
  using test_bit_mask [of d 0] by simp

lemma bit_reverse_step:
  assumes "j < n" and "n \<le> 64"
  shows "bit (reverse_step d n j c) k \<longleftrightarrow> bit c k \<or> bit d j \<and> k = n - 1 - j"
proof -
  have "bit (push_bit (n - 1 - j) (if bit d j then 1 else 0 :: ir_code)) k
      \<longleftrightarrow> bit d j \<and> k = n - 1 - j"
    using assms by (auto simp: bit_simps)
  then show ?thesis by (simp only: reverse_step_def test_bit_mask bit_or_iff)
qed

lemma bit_reverse_fold:
  assumes "j \<le> n" and "n \<le> 64"
  shows "bit (fold (reverse_step d n) [0..<j] 0) k \<longleftrightarrow> n - j \<le> k \<and> k < n \<and> bit d (n - 1 - k)"
  using assms(1)
proof (induction j)
  case (Suc j)
  moreover have "n - Suc j \<le> k \<longleftrightarrow> k = n - 1 - j \<or> n - j \<le> k" "n - 1 - (n - 1 - j) = j"
    "n - 1 - j < n"
    using Suc.prems by auto
  ultimately show ?case
    using assms(2) by (auto simp: bit_reverse_step)
qed simp

lemma bit_reverse:
  "bits \<le> 64 \<Longrightarrow> bit (reverse d bits) k \<longleftrightarrow> k < nat bits \<and> bit d (nat bits - 1 - k)"
  by (auto simp: reverse_def bit_reverse_fold)

lemma reverse_reverse: "bits \<le> 64 \<Longrightarrow> reverse (reverse d bits) bits = take_bit (nat bits) d"
  by (rule bit_eqI) (auto simp: bit_reverse bit_take_bit_iff)

lemma bits_set_card: "bits_set d = card {i. bit d i}"
proof (induction d rule: bits_set.induct)
  case (1 d)
  show ?case
  proof (cases "d = 0")
    case False
    have fin: "finite {i. bit d i}"
      by (rule finite_subset [of _ "{..<64}"]) (auto dest: bit_imp_le_length)
    have split: "{i. bit d i} = {i. i = (0::nat) \<and> bit d 0} \<union> Suc ` {i. bit (drop_bit 1 d) i}"
    proof (rule set_eqI)
      fix i show "i \<in> {i. bit d i} \<longleftrightarrow> i \<in> {i. i = (0::nat) \<and> bit d 0} \<union> Suc ` {i. bit (drop_bit 1 d) i}"
        by (cases i) (auto simp: bit_drop_bit_eq)
    qed
    have "finite (Suc ` {i. bit (drop_bit 1 d) i})"
      using fin by (rule finite_subset [rotated]) (auto simp: bit_drop_bit_eq)
    then have "card ({i. i = (0::nat) \<and> bit d 0} \<union> Suc ` {i. bit (drop_bit 1 d) i})
        = card {i. i = (0::nat) \<and> bit d 0} + card (Suc ` {i. bit (drop_bit 1 d) i})"
      by - (rule card_Un_disjoint, auto)
    then have "card {i. bit d i} = card {i. i = (0::nat) \<and> bit d 0} + card (Suc ` {i. bit (drop_bit 1 d) i})"
      by (simp only: split [symmetric])
    also have "\<dots> = (if bit d 0 then 1 else 0) + bits_set (drop_bit 1 d)"
      using 1 [OF False] by (auto simp: card_image)
    finally show ?thesis
      using False by (subst bits_set.simps) (simp add: test_bit_1)
  qed simp
qed

end
