(* ===== verification/Transmit.thy ===== *)
theory Transmit
  imports Ir_Inline
begin

text \<open>
  \<open>lib/transmit.c\<close>: the sending buffer, the primitives that add pulses and spaces to it
  (adjacent pulses and adjacent spaces are merged through the two pending fields), the
  encoders of the parts of a signal, and \<open>init_send_or_sim\<close>, the function behind
  \<open>send_buffer_put\<close> and \<open>init_sim\<close>.

  The global \<open>send_buffer\<close> is the record \<open>sbuf\<close>, passed along. Its pointer \<open>data\<close> is
  \<open>Data_Null\<close>, \<open>Data_Own\<close> (it points to the array \<open>_data\<close>) or \<open>Data_Signals\<close> (it points to
  the signals of a raw code). The ghost field \<open>s_stray\<close> is set by an access through a NULL
  \<open>data\<close> and by a write through a \<open>data\<close> that is not the buffer's own array; no branch reads it.
\<close>

section \<open>The sending buffer\<close>

definition WBUF_SIZE :: int where "WBUF_SIZE = 256"
definition LIRCD_EXACT_GAP_THRESHOLD :: int where "LIRCD_EXACT_GAP_THRESHOLD = 10000"

datatype data_ptr = Data_Null | Data_Own | Data_Signals "lirc_t list"

record sbuf =
  s_data :: data_ptr
  s_buf :: "lirc_t list"
  s_wptr :: int
  s_too_long :: bool
  s_is_biphase :: bool
  s_pendingp :: lirc_t
  s_pendings :: lirc_t
  s_sum :: lirc_t
  s_stray :: bool

definition send_buffer_init :: sbuf where
  "send_buffer_init = \<lparr>s_data = Data_Null, s_buf = replicate (nat WBUF_SIZE) 0, s_wptr = 0,
     s_too_long = False, s_is_biphase = False, s_pendingp = 0, s_pendings = 0, s_sum = 0,
     s_stray = False\<rparr>"

definition clear_send_buffer :: "sbuf \<Rightarrow> sbuf" where
  "clear_send_buffer sb = sb\<lparr>s_wptr := 0, s_too_long := False, s_is_biphase := False,
     s_pendingp := 0, s_pendings := 0, s_sum := 0\<rparr>"

definition add_send_buffer :: "lirc_t \<Rightarrow> sbuf \<Rightarrow> sbuf" where
  "add_send_buffer data sb =
     (if s_wptr sb < WBUF_SIZE
      then sb\<lparr>s_sum := s_sum sb + data, s_buf := (s_buf sb)[nat (s_wptr sb) := data],
              s_wptr := s_wptr sb + 1\<rparr>
      else sb\<lparr>s_too_long := True\<rparr>)"

definition send_pulse :: "lirc_t \<Rightarrow> sbuf \<Rightarrow> sbuf" where
  "send_pulse data sb =
     (if s_pendingp sb > 0 then sb\<lparr>s_pendingp := s_pendingp sb + data\<rparr>
      else
        let sb = (if s_pendings sb > 0
                  then (add_send_buffer (s_pendings sb) sb)\<lparr>s_pendings := 0\<rparr> else sb)
        in sb\<lparr>s_pendingp := data\<rparr>)"

definition send_space :: "lirc_t \<Rightarrow> sbuf \<Rightarrow> sbuf" where
  "send_space data sb =
     (if s_wptr sb = 0 \<and> s_pendingp sb = 0 then sb
      else if s_pendings sb > 0 then sb\<lparr>s_pendings := s_pendings sb + data\<rparr>
      else
        let sb = (if s_pendingp sb > 0
                  then (add_send_buffer (s_pendingp sb) sb)\<lparr>s_pendingp := 0\<rparr> else sb)
        in sb\<lparr>s_pendings := data\<rparr>)"

definition bad_send_buffer :: "sbuf \<Rightarrow> bool" where
  "bad_send_buffer sb \<longleftrightarrow> s_too_long sb \<or> s_wptr sb = WBUF_SIZE \<and> s_pendingp sb > 0"

text \<open>What \<open>send_buffer_data\<close> points to and \<open>send_buffer_length\<close> many entries of it.\<close>

definition send_buffer_data :: "sbuf \<Rightarrow> lirc_t list" where
  "send_buffer_data sb =
     (case s_data sb of Data_Null \<Rightarrow> [] | Data_Own \<Rightarrow> s_buf sb | Data_Signals xs \<Rightarrow> xs)"

definition send_buffer_length :: "sbuf \<Rightarrow> int" where
  "send_buffer_length sb = s_wptr sb"

definition send_buffer_sum :: "sbuf \<Rightarrow> lirc_t" where
  "send_buffer_sum sb = s_sum sb"

definition check_send_buffer :: "sbuf \<Rightarrow> bool \<times> sbuf" where
  "check_send_buffer sb =
     (if s_wptr sb = 0 then (False, sb)
      else
        (list_all (\<lambda>d. d \<noteq> 0) (take (nat (s_wptr sb)) (send_buffer_data sb)),
         sb\<lparr>s_stray := s_stray sb \<or> length (send_buffer_data sb) < nat (s_wptr sb)\<rparr>))"

definition flush_send_buffer :: "sbuf \<Rightarrow> sbuf" where
  "flush_send_buffer sb =
     (let sb = (if s_pendingp sb > 0
                then (add_send_buffer (s_pendingp sb) sb)\<lparr>s_pendingp := 0\<rparr> else sb)
      in if s_pendings sb > 0
         then (add_send_buffer (s_pendings sb) sb)\<lparr>s_pendings := 0\<rparr> else sb)"

definition sync_send_buffer :: "sbuf \<Rightarrow> sbuf" where
  "sync_send_buffer sb =
     (let sb = (if s_pendingp sb > 0
                then (add_send_buffer (s_pendingp sb) sb)\<lparr>s_pendingp := 0\<rparr> else sb)
      in if s_wptr sb > 0 \<and> s_wptr sb mod 2 = 0 then sb\<lparr>s_wptr := s_wptr sb - 1\<rparr> else sb)"

section \<open>The parts of a signal\<close>

definition send_header :: "ir_remote \<Rightarrow> sbuf \<Rightarrow> sbuf" where
  "send_header remote sb =
     (if has_header remote
      then send_space (r_shead remote) (send_pulse (r_phead remote) sb) else sb)"

definition send_foot :: "ir_remote \<Rightarrow> sbuf \<Rightarrow> sbuf" where
  "send_foot remote sb =
     (if has_foot remote
      then send_pulse (r_pfoot remote) (send_space (r_sfoot remote) sb) else sb)"

definition send_lead :: "ir_remote \<Rightarrow> sbuf \<Rightarrow> sbuf" where
  "send_lead remote sb = (if r_plead remote \<noteq> 0 then send_pulse (r_plead remote) sb else sb)"

definition send_trail :: "ir_remote \<Rightarrow> sbuf \<Rightarrow> sbuf" where
  "send_trail remote sb = (if r_ptrail remote \<noteq> 0 then send_pulse (r_ptrail remote) sb else sb)"

text \<open>
  The RC-MM loop sends two bits per step; the code was reversed, so the values 1 and 2 are
  swapped. The XMP loop sends a nibble per step, as the length of a space.
\<close>

fun send_rcmm_loop :: "ir_remote \<Rightarrow> nat \<Rightarrow> ir_code \<Rightarrow> sbuf \<Rightarrow> sbuf" where
  "send_rcmm_loop remote 0 data sb = sb"
| "send_rcmm_loop remote (Suc n) data sb =
     (let v = data AND 3;
          (p, s) = (if v = 0 then (r_pzero remote, r_szero remote)
                    else if v = 2 then (r_pone remote, r_sone remote)
                    else if v = 1 then (r_ptwo remote, r_stwo remote)
                    else (r_pthree remote, r_sthree remote))
      in send_rcmm_loop remote n (drop_bit 2 data) (send_space s (send_pulse p sb)))"

fun send_xmp_loop :: "ir_remote \<Rightarrow> nat \<Rightarrow> ir_code \<Rightarrow> sbuf \<Rightarrow> sbuf" where
  "send_xmp_loop remote 0 data sb = sb"
| "send_xmp_loop remote (Suc n) data sb =
     (let nibble = reverse (data AND 0xf) 4;
          sb = send_pulse (r_pzero remote) sb;
          sb = send_space (r_szero remote + uint nibble * r_sone remote) sb
      in send_xmp_loop remote n (drop_bit 4 data) sb)"

text \<open>One bit of the general loop: the toggles, then the pulse and the space of the bit.\<close>

definition toggle_data :: "ir_remote \<Rightarrow> ir_code \<Rightarrow> ir_code \<Rightarrow> ir_code" where
  "toggle_data remote msk data =
     (let data =
        (if has_toggle_bit_mask remote \<and> msk AND r_toggle_bit_mask remote \<noteq> 0 then
           (if bits_set (r_toggle_bit_mask remote) = 1 then
              (if r_toggle_bit_mask_state remote AND msk \<noteq> 0
               then (data AND NOT 1) OR 1 else data AND NOT 1)
            else if r_toggle_bit_mask_state remote AND msk \<noteq> 0 then data XOR 1 else data)
         else data)
      in if has_toggle_mask remote \<and> msk AND r_toggle_mask remote \<noteq> 0
            \<and> r_toggle_mask_state remote smod 2 \<noteq> 0
         then data XOR 1 else data)"

definition send_bit :: "ir_remote \<Rightarrow> ir_code \<Rightarrow> bool \<Rightarrow> sbuf \<Rightarrow> sbuf" where
  "send_bit remote msk b sb =
     (if b then
        (if is_biphase remote then
           (if msk AND r_rc6_mask remote \<noteq> 0
            then send_pulse (2 * r_pone remote) (send_space (2 * r_sone remote) sb)
            else send_pulse (r_pone remote) (send_space (r_sone remote) sb))
         else if is_space_first remote
         then send_pulse (r_pone remote) (send_space (r_sone remote) sb)
         else send_space (r_sone remote) (send_pulse (r_pone remote) sb))
      else
        (if msk AND r_rc6_mask remote \<noteq> 0
         then send_space (2 * r_szero remote) (send_pulse (2 * r_pzero remote) sb)
         else if is_space_first remote
         then send_pulse (r_pzero remote) (send_space (r_szero remote) sb)
         else send_space (r_szero remote) (send_pulse (r_pzero remote) sb)))"

fun send_bits_loop :: "ir_remote \<Rightarrow> nat \<Rightarrow> ir_code \<Rightarrow> ir_code \<Rightarrow> sbuf \<Rightarrow> sbuf" where
  "send_bits_loop remote 0 msk data sb = sb"
| "send_bits_loop remote (Suc n) msk data sb =
     (let data = toggle_data remote msk data
      in send_bits_loop remote n (drop_bit 1 msk) (drop_bit 1 data)
           (send_bit remote msk (data AND 1 \<noteq> 0) sb))"

definition send_data :: "ir_remote \<Rightarrow> ir_code \<Rightarrow> int \<Rightarrow> int \<Rightarrow> sbuf \<Rightarrow> sbuf" where
  "send_data remote data bits done sb =
     (let data = reverse data bits
      in if is_rcmm remote then
           (if bits smod 2 \<noteq> 0 \<or> done smod 2 \<noteq> 0 then sb
            else send_rcmm_loop remote (nat bits div 2) data sb)
         else if is_xmp remote then
           (if bits smod 4 \<noteq> 0 \<or> done smod 4 \<noteq> 0 then sb
            else send_xmp_loop remote (nat bits div 4) data sb)
         else send_bits_loop remote (nat bits)
                (push_bit (nat (bit_count remote - 1 - done)) 1) data sb)"

definition send_pre :: "ir_remote \<Rightarrow> sbuf \<Rightarrow> sbuf" where
  "send_pre remote sb =
     (if has_pre remote then
        let sb = send_data remote (r_pre_data remote) (r_pre_data_bits remote) 0 sb
        in if r_pre_p remote > 0 \<and> r_pre_s remote > 0
           then send_space (r_pre_s remote) (send_pulse (r_pre_p remote) sb) else sb
      else sb)"

definition send_post :: "ir_remote \<Rightarrow> sbuf \<Rightarrow> sbuf" where
  "send_post remote sb =
     (if has_post remote then
        let sb = (if r_post_p remote > 0 \<and> r_post_s remote > 0
                  then send_space (r_post_s remote) (send_pulse (r_post_p remote) sb) else sb)
        in send_data remote (r_post_data remote) (r_post_data_bits remote)
             (r_pre_data_bits remote + r_bits remote) sb
      else sb)"

definition send_repeat :: "ir_remote \<Rightarrow> sbuf \<Rightarrow> sbuf" where
  "send_repeat remote sb =
     send_trail remote (send_space (r_srepeat remote) (send_pulse (r_prepeat remote)
       (send_lead remote sb)))"

definition send_code :: "ir_remote \<Rightarrow> ir_code \<Rightarrow> bool \<Rightarrow> sbuf \<Rightarrow> sbuf" where
  "send_code remote code repeat sb =
     (let sb = (if \<not> repeat \<or> \<not> has_flag remote NO_HEAD_REP then send_header remote sb else sb);
          sb = send_lead remote sb;
          sb = send_pre remote sb;
          sb = send_data remote code (r_bits remote) (r_pre_data_bits remote) sb;
          sb = send_post remote sb;
          sb = send_trail remote sb;
          sb = (if \<not> repeat \<or> \<not> has_flag remote NO_FOOT_REP then send_foot remote sb else sb)
      in if \<not> repeat \<and> has_flag remote NO_HEAD_REP \<and> has_flag remote CONST_LENGTH
         then sb\<lparr>s_sum := s_sum sb - (r_phead remote + r_shead remote)\<rparr> else sb)"

definition send_signals :: "lirc_t list \<Rightarrow> int \<Rightarrow> sbuf \<Rightarrow> sbuf" where
  "send_signals signals n sb = fold add_send_buffer (take (nat n) signals) sb"

section \<open>Building a signal\<close>

text \<open>
  The state of \<open>init_send_or_sim\<close>: the buffer, the remote and the code it works on, which it
  updates (\<open>repeat_countdown\<close>, the remaining gaps and the toggle state of the remote, the
  \<open>transmit_state\<close> of the code).
\<close>

record send_state =
  ss_buf :: sbuf
  ss_remote :: ir_remote
  ss_code :: ir_ncode

definition final_check :: "send_state \<Rightarrow> bool \<times> send_state" where
  "final_check st =
     (case check_send_buffer (ss_buf st) of (ok, sb) \<Rightarrow> (ok, st\<lparr>ss_buf := sb\<rparr>))"

text \<open>The code to send next: the first one, or the one \<open>transmit_state\<close> points to.\<close>

definition next_send_code :: "ir_remote \<Rightarrow> ir_ncode \<Rightarrow> bool \<Rightarrow> bool \<Rightarrow> ir_code" where
  "next_send_code remote code sim repeat =
     (let c = (case nc_transmit_state code of
                 None \<Rightarrow> nc_code code
               | Some i \<Rightarrow> if sim then nc_code code else nc_next code ! i)
      in if repeat \<and> has_repeat_mask remote then c XOR r_repeat_mask remote else c)"

text \<open>
  The first half of the loop body, from the label \<open>init_send_loop\<close> to the call of
  \<open>sync_send_buffer\<close>; \<open>None\<close> is the early return for a raw code without signals.
\<close>

definition fill_send_buffer :: "bool \<Rightarrow> bool \<Rightarrow> send_state \<Rightarrow> send_state option" where
  "fill_send_buffer sim repeat st =
     (let remote = ss_remote st; code = ss_code st; sb = ss_buf st
      in if repeat \<and> has_repeat remote then
           let sb = (if has_flag remote REPEAT_HEADER \<and> has_header remote
                     then send_header remote sb else sb)
           in Some (st\<lparr>ss_buf := send_repeat remote sb\<rparr>)
         else if \<not> is_raw remote then
           let sb = send_code remote (next_send_code remote code sim repeat) repeat sb;
               remote = (if \<not> sim \<and> has_toggle_mask remote
                         then remote\<lparr>r_toggle_mask_state :=
                                (if r_toggle_mask_state remote + 1 = 4 then 2
                                 else r_toggle_mask_state remote + 1)\<rparr>
                         else remote)
           in Some (st\<lparr>ss_buf := sb\<lparr>s_data := Data_Own\<rparr>, ss_remote := remote\<rparr>)
         else
           (case nc_signals code of
              None \<Rightarrow> None
            | Some signals \<Rightarrow>
                if s_wptr sb > 0
                then Some (st\<lparr>ss_buf := send_signals signals (nc_length code) sb\<rparr>)
                else Some (st\<lparr>ss_buf := sb\<lparr>s_data := Data_Signals signals,
                             s_wptr := nc_length code,
                             s_sum := s_sum sb + sum_list (take (nat (nc_length code)) signals)\<rparr>\<rparr>)))"

text \<open>
  The gaps the remote must keep after this signal; \<open>None\<close> is the return because a signal of
  constant length leaves no gap. The remote is updated on that path as well.
\<close>

definition set_gaps :: "bool \<Rightarrow> send_state \<Rightarrow> bool \<times> send_state" where
  "set_gaps repeat st =
     (let remote = ss_remote st; sm = s_sum (ss_buf st)
      in if has_repeat_gap remote \<and> repeat \<and> has_repeat remote then
           (True, st\<lparr>ss_remote := remote\<lparr>r_min_remaining_gap := s32 (r_repeat_gap remote),
                                          r_max_remaining_gap := s32 (r_repeat_gap remote)\<rparr>\<rparr>)
         else if is_const remote then
           (if min_gap remote > sm
            then (True, st\<lparr>ss_remote := remote\<lparr>r_min_remaining_gap := min_gap remote - sm,
                                                r_max_remaining_gap := max_gap remote - sm\<rparr>\<rparr>)
            else (False, st\<lparr>ss_remote := remote\<lparr>r_min_remaining_gap := min_gap remote,
                                                 r_max_remaining_gap := max_gap remote\<rparr>\<rparr>))
         else (True, st\<lparr>ss_remote := remote\<lparr>r_min_remaining_gap := min_gap remote,
                                             r_max_remaining_gap := max_gap remote\<rparr>\<rparr>))"

definition advance_transmit_state :: "ir_remote \<Rightarrow> ir_ncode \<Rightarrow> ir_ncode" where
  "advance_transmit_state remote code =
     (if nc_next code = [] then code
      else
        (case nc_transmit_state code of
           None \<Rightarrow> code\<lparr>nc_transmit_state := Some 0\<rparr>
         | Some i \<Rightarrow>
             (let ts = next_index (nc_next code) i
              in code\<lparr>nc_transmit_state :=
                        (if is_xmp remote \<and> ts = None then Some 0 else ts)\<rparr>)))"

text \<open>Concatenating the next signal after a short gap: the tail of the loop body.\<close>

definition concat_signal :: "send_state \<Rightarrow> send_state" where
  "concat_signal st =
     (let sb = ss_buf st; remote = ss_remote st; code = ss_code st;
          sb = (case s_data sb of
                  Data_Own \<Rightarrow> sb
                | _ \<Rightarrow> send_signals (send_buffer_data sb) (s_wptr sb)
                        (sb\<lparr>s_data := Data_Own, s_wptr := 0,
                            s_stray := s_stray sb \<or> length (send_buffer_data sb) < nat (s_wptr sb)\<rparr>));
          remote = (if nc_next code = [] \<or> nc_transmit_state code = None
                    then remote\<lparr>r_repeat_countdown := r_repeat_countdown remote - 1\<rparr> else remote);
          sb = flush_send_buffer (send_space (r_min_remaining_gap remote) sb)
      in st\<lparr>ss_buf := sb\<lparr>s_sum := 0\<rparr>, ss_remote := remote\<rparr>)"

definition sends_again :: "send_state \<Rightarrow> bool" where
  "sends_again st \<longleftrightarrow>
     (r_repeat_countdown (ss_remote st) > 0 \<or> nc_transmit_state (ss_code st) \<noteq> None)
     \<and> r_min_remaining_gap (ss_remote st) < LIRCD_EXACT_GAP_THRESHOLD"

partial_function (option) init_send_loop ::
    "bool \<Rightarrow> bool \<Rightarrow> send_state \<Rightarrow> (bool \<times> send_state) option" where
  "init_send_loop sim repeat st =
     (case fill_send_buffer sim repeat st of
        None \<Rightarrow> Some (False, st)
      | Some st \<Rightarrow>
          (let st = st\<lparr>ss_buf := sync_send_buffer (ss_buf st)\<rparr>
           in if bad_send_buffer (ss_buf st) then Some (False, st)
              else if sim then Some (final_check st)
              else
                (case set_gaps repeat st of
                   (ok, st) \<Rightarrow>
                     (if \<not> ok then Some (False, st)
                      else
                        let st = st\<lparr>ss_code := advance_transmit_state (ss_remote st) (ss_code st)\<rparr>
                        in if sends_again st then init_send_loop sim True (concat_signal st)
                           else Some (final_check st)))))"

text \<open>
  \<open>repeat_remote\<close> is only compared with NULL here: the argument \<open>repeating\<close> says whether it is
  set. \<open>data[wptr]\<close> with \<open>wptr = 0\<close> is written for the remote named lirc.
\<close>

definition put_eof :: "sbuf \<Rightarrow> sbuf" where
  "put_eof sb =
     (case s_data sb of
        Data_Null \<Rightarrow> sb\<lparr>s_stray := True, s_wptr := s_wptr sb + 1\<rparr>
      | Data_Own \<Rightarrow> sb\<lparr>s_buf := (s_buf sb)[nat (s_wptr sb) := LIRC_EOF OR 1], s_wptr := s_wptr sb + 1\<rparr>
      | Data_Signals xs \<Rightarrow>
          sb\<lparr>s_data := Data_Signals (xs[nat (s_wptr sb) := LIRC_EOF OR 1]), s_stray := True,
             s_wptr := s_wptr sb + 1\<rparr>)"

definition init_send_or_sim ::
    "bool \<Rightarrow> bool \<Rightarrow> bool \<Rightarrow> send_state \<Rightarrow> (bool \<times> send_state) option" where
  "init_send_or_sim sim repeat_preset repeating st =
     (let remote = ss_remote st
      in if is_grundig remote \<or> is_goldstar remote \<or> is_serial remote \<or> is_bo remote
         then Some (False, st)
         else
           let st = st\<lparr>ss_buf := clear_send_buffer (ss_buf st)\<rparr>
           in if r_name remote = ''lirc'' then Some (final_check (st\<lparr>ss_buf := put_eof (ss_buf st)\<rparr>))
              else
                let st = (if is_biphase remote
                          then st\<lparr>ss_buf := (ss_buf st)\<lparr>s_is_biphase := True\<rparr>\<rparr> else st);
                    st = (if \<not> sim \<and> \<not> repeating
                          then st\<lparr>ss_remote := remote\<lparr>r_repeat_countdown := r_min_repeat remote\<rparr>\<rparr>
                          else st)
                in init_send_loop sim (if \<not> sim \<and> repeating then True else repeat_preset) st)"

definition send_buffer_put :: "bool \<Rightarrow> send_state \<Rightarrow> (bool \<times> send_state) option" where
  "send_buffer_put repeating st = init_send_or_sim False False repeating st"

definition init_sim :: "bool \<Rightarrow> send_state \<Rightarrow> (bool \<times> send_state) option" where
  "init_sim repeat_preset st = init_send_or_sim True repeat_preset False st"

end
