(* ===== verification/Simulation.thy ===== *)
theory Simulation
  imports Prelude
begin

text \<open>
  The contract between an implementation and its abstract specification: each step of the
  implementation that does not end in a bad state is a step of the specification. A bad state
  (a buffer that overflowed, a failed allocation) is never left. Components with such a
  contract interpret this locale on their own operations; what it gives is the same for whole
  runs.
\<close>

locale simulation =
  fixes inv :: "'s \<Rightarrow> bool"
    and abs :: "'s \<Rightarrow> 'a"
    and step :: "'e \<Rightarrow> 's \<Rightarrow> 's"
    and astep :: "'e \<Rightarrow> 'a \<Rightarrow> 'a"
    and bad :: "'s \<Rightarrow> bool"
    and ok :: "'e \<Rightarrow> bool"
  assumes step_inv: "inv s \<Longrightarrow> ok e \<Longrightarrow> \<not> bad (step e s) \<Longrightarrow> inv (step e s)"
    and step_abs: "inv s \<Longrightarrow> ok e \<Longrightarrow> \<not> bad (step e s) \<Longrightarrow> abs (step e s) = astep e (abs s)"
    and bad_step: "bad s \<Longrightarrow> bad (step e s)"
begin

lemma bad_run: "bad s \<Longrightarrow> bad (fold step es s)"
  by (induction es arbitrary: s) (auto intro: bad_step)

lemma run:
  assumes "inv s" and "\<forall>e\<in>set es. ok e" and "\<not> bad (fold step es s)"
  shows "inv (fold step es s) \<and> abs (fold step es s) = fold astep es (abs s)"
  using assms
proof (induction es arbitrary: s)
  case (Cons e es)
  then have nb: "\<not> bad (step e s)" by (auto dest: bad_run)
  then have "inv (step e s)" using Cons.prems by (auto intro: step_inv)
  with Cons nb show ?case by (simp add: step_abs)
qed simp

lemmas run_inv = run [THEN conjunct1]
lemmas run_abs = run [THEN conjunct2]

end

text \<open>
  A contract with a resource: a run ends badly exactly when the specification's state grows
  beyond the capacity.
\<close>

locale bounded_simulation = simulation +
  fixes sz :: "'a \<Rightarrow> nat"
    and cap :: nat
  assumes inv_cap: "inv s \<Longrightarrow> sz (abs s) \<le> cap"
    and bad_iff: "inv s \<Longrightarrow> ok e \<Longrightarrow> bad (step e s) \<longleftrightarrow> cap < sz (astep e (abs s))"
    and sz_mono: "sz a \<le> sz (astep e a)"
    and inv_not_bad: "inv s \<Longrightarrow> \<not> bad s"
begin

lemma sz_run: "sz a \<le> sz (fold astep es a)"
  by (induction es arbitrary: a) (auto intro: order_trans [OF sz_mono])

lemma bad_run_iff:
  assumes "inv s" and "\<forall>e\<in>set es. ok e"
  shows "bad (fold step es s) \<longleftrightarrow> cap < sz (fold astep es (abs s))"
  using assms
proof (induction es arbitrary: s)
  case Nil
  then show ?case using inv_cap [of s] inv_not_bad [of s] by simp
next
  case (Cons e es)
  show ?case
  proof (cases "bad (step e s)")
    case True
    then have "cap < sz (astep e (abs s))" using Cons.prems bad_iff by simp
    also have "\<dots> \<le> sz (fold astep es (astep e (abs s)))" by (rule sz_run)
    finally show ?thesis using True by (simp add: bad_run)
  next
    case False
    then have "inv (step e s)" "abs (step e s) = astep e (abs s)"
      using Cons.prems by (auto intro: step_inv simp: step_abs)
    with Cons show ?thesis by simp
  qed
qed

end

end
