(* ===== verification/Send_Refine.thy ===== *)
theory Send_Refine
  imports Transmit Simulation
begin

text \<open>
  What the sending buffer promises. A signal is a list of events, pulses and spaces of a
  length; the list of durations a transmitter needs alternates between pulse and space, so
  adjacent events of one kind are merged and a space before the first pulse is dropped
  (\<open>merge_event\<close>). The buffer of \<open>Transmit\<close> implements this (\<open>interpretation sb\<close>), and the
  encoders produce the events that \<open>code_events\<close> lists.
\<close>

section \<open>Events\<close>

datatype sig = Pulse lirc_t | Space lirc_t

fun dur :: "sig \<Rightarrow> lirc_t" where
  "dur (Pulse d) = d"
| "dur (Space d) = d"

fun emit :: "sig \<Rightarrow> sbuf \<Rightarrow> sbuf" where
  "emit (Pulse d) = send_pulse d"
| "emit (Space d) = send_space d"

definition add_last :: "lirc_t \<Rightarrow> lirc_t list \<Rightarrow> lirc_t list" where
  "add_last d ds = butlast ds @ [last ds + d]"

fun merge_event :: "sig \<Rightarrow> lirc_t list \<Rightarrow> lirc_t list" where
  "merge_event (Pulse d) ds = (if odd (length ds) then add_last d ds else ds @ [d])"
| "merge_event (Space d) ds =
     (if ds = [] then [] else if even (length ds) then add_last d ds else ds @ [d])"

definition merged :: "sig list \<Rightarrow> lirc_t list" where
  "merged es = fold merge_event es []"

lemma length_add_last: "ds \<noteq> [] \<Longrightarrow> length (add_last d ds) = length ds"
  by (cases ds) (auto simp: add_last_def)

lemma merge_event_length_mono: "length ds \<le> length (merge_event e ds)"
proof (cases e)
  case (Pulse d)
  then show ?thesis by (cases ds) (auto simp: length_add_last)
next
  case (Space d)
  then show ?thesis by (auto simp: length_add_last)
qed

lemma merge_event_pos:
  assumes "\<forall>d\<in>set ds. 0 < d" and "0 < dur e"
  shows "\<forall>d\<in>set (merge_event e ds). 0 < d"
proof -
  have *: "\<forall>d\<in>set (add_last x ds). 0 < d" if "0 < x" "ds \<noteq> []" for x
  proof -
    have "0 < last ds" using that(2) assms(1) by simp
    then have "0 < last ds + x" using that(1) by linarith
    then show ?thesis using assms(1) by (auto simp: add_last_def dest: in_set_butlastD)
  qed
  show ?thesis
  proof (cases e)
    case (Pulse x)
    then show ?thesis using assms * [of x] by (cases "ds = []") auto
  next
    case (Space x)
    then show ?thesis using assms * [of x] by auto
  qed
qed

section \<open>The buffer implements merging\<close>

definition cells :: "sbuf \<Rightarrow> lirc_t list" where
  "cells sb = take (nat (s_wptr sb)) (s_buf sb)"

definition sent :: "sbuf \<Rightarrow> lirc_t list" where
  "sent sb = cells sb @ (if s_pendingp sb > 0 then [s_pendingp sb]
                         else if s_pendings sb > 0 then [s_pendings sb] else [])"

definition sb_inv :: "sbuf \<Rightarrow> bool" where
  "sb_inv sb \<longleftrightarrow>
     length (s_buf sb) = nat WBUF_SIZE \<and> 0 \<le> s_wptr sb \<and> s_wptr sb \<le> WBUF_SIZE
     \<and> 0 \<le> s_pendingp sb \<and> 0 \<le> s_pendings sb \<and> \<not> s_too_long sb
     \<and> (0 < s_pendingp sb \<longrightarrow> s_pendings sb = 0 \<and> even (s_wptr sb))
     \<and> (0 < s_pendings sb \<longrightarrow> odd (s_wptr sb))
     \<and> (s_pendingp sb = 0 \<and> s_pendings sb = 0 \<longrightarrow> s_wptr sb = 0)
     \<and> s_sum sb = sum_list (cells sb)"

definition pos_event :: "sig \<Rightarrow> bool" where
  "pos_event e \<longleftrightarrow> 0 < dur e"

lemma sb_inv_clear: "length (s_buf sb) = nat WBUF_SIZE \<Longrightarrow> sb_inv (clear_send_buffer sb)"
  by (simp add: sb_inv_def clear_send_buffer_def cells_def WBUF_SIZE_def)

lemma sent_clear [simp]: "sent (clear_send_buffer sb) = []"
  by (simp add: sent_def cells_def clear_send_buffer_def)

lemma length_cells: "sb_inv sb \<Longrightarrow> length (cells sb) = nat (s_wptr sb)"
  by (auto simp: sb_inv_def cells_def WBUF_SIZE_def min_def)

text \<open>Adding a value: the cells grow by it, or the buffer is full and the flag is set.\<close>

lemma cells_add:
  assumes "length (s_buf sb) = nat WBUF_SIZE" "0 \<le> s_wptr sb" "s_wptr sb < WBUF_SIZE"
  shows "cells (add_send_buffer d sb) = cells sb @ [d]"
  using assms by (simp add: cells_def add_send_buffer_def nat_add_distrib take_Suc_conv_app_nth WBUF_SIZE_def)

lemma cells_cong [simp]:
  "cells (sb\<lparr>s_pendingp := p\<rparr>) = cells sb" "cells (sb\<lparr>s_pendings := s\<rparr>) = cells sb"
  "cells (sb\<lparr>s_sum := x\<rparr>) = cells sb" "cells (sb\<lparr>s_too_long := b\<rparr>) = cells sb"
  "cells (sb\<lparr>s_data := y\<rparr>) = cells sb"
  by (simp_all add: cells_def)

lemma add_send_buffer_fields [simp]:
  "s_pendingp (add_send_buffer d sb) = s_pendingp sb"
  "s_pendings (add_send_buffer d sb) = s_pendings sb"
  "length (s_buf (add_send_buffer d sb)) = length (s_buf sb)"
  "s_wptr (add_send_buffer d sb) = (if s_wptr sb < WBUF_SIZE then s_wptr sb + 1 else s_wptr sb)"
  "s_too_long (add_send_buffer d sb) \<longleftrightarrow> s_too_long sb \<or> \<not> s_wptr sb < WBUF_SIZE"
  "s_sum (add_send_buffer d sb) = (if s_wptr sb < WBUF_SIZE then s_sum sb + d else s_sum sb)"
  by (simp_all add: add_send_buffer_def)

lemma even_length_sent:
  assumes "sb_inv sb"
  shows "s_pendingp sb > 0 \<Longrightarrow> odd (length (sent sb))"
    and "s_pendings sb > 0 \<Longrightarrow> even (length (sent sb)) \<and> sent sb \<noteq> []"
    and "s_pendingp sb = 0 \<Longrightarrow> s_pendings sb = 0 \<Longrightarrow> sent sb = []"
  using assms length_cells [OF assms] by (auto simp: sb_inv_def sent_def even_nat_iff)

text \<open>The three states of the pending fields.\<close>

lemma sb_inv_cases:
  assumes "sb_inv sb"
  obtains (empty) "s_pendingp sb = 0" "s_pendings sb = 0" "s_wptr sb = 0"
  | (pulse) "0 < s_pendingp sb" "s_pendings sb = 0" "even (s_wptr sb)"
  | (space) "s_pendingp sb = 0" "0 < s_pendings sb" "odd (s_wptr sb)"
  using assms unfolding sb_inv_def by (metis less_le)

lemma room_iff:
  assumes "sb_inv sb" and "s_pendingp sb > 0 \<or> s_pendings sb > 0"
  shows "s_wptr sb < WBUF_SIZE \<longleftrightarrow> length (sent sb) \<le> nat WBUF_SIZE"
  using assms length_cells [OF assms(1)] by (auto simp: sent_def sb_inv_def WBUF_SIZE_def)

lemma emit_refines:
  assumes inv: "sb_inv sb" and pos: "pos_event e"
  shows "s_too_long (emit e sb) \<longleftrightarrow> nat WBUF_SIZE + 1 < length (merge_event e (sent sb))"
    and "\<not> s_too_long (emit e sb) \<Longrightarrow> sb_inv (emit e sb) \<and> sent (emit e sb) = merge_event e (sent sb)"
proof -
  note len = length_cells [OF inv] and parity = even_length_sent [OF inv]
  have *: "(s_too_long (emit e sb) \<longleftrightarrow> nat WBUF_SIZE + 1 < length (merge_event e (sent sb)))
      \<and> (\<not> s_too_long (emit e sb) \<longrightarrow> sb_inv (emit e sb) \<and> sent (emit e sb) = merge_event e (sent sb))"
  proof (cases e)
    case (Pulse d)
    then have d: "0 < d" using pos by (simp add: pos_event_def)
    show ?thesis using inv
    proof (cases sb rule: sb_inv_cases)
      case empty
      then show ?thesis
        using inv d Pulse parity by (simp add: send_pulse_def sb_inv_def sent_def WBUF_SIZE_def)
    next
      case pulse
      then show ?thesis
        using inv d Pulse parity len
        by (auto simp: send_pulse_def sb_inv_def sent_def WBUF_SIZE_def add_last_def even_nat_iff)
    next
      case space
      then show ?thesis
        using inv d Pulse parity len cells_add [of sb "s_pendings sb"]
        by (auto simp: send_pulse_def sb_inv_def sent_def WBUF_SIZE_def even_nat_iff Let_def)
    qed
  next
    case (Space d)
    then have d: "0 < d" using pos by (simp add: pos_event_def)
    show ?thesis using inv
    proof (cases sb rule: sb_inv_cases)
      case empty
      then show ?thesis using inv d Space parity by (simp add: send_space_def sb_inv_def WBUF_SIZE_def)
    next
      case pulse
      then show ?thesis
        using inv d Space parity len cells_add [of sb "s_pendingp sb"]
        by (auto simp: send_space_def sb_inv_def sent_def WBUF_SIZE_def even_nat_iff Let_def)
    next
      case space
      then show ?thesis
        using inv d Space parity len
        by (auto simp: send_space_def sb_inv_def sent_def WBUF_SIZE_def add_last_def even_nat_iff)
    qed
  qed
  then show "s_too_long (emit e sb) \<longleftrightarrow> nat WBUF_SIZE + 1 < length (merge_event e (sent sb))"
    and "\<not> s_too_long (emit e sb) \<Longrightarrow> sb_inv (emit e sb) \<and> sent (emit e sb) = merge_event e (sent sb)"
    by blast+
qed

lemma too_long_emit: "s_too_long sb \<Longrightarrow> s_too_long (emit e sb)"
  by (cases e) (auto simp: send_pulse_def send_space_def Let_def)

interpretation sb: bounded_simulation sb_inv sent emit merge_event s_too_long pos_event
  length "nat WBUF_SIZE + 1"
proof unfold_locales
  show "sb_inv s \<Longrightarrow> length (sent s) \<le> nat WBUF_SIZE + 1" for s
    using length_cells [of s] by (auto simp: sent_def sb_inv_def WBUF_SIZE_def)
qed (auto simp: emit_refines too_long_emit merge_event_length_mono, simp add: sb_inv_def)

end
