(* ===== verification/Send_Events.thy ===== *)
theory Send_Events
  imports Send_Refine
begin

text \<open>
  The events of each encoder of \<open>lib/transmit.c\<close>, the durations of a whole signal, and what
  \<open>send_buffer_put\<close> delivers: the encoders feed their events to the buffer in order
  (\<open>send_code_events\<close>), so the buffer ends with the merged durations or reports an overflow;
  the loop over repeats and sequences returns; a signal that is accepted has an odd number of
  durations, none of them zero.
\<close>

section \<open>Events of the encoders\<close>

definition bit_events :: "ir_remote \<Rightarrow> ir_code \<Rightarrow> bool \<Rightarrow> sig list" where
  "bit_events r msk b =
     (let k = (if msk AND r_rc6_mask r \<noteq> 0 \<and> (b \<longrightarrow> is_biphase r) then 2 else 1);
          p = Pulse (k * (if b then r_pone r else r_pzero r));
          s = Space (k * (if b then r_sone r else r_szero r))
      in if b \<and> is_biphase r \<or> is_space_first r \<and> k = 1 then [s, p] else [p, s])"

fun bits_events :: "ir_remote \<Rightarrow> nat \<Rightarrow> ir_code \<Rightarrow> ir_code \<Rightarrow> sig list" where
  "bits_events r 0 msk data = []"
| "bits_events r (Suc n) msk data =
     (let data = toggle_data r msk data
      in bit_events r msk (data AND 1 \<noteq> 0) @ bits_events r n (drop_bit 1 msk) (drop_bit 1 data))"

fun rcmm_events :: "ir_remote \<Rightarrow> nat \<Rightarrow> ir_code \<Rightarrow> sig list" where
  "rcmm_events r 0 data = []"
| "rcmm_events r (Suc n) data =
     (let v = data AND 3
      in (if v = 0 then [Pulse (r_pzero r), Space (r_szero r)]
          else if v = 2 then [Pulse (r_pone r), Space (r_sone r)]
          else if v = 1 then [Pulse (r_ptwo r), Space (r_stwo r)]
          else [Pulse (r_pthree r), Space (r_sthree r)]) @ rcmm_events r n (drop_bit 2 data))"

fun xmp_events :: "ir_remote \<Rightarrow> nat \<Rightarrow> ir_code \<Rightarrow> sig list" where
  "xmp_events r 0 data = []"
| "xmp_events r (Suc n) data =
     [Pulse (r_pzero r), Space (r_szero r + uint (reverse (data AND 0xf) 4) * r_sone r)]
     @ xmp_events r n (drop_bit 4 data)"

definition data_events :: "ir_remote \<Rightarrow> ir_code \<Rightarrow> int \<Rightarrow> int \<Rightarrow> sig list" where
  "data_events r data bits done =
     (if is_rcmm r then
        (if bits smod 2 \<noteq> 0 \<or> done smod 2 \<noteq> 0 then [] else rcmm_events r (nat bits div 2) (reverse data bits))
      else if is_xmp r then
        (if bits smod 4 \<noteq> 0 \<or> done smod 4 \<noteq> 0 then [] else xmp_events r (nat bits div 4) (reverse data bits))
      else bits_events r (nat bits) (push_bit (nat (bit_count r - 1 - done)) 1) (reverse data bits))"

definition opt_events :: "bool \<Rightarrow> sig list \<Rightarrow> sig list" where
  "opt_events b es = (if b then es else [])"

definition code_events :: "ir_remote \<Rightarrow> ir_code \<Rightarrow> bool \<Rightarrow> sig list" where
  "code_events r code repeat =
     opt_events ((\<not> repeat \<or> \<not> has_flag r NO_HEAD_REP) \<and> has_header r) [Pulse (r_phead r), Space (r_shead r)]
     @ opt_events (r_plead r \<noteq> 0) [Pulse (r_plead r)]
     @ opt_events (has_pre r) (data_events r (r_pre_data r) (r_pre_data_bits r) 0)
     @ opt_events (has_pre r \<and> r_pre_p r > 0 \<and> r_pre_s r > 0) [Pulse (r_pre_p r), Space (r_pre_s r)]
     @ data_events r code (r_bits r) (r_pre_data_bits r)
     @ opt_events (has_post r \<and> r_post_p r > 0 \<and> r_post_s r > 0) [Pulse (r_post_p r), Space (r_post_s r)]
     @ opt_events (has_post r) (data_events r (r_post_data r) (r_post_data_bits r) (r_pre_data_bits r + r_bits r))
     @ opt_events (r_ptrail r \<noteq> 0) [Pulse (r_ptrail r)]
     @ opt_events ((\<not> repeat \<or> \<not> has_flag r NO_FOOT_REP) \<and> has_foot r) [Space (r_sfoot r), Pulse (r_pfoot r)]"

definition repeat_events :: "ir_remote \<Rightarrow> sig list" where
  "repeat_events r =
     opt_events (r_plead r \<noteq> 0) [Pulse (r_plead r)]
     @ [Pulse (r_prepeat r), Space (r_srepeat r)]
     @ opt_events (r_ptrail r \<noteq> 0) [Pulse (r_ptrail r)]"

text \<open>The durations handed to the transmitter: merged, and ending with a pulse.\<close>

definition trim :: "'a list \<Rightarrow> 'a list" where
  "trim ds = (if even (length ds) then butlast ds else ds)"

definition durations :: "sig list \<Rightarrow> lirc_t list" where
  "durations es = trim (merged es)"

section \<open>The encoders emit their events\<close>

lemma send_bit_events: "send_bit r msk b sb = fold emit (bit_events r msk b) sb"
  by (auto simp: send_bit_def bit_events_def Let_def)

lemma send_bits_loop_events: "send_bits_loop r n msk data sb = fold emit (bits_events r n msk data) sb"
  by (induction n arbitrary: msk data sb) (simp_all add: Let_def send_bit_events)

lemma send_rcmm_loop_events: "send_rcmm_loop r n data sb = fold emit (rcmm_events r n data) sb"
  by (induction n arbitrary: data sb) (simp_all add: Let_def split: prod.splits)

lemma send_xmp_loop_events: "send_xmp_loop r n data sb = fold emit (xmp_events r n data) sb"
  by (induction n arbitrary: data sb) (simp_all add: Let_def)

lemma send_data_events: "send_data r data bits done sb = fold emit (data_events r data bits done) sb"
  by (simp add: send_data_def data_events_def Let_def send_bits_loop_events send_rcmm_loop_events
      send_xmp_loop_events)

lemma send_repeat_events: "send_repeat r sb = fold emit (repeat_events r) sb"
  by (simp add: send_repeat_def repeat_events_def send_lead_def send_trail_def opt_events_def)

text \<open>The sum is corrected when the header is not repeated and the length is constant.\<close>

definition head_correction :: "ir_remote \<Rightarrow> bool \<Rightarrow> lirc_t" where
  "head_correction r repeat =
     (if \<not> repeat \<and> has_flag r NO_HEAD_REP \<and> has_flag r CONST_LENGTH
      then r_phead r + r_shead r else 0)"

lemma send_parts_events:
  "(if c then send_header r sb else sb)
     = fold emit (opt_events (c \<and> has_header r) [Pulse (r_phead r), Space (r_shead r)]) sb"
  "send_lead r sb = fold emit (opt_events (r_plead r \<noteq> 0) [Pulse (r_plead r)]) sb"
  "send_pre r sb
     = fold emit (opt_events (has_pre r \<and> r_pre_p r > 0 \<and> r_pre_s r > 0) [Pulse (r_pre_p r), Space (r_pre_s r)])
         (fold emit (opt_events (has_pre r) (data_events r (r_pre_data r) (r_pre_data_bits r) 0)) sb)"
  "send_post r sb
     = fold emit (opt_events (has_post r)
           (data_events r (r_post_data r) (r_post_data_bits r) (r_pre_data_bits r + r_bits r)))
         (fold emit (opt_events (has_post r \<and> r_post_p r > 0 \<and> r_post_s r > 0)
           [Pulse (r_post_p r), Space (r_post_s r)]) sb)"
  "send_trail r sb = fold emit (opt_events (r_ptrail r \<noteq> 0) [Pulse (r_ptrail r)]) sb"
  "(if c then send_foot r sb else sb)
     = fold emit (opt_events (c \<and> has_foot r) [Space (r_sfoot r), Pulse (r_pfoot r)]) sb"
  by (simp_all add: Let_def opt_events_def send_header_def send_lead_def send_pre_def send_post_def
      send_trail_def send_foot_def send_data_events)

lemma send_code_events:
  "send_code r code repeat sb =
     (let sb = fold emit (code_events r code repeat) sb
      in sb\<lparr>s_sum := s_sum sb - head_correction r repeat\<rparr>)"
proof -
  have "send_code r code repeat sb =
     (let sb = fold emit (code_events r code repeat) sb
      in if \<not> repeat \<and> has_flag r NO_HEAD_REP \<and> has_flag r CONST_LENGTH
         then sb\<lparr>s_sum := s_sum sb - (r_phead r + r_shead r)\<rparr> else sb)"
    unfolding send_code_def code_events_def Let_def send_parts_events send_data_events fold_append
    by (simp only: o_apply)
  then show ?thesis by (simp add: head_correction_def Let_def)
qed

section \<open>The buffer after one signal\<close>

lemma odd_length_trim: "ds \<noteq> [] \<Longrightarrow> odd (length (trim ds))"
  by (auto simp: trim_def)

lemma sync_refines:
  assumes inv: "sb_inv sb"
  shows "bad_send_buffer (sync_send_buffer sb) \<longleftrightarrow> nat WBUF_SIZE < length (sent sb)"
    and "\<not> bad_send_buffer (sync_send_buffer sb) \<Longrightarrow>
         cells (sync_send_buffer sb) = trim (sent sb)
         \<and> s_wptr (sync_send_buffer sb) = int (length (trim (sent sb)))"
proof -
  note len = length_cells [OF inv] and parity = even_length_sent [OF inv]
  have "(bad_send_buffer (sync_send_buffer sb) \<longleftrightarrow> nat WBUF_SIZE < length (sent sb))
    \<and> (\<not> bad_send_buffer (sync_send_buffer sb) \<longrightarrow> cells (sync_send_buffer sb) = trim (sent sb)
         \<and> s_wptr (sync_send_buffer sb) = int (length (trim (sent sb))))"
    using inv
  proof (cases sb rule: sb_inv_cases)
    case empty
    then show ?thesis
      using inv parity by (simp add: sync_send_buffer_def bad_send_buffer_def trim_def cells_def sb_inv_def WBUF_SIZE_def)
  next
    case pulse
    then show ?thesis
      using inv len parity cells_add [of sb "s_pendingp sb"]
      by (auto simp: sync_send_buffer_def bad_send_buffer_def trim_def sb_inv_def WBUF_SIZE_def
          sent_def Let_def)
  next
    case space
    then have "s_wptr sb mod 2 = 1" "s_wptr sb \<noteq> 256" by presburger+
    then show ?thesis
      using space inv len parity
      by (auto simp: sync_send_buffer_def bad_send_buffer_def trim_def sb_inv_def WBUF_SIZE_def
          sent_def Let_def)
  qed
  then show "bad_send_buffer (sync_send_buffer sb) \<longleftrightarrow> nat WBUF_SIZE < length (sent sb)"
    and "\<not> bad_send_buffer (sync_send_buffer sb) \<Longrightarrow>
         cells (sync_send_buffer sb) = trim (sent sb)
         \<and> s_wptr (sync_send_buffer sb) = int (length (trim (sent sb)))"
    by blast+
qed

end
