(* ===== verification/Send_Props.thy ===== *)
theory Send_Props
  imports Send_Events
begin

text \<open>
  What \<open>send_buffer_put\<close> promises its callers: it returns, a signal it accepts is well formed,
  and for a button of one code it is the durations of the code's events, with the gaps the
  remote has to keep afterwards.
\<close>

section \<open>Fields that do not change a signal\<close>

lemma bit_countdown:
  "toggle_data (r\<lparr>r_repeat_countdown := x\<rparr>) m d = toggle_data r m d"
  "bit_events (r\<lparr>r_repeat_countdown := x\<rparr>) m b = bit_events r m b"
  by (simp_all add: toggle_data_def has_toggle_bit_mask_def has_toggle_mask_def bit_events_def
      is_biphase_def is_rc5_def is_rc6_def is_space_first_def)

lemma events_of_countdown [simp]:
  "bits_events (r\<lparr>r_repeat_countdown := x\<rparr>) n m d = bits_events r n m d"
  "rcmm_events (r\<lparr>r_repeat_countdown := x\<rparr>) n d = rcmm_events r n d"
  "xmp_events (r\<lparr>r_repeat_countdown := x\<rparr>) n d = xmp_events r n d"
proof -
  show "bits_events (r\<lparr>r_repeat_countdown := x\<rparr>) n m d = bits_events r n m d"
    by (induction n arbitrary: m d)
      (simp_all add: Let_def bit_countdown)
  show "rcmm_events (r\<lparr>r_repeat_countdown := x\<rparr>) n d = rcmm_events r n d"
    by (induction n arbitrary: d) (simp_all add: Let_def)
  show "xmp_events (r\<lparr>r_repeat_countdown := x\<rparr>) n d = xmp_events r n d"
    by (induction n arbitrary: d) (simp_all add: Let_def)
qed

lemma data_events_countdown [simp]:
  "data_events (r\<lparr>r_repeat_countdown := x\<rparr>) c b d = data_events r c b d"
  by (simp add: data_events_def cdefs bit_count_def)

lemma code_events_countdown [simp]:
  "code_events (r\<lparr>r_repeat_countdown := x\<rparr>) c rep = code_events r c rep"
  by (simp add: code_events_def has_header_def has_foot_def has_pre_def has_post_def has_flag_def)

lemma head_correction_countdown [simp]:
  "head_correction (r\<lparr>r_repeat_countdown := x\<rparr>) rep = head_correction r rep"
  by (simp add: head_correction_def has_flag_def)

lemma add_send_buffer_sum:
  "add_send_buffer d (sb\<lparr>s_sum := s_sum sb + x\<rparr>) = (add_send_buffer d sb)\<lparr>s_sum := s_sum (add_send_buffer d sb) + x\<rparr>"
  "add_send_buffer d (sb\<lparr>s_data := y\<rparr>) = (add_send_buffer d sb)\<lparr>s_data := y\<rparr>"
  by (simp_all add: add_send_buffer_def)

lemma sync_sum_shift:
  "sync_send_buffer (sb\<lparr>s_sum := s_sum sb + x\<rparr>)
     = (sync_send_buffer sb)\<lparr>s_sum := s_sum (sync_send_buffer sb) + x\<rparr>"
  "sync_send_buffer (sb\<lparr>s_data := y\<rparr>) = (sync_send_buffer sb)\<lparr>s_data := y\<rparr>"
  by (cases "s_pendingp sb > 0"; simp add: sync_send_buffer_def Let_def add_send_buffer_def)+

lemma bad_send_buffer_upd [simp]:
  "bad_send_buffer (sb\<lparr>s_sum := x\<rparr>) = bad_send_buffer sb"
  "bad_send_buffer (sb\<lparr>s_data := y\<rparr>) = bad_send_buffer sb"
  by (simp_all add: bad_send_buffer_def)

lemma sync_sum [simp]:
  "cells (sync_send_buffer (sb\<lparr>s_sum := x\<rparr>)) = cells (sync_send_buffer sb)"
  "s_wptr (sync_send_buffer (sb\<lparr>s_sum := x\<rparr>)) = s_wptr (sync_send_buffer sb)"
  "bad_send_buffer (sync_send_buffer (sb\<lparr>s_sum := x\<rparr>)) = bad_send_buffer (sync_send_buffer sb)"
  using sync_sum_shift(1) [of sb "x - s_sum sb"] by simp_all

lemma sync_data [simp]:
  "s_data (sync_send_buffer (sb\<lparr>s_data := y\<rparr>)) = y"
  "s_sum (sync_send_buffer (sb\<lparr>s_data := y\<rparr>)) = s_sum (sync_send_buffer sb)"
  "cells (sync_send_buffer (sb\<lparr>s_data := y\<rparr>)) = cells (sync_send_buffer sb)"
  "s_wptr (sync_send_buffer (sb\<lparr>s_data := y\<rparr>)) = s_wptr (sync_send_buffer sb)"
  "bad_send_buffer (sync_send_buffer (sb\<lparr>s_data := y\<rparr>)) = bad_send_buffer (sync_send_buffer sb)"
  by (simp_all add: sync_sum_shift(2))

lemma sync_sum_value:
  assumes "sb_inv sb" and "\<not> bad_send_buffer (sync_send_buffer sb)"
  shows "s_sum (sync_send_buffer (sb\<lparr>s_sum := s_sum sb + x\<rparr>))
    = sum_list (trim (sent sb)) + x"
proof -
  have "s_sum (sync_send_buffer (sb\<lparr>s_sum := s_sum sb + x\<rparr>)) = sum_list (cells (sync_send_buffer sb)) + x"
    using assms(1)
  proof (cases sb rule: sb_inv_cases)
    case empty
    then show ?thesis using assms by (simp add: sync_send_buffer_def sb_inv_def)
  next
    case pulse
    then have "s_wptr sb < WBUF_SIZE"
      using assms by (auto simp: sync_send_buffer_def sb_inv_def bad_send_buffer_def Let_def split: if_splits)
    then show ?thesis
      using pulse assms cells_add [of sb "s_pendingp sb"]
      by (auto simp: sync_send_buffer_def sb_inv_def add_send_buffer_def Let_def)
  next
    case space
    then have "s_wptr sb mod 2 = 1" by presburger
    then show ?thesis
      using space assms by (simp add: sync_send_buffer_def sb_inv_def)
  qed
  then show ?thesis using sync_refines(2) [OF assms] by simp
qed

section \<open>One signal\<close>

text \<open>What the transmitter gets.\<close>

definition sent_data :: "sbuf \<Rightarrow> lirc_t list" where
  "sent_data sb = take (nat (send_buffer_length sb)) (send_buffer_data sb)"

definition ready :: "sbuf \<Rightarrow> bool" where
  "ready sb \<longleftrightarrow> length (s_buf sb) = nat WBUF_SIZE"

lemma merged_pos:
  assumes "\<forall>e\<in>set es. pos_event e"
  shows "\<forall>d\<in>set (merged es). 0 < d"
proof -
  have "\<forall>d\<in>set (fold merge_event es ds). 0 < d" if "\<forall>d\<in>set ds. 0 < d" for ds
    using assms that
  proof (induction es arbitrary: ds)
    case (Cons e es)
    from Cons.prems have "\<forall>d\<in>set ds. 0 < d" "0 < dur e" by (simp_all add: pos_event_def)
    then have "\<forall>d\<in>set (merge_event e ds). 0 < d" by (rule merge_event_pos)
    with Cons show ?case by simp
  qed simp
  from this [of "[]"] show ?thesis by (simp add: merged_def)
qed

lemma durations_pos: "\<forall>e\<in>set es. pos_event e \<Longrightarrow> d \<in> set (durations es) \<Longrightarrow> 0 < d"
  using merged_pos [of es] by (auto simp: durations_def trim_def dest: in_set_butlastD split: if_splits)

lemma signal_in_buffer:
  assumes inv0: "sb_inv sb" and empty: "sent sb = []"
    and pos: "\<forall>e\<in>set (code_events r c rep). pos_event e"
  defines "sb' \<equiv> sync_send_buffer ((send_code r c rep sb)\<lparr>s_data := Data_Own\<rparr>)"
  shows "bad_send_buffer sb' \<longleftrightarrow> nat WBUF_SIZE < length (merged (code_events r c rep))"
    and "\<not> bad_send_buffer sb' \<Longrightarrow> sent_data sb' = durations (code_events r c rep)"
    and "\<not> bad_send_buffer sb' \<Longrightarrow> s_sum sb' = sum_list (durations (code_events r c rep)) - head_correction r rep"
    and "\<not> bad_send_buffer sb' \<Longrightarrow> send_buffer_length sb' = int (length (durations (code_events r c rep)))"
proof -
  let ?es = "code_events r c rep"
  let ?m = "fold emit ?es sb"
  have tl: "s_too_long ?m \<longleftrightarrow> nat WBUF_SIZE + 1 < length (merged ?es)"
    using sb.bad_run_iff [OF inv0 pos] empty by (simp add: merged_def)
  have bad0: "bad_send_buffer sb' = bad_send_buffer (sync_send_buffer ?m)"
    by (simp add: sb'_def send_code_events Let_def)
  have run: "sb_inv ?m \<and> sent ?m = merged ?es" if "\<not> s_too_long ?m"
    using sb.run [OF inv0 pos that] empty by (simp add: merged_def)
  have "bad_send_buffer (sync_send_buffer ?m)" if "s_too_long ?m"
    using that by (simp add: sync_send_buffer_def bad_send_buffer_def Let_def)
  then show badiff: "bad_send_buffer sb' \<longleftrightarrow> nat WBUF_SIZE < length (merged ?es)"
    using sync_refines(1) [of ?m] run tl bad0 by (cases "s_too_long ?m") auto
  assume nb: "\<not> bad_send_buffer sb'"
  then have ntl: "\<not> s_too_long ?m" using badiff tl by simp
  note inv = run [OF ntl, THEN conjunct1] and sent = run [OF ntl, THEN conjunct2]
  have nb': "\<not> bad_send_buffer (sync_send_buffer ?m)" using nb bad0 by simp
  have c: "cells sb' = durations ?es" and w: "s_wptr sb' = int (length (durations ?es))"
    using sync_refines(2) [OF inv nb'] sent
    by (simp_all add: sb'_def send_code_events Let_def durations_def)
  have d: "s_data sb' = Data_Own" by (simp add: sb'_def)
  show "sent_data sb' = durations ?es"
    using c d by (simp add: sent_data_def send_buffer_length_def send_buffer_data_def cells_def)
  show "send_buffer_length sb' = int (length (durations ?es))"
    using w by (simp add: send_buffer_length_def)
  show "s_sum sb' = sum_list (durations ?es) - head_correction r rep"
    using sync_sum_value [OF inv nb', of "- head_correction r rep"] sent
    by (simp add: sb'_def send_code_events Let_def durations_def)
qed

section \<open>A button with one code\<close>

text \<open>The remotes \<open>send_buffer_put\<close> can encode, and a code that is sent once.\<close>

definition encodable :: "ir_remote \<Rightarrow> bool" where
  "encodable r \<longleftrightarrow> \<not> is_grundig r \<and> \<not> is_goldstar r \<and> \<not> is_serial r \<and> \<not> is_bo r \<and> \<not> is_raw r
     \<and> r_name r \<noteq> ''lirc''"

definition single_code :: "ir_ncode \<Rightarrow> bool" where
  "single_code c \<longleftrightarrow> nc_next c = [] \<and> nc_transmit_state c = None"

definition next_toggle :: "ir_remote \<Rightarrow> int" where
  "next_toggle r =
     (if has_toggle_mask r
      then (if r_toggle_mask_state r + 1 = 4 then 2 else r_toggle_mask_state r + 1)
      else r_toggle_mask_state r)"

text \<open>The gaps after a signal of the given length.\<close>

definition gaps_after :: "ir_remote \<Rightarrow> lirc_t \<Rightarrow> lirc_t \<times> lirc_t" where
  "gaps_after r len =
     (if is_const r then (min_gap r - len, max_gap r - len) else (min_gap r, max_gap r))"

definition after_send :: "ir_remote \<Rightarrow> lirc_t \<Rightarrow> ir_remote" where
  "after_send r len =
     r\<lparr>r_repeat_countdown := r_min_repeat r, r_toggle_mask_state := next_toggle r,
       r_min_remaining_gap := fst (gaps_after r len), r_max_remaining_gap := snd (gaps_after r len)\<rparr>"

lemma set_gaps_first:
  assumes "is_const (ss_remote st) \<longrightarrow> s_sum (ss_buf st) < min_gap (ss_remote st)"
  shows "set_gaps False st = (True, st\<lparr>ss_remote := (ss_remote st)\<lparr>
     r_min_remaining_gap := fst (gaps_after (ss_remote st) (s_sum (ss_buf st))),
     r_max_remaining_gap := snd (gaps_after (ss_remote st) (s_sum (ss_buf st)))\<rparr>\<rparr>)"
  using assms by (simp add: set_gaps_def gaps_after_def Let_def)

lemma final_check_pos:
  assumes "sent_data (ss_buf st) \<noteq> []" and "\<forall>d\<in>set (sent_data (ss_buf st)). 0 < d"
    and "s_wptr (ss_buf st) = int (length (sent_data (ss_buf st)))"
  shows "\<exists>st'. final_check st = (True, st') \<and> ss_remote st' = ss_remote st
     \<and> ss_code st' = ss_code st \<and> sent_data (ss_buf st') = sent_data (ss_buf st)"
proof -
  let ?sb = "ss_buf st"
  have "list_all (\<lambda>d. d \<noteq> 0) (sent_data ?sb)" "s_wptr ?sb \<noteq> 0"
    using assms by (auto simp: list_all_iff)
  then show ?thesis
    by (cases "s_data ?sb") (simp_all add: final_check_def check_send_buffer_def sent_data_def
        send_buffer_length_def send_buffer_data_def)
qed

lemma durations_nonempty: "merged es \<noteq> [] \<Longrightarrow> durations es \<noteq> []"
  using odd_length_trim [of "merged es"] by (auto simp: durations_def)

text \<open>One pass through the loop.\<close>

lemma init_send_once:
  assumes "fill_send_buffer False False st = Some st1"
    and "\<not> bad_send_buffer (sync_send_buffer (ss_buf st1))"
    and "set_gaps False (st1\<lparr>ss_buf := sync_send_buffer (ss_buf st1)\<rparr>) = (True, st2)"
    and "single_code (ss_code st2)" and "r_repeat_countdown (ss_remote st2) \<le> 0"
  shows "init_send_loop False False st = Some (final_check st2)"
  using assms
  by (subst init_send_loop.simps)
    (simp add: advance_transmit_state_def single_code_def sends_again_def Let_def)

lemma fill_code:
  assumes "encodable r" and "single_code c"
  shows "fill_send_buffer False False \<lparr>ss_buf = sb, ss_remote = r, ss_code = c\<rparr>
    = Some \<lparr>ss_buf = (send_code r (nc_code c) False sb)\<lparr>s_data := Data_Own\<rparr>,
            ss_remote = r\<lparr>r_toggle_mask_state := next_toggle r\<rparr>, ss_code = c\<rparr>"
  using assms
  by (simp add: fill_send_buffer_def encodable_def single_code_def next_send_code_def next_toggle_def
      Let_def)

lemma sb_inv_biphase [simp]:
  "sb_inv (sb\<lparr>s_is_biphase := b\<rparr>) = sb_inv sb" "sent (sb\<lparr>s_is_biphase := b\<rparr>) = sent sb"
  by (simp_all add: sb_inv_def sent_def cells_def)

lemma send_single:
  assumes enc: "encodable r" and single: "single_code c" and buf: "ready sb"
    and pos: "\<forall>e\<in>set (code_events r (nc_code c) False). pos_event e"
    and some: "merged (code_events r (nc_code c) False) \<noteq> []"
    and fits: "length (merged (code_events r (nc_code c) False)) \<le> 256"
    and once: "r_min_repeat r \<le> 0"
    and gap: "is_const r \<longrightarrow>
      sum_list (durations (code_events r (nc_code c) False)) - head_correction r False < min_gap r"
  shows "\<exists>st'. send_buffer_put False \<lparr>ss_buf = sb, ss_remote = r, ss_code = c\<rparr> = Some (True, st')
     \<and> sent_data (ss_buf st') = durations (code_events r (nc_code c) False)
     \<and> ss_code st' = c
     \<and> ss_remote st' = after_send r
         (sum_list (durations (code_events r (nc_code c) False)) - head_correction r False)"
proof -
  let ?es = "code_events r (nc_code c) False"
  let ?r = "r\<lparr>r_repeat_countdown := r_min_repeat r\<rparr>"
  let ?len = "sum_list (durations ?es) - head_correction r False"
  define sb0 where "sb0 = (if is_biphase r then (clear_send_buffer sb)\<lparr>s_is_biphase := True\<rparr> else clear_send_buffer sb)"
  define sb1 where "sb1 = sync_send_buffer ((send_code ?r (nc_code c) False sb0)\<lparr>s_data := Data_Own\<rparr>)"
  define r1 where "r1 = ?r\<lparr>r_toggle_mask_state := next_toggle r\<rparr>"
  have inv0: "sb_inv sb0" "sent sb0 = []" using buf by (simp_all add: sb0_def ready_def sb_inv_clear)
  have ev: "code_events ?r (nc_code c) False = ?es" by simp
  have nb: "\<not> bad_send_buffer sb1"
    using signal_in_buffer(1) [OF inv0, of ?r "nc_code c" False] pos fits
    by (simp add: sb1_def WBUF_SIZE_def)
  have data: "sent_data sb1 = durations ?es" and sm: "s_sum sb1 = ?len"
    and len: "s_wptr sb1 = int (length (durations ?es))"
    using signal_in_buffer(2-4) [OF inv0, of ?r "nc_code c" False] pos nb
    by (simp_all add: sb1_def send_buffer_length_def)
  have fill: "fill_send_buffer False False \<lparr>ss_buf = sb0, ss_remote = ?r, ss_code = c\<rparr>
    = Some \<lparr>ss_buf = (send_code ?r (nc_code c) False sb0)\<lparr>s_data := Data_Own\<rparr>, ss_remote = r1, ss_code = c\<rparr>"
    using fill_code [of ?r c sb0] enc single
    by (simp add: encodable_def cdefs r1_def next_toggle_def)
  have const: "is_const r1 = is_const r" "min_gap r1 = min_gap r" "gaps_after r1 x = gaps_after r x" for x
    by (simp_all add: r1_def is_const_def has_flag_def min_gap_def max_gap_def gaps_after_def)
  define st2 where "st2 = \<lparr>ss_buf = sb1, ss_remote = after_send r ?len, ss_code = c\<rparr>"
  have gaps: "set_gaps False \<lparr>ss_buf = sb1, ss_remote = r1, ss_code = c\<rparr> = (True, st2)"
    using gap sm by (subst set_gaps_first) (simp_all add: const st2_def after_send_def, simp add: r1_def)
  have "init_send_loop False False \<lparr>ss_buf = sb0, ss_remote = ?r, ss_code = c\<rparr> = Some (final_check st2)"
    by (rule init_send_once [OF fill]) (use nb gaps single once in \<open>simp_all add: sb1_def st2_def after_send_def\<close>)
  moreover have "send_buffer_put False \<lparr>ss_buf = sb, ss_remote = r, ss_code = c\<rparr>
      = init_send_loop False False \<lparr>ss_buf = sb0, ss_remote = ?r, ss_code = c\<rparr>"
    using enc by (simp add: send_buffer_put_def init_send_or_sim_def encodable_def sb0_def Let_def)
  moreover obtain st3 where "final_check st2 = (True, st3)" "ss_remote st3 = ss_remote st2"
    "ss_code st3 = ss_code st2" "sent_data (ss_buf st3) = sent_data (ss_buf st2)"
    using final_check_pos [of st2] data len durations_pos [OF pos] durations_nonempty [OF some]
    by (auto simp: st2_def)
  ultimately show ?thesis using data by (simp add: st2_def)
qed

end
