(* ===== verification/Send_Loop.thy ===== *)
theory Send_Loop
  imports Send_Props
begin

text \<open>
  The loop of \<open>init_send_or_sim\<close> over repeats and over the codes of a sequence: it returns, it
  stays inside the buffer, and what it accepts can be handed to a transmitter.
\<close>

section \<open>Termination\<close>

text \<open>
  The signals still to come: a full round of the sequence for every repeat left, and the rest of
  the current round.
\<close>

definition turns_left :: "send_state \<Rightarrow> nat" where
  "turns_left st =
     (let n = length (nc_next (ss_code st))
      in nat (r_repeat_countdown (ss_remote st)) * (n + 2)
         + (case nc_transmit_state (ss_code st) of None \<Rightarrow> n + 1 | Some i \<Rightarrow> n - i))"

definition well_placed :: "send_state \<Rightarrow> bool" where
  "well_placed st \<longleftrightarrow> \<not> is_xmp (ss_remote st)
     \<and> (nc_next (ss_code st) = [] \<longrightarrow> nc_transmit_state (ss_code st) = None)"

lemma fill_keeps:
  assumes "fill_send_buffer sim rep st = Some st'"
  shows "ss_code st' = ss_code st" and "r_flags (ss_remote st') = r_flags (ss_remote st)"
    and "r_repeat_countdown (ss_remote st') = r_repeat_countdown (ss_remote st)"
  using assms by (auto simp: fill_send_buffer_def Let_def split: if_splits option.splits)

lemma set_gaps_keeps:
  assumes "set_gaps rep st = (ok, st')"
  shows "ss_code st' = ss_code st" and "r_flags (ss_remote st') = r_flags (ss_remote st)"
    and "r_repeat_countdown (ss_remote st') = r_repeat_countdown (ss_remote st)"
    and "ss_buf st' = ss_buf st"
  using assms by (auto simp: set_gaps_def Let_def split: if_splits)

lemma is_xmp_flags: "r_flags r = r_flags r' \<Longrightarrow> is_xmp r = is_xmp r'"
  by (simp add: is_xmp_def)

lemma next_turn:
  assumes "well_placed st" and "st' = st\<lparr>ss_code := advance_transmit_state (ss_remote st) (ss_code st)\<rparr>"
    and "sends_again st'"
  shows "turns_left (concat_signal st') < turns_left st \<and> well_placed (concat_signal st')"
proof (cases "nc_next (ss_code st) = []")
  case True
  then show ?thesis
    using assms
    by (auto simp: well_placed_def advance_transmit_state_def concat_signal_def turns_left_def
        sends_again_def Let_def is_xmp_def)
next
  case False
  let ?c = "ss_code st" and ?n = "length (nc_next (ss_code st))"
  let ?ts = "nc_transmit_state (ss_code st')" and ?cd = "r_repeat_countdown (ss_remote st)"
  have ts: "?ts = (case nc_transmit_state ?c of None \<Rightarrow> Some 0 | Some i \<Rightarrow> next_index (nc_next ?c) i)"
    "nc_next (ss_code st') = nc_next ?c" "ss_remote st' = ss_remote st"
    using assms False
    by (auto simp: advance_transmit_state_def well_placed_def Let_def split: option.splits)
  have again: "?cd > 0 \<or> ?ts \<noteq> None" using assms(3) ts by (simp add: sends_again_def)
  have keep: "ss_code (concat_signal st') = ss_code st'"
    "is_xmp (ss_remote (concat_signal st')) = is_xmp (ss_remote st)"
    "r_repeat_countdown (ss_remote (concat_signal st')) = (if ?ts = None then ?cd - 1 else ?cd)"
    using False ts by (auto simp: concat_signal_def Let_def is_xmp_def)
  have "turns_left (concat_signal st') < turns_left st"
  proof (cases ?ts)
    case None
    then have "0 < ?cd" using again by simp
    then have "nat ?cd = Suc (nat (?cd - 1))" by simp
    then show ?thesis using None keep ts by (simp add: turns_left_def Let_def)
  next
    case (Some j)
    then show ?thesis
      using keep ts False
      by (auto simp: turns_left_def Let_def next_index_def split: option.splits if_splits)
  qed
  then show ?thesis using keep assms(1) ts False by (simp add: well_placed_def)
qed

lemma init_send_loop_returns: "well_placed st \<Longrightarrow> \<exists>res. init_send_loop sim rep st = Some res"
proof (induction "turns_left st" arbitrary: st rep rule: less_induct)
  case less
  show ?case
  proof (cases "fill_send_buffer sim rep st")
    case None
    then show ?thesis by (subst init_send_loop.simps) (simp del: split_paired_Ex)
  next
    case (Some st1)
    define st2 where "st2 = st1\<lparr>ss_buf := sync_send_buffer (ss_buf st1)\<rparr>"
    obtain ok st3 where gaps: "set_gaps rep st2 = (ok, st3)" by fastforce
    define st4 where "st4 = st3\<lparr>ss_code := advance_transmit_state (ss_remote st3) (ss_code st3)\<rparr>"
    have wp: "well_placed st3" and tl: "turns_left st3 = turns_left st"
      using less.prems fill_keeps [OF Some] set_gaps_keeps [OF gaps]
      by (simp_all add: well_placed_def turns_left_def st2_def is_xmp_def)
    have unfold: "init_send_loop sim rep st =
        (if bad_send_buffer (ss_buf st2) then Some (False, st2)
         else if sim then Some (final_check st2)
         else if \<not> ok then Some (False, st3)
         else if sends_again st4 then init_send_loop sim True (concat_signal st4)
         else Some (final_check st4))"
      by (subst init_send_loop.simps) (simp add: Some st2_def [symmetric] gaps st4_def Let_def)
    show ?thesis
    proof (cases "sends_again st4")
      case True
      have "\<exists>res. init_send_loop sim True (concat_signal st4) = Some res"
        using next_turn [OF wp st4_def True] tl by (intro less.hyps) auto
      then show ?thesis using unfold by auto
    qed (use unfold in auto)
  qed
qed

section \<open>Bounds\<close>

definition buf_ok :: "sbuf \<Rightarrow> bool" where
  "buf_ok sb \<longleftrightarrow> ready sb \<and> 0 \<le> s_wptr sb \<and> s_wptr sb \<le> WBUF_SIZE"

lemma buf_ok_upd [simp]:
  "buf_ok (sb\<lparr>s_sum := x\<rparr>) = buf_ok sb" "buf_ok (sb\<lparr>s_data := y\<rparr>) = buf_ok sb"
  "buf_ok (sb\<lparr>s_pendingp := x\<rparr>) = buf_ok sb" "buf_ok (sb\<lparr>s_pendings := x\<rparr>) = buf_ok sb"
  "buf_ok (sb\<lparr>s_is_biphase := b\<rparr>) = buf_ok sb" "buf_ok (sb\<lparr>s_stray := b\<rparr>) = buf_ok sb"
  by (simp_all add: buf_ok_def ready_def)

lemma buf_ok_add [simp, range_intros]: "buf_ok sb \<Longrightarrow> buf_ok (add_send_buffer d sb)"
  by (auto simp: buf_ok_def ready_def add_send_buffer_def)

lemma buf_ok_emit [range_intros]: "buf_ok sb \<Longrightarrow> buf_ok (emit e sb)"
  by (cases e) (auto simp: send_pulse_def send_space_def Let_def)

lemma buf_ok_fold: "(\<And>x s. buf_ok s \<Longrightarrow> buf_ok (f x s)) \<Longrightarrow> buf_ok sb \<Longrightarrow> buf_ok (fold f xs sb)"
  by (induction xs arbitrary: sb) auto

lemma buf_ok_sync [range_intros]: "buf_ok sb \<Longrightarrow> buf_ok (sync_send_buffer sb)"
  by (auto simp: sync_send_buffer_def Let_def buf_ok_def ready_def add_send_buffer_def)

lemma buf_ok_flush [range_intros]: "buf_ok sb \<Longrightarrow> buf_ok (flush_send_buffer sb)"
  by (auto simp: flush_send_buffer_def Let_def)

lemma buf_ok_clear: "ready sb \<Longrightarrow> buf_ok (clear_send_buffer sb)"
  by (simp add: buf_ok_def ready_def clear_send_buffer_def WBUF_SIZE_def)

lemma buf_ok_fill:
  assumes "\<not> is_raw (ss_remote st)" and "buf_ok (ss_buf st)" and "fill_send_buffer sim rep st = Some st'"
  shows "buf_ok (ss_buf st') \<and> \<not> is_raw (ss_remote st')"
proof -
  have "buf_ok (fold emit es sb)" if "buf_ok sb" for es sb
    by (rule buf_ok_fold [OF _ that]) (rule buf_ok_emit)
  then show ?thesis
    using assms send_parts_events(1) [of True "ss_remote st"]
    by (auto simp: fill_send_buffer_def Let_def send_code_events send_repeat_events is_raw_def
        split: if_splits)
qed

lemma buf_ok_concat:
  assumes "\<not> is_raw (ss_remote st)" and "buf_ok (ss_buf st)"
  shows "buf_ok (ss_buf (concat_signal st)) \<and> \<not> is_raw (ss_remote (concat_signal st))"
proof -
  have space: "buf_ok (send_space d sb)" if "buf_ok sb" for d sb
    using buf_ok_emit [OF that, of "Space d"] by simp
  have zero: "buf_ok (sb\<lparr>s_data := y, s_wptr := 0, s_stray := b\<rparr>)" if "buf_ok sb" for sb y b
    using that by (simp add: buf_ok_def ready_def WBUF_SIZE_def)
  have "buf_ok (send_signals xs n sb)" if "buf_ok sb" for xs n sb
    unfolding send_signals_def by (rule buf_ok_fold [OF _ that]) simp
  then show ?thesis
    using assms zero by (auto simp: concat_signal_def Let_def is_raw_def intro!: buf_ok_flush space split: data_ptr.split)
qed

text \<open>A signal that can be transmitted: it starts and ends with a pulse and no duration is 0.\<close>

definition sendable :: "sbuf \<Rightarrow> bool" where
  "sendable sb \<longleftrightarrow> odd (send_buffer_length sb) \<and> (\<forall>d\<in>set (sent_data sb). d \<noteq> 0)"

lemma sent_data_stray [simp]: "sent_data (sb\<lparr>s_stray := b\<rparr>) = sent_data sb"
  by (cases "s_data sb") (simp_all add: sent_data_def send_buffer_length_def send_buffer_data_def)

lemma check_send_buffer_sent:
  "check_send_buffer sb =
     (s_wptr sb \<noteq> 0 \<and> list_all (\<lambda>d. d \<noteq> 0) (sent_data sb),
      sb\<lparr>s_stray := s_stray sb \<or> length (send_buffer_data sb) < nat (s_wptr sb)\<rparr>)"
  by (auto simp: check_send_buffer_def sent_data_def send_buffer_length_def)

lemma final_check_sendable:
  assumes "final_check st = (ok, st')" and "buf_ok (ss_buf st)"
    and "s_wptr (ss_buf st) > 0 \<longrightarrow> odd (s_wptr (ss_buf st))"
  shows "buf_ok (ss_buf st') \<and> (ok \<longrightarrow> sendable (ss_buf st'))"
proof -
  have "0 \<le> s_wptr (ss_buf st)" using assms(2) by (simp add: buf_ok_def)
  then show ?thesis
    using assms
    by (auto simp: final_check_def check_send_buffer_sent sendable_def send_buffer_length_def list_all_iff)
qed

lemma odd_sync: "0 < s_wptr (sync_send_buffer sb) \<Longrightarrow> odd (s_wptr (sync_send_buffer sb))"
  by (auto simp: sync_send_buffer_def Let_def split: if_splits) presburger+

lemma init_send_loop_ok:
  assumes "init_send_loop sim rep st = Some (ok, st')"
    and "\<not> is_raw (ss_remote st)" and "buf_ok (ss_buf st)"
  shows "buf_ok (ss_buf st') \<and> (ok \<longrightarrow> sendable (ss_buf st'))"
proof -
  define P where "P = (\<lambda>(sim::bool) (rep::bool) (st::send_state) (res::bool \<times> send_state). \<not> is_raw (ss_remote st) \<longrightarrow> buf_ok (ss_buf st) \<longrightarrow>
      buf_ok (ss_buf (snd res)) \<and> (fst res \<longrightarrow> sendable (ss_buf (snd res))))"
  have "P sim rep st (ok, st')"
  proof (rule init_send_loop.raw_induct [OF _ assms(1)])
    fix loop sim rep st res
    assume 1: "\<And>sim rep st res. loop sim rep st = Some res \<Longrightarrow> P sim rep st res"
      "(case fill_send_buffer sim rep st of
        None \<Rightarrow> Some (False, st)
      | Some st \<Rightarrow>
          (let st = st\<lparr>ss_buf := sync_send_buffer (ss_buf st)\<rparr>
           in if bad_send_buffer (ss_buf st) then Some (False, st)
              else if sim then Some (final_check st)
              else
                (case set_gaps rep st of
                   (ok, st) \<Rightarrow>
                     (if \<not> ok then Some (False, st)
                      else
                        let st = st\<lparr>ss_code := advance_transmit_state (ss_remote st) (ss_code st)\<rparr>
                        in if sends_again st then loop sim True (concat_signal st)
                           else Some (final_check st))))) = Some res"
    show "P sim rep st res"
      unfolding P_def
    proof (intro impI)
      assume raw: "\<not> is_raw (ss_remote st)" and ok: "buf_ok (ss_buf st)"
      show "buf_ok (ss_buf (snd res)) \<and> (fst res \<longrightarrow> sendable (ss_buf (snd res)))"
      proof (cases "fill_send_buffer sim rep st")
        case None
        then show ?thesis using 1(2) ok by auto
      next
        case (Some st1)
        define st2 where "st2 = st1\<lparr>ss_buf := sync_send_buffer (ss_buf st1)\<rparr>"
        obtain b st3 where gaps: "set_gaps rep st2 = (b, st3)" by fastforce
        define st4 where "st4 = st3\<lparr>ss_code := advance_transmit_state (ss_remote st3) (ss_code st3)\<rparr>"
        have b2: "buf_ok (ss_buf st2)" "\<not> is_raw (ss_remote st2)"
          using buf_ok_fill [OF raw ok Some] by (auto simp: st2_def intro: buf_ok_sync)
        have odd: "0 < s_wptr (ss_buf st2) \<longrightarrow> odd (s_wptr (ss_buf st2))"
          by (auto simp: st2_def dest: odd_sync)
        have b4: "ss_buf st3 = ss_buf st2" "ss_buf st4 = ss_buf st2" "\<not> is_raw (ss_remote st4)"
          using set_gaps_keeps [OF gaps] b2 by (simp_all add: st4_def is_raw_def)
        have res: "Some res = (if bad_send_buffer (ss_buf st2) then Some (False, st2)
           else if sim then Some (final_check st2)
           else if \<not> b then Some (False, st3)
           else if sends_again st4 then loop sim True (concat_signal st4)
           else Some (final_check st4))"
          by (rule 1(2) [unfolded Some option.case Let_def, folded st2_def,
              unfolded gaps prod.case, folded st4_def, symmetric])
        have rec: ?thesis if "loop sim True (concat_signal st4) = Some res"
          using 1(1) [OF that, unfolded P_def] buf_ok_concat [of st4] b2 b4 by simp
        have fin: ?thesis if "final_check st' = res" "ss_buf st' = ss_buf st2" for st'
          using final_check_sendable [of st' "fst res" "snd res"] that b2 odd by simp
        consider "res = (False, st2)" | "res = (False, st3)" | "final_check st2 = res"
          | "final_check st4 = res" | "loop sim True (concat_signal st4) = Some res"
          using res by (metis option.inject)
        then show ?thesis using rec fin b2 b4 by cases simp_all
      qed
    qed
  qed
  then show ?thesis using assms(2,3) by (simp add: P_def)
qed

section \<open>Raw codes\<close>

lemma list_all_trim: "list_all P xs \<Longrightarrow> list_all P (trim xs)"
  by (auto simp: trim_def list_all_iff dest: in_set_butlastD)

lemma sync_signals:
  assumes "s_pendingp sb = 0" and "s_data sb = Data_Signals xs" and "s_wptr sb = int (length xs)"
    and "xs \<noteq> []"
  shows "sent_data (sync_send_buffer sb) = trim xs" and "s_sum (sync_send_buffer sb) = s_sum sb"
    and "s_wptr (sync_send_buffer sb) = int (length (trim xs))"
    and "s_too_long (sync_send_buffer sb) = s_too_long sb" and "s_pendingp (sync_send_buffer sb) = 0"
proof -
  have len: "int (length xs) mod 2 = 0 \<longleftrightarrow> even (length xs)" "0 < length xs"
    using assms(4) by (simp_all add: even_iff_mod_2_eq_zero, presburger)
  have last: "int (length xs - Suc 0) = int (length xs) - 1"
    using assms(4) by (cases xs) simp_all
  have "nat (int (length xs) - 1) = length xs - Suc 0" by simp
  then show "sent_data (sync_send_buffer sb) = trim xs"
    using assms len
    by (auto simp: sync_send_buffer_def sent_data_def send_buffer_length_def send_buffer_data_def
        trim_def butlast_conv_take)
  show "s_wptr (sync_send_buffer sb) = int (length (trim xs))"
    using assms len last by (auto simp: sync_send_buffer_def trim_def)
qed (use assms in \<open>auto simp: sync_send_buffer_def\<close>)

lemma send_raw:
  assumes "is_raw r" and "r_name r \<noteq> ''lirc''" and "single_code c" and "r_min_repeat r \<le> 0"
    and "nc_signals c = Some xs" and "nc_length c = int (length xs)"
    and "xs \<noteq> []" and nz: "\<forall>d\<in>set xs. d \<noteq> 0" and gap: "is_const r \<longrightarrow> sum_list xs < min_gap r"
  shows "\<exists>st'. send_buffer_put False \<lparr>ss_buf = sb, ss_remote = r, ss_code = c\<rparr> = Some (True, st')
     \<and> sent_data (ss_buf st') = trim xs \<and> ss_code st' = c"
proof -
  let ?r = "r\<lparr>r_repeat_countdown := r_min_repeat r\<rparr>"
  define sb0 where "sb0 = (if is_biphase r then (clear_send_buffer sb)\<lparr>s_is_biphase := True\<rparr> else clear_send_buffer sb)"
  define sb1 where "sb1 = sb0\<lparr>s_data := Data_Signals xs, s_wptr := int (length xs), s_sum := sum_list xs\<rparr>"
  have z: "s_wptr sb0 = 0" "s_sum sb0 = 0" "s_pendingp sb0 = 0" "\<not> s_too_long sb0"
    by (simp_all add: sb0_def clear_send_buffer_def)
  have sb1: "s_pendingp sb1 = 0" "s_data sb1 = Data_Signals xs" "s_wptr sb1 = int (length xs)"
    "s_sum sb1 = sum_list xs" "\<not> s_too_long sb1"
    using z by (simp_all add: sb1_def)
  note sync = sync_signals [OF sb1(1-3) assms(7)]
  have fill: "fill_send_buffer False False \<lparr>ss_buf = sb0, ss_remote = ?r, ss_code = c\<rparr>
    = Some \<lparr>ss_buf = sb1, ss_remote = ?r, ss_code = c\<rparr>"
    using assms z by (simp add: fill_send_buffer_def sb1_def is_raw_def Let_def)
  have nb: "\<not> bad_send_buffer (sync_send_buffer sb1)"
    using sync(4,5) sb1 by (simp add: bad_send_buffer_def)
  define st2 where "st2 = \<lparr>ss_buf = sync_send_buffer sb1,
     ss_remote = ?r\<lparr>r_min_remaining_gap := fst (gaps_after ?r (sum_list xs)),
                   r_max_remaining_gap := snd (gaps_after ?r (sum_list xs))\<rparr>, ss_code = c\<rparr>"
  have const: "is_const ?r = is_const r" "min_gap ?r = min_gap r"
    by (simp_all add: is_const_def has_flag_def min_gap_def)
  have gaps: "set_gaps False \<lparr>ss_buf = sync_send_buffer sb1, ss_remote = ?r, ss_code = c\<rparr> = (True, st2)"
    using gap sync(2) sb1 by (subst set_gaps_first) (simp_all add: const st2_def)
  have st2: "ss_buf st2 = sync_send_buffer sb1" "ss_code st2 = c"
      "r_repeat_countdown (ss_remote st2) = r_min_repeat r"
    by (simp_all add: st2_def)
  have loop: "init_send_loop False False \<lparr>ss_buf = sb0, ss_remote = ?r, ss_code = c\<rparr> = Some (final_check st2)"
    by (rule init_send_once [OF fill]) (use nb gaps st2 assms in simp_all)
  have put: "send_buffer_put False \<lparr>ss_buf = sb, ss_remote = r, ss_code = c\<rparr>
      = init_send_loop False False \<lparr>ss_buf = sb0, ss_remote = ?r, ss_code = c\<rparr>"
    using assms(1,2) by (simp add: send_buffer_put_def init_send_or_sim_def sb0_def Let_def cdefs flag_defs)
  have "list_all (\<lambda>d. d \<noteq> 0) (trim xs)" using nz by (intro list_all_trim) (simp add: list_all_iff)
  moreover have "trim xs \<noteq> []" using odd_length_trim [OF assms(7)] by auto
  ultimately show ?thesis
    using put loop st2 sync by (simp add: final_check_def check_send_buffer_sent)
qed

end
