(* ===== verification/Samples.thy ===== *)
theory Samples
  imports Ir_Inline
begin

text \<open>
  Concrete remotes on which the theorems are applied: a remote of the NEC protocol as the
  configuration files of the project describe it (space encoding, header, repeat signal,
  constant length), shortened to 8 + 8 bits, and a remote with raw codes.
\<close>

definition sample_codes :: "ir_ncode list" where
  "sample_codes =
     [zero_ncode\<lparr>nc_name := ''KEY_UP'', nc_code := 0x10\<rparr>,
      zero_ncode\<lparr>nc_name := ''KEY_DOWN'', nc_code := 0xB4\<rparr>]"

definition sample_nec :: ir_remote where
  "sample_nec = (zero_remote ''nec'')\<lparr>r_codes := Some sample_codes,
     r_flags := SPACE_ENC OR CONST_LENGTH, r_bits := 8, r_pre_data_bits := 8, r_pre_data := 0x20,
     r_phead := 9000, r_shead := 4500, r_pone := 560, r_sone := 1690, r_pzero := 560,
     r_szero := 560, r_ptrail := 560, r_gap := 110000, r_eps := 30, r_aeps := 100\<rparr>"

definition sample_raw_signals :: "lirc_t list" where
  "sample_raw_signals = [3000, 1500, 400, 400, 400]"

definition sample_raw_code :: ir_ncode where
  "sample_raw_code = zero_ncode\<lparr>nc_name := ''KEY_POWER'', nc_code := 1, nc_length := 5,
     nc_signals := Some sample_raw_signals\<rparr>"

definition sample_raw :: ir_remote where
  "sample_raw = (zero_remote ''raw'')\<lparr>r_codes := Some [sample_raw_code], r_flags := RAW_CODES,
     r_prepeat := 9000, r_srepeat := 2250, r_ptrail := 560, r_gap := 40000\<rparr>"

end
