(* ===== verification/Transmit_Spec.thy ===== *)
theory Transmit_Spec
  imports Send_Loop Samples
begin

text \<open>The properties of the sending side.\<close>

section \<open>What the buffer holds\<close>

text \<open>
  C1: The encoder implements the specification of a signal. For a code whose pulses and spaces
  are positive, started on a cleared buffer, \<open>send_code\<close> followed by \<open>sync_send_buffer\<close> reports an
  overflow exactly when the merged durations are more than the 256 entries of the buffer, and
  otherwise the buffer holds these durations, up to the last pulse.
\<close>

theorem send_code_durations:
  assumes "length (s_buf sb) = nat WBUF_SIZE"
    and "\<forall>e\<in>set (code_events r c rep). pos_event e"
  shows "let sb' = sync_send_buffer ((send_code r c rep (clear_send_buffer sb))\<lparr>s_data := Data_Own\<rparr>)
    in (bad_send_buffer sb' \<longleftrightarrow> 256 < length (merged (code_events r c rep)))
       \<and> (\<not> bad_send_buffer sb' \<longrightarrow> sent_data sb' = durations (code_events r c rep))"
  using signal_in_buffer(1,2) [of "clear_send_buffer sb" r c rep] assms
  by (simp add: sb_inv_clear WBUF_SIZE_def Let_def)


lemma sample_pos: "\<forall>e\<in>set (code_events sample_nec 0xB4 False). pos_event e"
  by code_simp

theorem send_code_durations_witness:
  "let sb' = sync_send_buffer ((send_code sample_nec 0xB4 False (clear_send_buffer send_buffer_init))\<lparr>s_data := Data_Own\<rparr>)
    in (bad_send_buffer sb' \<longleftrightarrow> 256 < length (merged (code_events sample_nec 0xB4 False)))
       \<and> (\<not> bad_send_buffer sb' \<longrightarrow> sent_data sb' = durations (code_events sample_nec 0xB4 False))"
  by (rule send_code_durations [of send_buffer_init sample_nec "0xB4" False])
    (simp add: send_buffer_init_def, rule sample_pos)

text \<open>
  C7: Sending a button of one code through \<open>send_buffer_put\<close> succeeds when its signal fits into
  the buffer and (for a remote of constant length) into the gap; the transmitter is handed the
  durations of the code and nothing else, and the remote keeps its gaps, its repeat counter and
  its toggle state for the next signal.
\<close>

theorem send_buffer_put_single_code:
  assumes "encodable r" and "single_code c" and "length (s_buf sb) = nat WBUF_SIZE"
    and "\<forall>e\<in>set (code_events r (nc_code c) False). pos_event e"
    and "merged (code_events r (nc_code c) False) \<noteq> []"
    and "length (merged (code_events r (nc_code c) False)) \<le> 256"
    and "r_min_repeat r \<le> 0"
    and "is_const r \<longrightarrow>
      sum_list (durations (code_events r (nc_code c) False)) - head_correction r False < min_gap r"
  shows "\<exists>st'. send_buffer_put False \<lparr>ss_buf = sb, ss_remote = r, ss_code = c\<rparr> = Some (True, st')
     \<and> sent_data (ss_buf st') = durations (code_events r (nc_code c) False)
     \<and> ss_code st' = c
     \<and> ss_remote st' = after_send r
         (sum_list (durations (code_events r (nc_code c) False)) - head_correction r False)"
  using send_single [OF assms(1,2) _ assms(4-8)] assms(3) by (simp add: ready_def)

theorem send_buffer_put_single_code_witness:
  "\<exists>st'. send_buffer_put False \<lparr>ss_buf = send_buffer_init, ss_remote = sample_nec, ss_code = sample_codes ! 1\<rparr>
       = Some (True, st')
     \<and> sent_data (ss_buf st') = durations (code_events sample_nec (nc_code (sample_codes ! 1)) False)
     \<and> ss_code st' = sample_codes ! 1
     \<and> ss_remote st' = after_send sample_nec
         (sum_list (durations (code_events sample_nec (nc_code (sample_codes ! 1)) False)) - head_correction sample_nec False)"
  by (rule send_buffer_put_single_code) code_simp+

section \<open>The loop over repeats and sequences\<close>

text \<open>
  C24: \<open>send_buffer_put\<close> returns for every remote that is not of the XMP protocol, whatever its
  repeat count, its gaps and the length of the button's sequence of codes.
\<close>

theorem send_buffer_put_returns:
  assumes "\<not> is_xmp (ss_remote st)"
    and "nc_next (ss_code st) = [] \<longrightarrow> nc_transmit_state (ss_code st) = None"
  shows "\<exists>ok st'. send_buffer_put rep st = Some (ok, st')"
proof -
  have "\<exists>res. send_buffer_put rep st = Some res"
    using assms
    by (auto simp: send_buffer_put_def init_send_or_sim_def Let_def well_placed_def is_xmp_def
        simp del: split_paired_Ex intro!: init_send_loop_returns)
  then show ?thesis by auto
qed

theorem send_buffer_put_returns_witness:
  "\<exists>ok st'. send_buffer_put True \<lparr>ss_buf = send_buffer_init, ss_remote = sample_nec, ss_code = sample_codes ! 1\<rparr>
     = Some (ok, st')"
  by (rule send_buffer_put_returns) code_simp+



section \<open>Raw codes\<close>

text \<open>
  A raw button that is not repeated is sent as it is: an odd number of signals goes to the
  transmitter unchanged, an even number without the last space.
\<close>

theorem send_buffer_put_raw:
  assumes "is_raw r" and "r_name r \<noteq> ''lirc''" and "single_code c" and "r_min_repeat r \<le> 0"
    and "nc_signals c = Some xs" and "nc_length c = int (length xs)"
    and "xs \<noteq> []" and "\<forall>d\<in>set xs. d \<noteq> 0" and "is_const r \<longrightarrow> sum_list xs < min_gap r"
  shows "\<exists>st'. send_buffer_put False \<lparr>ss_buf = sb, ss_remote = r, ss_code = c\<rparr> = Some (True, st')
     \<and> sent_data (ss_buf st') = trim xs \<and> ss_code st' = c"
  using send_raw [OF assms] .

theorem send_buffer_put_raw_witness:
  "\<exists>st'. send_buffer_put False \<lparr>ss_buf = send_buffer_init, ss_remote = sample_raw, ss_code = sample_raw_code\<rparr>
       = Some (True, st')
     \<and> sent_data (ss_buf st') = trim sample_raw_signals \<and> ss_code st' = sample_raw_code"
  by (rule send_buffer_put_raw) code_simp+

text \<open>A raw remote while one of its buttons is held: the button was sent, the repeat signal follows.\<close>

definition raw_held :: send_state where
  "raw_held = \<lparr>ss_buf = send_buffer_init\<lparr>s_data := Data_Signals sample_raw_signals\<rparr>,
     ss_remote = sample_raw, ss_code = sample_raw_code\<rparr>"

definition raw_started :: send_state where
  "raw_started = raw_held\<lparr>ss_buf := clear_send_buffer (ss_buf raw_held)\<rparr>"

lemma raw_held_starts: "send_buffer_put True raw_held = init_send_loop False True raw_started"
  by code_simp

text \<open>
  The repeat signal of a raw remote is not what is sent: the repeat branch fills the buffer's
  own array but leaves the data pointer on the signals of the button that was sent before it, so
  the transmitter is handed the first signals of that button in place of the repeat pulse.
\<close>

theorem raw_repeat_sends_button:
  "map_option (\<lambda>(ok, st). (ok, sent_data (ss_buf st))) (send_buffer_put True raw_held)
     = Some (True, take 3 sample_raw_signals)
   \<and> durations (repeat_events sample_raw) \<noteq> take 3 sample_raw_signals"
  unfolding raw_held_starts by (subst init_send_loop.simps) code_simp

end
