(* ===== verification/Inline_Spec.thy ===== *)
theory Inline_Spec
  imports Samples
begin

text \<open>
  The properties of the inline functions of \<open>lib/ir_remote.h\<close>: bit reversal, population count,
  the tolerance window and its limits.
\<close>

section \<open>Bits\<close>

text \<open>
  \<open>reverse\<close> mirrors the lowest \<open>bits\<close> bits and clears all others; applied twice it gives
  the lowest bits of its argument back.
\<close>

theorem reverse_mirrors:
  assumes "0 \<le> bits" and "bits \<le> 64"
  shows "(\<forall>k. bit (reverse d bits) k \<longleftrightarrow> int k < bits \<and> bit d (nat bits - 1 - k))
    \<and> reverse (reverse d bits) bits = d AND gen_mask bits"
  using assms by (auto simp: bit_reverse reverse_reverse and_gen_mask)

theorem reverse_mirrors_witness:
  "(\<forall>k. bit (reverse 0xB4 8) k \<longleftrightarrow> int k < 8 \<and> bit (0xB4 :: ir_code) (nat 8 - 1 - k))
    \<and> reverse (reverse 0xB4 8) 8 = (0xB4 :: ir_code) AND gen_mask 8"
  using reverse_mirrors [of 8 "0xB4"] by simp

text \<open>
  \<open>bits_set\<close>, whose loop shifts the argument until nothing is left, is the number of one
  bits.
\<close>

theorem bits_set_counts: "bits_set d = card {i. bit d i}"
  by (rule bits_set_card)

section \<open>Tolerances\<close>

text \<open>The tolerance of a duration: the relative or the absolute one, whichever is larger.\<close>

definition tolerance :: "driver \<Rightarrow> ir_remote \<Rightarrow> lirc_t \<Rightarrow> int" where
  "tolerance drv r x = max (x * r_eps r sdiv 100) (eff_aeps drv r)"

lemma expect_window: "expect drv r d x \<longleftrightarrow> x - tolerance drv r x \<le> d \<and> d \<le> x + tolerance drv r x"
  by (auto simp: expect_def tolerance_def max_def)

lemma expect_at_least_window: "expect_at_least drv r d x \<longleftrightarrow> x - tolerance drv r x \<le> d"
  by (auto simp: expect_at_least_def tolerance_def max_def)

lemma expect_at_most_window: "expect_at_most drv r d x \<longleftrightarrow> d \<le> x + tolerance drv r x"
  by (auto simp: expect_at_most_def tolerance_def max_def)

lemma eps_split:
  assumes "0 \<le> x" "0 \<le> r_eps r"
  shows "x * (100 + r_eps r) sdiv 100 = x + x * r_eps r sdiv 100"
  using assms by (simp add: sdiv_nonneg distrib_left)

lemma upper_limit_window:
  "0 \<le> x \<Longrightarrow> 0 \<le> r_eps r \<Longrightarrow> upper_limit drv r x = x + tolerance drv r x"
  by (auto simp: upper_limit_def tolerance_def eps_split Let_def max_def)

lemma lower_limit_window:
  assumes "0 \<le> x" and "0 \<le> r_eps r" "r_eps r \<le> 100"
  shows "lower_limit drv r x \<le> max 1 (x - tolerance drv r x)"
proof -
  have "x * (100 - r_eps r) div 100 \<le> x - x * r_eps r div 100"
    by (simp add: right_diff_distrib)
  moreover have "x * (100 - r_eps r) sdiv 100 = x * (100 - r_eps r) div 100"
    "x * r_eps r sdiv 100 = x * r_eps r div 100"
    using assms by (simp_all add: sdiv_nonneg)
  ultimately show ?thesis by (auto simp: lower_limit_def tolerance_def Let_def max_def)
qed

text \<open>
  The three tolerance tests agree: a duration is the expected one exactly when it is neither
  shorter than \<open>expect_at_least\<close> allows nor longer than \<open>expect_at_most\<close> allows - for every
  remote and driver, whatever the signs of the operands.
\<close>

theorem expect_both_sides:
  "expect drv r d x \<longleftrightarrow> expect_at_least drv r d x \<and> expect_at_most drv r d x"
  by (simp add: expect_window expect_at_least_window expect_at_most_window)

text \<open>
  The limits the driver's filter is set to admit what the decoder accepts: every positive
  duration that \<open>expect\<close> accepts for an expected length lies between \<open>lower_limit\<close> and
  \<open>upper_limit\<close> of that length, and the upper limit is exact.
\<close>

theorem filter_window_admits:
  assumes "0 \<le> x" and "0 \<le> r_eps r" and "r_eps r \<le> 100" and "1 \<le> d" and "expect drv r d x"
  shows "lower_limit drv r x \<le> d \<and> d \<le> upper_limit drv r x
    \<and> (expect_at_most drv r (upper_limit drv r x) x \<and> \<not> expect_at_most drv r (upper_limit drv r x + 1) x)"
  using lower_limit_window [of x r drv] upper_limit_window [of x r drv] assms
  by (auto simp: expect_window expect_at_most_window)

definition sample_driver :: driver where
  "sample_driver = \<lparr>d_rec_mode = LIRC_MODE_MODE2, d_code_length = 0, d_resolution = 50\<rparr>"

theorem filter_window_admits_witness:
  "lower_limit sample_driver sample_nec 560 \<le> 700 \<and> 700 \<le> upper_limit sample_driver sample_nec 560
    \<and> (expect_at_most sample_driver sample_nec (upper_limit sample_driver sample_nec 560) 560
       \<and> \<not> expect_at_most sample_driver sample_nec (upper_limit sample_driver sample_nec 560 + 1) 560)"
  by (rule filter_window_admits [of 560 sample_nec 700 sample_driver]) code_simp+

text \<open>
  The arithmetic of the limits stays inside 32 bit \<open>int\<close> for every duration up to ten
  seconds, every relative tolerance up to 100 per cent and absolute tolerances up to a second:
  products, sums and results are all in range.
\<close>

theorem limits_in_range:
  assumes "0 \<le> x" and "x \<le> 10000000" and "0 \<le> r_eps r" and "r_eps r \<le> 100"
    and "0 \<le> r_aeps r" and "r_aeps r \<le> 1000000" and "0 \<le> d_resolution drv" and "d_resolution drv \<le> 1000000"
  shows "in_s32 (x * (100 + r_eps r)) \<and> in_s32 (x * (100 - r_eps r)) \<and> in_s32 (x + eff_aeps drv r)
    \<and> in_s32 (upper_limit drv r x) \<and> in_s32 (lower_limit drv r x) \<and> 1 \<le> lower_limit drv r x"
proof -
  have m: "0 \<le> x * r_eps r" "x * r_eps r \<le> 1000000000"
    using mult_mono [of x 10000000 "r_eps r" 100] assms by simp_all
  have a: "eff_aeps drv r = max (d_resolution drv) (r_aeps r)"
    using assms by (auto simp: eff_aeps_def max_def in_s32_def)
  then have a': "0 \<le> eff_aeps drv r" "eff_aeps drv r \<le> 1000000" using assms by simp_all
  have p: "in_s32 (x * (100 + r_eps r))" "in_s32 (x * (100 - r_eps r))" "in_s32 (x + eff_aeps drv r)"
  proof -
    have "in_s32 (x * 100 + y) \<and> in_s32 (x * 100 - y)" if "0 \<le> y" "y \<le> 1000000000" for y
      using that assms(1,2) by (simp add: in_s32_def)
    from this [OF m] show "in_s32 (x * (100 + r_eps r))" "in_s32 (x * (100 - r_eps r))"
      by (simp_all add: distrib_left right_diff_distrib)
  qed (use a' assms in \<open>simp add: in_s32_def\<close>)
  have t: "0 \<le> tolerance drv r x" "tolerance drv r x \<le> 10000000"
    using m a' assms by (auto simp: tolerance_def sdiv_nonneg)
  have u: "in_s32 (upper_limit drv r x)"
    using t assms by (simp add: upper_limit_window in_s32_def)
  have l: "1 \<le> lower_limit drv r x" by (auto simp: lower_limit_def Let_def)
  have "lower_limit drv r x \<le> max 1 (x - tolerance drv r x)"
    using assms by (intro lower_limit_window) auto
  then have "lower_limit drv r x < 2147483648" using t assms by (auto simp: max_def split: if_splits)
  then show ?thesis using p u l by (simp add: in_s32_def)
qed

theorem limits_in_range_witness:
  "in_s32 (9000 * (100 + r_eps sample_nec)) \<and> in_s32 (9000 * (100 - r_eps sample_nec))
    \<and> in_s32 (9000 + eff_aeps sample_driver sample_nec)
    \<and> in_s32 (upper_limit sample_driver sample_nec 9000)
    \<and> in_s32 (lower_limit sample_driver sample_nec 9000) \<and> 1 \<le> lower_limit sample_driver sample_nec 9000"
  by (rule limits_in_range) code_simp+

section \<open>Time\<close>

text \<open>
  \<open>time_elapsed\<close> is the number of microseconds between two times, modulo the 32 bits of
  \<open>unsigned long\<close>: two events more than 71 minutes apart look close to each other.
\<close>

theorem time_elapsed_wraps:
  "time_elapsed a b = (1000000 * (tv_sec b - tv_sec a) + (tv_usec b - tv_usec a)) mod 2 ^ 32
   \<and> time_elapsed \<lparr>tv_sec = 0, tv_usec = 0\<rparr> \<lparr>tv_sec = 4295, tv_usec = 0\<rparr> = 32704"
proof
  show "time_elapsed a b = (1000000 * (tv_sec b - tv_sec a) + (tv_usec b - tv_usec a)) mod 2 ^ 32"
  proof -
    have "(1000000 * (s mod 4294967296) + u) mod 4294967296 = (1000000 * s + u) mod (4294967296 :: int)"
      for s u :: int
      by (metis mod_add_left_eq mod_mult_right_eq)
    from this [of "tv_sec b - tv_sec a" "tv_usec b - tv_usec a"]
    show ?thesis by (simp add: time_elapsed_def u32_def add_diff_eq)
  qed
  show "time_elapsed \<lparr>tv_sec = 0, tv_usec = 0\<rparr> \<lparr>tv_sec = 4295, tv_usec = 0\<rparr> = 32704"
    by (simp add: time_elapsed_def u32_def)
qed

end
