(* ===== verification/Ir_Remote.thy ===== *)
theory Ir_Remote
  imports Ir_Inline
begin

text \<open>
  \<open>lib/ir_remote.c\<close> up to \<open>write_message\<close>: copies of codes, the search for remotes and codes by
  name, the parameters of the whole list of remotes, the mapping of a decoded signal to the
  three parts of a code, the search for the button that was pressed (single codes, sequences
  of codes, toggle masks and dynamic codes) and the bookkeeping of the button found.

  A list of remotes is the list of its elements in order; where the identity of a remote
  matters (\<open>Decode_All\<close>, \<open>Release\<close>) remotes live in a store and lists hold their addresses.
\<close>

section \<open>Codes and lists of remotes\<close>

text \<open>
  \<open>ncode_dup\<close>: the copy has the same list of codes and, for a positive length, the same
  signals; the pointers \<open>current\<close> and \<open>transmit_state\<close> are copied and still point into the list
  of the original, which has the same shape.
\<close>

definition ncode_dup :: "ir_ncode \<Rightarrow> ir_ncode" where
  "ncode_dup ncode =
     ncode\<lparr>nc_signals := (if nc_length ncode > 0
                          then map_option (take (nat (nc_length ncode))) (nc_signals ncode) else None)\<rparr>"

definition time_left :: "timeval \<Rightarrow> timeval \<Rightarrow> lirc_t \<Rightarrow> lirc_t" where
  "time_left current earlier gap =
     (let diff = time_elapsed earlier current
      in s32 (if diff < u32 gap then u32 (u32 gap - diff) else 0))"

definition match_ir_code :: "ir_remote \<Rightarrow> ir_code \<Rightarrow> ir_code \<Rightarrow> bool" where
  "match_ir_code remote a b \<longleftrightarrow>
     r_ignore_mask remote OR a = r_ignore_mask remote OR b
     \<or> r_ignore_mask remote OR a = r_ignore_mask remote OR (b XOR r_toggle_bit_mask remote)"

fun freq_loop :: "ir_remote list \<Rightarrow> int \<times> int \<Rightarrow> int \<times> int" where
  "freq_loop [] (mn, mx) = (mn, mx)"
| "freq_loop (r # rs) (mn, mx) =
     freq_loop rs
       (if r_freq r \<noteq> 0 then
          (if r_freq r > mx then (mn, r_freq r)
           else if r_freq r < mn then (r_freq r, mx) else (mn, mx))
        else (mn, mx))"

definition get_frequency_range :: "ir_remote list \<Rightarrow> int \<times> int" where
  "get_frequency_range remotes =
     (case remotes of [] \<Rightarrow> (0, 0) | r # rs \<Rightarrow> freq_loop rs (r_freq r, r_freq r))"

record filter_params =
  fp_max_gap :: lirc_t
  fp_min_pulse :: lirc_t
  fp_min_space :: lirc_t
  fp_max_pulse :: lirc_t
  fp_max_space :: lirc_t

definition filter_step :: "driver \<Rightarrow> ir_remote \<Rightarrow> filter_params \<Rightarrow> filter_params" where
  "filter_step drv r f =
     (let v1 = upper_limit drv r (r_max_gap_length r);
          v2 = lower_limit drv r (r_min_pulse_length r);
          v3 = lower_limit drv r (r_min_space_length r);
          v4 = upper_limit drv r (r_max_pulse_length r);
          v5 = upper_limit drv r (r_max_space_length r)
      in \<lparr>fp_max_gap = (if v1 > fp_max_gap f then v1 else fp_max_gap f),
          fp_min_pulse = (if fp_min_pulse f = 0 \<or> v2 < fp_min_pulse f then v2 else fp_min_pulse f),
          fp_min_space = (if fp_min_space f = 0 \<or> v3 > fp_min_space f then v3 else fp_min_space f),
          fp_max_pulse = (if v4 > fp_max_pulse f then v4 else fp_max_pulse f),
          fp_max_space = (if v5 > fp_max_space f then v5 else fp_max_space f)\<rparr>)"

definition get_filter_parameters :: "driver \<Rightarrow> ir_remote list \<Rightarrow> filter_params" where
  "get_filter_parameters drv remotes =
     fold (filter_step drv) remotes
       \<lparr>fp_max_gap = 0, fp_min_pulse = 0, fp_min_space = 0, fp_max_pulse = 0, fp_max_space = 0\<rparr>"

text \<open>
  The search for a code by name. A remote named lirc that has codes knows the code \<open>__EOF\<close>
  only; a remote without codes has none, whatever its name.
\<close>

fun index_where :: "('a \<Rightarrow> bool) \<Rightarrow> 'a list \<Rightarrow> nat option" where
  "index_where P [] = None"
| "index_where P (x # xs) = (if P x then Some 0 else map_option Suc (index_where P xs))"

definition get_code_by_name :: "ir_remote \<Rightarrow> string \<Rightarrow> ncode_ref option" where
  "get_code_by_name remote nm =
     (case r_codes remote of
        None \<Rightarrow> None
      | Some cs \<Rightarrow>
          if r_name remote = ''lirc'' then (if nm = ''__EOF'' then Some Eof_Ref else None)
          else map_option Code_Ref (index_where (\<lambda>c. strcasecmp_eq (nc_name c) nm) cs))"

section \<open>Mapping a signal\<close>

definition map_code :: "ir_remote \<Rightarrow> decode_ctx_t \<Rightarrow> int \<Rightarrow> ir_code \<Rightarrow> int \<Rightarrow> ir_code \<Rightarrow> int \<Rightarrow> ir_code
    \<Rightarrow> bool \<times> decode_ctx_t" where
  "map_code remote ctx pre_bits pre bits code post_bits post =
     (if pre_bits + bits + post_bits
         \<noteq> r_pre_data_bits remote + r_bits remote + r_post_data_bits remote
      then (False, ctx)
      else
        (let all = pre AND gen_mask pre_bits;
             all = push_bit (nat bits) all;
             all = all OR (code AND gen_mask bits);
             all = push_bit (nat post_bits) all;
             all = all OR (post AND gen_mask post_bits);
             ctx = ctx\<lparr>ctx_post := all AND gen_mask (r_post_data_bits remote)\<rparr>;
             all = drop_bit (nat (r_post_data_bits remote)) all;
             ctx = ctx\<lparr>ctx_code := all AND gen_mask (r_bits remote)\<rparr>;
             all = drop_bit (nat (r_bits remote)) all
         in (True, ctx\<lparr>ctx_pre := all AND gen_mask (r_pre_data_bits remote)\<rparr>)))"

definition map_gap :: "driver \<Rightarrow> ir_remote \<Rightarrow> decode_ctx_t \<Rightarrow> timeval \<Rightarrow> timeval \<Rightarrow> lirc_t \<Rightarrow> decode_ctx_t"
where
  "map_gap drv remote ctx start earlier signal_length =
     (let ctx =
        (if tv_sec start - tv_sec earlier \<ge> 2 then ctx\<lparr>ctx_repeat_flag := False\<rparr>
         else
           (let gap = s32 (time_elapsed earlier start)
            in ctx\<lparr>ctx_repeat_flag := expect_at_most drv remote gap (r_max_remaining_gap remote)\<rparr>))
      in if is_const remote then
           (if min_gap remote > signal_length
            then ctx\<lparr>ctx_min_remaining_gap := min_gap remote - signal_length,
                     ctx_max_remaining_gap := max_gap remote - signal_length\<rparr>
            else ctx\<lparr>ctx_min_remaining_gap := 0,
                     ctx_max_remaining_gap :=
                       (if max_gap remote > signal_length then max_gap remote - signal_length else 0)\<rparr>)
         else ctx\<lparr>ctx_min_remaining_gap := min_gap remote, ctx_max_remaining_gap := max_gap remote\<rparr>)"

section \<open>Finding the button\<close>

text \<open>
  \<open>find_longest_match\<close>: a button is a sequence of codes and \<open>current\<close> is how far it has been
  received; when the next code does not come, the longest part received that is again a start
  of the sequence is looked for. The inner loop compares \<open>n\<close> codes from the start of the
  sequence with those from \<open>nxt\<close> on.
\<close>

fun compare_codes :: "ir_ncode \<Rightarrow> nat \<Rightarrow> nat option \<Rightarrow> nat \<Rightarrow> bool \<times> nat option" where
  "compare_codes codes 0 prev nxt = (True, prev)"
| "compare_codes codes (Suc n) prev nxt =
     (if get_ir_code codes prev \<noteq> get_ir_code codes (Some nxt) then (False, prev)
      else compare_codes codes n (get_next_ir_code_node codes prev) (Suc nxt))"

text \<open>
  The outer loop over the \<open>k\<close> starting points that are left, from \<open>search\<close> on. \<open>flag\<close> is set to
  1 before the loop only: once a comparison has failed, no later one counts.
\<close>

fun search_match :: "ir_remote \<Rightarrow> ir_ncode \<Rightarrow> ir_code \<Rightarrow> nat \<Rightarrow> nat \<Rightarrow> nat \<Rightarrow> bool \<Rightarrow> nat option option"
where
  "search_match remote codes all cur 0 search flag = None"
| "search_match remote codes all cur (Suc k) search flag =
     (case compare_codes codes (cur - search) None search of
        (ok, prev) \<Rightarrow>
          (let flag = (flag \<and> ok);
               next_all = gen_ir_code remote (r_pre_data remote) (get_ir_code codes prev)
                            (r_post_data remote)
           in if flag \<and> match_ir_code remote next_all all
              then Some (get_next_ir_code_node codes prev)
              else search_match remote codes all cur k (Suc search) flag))"

text \<open>The result: whether a match was found, and the code with its \<open>current\<close> updated.\<close>

definition find_longest_match :: "ir_remote \<Rightarrow> ir_ncode \<Rightarrow> ir_code \<Rightarrow> bool \<times> ir_ncode" where
  "find_longest_match remote codes all =
     (case nc_current codes of
        None \<Rightarrow> (False, codes\<lparr>nc_current := None\<rparr>)
      | Some cur \<Rightarrow>
          if nc_next codes = [] then (False, codes\<lparr>nc_current := None\<rparr>)
          else
            (case search_match remote codes all cur (Suc cur) 0 True of
               None \<Rightarrow> (False, codes\<lparr>nc_current := None\<rparr>)
             | Some c \<Rightarrow> (True, codes\<lparr>nc_current := c\<rparr>)))"

text \<open>What the loop of \<open>get_code\<close> over the codes of the remote carries along.\<close>

record get_code_state =
  gs_found :: "nat option"
  gs_found_code :: bool
  gs_have_code :: bool

definition get_code_step ::
    "ir_remote \<Rightarrow> ir_code \<Rightarrow> bool \<Rightarrow> nat \<Rightarrow> ir_ncode \<Rightarrow> get_code_state \<Rightarrow> ir_ncode \<times> get_code_state"
where
  "get_code_step remote all repeat_flag i codes gs =
     (let next_all = gen_ir_code remote (r_pre_data remote)
                       (get_ir_code codes (nc_current codes)) (r_post_data remote)
      in if match_ir_code remote next_all all
            \<or> repeat_flag \<and> has_repeat_mask remote
              \<and> match_ir_code remote next_all (all XOR r_repeat_mask remote)
         then
           (let codes = (if nc_next codes \<noteq> []
                         then codes\<lparr>nc_current :=
                                get_next_ir_code_node codes (nc_current codes)\<rparr> else codes);
                gs = gs\<lparr>gs_found_code := True\<rparr>
            in (codes,
                if gs_have_code gs then gs
                else gs\<lparr>gs_found := Some i, gs_have_code := (nc_current codes = None)\<rparr>))
         else
           (case find_longest_match remote codes all of
              (ok, codes) \<Rightarrow>
                (codes,
                 if ok then (if gs_have_code gs then gs\<lparr>gs_found_code := True\<rparr>
                             else gs\<lparr>gs_found_code := True, gs_found := Some i\<rparr>)
                 else gs)))"

fun get_code_loop ::
    "ir_remote \<Rightarrow> ir_code \<Rightarrow> bool \<Rightarrow> nat \<Rightarrow> ir_ncode list \<Rightarrow> get_code_state \<Rightarrow> ir_ncode list \<times> get_code_state"
where
  "get_code_loop remote all repeat_flag i [] gs = ([], gs)"
| "get_code_loop remote all repeat_flag i (c # cs) gs =
     (case get_code_step remote all repeat_flag i c gs of
        (c, gs) \<Rightarrow>
          (case get_code_loop remote all repeat_flag (Suc i) cs gs of (cs, gs) \<Rightarrow> (c # cs, gs)))"

text \<open>
  The toggle mask of the Sharp error detection flips bits of the three parts, the lowest bits
  of the mask those of \<open>post\<close>. The loop runs over all bits; \<open>aff\<close> says which part it is in
  (0: post, 1: code, 2: pre) and \<open>cb\<close> which bit of it.
\<close>

definition flip_part :: "nat \<Rightarrow> ir_code \<Rightarrow> ir_code \<times> ir_code \<times> ir_code \<Rightarrow> ir_code \<times> ir_code \<times> ir_code"
where
  "flip_part aff x parts =
     (case parts of (pre, code, post) \<Rightarrow>
        if aff = 0 then (pre, code, post XOR x)
        else if aff = 1 then (pre, code XOR x, post)
        else (pre XOR x, code, post))"

fun toggle_mask_loop ::
    "ir_remote \<Rightarrow> nat \<Rightarrow> int \<Rightarrow> nat \<Rightarrow> nat \<Rightarrow> ir_code \<Rightarrow> ir_code \<times> ir_code \<times> ir_code
     \<Rightarrow> ir_code \<times> ir_code \<times> ir_code"
where
  "toggle_mask_loop remote 0 n aff cb msk parts = parts"
| "toggle_mask_loop remote (Suc k) n aff cb msk parts =
     (let (aff, cb) = (if n = r_post_data_bits remote then (1, 0) else (aff, cb));
          (aff, cb) = (if n = r_post_data_bits remote + r_bits remote then (2, 0) else (aff, cb))
      in toggle_mask_loop remote k (n + 1) aff (Suc cb) (drop_bit 1 msk)
           (flip_part aff (push_bit cb (msk AND 1)) parts))"

definition apply_toggle_mask ::
    "ir_remote \<Rightarrow> ir_code \<Rightarrow> ir_code \<Rightarrow> ir_code \<Rightarrow> ir_code \<times> ir_code \<times> ir_code" where
  "apply_toggle_mask remote pre code post =
     (if has_toggle_mask remote \<and> r_toggle_mask_state remote smod 2 \<noteq> 0
      then toggle_mask_loop remote (nat (bit_count remote)) 0 0 0 (r_toggle_mask remote) (pre, code, post)
      else (pre, code, post))"

definition pre_ignore :: "ir_remote \<Rightarrow> ir_code" where
  "pre_ignore remote =
     (let sh = nat (r_bits remote + r_post_data_bits remote)
      in (if has_toggle_bit_mask remote then drop_bit sh (r_toggle_bit_mask remote) else 0)
         OR (if has_ignore_mask remote then drop_bit sh (r_ignore_mask remote) else 0))"

definition post_ignore :: "ir_remote \<Rightarrow> ir_code" where
  "post_ignore remote =
     (let m = gen_mask (r_post_data_bits remote)
      in (if has_toggle_bit_mask remote then r_toggle_bit_mask remote AND m else 0)
         OR (if has_ignore_mask remote then r_ignore_mask remote AND m else 0))"

text \<open>
  Unknown buttons: the received code goes into one of two helper codes in turn, unless it is
  the code of the last one. (\<open>dyncode\<close> is their index.)
\<close>

definition take_dyncode :: "ir_remote \<Rightarrow> ir_code \<Rightarrow> ir_remote" where
  "take_dyncode remote code =
     (let i = (if nc_code (r_dyncodes remote ! r_dyncode remote) \<noteq> code
               then (r_dyncode remote + 1) mod 2 else r_dyncode remote)
      in remote\<lparr>r_dyncode := i,
               r_dyncodes := (r_dyncodes remote)[i := (r_dyncodes remote ! i)\<lparr>nc_code := code\<rparr>]\<rparr>)"

text \<open>
  A button of a remote with a toggle mask comes in pairs of signals: the first is stored in
  \<open>toggle_code\<close>, the second must be the same.
\<close>

definition check_toggle :: "ir_remote \<Rightarrow> ncode_ref \<Rightarrow> ncode_ref option \<times> ir_remote" where
  "check_toggle remote found =
     (if has_toggle_mask remote then
        (if r_toggle_mask_state remote smod 2 = 0
         then (Some found, remote\<lparr>r_toggle_code := Some found\<rparr>)
         else if Some found \<noteq> r_toggle_code remote
         then (None, remote\<lparr>r_toggle_code := None\<rparr>)
         else (Some found, remote\<lparr>r_toggle_code := None\<rparr>))
      else (Some found, remote))"

text \<open>
  \<open>get_code\<close>: the reference to the code found, the new value of the caller's
  \<open>toggle_bit_mask_state\<close> and the remote.
\<close>

definition get_code ::
    "bool \<Rightarrow> ir_remote \<Rightarrow> ir_code \<Rightarrow> ir_code \<Rightarrow> ir_code \<Rightarrow> bool \<Rightarrow> (ncode_ref option \<times> ir_code) \<times> ir_remote"
where
  "get_code dyncodes remote pre code post repeat_flag =
     (case apply_toggle_mask remote pre code post of
        (pre, code, post) \<Rightarrow>
          if has_pre remote \<and> pre OR pre_ignore remote \<noteq> r_pre_data remote OR pre_ignore remote
          then ((None, 0), remote)
          else if has_post remote \<and> post OR post_ignore remote \<noteq> r_post_data remote OR post_ignore remote
          then ((None, 0), remote)
          else
            (let all = gen_ir_code remote pre code post;
                 all = (if repeat_flag \<and> has_repeat_mask remote then all XOR r_repeat_mask remote else all);
                 tbms = all AND r_toggle_bit_mask remote
             in case get_code_loop remote all repeat_flag 0 (codes_of remote)
                       \<lparr>gs_found = None, gs_found_code = False, gs_have_code = False\<rparr> of
                  (cs, gs) \<Rightarrow>
                    (let remote = remote\<lparr>r_codes := map_option (\<lambda>_. cs) (r_codes remote)\<rparr>;
                         dyn = (\<not> gs_found_code gs \<and> dyncodes);
                         remote = (if dyn then take_dyncode remote code else remote);
                         found = (if dyn then Some (Dyn_Ref (r_dyncode remote))
                                  else map_option Code_Ref (gs_found gs))
                     in case found of
                          None \<Rightarrow> ((None, tbms), remote)
                        | Some f \<Rightarrow>
                            (case check_toggle remote f of (f, remote) \<Rightarrow> ((f, tbms), remote)))))"

section \<open>Bookkeeping of the button found\<close>

text \<open>
  The repeat counter and the toggle state of \<open>set_code\<close>. \<open>same\<close> is \<open>remote == last_decoded\<close>,
  \<open>elapsed\<close> the time since the last signal.
\<close>

definition is_repetition ::
    "ir_remote \<Rightarrow> bool \<Rightarrow> ncode_ref \<Rightarrow> ir_code \<Rightarrow> bool \<Rightarrow> int \<Rightarrow> bool" where
  "is_repetition remote same found tbms repeat_flag elapsed \<longleftrightarrow>
     same
     \<and> (Some found = r_last_code remote
        \<or> nc_next (deref remote found) \<noteq> [] \<and> nc_current (deref remote found) \<noteq> None)
     \<and> repeat_flag \<and> elapsed < 1000000
     \<and> (\<not> has_toggle_bit_mask remote \<or> tbms = r_toggle_bit_mask_state remote)"

definition count_repetition :: "ir_remote \<Rightarrow> ncode_ref \<Rightarrow> ir_remote" where
  "count_repetition remote found =
     (if has_toggle_mask remote then
        (if r_toggle_mask_state remote + 1 = 4
         then remote\<lparr>r_reps := r_reps remote + 1, r_toggle_mask_state := 2\<rparr>
         else remote\<lparr>r_toggle_mask_state := r_toggle_mask_state remote + 1\<rparr>)
      else if nc_current (deref remote found) = None then remote\<lparr>r_reps := r_reps remote + 1\<rparr>
      else remote)"

definition start_button :: "ir_remote \<Rightarrow> ncode_ref \<Rightarrow> ir_code \<Rightarrow> ir_remote" where
  "start_button remote found tbms =
     (let c = deref remote found;
          remote = remote\<lparr>r_reps := (if nc_next c \<noteq> [] \<and> nc_current c = None then 1 else 0)\<rparr>;
          remote = (if has_toggle_mask remote
                    then remote\<lparr>r_toggle_mask_state := 1, r_toggle_code := Some found\<rparr> else remote)
      in if has_toggle_bit_mask remote then remote\<lparr>r_toggle_bit_mask_state := tbms\<rparr> else remote)"

definition full_code :: "ir_remote \<Rightarrow> ir_ncode \<Rightarrow> ir_code" where
  "full_code remote found =
     (let c = (if has_pre remote then push_bit (nat (r_bits remote)) (r_pre_data remote) else 0);
          c = c OR nc_code found;
          c = (if has_post remote
               then push_bit (nat (r_post_data_bits remote)) c OR r_post_data remote else c)
      in if has_flag remote COMPAT_REVERSE then reverse c (bit_count remote) else c)"

definition set_code ::
    "ir_remote \<Rightarrow> bool \<Rightarrow> ncode_ref \<Rightarrow> ir_code \<Rightarrow> decode_ctx_t \<Rightarrow> timeval \<Rightarrow> decode_ctx_t \<times> ir_remote"
where
  "set_code remote same found tbms ctx current =
     (let ctx = (if r_release_detected remote then ctx\<lparr>ctx_repeat_flag := False\<rparr> else ctx);
          remote = remote\<lparr>r_release_detected := False\<rparr>;
          elapsed = time_elapsed (r_last_send remote) current;
          remote = (if is_repetition remote same found tbms (ctx_repeat_flag ctx) elapsed
                    then count_repetition remote found else start_button remote found tbms);
          remote = (if nc_current (deref remote found) = None
                    then remote\<lparr>r_last_code := Some found\<rparr> else remote);
          remote = remote\<lparr>r_last_send := current,
                          r_min_remaining_gap := ctx_min_remaining_gap ctx,
                          r_max_remaining_gap := ctx_max_remaining_gap ctx\<rparr>
      in (ctx\<lparr>ctx_code := full_code remote (deref remote found)\<rparr>, remote))"

section \<open>Messages\<close>

definition PACKET_SIZE :: int where "PACKET_SIZE = 256"

text \<open>
  \<open>write_message\<close>: what \<open>snprintf\<close> formats; its result is the length of that text, of which
  the buffer holds the first \<open>size - 1\<close> characters.
\<close>

definition message_text :: "string \<Rightarrow> string \<Rightarrow> string \<Rightarrow> ir_code \<Rightarrow> int \<Rightarrow> string" where
  "message_text remote_name button_name button_suffix code reps =
     pad_left 16 CHR ''0'' (show_base 16 (unat code)) @ '' ''
     @ pad_left 2 CHR ''0'' (show_base 16 (nat (u32 reps))) @ '' ''
     @ button_name @ button_suffix @ '' '' @ remote_name @ [CHR 0x0A]"

definition write_message ::
    "int \<Rightarrow> string \<Rightarrow> string \<Rightarrow> string \<Rightarrow> ir_code \<Rightarrow> int \<Rightarrow> string \<times> int" where
  "write_message sz remote_name button_name button_suffix code reps =
     (let t = message_text remote_name button_name button_suffix code reps
      in (take (nat (sz - 1)) t, int (length t)))"

end
