(* ===== verification/Remote_Spec.thy ===== *)
theory Remote_Spec
  imports Ir_Remote Samples
begin

text \<open>
  The properties of \<open>lib/ir_remote.c\<close> on single remotes: splitting and mapping of codes, lookup
  by name, the button a decoded signal belongs to, the parameters of a list of remotes, and the
  text of a message.
\<close>

section \<open>Whole codes\<close>

text \<open>A code of three parts, and the widths a remote gives them.\<close>

definition join_code :: "int \<Rightarrow> ir_code \<Rightarrow> int \<Rightarrow> ir_code \<Rightarrow> int \<Rightarrow> ir_code \<Rightarrow> ir_code" where
  "join_code pre_bits pre bits code post_bits post =
     push_bit (nat (bits + post_bits)) (take_bit (nat pre_bits) pre)
     OR push_bit (nat post_bits) (take_bit (nat bits) code) OR take_bit (nat post_bits) post"

definition widths_ok :: "ir_remote \<Rightarrow> bool" where
  "widths_ok r \<longleftrightarrow> 0 \<le> r_pre_data_bits r \<and> 0 \<le> r_bits r \<and> 0 \<le> r_post_data_bits r \<and> bit_count r \<le> 64"

lemma gen_ir_code_join:
  assumes "widths_ok r" and "\<not> is_raw r"
  shows "gen_ir_code r pre code post
    = join_code (r_pre_data_bits r) pre (r_bits r) code (r_post_data_bits r) post"
  using assms
  by (simp add: gen_ir_code_def join_code_def and_gen_mask Let_def widths_ok_def push_bit_or
      nat_add_distrib ac_simps)

lemma bit_join_code:
  fixes pre code post :: ir_code
  assumes "0 \<le> b" "0 \<le> q" "0 \<le> p" "p + b + q \<le> 64"
  shows "bit (join_code p pre b code q post) k \<longleftrightarrow>
    (if k < nat q then bit post k
     else if k < nat (b + q) then bit code (k - nat q)
     else k < nat (p + b + q) \<and> bit pre (k - nat (b + q)))"
proof -
  have "k < 64" if "k < nat (p + b + q)" using that assms by linarith
  then show ?thesis
    using assms by (auto simp: join_code_def bit_simps nat_add_distrib dest: bit_imp_le_length) arith
qed

lemma map_code_eq:
  assumes "widths_ok r"
    and "0 \<le> pre_bits" "0 \<le> bits" "0 \<le> post_bits" "pre_bits + bits + post_bits = bit_count r"
  shows "map_code r ctx pre_bits pre bits code post_bits post =
    (let all = join_code pre_bits pre bits code post_bits post
     in (True, ctx\<lparr>ctx_post := take_bit (nat (r_post_data_bits r)) all,
                   ctx_code := take_bit (nat (r_bits r)) (drop_bit (nat (r_post_data_bits r)) all),
                   ctx_pre := take_bit (nat (r_pre_data_bits r))
                     (drop_bit (nat (r_bits r + r_post_data_bits r)) all)\<rparr>))"
  using assms
  by (simp add: map_code_def join_code_def and_gen_mask Let_def widths_ok_def bit_count_def
      push_bit_or nat_add_distrib ac_simps)

text \<open>
  C29: \<open>map_code\<close> moves a code from the widths of the driver to those of the remote without
  losing or adding a bit: it succeeds exactly when the widths have the same sum, and then the
  three parts it stores, put together by \<open>gen_ir_code\<close>, are the code it was given.
\<close>

theorem map_code_keeps_code:
  assumes "widths_ok r" and "\<not> is_raw r" and "0 \<le> pre_bits" and "0 \<le> bits" and "0 \<le> post_bits"
    and "pre_bits + bits + post_bits \<le> 64"
  shows "case map_code r ctx pre_bits pre bits code post_bits post of (ok, ctx') \<Rightarrow>
    (ok \<longleftrightarrow> pre_bits + bits + post_bits = bit_count r)
    \<and> (ok \<longrightarrow> gen_ir_code r (ctx_pre ctx') (ctx_code ctx') (ctx_post ctx')
               = join_code pre_bits pre bits code post_bits post)
    \<and> (\<not> ok \<longrightarrow> ctx' = ctx)"
proof (cases "pre_bits + bits + post_bits = bit_count r")
  case True
  let ?all = "join_code pre_bits pre bits code post_bits post"
  have w: "0 \<le> r_pre_data_bits r" "0 \<le> r_bits r" "0 \<le> r_post_data_bits r"
    "r_pre_data_bits r + r_bits r + r_post_data_bits r \<le> 64"
    using assms(1) by (simp_all add: widths_ok_def bit_count_def)
  have top: "bit ?all k \<Longrightarrow> k < nat (r_pre_data_bits r + r_bits r + r_post_data_bits r)" for k
    using assms True by (auto simp: bit_join_code bit_count_def split: if_splits)
  have "join_code (r_pre_data_bits r) (take_bit (nat (r_pre_data_bits r)) (drop_bit (nat (r_bits r + r_post_data_bits r)) ?all))
      (r_bits r) (take_bit (nat (r_bits r)) (drop_bit (nat (r_post_data_bits r)) ?all))
      (r_post_data_bits r) (take_bit (nat (r_post_data_bits r)) ?all) = ?all" (is "?l = _")
  proof (rule bit_eqI)
    fix k
    show "bit ?l k \<longleftrightarrow> bit ?all k"
      using w top [of k] by (subst bit_join_code) (auto simp: bit_simps nat_add_distrib)
  qed
  then show ?thesis
    using True assms by (subst map_code_eq) (auto simp: Let_def gen_ir_code_join)
next
  case False
  then show ?thesis using assms by (auto simp: map_code_def bit_count_def)
qed

theorem map_code_keeps_code_witness:
  "case map_code sample_nec \<lparr>ctx_code = 0, ctx_pre = 0, ctx_post = 0, ctx_repeat_flag = False,
       ctx_max_remaining_gap = 0, ctx_min_remaining_gap = 0\<rparr> 0 0 16 0x20B4 0 0 of (ok, ctx') \<Rightarrow>
    (ok \<longleftrightarrow> 0 + 16 + 0 = bit_count sample_nec)
    \<and> (ok \<longrightarrow> gen_ir_code sample_nec (ctx_pre ctx') (ctx_code ctx') (ctx_post ctx')
               = join_code 0 0 16 0x20B4 0 0)
    \<and> (\<not> ok \<longrightarrow> ctx' = \<lparr>ctx_code = 0, ctx_pre = 0, ctx_post = 0, ctx_repeat_flag = False,
       ctx_max_remaining_gap = 0, ctx_min_remaining_gap = 0\<rparr>)"
  by (rule map_code_keeps_code) code_simp+

section \<open>Lookup by name\<close>

lemma index_where_Some:
  "index_where P xs = Some i \<longleftrightarrow> i < length xs \<and> P (xs ! i) \<and> (\<forall>j<i. \<not> P (xs ! j))"
proof (induction xs arbitrary: i)
  case (Cons x xs)
  show ?case
  proof (cases i)
    case (Suc j)
    then show ?thesis using Cons.IH [of j] by (auto simp: less_Suc_eq_0_disj)
  qed auto
qed simp

lemma index_where_None: "index_where P xs = None \<longleftrightarrow> (\<forall>x\<in>set xs. \<not> P x)"
  by (induction xs) auto

text \<open>
  \<open>get_code_by_name\<close> finds the first button whose name is the given one up to upper and
  lower case, and nothing exactly when there is no such button. (The remote named lirc has the
  button \<open>__EOF\<close> only.)
\<close>

theorem get_code_by_name_first:
  assumes "r_codes r = Some cs" and "r_name r \<noteq> ''lirc''"
  shows "(get_code_by_name r nm = Some c \<longleftrightarrow>
      (\<exists>i<length cs. c = Code_Ref i \<and> strcasecmp_eq (nc_name (cs ! i)) nm
         \<and> (\<forall>j<i. \<not> strcasecmp_eq (nc_name (cs ! j)) nm)))
    \<and> (get_code_by_name r nm = None \<longleftrightarrow> (\<forall>x\<in>set cs. \<not> strcasecmp_eq (nc_name x) nm))"
  using assms by (auto simp: get_code_by_name_def index_where_Some index_where_None)

theorem get_code_by_name_first_witness:
  "(get_code_by_name sample_nec ''key_down'' = Some (Code_Ref 1) \<longleftrightarrow>
      (\<exists>i<length sample_codes. Code_Ref 1 = Code_Ref i \<and> strcasecmp_eq (nc_name (sample_codes ! i)) ''key_down''
         \<and> (\<forall>j<i. \<not> strcasecmp_eq (nc_name (sample_codes ! j)) ''key_down'')))
    \<and> (get_code_by_name sample_nec ''key_down'' = None \<longleftrightarrow>
        (\<forall>x\<in>set sample_codes. \<not> strcasecmp_eq (nc_name x) ''key_down''))"
  by (rule get_code_by_name_first) code_simp+

section \<open>The button of a decoded signal\<close>

text \<open>
  A remote without masks, whose buttons have one code each and are not in the middle of a
  sequence.
\<close>

definition plain_remote :: "ir_remote \<Rightarrow> bool" where
  "plain_remote r \<longleftrightarrow> widths_ok r \<and> \<not> is_raw r \<and> r_toggle_mask r = 0 \<and> r_toggle_bit_mask r = 0
     \<and> r_ignore_mask r = 0 \<and> r_repeat_mask r = 0
     \<and> (\<forall>c\<in>set (codes_of r). nc_next c = [] \<and> nc_current c = None)"

text \<open>The button whose code has the given value in the bits that are transmitted.\<close>

definition button_for :: "ir_remote \<Rightarrow> ir_code \<Rightarrow> nat option" where
  "button_for r code =
     index_where (\<lambda>c. take_bit (nat (r_bits r)) (nc_code c) = take_bit (nat (r_bits r)) code) (codes_of r)"

lemma join_code_inject:
  assumes "0 \<le> b" "0 \<le> q" "0 \<le> p" "p + b + q \<le> 64"
  shows "join_code p pre b c q post = join_code p pre b d q post
    \<longleftrightarrow> take_bit (nat b) c = take_bit (nat b) d"
proof
  assume *: "join_code p pre b c q post = join_code p pre b d q post"
  show "take_bit (nat b) c = take_bit (nat b) d"
  proof (rule bit_eqI)
    fix k
    have "bit (join_code p pre b c q post) (k + nat q) = bit (join_code p pre b d q post) (k + nat q)"
      using * by simp
    then show "bit (take_bit (nat b) c) k = bit (take_bit (nat b) d) k"
      using assms by (auto simp: bit_join_code bit_take_bit_iff nat_add_distrib)
  qed
next
  assume "take_bit (nat b) c = take_bit (nat b) d"
  then show "join_code p pre b c q post = join_code p pre b d q post" by (simp add: join_code_def)
qed

lemma join_code_empty: "join_code 0 pre b c q post = join_code 0 pre' b c q post"
  "join_code p pre b c 0 post = join_code p pre b c 0 post'"
  by (simp_all add: join_code_def)

definition found_state :: "nat option \<Rightarrow> get_code_state" where
  "found_state f = \<lparr>gs_found = f, gs_found_code = (f \<noteq> None), gs_have_code = (f \<noteq> None)\<rparr>"

lemma get_code_loop_plain:
  assumes "\<forall>c\<in>set cs. nc_next c = [] \<and> nc_current c = None"
    and "r_ignore_mask r = 0" "r_toggle_bit_mask r = 0" "r_repeat_mask r = 0"
  shows "get_code_loop r all rep i cs (found_state f) =
    (cs, found_state (case f of Some j \<Rightarrow> Some j
       | None \<Rightarrow> map_option (\<lambda>j. j + i)
           (index_where (\<lambda>c. gen_ir_code r (r_pre_data r) (nc_code c) (r_post_data r) = all) cs)))"
  using assms(1)
proof (induction cs arbitrary: i f)
  case Nil
  then show ?case by (cases f) simp_all
next
  case (Cons c cs)
  have c: "nc_next c = []" "nc_current c = None" "c\<lparr>nc_current := None\<rparr> = c"
    using Cons.prems by simp_all
  let ?m = "gen_ir_code r (r_pre_data r) (nc_code c) (r_post_data r) = all"
  have step: "get_code_step r all rep i c (found_state f)
      = (c, found_state (if ?m \<and> f = None then Some i else f))"
    using c assms(2-4)
    by (cases f) (auto simp: get_code_step_def match_ir_code_def has_repeat_mask_def
        find_longest_match_def found_state_def get_ir_code_def Let_def)
  have "\<forall>c\<in>set cs. nc_next c = [] \<and> nc_current c = None" using Cons.prems by simp
  note IH = Cons.IH [OF this, of "Suc i"]
  show ?case
    unfolding get_code_loop.simps step prod.case IH
    by (cases f; cases ?m) (simp_all add: option.map_comp o_def)
qed

lemma get_code_plain:
  assumes "plain_remote r"
  shows "get_code False r pre code post rep =
    ((if (has_pre r \<longrightarrow> pre = r_pre_data r) \<and> (has_post r \<longrightarrow> post = r_post_data r)
      then map_option Code_Ref (button_for r code) else None, 0), r)"
proof -
  have r: "widths_ok r" "\<not> is_raw r" "r_toggle_mask r = 0" "r_toggle_bit_mask r = 0"
     "r_ignore_mask r = 0" "r_repeat_mask r = 0"
    and cs: "\<forall>c\<in>set (codes_of r). nc_next c = [] \<and> nc_current c = None"
    using assms by (simp_all add: plain_remote_def)
  have w: "0 \<le> r_bits r" "0 \<le> r_post_data_bits r" "0 \<le> r_pre_data_bits r"
    "r_pre_data_bits r + r_bits r + r_post_data_bits r \<le> 64"
    using r(1) by (simp_all add: widths_ok_def bit_count_def)
  let ?ok = "(has_pre r \<longrightarrow> pre = r_pre_data r) \<and> (has_post r \<longrightarrow> post = r_post_data r)"
  let ?all = "gen_ir_code r pre code post"
  have all: "?all = gen_ir_code r (r_pre_data r) code (r_post_data r)" if ?ok
    using that w unfolding gen_ir_code_join [OF r(1,2)]
    by (auto simp: has_pre_def has_post_def join_code_def not_less)
  have idx: "index_where (\<lambda>c. gen_ir_code r (r_pre_data r) (nc_code c) (r_post_data r) = ?all) (codes_of r)
      = button_for r code" if ?ok
    unfolding button_for_def all [OF that]
    unfolding gen_ir_code_join [OF r(1,2)] join_code_inject [OF w] ..
  have loop: "get_code_loop r ?all rep 0 (codes_of r) \<lparr>gs_found = None, gs_found_code = False, gs_have_code = False\<rparr>
      = (codes_of r, found_state (button_for r code))" if ?ok
    using get_code_loop_plain [OF cs r(5,4,6), of ?all rep 0 None] idx [OF that]
    by (simp add: found_state_def option.map_ident)
  have same: "r\<lparr>r_codes := map_option (\<lambda>_. codes_of r) (r_codes r)\<rparr> = r"
    by (cases "r_codes r") (simp_all add: codes_of_def)
  have masks: "apply_toggle_mask r pre code post = (pre, code, post)" "pre_ignore r = 0" "post_ignore r = 0"
    using r by (simp_all add: apply_toggle_mask_def has_toggle_mask_def pre_ignore_def post_ignore_def
        has_toggle_bit_mask_def has_ignore_mask_def Let_def)
  show ?thesis
  proof (cases ?ok)
    case True
    then show ?thesis
      using loop [OF True] r
      by (cases "button_for r code")
        (auto simp: get_code_def masks same has_repeat_mask_def found_state_def check_toggle_def
          has_toggle_mask_def Let_def)
  next
    case False
    then show ?thesis by (auto simp: get_code_def masks)
  qed
qed

text \<open>
  C28: The button search. For a remote without masks and with one code for each button,
  \<open>get_code\<close> checks the pre and post data, returns the first button whose code has the received
  value in its transmitted bits, returns NULL when there is none, and leaves the remote as it is.
\<close>

theorem get_code_finds_button:
  assumes "plain_remote r"
  shows "get_code False r pre code post rep =
    ((if (has_pre r \<longrightarrow> pre = r_pre_data r) \<and> (has_post r \<longrightarrow> post = r_post_data r)
      then map_option Code_Ref (button_for r code) else None, 0), r)"
  by (rule get_code_plain [OF assms])

theorem get_code_finds_button_witness:
  "get_code False sample_nec 0x20 0xB4 0 True = ((Some (Code_Ref 1), 0), sample_nec)"
proof -
  have "plain_remote sample_nec" "button_for sample_nec 0xB4 = Some 1" "r_pre_data sample_nec = 0x20"
    "\<not> has_post sample_nec"
    by code_simp+
  then show ?thesis by (simp add: get_code_finds_button)
qed

section \<open>Sequences of codes\<close>

lemma search_match_failed: "search_match r c all cur k search False = None"
  by (induction k arbitrary: search) (simp_all split: prod.split)

text \<open>A button that is the sequence 1 2 1 3 of codes, of which 1 2 1 have been received.\<close>

definition sequence_code :: ir_ncode where
  "sequence_code = zero_ncode\<lparr>nc_name := ''MACRO'', nc_code := 1, nc_next := [2, 1, 3], nc_current := Some 2\<rparr>"

definition sequence_remote :: ir_remote where
  "sequence_remote = (zero_remote ''seq'')\<lparr>r_codes := Some [sequence_code], r_flags := SPACE_ENC, r_bits := 8\<rparr>"

text \<open>
  When the next code of a sequence does not come, \<open>find_longest_match\<close> gives the whole
  sequence up although a shorter start of it was received: \<open>flag\<close> is not set again for the next
  starting point. After 1 2 1 the code 2 comes, 1 2 is a start of 1 2 1 3, and yet the
  result is no match and \<open>current\<close> is NULL; the comparison at that starting point itself succeeds.
\<close>

theorem longest_match_gives_up:
  "find_longest_match sequence_remote sequence_code 2 = (False, sequence_code\<lparr>nc_current := None\<rparr>)
   \<and> compare_codes sequence_code 1 None 1 = (True, Some 0)
   \<and> match_ir_code sequence_remote (gen_ir_code sequence_remote 0 (get_ir_code sequence_code (Some 0)) 0) 2"
  by code_simp

section \<open>Parameters of all remotes\<close>

lemma fold_filter_max:
  fixes get :: "filter_params \<Rightarrow> lirc_t" and lim :: "ir_remote \<Rightarrow> lirc_t"
  assumes "\<And>r f. get (filter_step drv r f) = max (get f) (lim r)"
  shows "get f \<le> get (fold (filter_step drv) rs f) \<and> (\<forall>r\<in>set rs. lim r \<le> get (fold (filter_step drv) rs f))"
proof (induction rs arbitrary: f)
  case (Cons r rs)
  have "get f \<le> get (filter_step drv r f)" "lim r \<le> get (filter_step drv r f)" by (simp_all add: assms)
  moreover have "get (filter_step drv r f) \<le> get (fold (filter_step drv) rs (filter_step drv r f))"
    using Cons.IH by blast
  ultimately show ?case using Cons.IH [of "filter_step drv r f"] by (auto intro: order_trans)
qed simp

lemma lower_limit_pos: "1 \<le> lower_limit drv r x"
  by (auto simp: lower_limit_def Let_def)

lemma fold_filter_min_pulse:
  "0 < fp_min_pulse f \<Longrightarrow>
   0 < fp_min_pulse (fold (filter_step drv) rs f)
   \<and> fp_min_pulse (fold (filter_step drv) rs f) \<le> fp_min_pulse f
   \<and> (\<forall>r\<in>set rs. fp_min_pulse (fold (filter_step drv) rs f) \<le> lower_limit drv r (r_min_pulse_length r))"
proof (induction rs arbitrary: f)
  case (Cons r rs)
  have "fp_min_pulse (filter_step drv r f) = min (fp_min_pulse f) (lower_limit drv r (r_min_pulse_length r))"
    using Cons.prems by (simp add: filter_step_def Let_def min_def)
  then show ?case
    using Cons.IH [of "filter_step drv r f"] Cons.prems lower_limit_pos [of drv r "r_min_pulse_length r"]
    by (auto simp: min_def split: if_splits)
qed simp

text \<open>
  The filter parameters the driver gets for a list of remotes suit every remote of the list:
  the longest gap, pulse and space are at least, and the shortest pulse is at most, the limit of
  each remote.
\<close>

theorem filter_parameters_cover:
  assumes "r \<in> set rs"
  shows "upper_limit drv r (r_max_gap_length r) \<le> fp_max_gap (get_filter_parameters drv rs)
    \<and> upper_limit drv r (r_max_pulse_length r) \<le> fp_max_pulse (get_filter_parameters drv rs)
    \<and> upper_limit drv r (r_max_space_length r) \<le> fp_max_space (get_filter_parameters drv rs)
    \<and> fp_min_pulse (get_filter_parameters drv rs) \<le> lower_limit drv r (r_min_pulse_length r)"
proof -
  have pulse: "fp_min_pulse (fold (filter_step drv) rs f) \<le> lower_limit drv r (r_min_pulse_length r)"
    if "fp_min_pulse f = 0" for f
    using assms that
  proof (cases rs)
    case (Cons q qs)
    have "fp_min_pulse (filter_step drv q f) = lower_limit drv q (r_min_pulse_length q)"
      using that by (simp add: filter_step_def Let_def)
    moreover from this have "0 < fp_min_pulse (filter_step drv q f)"
      using lower_limit_pos [of drv q "r_min_pulse_length q"] by simp
    ultimately show ?thesis
      using fold_filter_min_pulse [of "filter_step drv q f" drv qs] assms Cons by auto
  qed simp
  show ?thesis
    using assms pulse
      fold_filter_max [of fp_max_gap drv "\<lambda>r. upper_limit drv r (r_max_gap_length r)"]
      fold_filter_max [of fp_max_pulse drv "\<lambda>r. upper_limit drv r (r_max_pulse_length r)"]
      fold_filter_max [of fp_max_space drv "\<lambda>r. upper_limit drv r (r_max_space_length r)"]
    by (simp add: get_filter_parameters_def filter_step_def Let_def max_def)
qed

definition two_remotes :: "ir_remote list" where
  "two_remotes = [sample_nec\<lparr>r_min_space_length := 500\<rparr>, sample_nec\<lparr>r_min_space_length := 900\<rparr>]"

definition plain_driver :: driver where
  "plain_driver = \<lparr>d_rec_mode = LIRC_MODE_MODE2, d_code_length = 0, d_resolution = 50\<rparr>"

theorem filter_parameters_cover_witness:
  "upper_limit plain_driver sample_nec (r_max_gap_length sample_nec)
       \<le> fp_max_gap (get_filter_parameters plain_driver [sample_nec])
    \<and> upper_limit plain_driver sample_nec (r_max_pulse_length sample_nec)
       \<le> fp_max_pulse (get_filter_parameters plain_driver [sample_nec])
    \<and> upper_limit plain_driver sample_nec (r_max_space_length sample_nec)
       \<le> fp_max_space (get_filter_parameters plain_driver [sample_nec])
    \<and> fp_min_pulse (get_filter_parameters plain_driver [sample_nec])
       \<le> lower_limit plain_driver sample_nec (r_min_pulse_length sample_nec)"
  by (rule filter_parameters_cover) simp

text \<open>
  The shortest space is not the least one of the remotes but the greatest: with spaces of
  500 and of 900 microseconds the driver is told to drop everything below the limit of 900, which
  the first remote's spaces fall below.
\<close>

theorem min_space_is_greatest:
  "fp_min_space (get_filter_parameters plain_driver two_remotes)
     = lower_limit plain_driver (two_remotes ! 1) (r_min_space_length (two_remotes ! 1))
   \<and> r_min_space_length (two_remotes ! 0) < fp_min_space (get_filter_parameters plain_driver two_remotes)"
  by code_simp

lemma freq_loop_range:
  assumes "mn \<le> mx" and "0 \<le> mn" and "\<forall>r\<in>set rs. 0 \<le> r_freq r"
  shows "case freq_loop rs (mn, mx) of (mn', mx') \<Rightarrow>
    mn' \<le> mn \<and> mx \<le> mx' \<and> (\<forall>r\<in>set rs. r_freq r \<noteq> 0 \<longrightarrow> mn' \<le> r_freq r \<and> r_freq r \<le> mx')
    \<and> (mx' = mx \<or> mx' \<in> r_freq ` set rs)"
  using assms
proof (induction rs arbitrary: mn mx)
  case (Cons r rs)
  let ?m = "if r_freq r \<noteq> 0 then
          (if r_freq r > mx then (mn, r_freq r)
           else if r_freq r < mn then (r_freq r, mx) else (mn, mx))
        else (mn, mx)"
  show ?case
    using Cons.IH [of "fst ?m" "snd ?m"] Cons.prems by (auto split: if_splits)
qed simp

text \<open>
  \<open>get_frequency_range\<close> covers the modulation frequencies of all remotes, and its upper end
  is one of them.
\<close>

theorem frequency_range_covers:
  assumes "\<forall>r\<in>set rs. 0 \<le> r_freq r"
  shows "case get_frequency_range rs of (mn, mx) \<Rightarrow>
    (\<forall>r\<in>set rs. r_freq r \<noteq> 0 \<longrightarrow> mn \<le> r_freq r \<and> r_freq r \<le> mx)
    \<and> (rs \<noteq> [] \<longrightarrow> mx \<in> r_freq ` set rs)"
proof (cases rs)
  case (Cons r qs)
  then show ?thesis
    using freq_loop_range [of "r_freq r" "r_freq r" qs] assms
    by (auto simp: get_frequency_range_def)
qed (simp add: get_frequency_range_def)

theorem frequency_range_covers_witness:
  "case get_frequency_range [sample_nec\<lparr>r_freq := 38000\<rparr>, sample_nec\<lparr>r_freq := 36000\<rparr>] of (mn, mx) \<Rightarrow>
    (\<forall>r\<in>set [sample_nec\<lparr>r_freq := 38000\<rparr>, sample_nec\<lparr>r_freq := 36000\<rparr>].
       r_freq r \<noteq> 0 \<longrightarrow> mn \<le> r_freq r \<and> r_freq r \<le> mx)
    \<and> ([sample_nec\<lparr>r_freq := 38000\<rparr>, sample_nec\<lparr>r_freq := 36000\<rparr>] \<noteq> [] \<longrightarrow>
       mx \<in> r_freq ` set [sample_nec\<lparr>r_freq := 38000\<rparr>, sample_nec\<lparr>r_freq := 36000\<rparr>])"
  by (rule frequency_range_covers) simp

section \<open>Messages\<close>

lemma message_fields:
  fixes code :: ir_code
  assumes "0 \<le> reps" and "reps < 256"
  shows "length (pad_left 16 CHR ''0'' (show_base 16 (unat code))) = 16"
    and "length (pad_left 2 CHR ''0'' (show_base 16 (nat (u32 reps)))) = 2"
    and "read_base 16 (pad_left 16 CHR ''0'' (show_base 16 (unat code))) = unat code"
    and "read_base 16 (pad_left 2 CHR ''0'' (show_base 16 (nat (u32 reps)))) = nat reps"
proof -
  have "unat code < 16 ^ 16" using unsigned_less [of code, where 'a = nat] by simp
  then show "length (pad_left 16 CHR ''0'' (show_base 16 (unat code))) = 16"
    by (intro length_pad_show_base) simp_all
  have u: "u32 reps = reps" using assms by (intro u32_id) (simp add: in_u32_def)
  have "nat reps < 16 ^ 2" using assms by simp
  then show "length (pad_left 2 CHR ''0'' (show_base 16 (nat (u32 reps)))) = 2"
    unfolding u by (intro length_pad_show_base) simp_all
  show "read_base 16 (pad_left 16 CHR ''0'' (show_base 16 (unat code))) = unat code"
    by (simp add: read_base_pad read_show_base)
  show "read_base 16 (pad_left 2 CHR ''0'' (show_base 16 (nat (u32 reps)))) = nat reps"
    by (simp add: read_base_pad read_show_base u)
qed

text \<open>
  A message can be read back. When the buffer is large enough, the first 16 characters of a
  message are the code and characters 17 and 18 the repeat count, in hexadecimal with leading
  zeros, and the rest is the button with its suffix, the remote and the end of the line; the
  length returned is that of the text, larger than the buffer exactly when the text was cut.
\<close>

theorem write_message_reads_back:
  assumes "0 \<le> reps" and "reps < 256"
  shows "case write_message sz rn bn suffix code reps of (msg, len) \<Rightarrow>
    len = int (22 + length bn + length suffix + length rn)
    \<and> (len < sz \<longrightarrow>
         int (length msg) = len
         \<and> read_base 16 (take 16 msg) = unat code
         \<and> read_base 16 (take 2 (drop 17 msg)) = nat reps
         \<and> drop 19 msg = '' '' @ bn @ suffix @ '' '' @ rn @ [CHR 0x0A])
    \<and> (sz \<le> len \<and> 0 < sz \<longrightarrow> int (length msg) = sz - 1)"
proof -
  let ?t = "message_text rn bn suffix code reps"
  note f = message_fields(1,3) [OF assms, of code] message_fields(2,4) [OF assms]
  have t: "length ?t = 22 + length bn + length suffix + length rn" "read_base 16 (take 16 ?t) = unat code"
    "read_base 16 (take 2 (drop 17 ?t)) = nat reps"
    "drop 19 ?t = '' '' @ bn @ suffix @ '' '' @ rn @ [CHR 0x0A]"
    using f by (simp_all add: message_text_def)
  have "take (nat (sz - 1)) ?t = ?t" if "int (length ?t) < sz" using that by simp
  moreover have "int (length (take (nat (sz - 1)) ?t)) = sz - 1" if "sz \<le> int (length ?t)" "0 < sz"
    using that by simp
  ultimately show ?thesis using t by (simp add: write_message_def Let_def) (auto simp: min_def)
qed

theorem write_message_reads_back_witness:
  "case write_message 257 ''nec'' ''KEY_DOWN'' [] 0x20B4 1 of (msg, len) \<Rightarrow>
    len = int (22 + length ''KEY_DOWN'' + length ([] :: string) + length ''nec'')
    \<and> (len < 257 \<longrightarrow>
         int (length msg) = len
         \<and> read_base 16 (take 16 msg) = unat (0x20B4 :: ir_code)
         \<and> read_base 16 (take 2 (drop 17 msg)) = nat 1
         \<and> drop 19 msg = '' '' @ ''KEY_DOWN'' @ [] @ '' '' @ ''nec'' @ [CHR 0x0A])
    \<and> (257 \<le> len \<and> 0 < (257 :: int) \<longrightarrow> int (length msg) = 257 - 1)"
  by (rule write_message_reads_back) simp_all

end
