(* ===== verification/Release.thy ===== *)
theory Release
  imports Ir_Remote
begin

text \<open>
  \<open>lib/release.c\<close>: which button is held, when its release is due, and the release messages;
  with \<open>is_in_remotes\<close> and \<open>get_ir_remote\<close> of \<open>lib/ir_remote.c\<close>, which it calls.

  Remotes live in a store, a function from addresses to remotes. A \<open>struct ir_remote*\<close> is an
  address and a linked list of remotes is the list of the addresses of its elements. Address 0
  is the constant \<open>lirc_internal_remote\<close>.
\<close>

type_synonym remote_ptr = nat
type_synonym store = "remote_ptr \<Rightarrow> ir_remote"

definition lirc_internal_remote :: remote_ptr where "lirc_internal_remote = 0"

definition empty_store :: store where
  "empty_store = (\<lambda>_. zero_remote ''lirc'')"

definition is_in_remotes :: "remote_ptr list \<Rightarrow> remote_ptr \<Rightarrow> bool" where
  "is_in_remotes remotes remote \<longleftrightarrow> remote \<in> set remotes"

definition get_ir_remote :: "store \<Rightarrow> remote_ptr list \<Rightarrow> string \<Rightarrow> remote_ptr option" where
  "get_ir_remote store remotes nm =
     (if nm = ''lirc'' then Some lirc_internal_remote
      else find (\<lambda>p. strcasecmp_eq (r_name (store p)) nm) remotes)"

record release_state =
  rl_time :: timeval
  rl_remote :: "remote_ptr option"
  rl_ncode :: ncode_ref
  rl_code :: ir_code
  rl_reps :: int
  rl_gap :: lirc_t
  rl_remote2 :: "remote_ptr option"
  rl_ncode2 :: ncode_ref
  rl_code2 :: ir_code
  rl_suffix :: string

definition release_init :: release_state where
  "release_init = \<lparr>rl_time = timerclear, rl_remote = None, rl_ncode = Eof_Ref, rl_code = 0,
     rl_reps = 0, rl_gap = 0, rl_remote2 = None, rl_ncode2 = Eof_Ref, rl_code2 = 0,
     rl_suffix = ''_UP''\<rparr>"

text \<open>The macro \<open>timeradd\<close>: one carry from the microseconds into the seconds.\<close>

definition timeradd :: "timeval \<Rightarrow> timeval \<Rightarrow> timeval" where
  "timeradd a b =
     (let s = tv_sec a + tv_sec b; u = tv_usec a + tv_usec b
      in if u \<ge> 1000000 then \<lparr>tv_sec = s + 1, tv_usec = u - 1000000\<rparr>
         else \<lparr>tv_sec = s, tv_usec = u\<rparr>)"

definition register_input :: "timeval \<Rightarrow> release_state \<Rightarrow> release_state" where
  "register_input now rl =
     (if rl_remote rl = None then rl
      else rl\<lparr>rl_time := timeradd now \<lparr>tv_sec = 0, tv_usec = rl_gap rl\<rparr>\<rparr>)"

definition release_gap_of :: "driver \<Rightarrow> ir_remote \<Rightarrow> lirc_t" where
  "release_gap_of drv remote =
     upper_limit drv remote (r_max_total_signal_length remote - r_min_gap_length remote)
     + receive_timeout (upper_limit drv remote (r_min_gap_length remote)) + 10000"

definition register_button_press ::
    "driver \<Rightarrow> store \<Rightarrow> timeval \<Rightarrow> remote_ptr \<Rightarrow> ncode_ref \<Rightarrow> ir_code \<Rightarrow> int \<Rightarrow> release_state \<Rightarrow> release_state"
where
  "register_button_press drv store now remote ncode code reps rl =
     (let rl = (if reps = 0 \<and> rl_remote rl \<noteq> None
                then rl\<lparr>rl_remote2 := rl_remote rl, rl_ncode2 := rl_ncode rl, rl_code2 := rl_code rl\<rparr>
                else rl)
      in register_input now
           (rl\<lparr>rl_remote := Some remote, rl_ncode := ncode, rl_code := code, rl_reps := reps,
               rl_gap := release_gap_of drv (store remote)\<rparr>))"

text \<open>The name of a remote and of a button, as the release functions return them.\<close>

definition button_of :: "store \<Rightarrow> remote_ptr \<Rightarrow> ncode_ref \<Rightarrow> string \<times> string" where
  "button_of store p c = (r_name (store p), nc_name (deref (store p) c))"

definition get_release_data :: "store \<Rightarrow> release_state \<Rightarrow> (string \<times> string) \<times> int" where
  "get_release_data store rl =
     (case rl_remote rl of
        Some p \<Rightarrow> (button_of store p (rl_ncode rl), rl_reps rl)
      | None \<Rightarrow> ((''(NULL)'', ''(NULL)''), 0))"

definition set_release_suffix :: "string \<Rightarrow> release_state \<Rightarrow> release_state" where
  "set_release_suffix s rl = rl\<lparr>rl_suffix := s\<rparr>"

definition get_release_time :: "release_state \<Rightarrow> timeval" where
  "get_release_time rl = rl_time rl"

definition release_message :: "store \<Rightarrow> string \<Rightarrow> remote_ptr \<Rightarrow> ncode_ref \<Rightarrow> ir_code \<Rightarrow> string option"
where
  "release_message store suffix p c code =
     (case write_message (PACKET_SIZE + 1) (r_name (store p)) (nc_name (deref (store p) c)) suffix code 0 of
        (msg, len) \<Rightarrow> if len \<ge> PACKET_SIZE + 1 then None else Some msg)"

text \<open>
  A release event: the names that are handed out (None when the function leaves its output
  arguments alone) and the message.
\<close>

type_synonym release_event = "(string \<times> string) option \<times> string option"

definition check_release_event :: "store \<Rightarrow> release_state \<Rightarrow> release_event \<times> release_state" where
  "check_release_event store rl =
     (case rl_remote2 rl of
        None \<Rightarrow> ((None, None), rl)
      | Some p \<Rightarrow>
          ((Some (button_of store p (rl_ncode2 rl)),
            release_message store (rl_suffix rl) p (rl_ncode2 rl) (rl_code2 rl)),
           rl\<lparr>rl_remote2 := None, rl_ncode2 := Eof_Ref, rl_code2 := 0\<rparr>))"

definition trigger_release_event ::
    "store \<Rightarrow> release_state \<Rightarrow> release_event \<times> store \<times> release_state" where
  "trigger_release_event store rl =
     (case rl_remote rl of
        None \<Rightarrow> ((None, None), store, rl)
      | Some p \<Rightarrow>
          ((Some (button_of store p (rl_ncode rl)),
            release_message store (rl_suffix rl) p (rl_ncode rl) (rl_code rl)),
           store(p := (store p)\<lparr>r_release_detected := True\<rparr>),
           rl\<lparr>rl_time := timerclear, rl_remote := None, rl_ncode := Eof_Ref, rl_code := 0\<rparr>))"

text \<open>
  After the configuration has been read again: the button that is held is looked up by name in
  the new list of remotes, and released when it is not there any more.
\<close>

definition release_map_remotes ::
    "store \<Rightarrow> remote_ptr list \<Rightarrow> remote_ptr list \<Rightarrow> release_state \<Rightarrow> release_event \<times> store \<times> release_state"
where
  "release_map_remotes store old new rl =
     (let rl = rl\<lparr>rl_remote2 := None\<rparr>
      in case rl_remote rl of
           None \<Rightarrow> ((None, None), store, rl)
         | Some p \<Rightarrow>
             if is_in_remotes old p then
               (case get_ir_remote store new (r_name (store p)) of
                  None \<Rightarrow> trigger_release_event store rl
                | Some q \<Rightarrow>
                    (case get_code_by_name (store q) (nc_name (deref (store p) (rl_ncode rl))) of
                       None \<Rightarrow> trigger_release_event store rl
                     | Some c \<Rightarrow> ((None, None), store, rl\<lparr>rl_remote := Some q, rl_ncode := c\<rparr>)))
             else ((None, None), store, rl))"

end
