(* ===== verification/State_System.thy ===== *)
theory State_System
  imports Main
begin

text \<open>
  State machines: the states that a step relation reaches from an initial state, and the contract of
  an invariant. The components that are driven by events - the release generator, the application,
  the client of the daemon - interpret the locale on their own steps.
\<close>

inductive reaches :: "'s \<Rightarrow> ('s \<Rightarrow> 'e \<Rightarrow> 's \<Rightarrow> bool) \<Rightarrow> 's \<Rightarrow> bool" for init step where
  start: "reaches init step init"
| further: "reaches init step s \<Longrightarrow> step s e s' \<Longrightarrow> reaches init step s'"

locale invariant_system =
  fixes init :: 's
    and step :: "'s \<Rightarrow> 'e \<Rightarrow> 's \<Rightarrow> bool"
    and inv :: "'s \<Rightarrow> bool"
  assumes inv_init: "inv init"
    and inv_step: "inv s \<Longrightarrow> step s e s' \<Longrightarrow> inv s'"
begin

lemma reaches_inv: "reaches init step s \<Longrightarrow> inv s"
  by (induction rule: reaches.induct) (auto intro: inv_init inv_step)

end

end
