(* ===== verification/Release_Spec.thy ===== *)
theory Release_Spec
  imports Release Samples State_System
begin

text \<open>
  The release generator as a state machine: its operations as steps, what holds in every
  reachable state, and what each operation promises.
\<close>

section \<open>Steps\<close>

datatype release_op =
    Press timeval remote_ptr ncode_ref ir_code int
  | Input timeval
  | Check
  | Trigger
  | Map_Remotes "remote_ptr list" "remote_ptr list"
  | Suffix string

text \<open>
  A state of the library's release side: the remotes and the release state. A time of the clock
  is after the start of the epoch and normalised.
\<close>

definition clock_time :: "timeval \<Rightarrow> bool" where
  "clock_time t \<longleftrightarrow> 0 < tv_sec t \<and> 0 \<le> tv_usec t \<and> tv_usec t < 1000000"

inductive release_step :: "driver \<Rightarrow> store \<times> release_state \<Rightarrow> release_op \<Rightarrow> store \<times> release_state \<Rightarrow> bool"
  for drv where
  Press: "clock_time now \<Longrightarrow>
    release_step drv (s, rl) (Press now p c code reps) (s, register_button_press drv s now p c code reps rl)"
| Input: "clock_time now \<Longrightarrow> release_step drv (s, rl) (Input now) (s, register_input now rl)"
| Check: "check_release_event s rl = (e, rl') \<Longrightarrow> release_step drv (s, rl) Check (s, rl')"
| Trigger: "trigger_release_event s rl = (e, s', rl') \<Longrightarrow> release_step drv (s, rl) Trigger (s', rl')"
| Map_Remotes: "release_map_remotes s old new rl = (e, s', rl') \<Longrightarrow>
    release_step drv (s, rl) (Map_Remotes old new) (s', rl')"
| Suffix: "release_step drv (s, rl) (Suffix x) (s, set_release_suffix x rl)"

abbreviation release_reachable :: "driver \<Rightarrow> store \<Rightarrow> store \<times> release_state \<Rightarrow> bool" where
  "release_reachable drv s0 \<equiv> reaches (s0, release_init) (release_step drv)"

section \<open>The invariant\<close>

text \<open>
  The release timer is armed exactly while a button is held; without a button the code and the
  reference are reset.
\<close>

definition release_inv :: "release_state \<Rightarrow> bool" where
  "release_inv rl \<longleftrightarrow>
     (rl_remote rl = None \<longrightarrow> rl_time rl = timerclear \<and> rl_ncode rl = Eof_Ref \<and> rl_code rl = 0)
     \<and> (rl_remote rl \<noteq> None \<longrightarrow> timerisset (rl_time rl))"

lemma timeradd_set: "clock_time a \<Longrightarrow> timerisset (timeradd a \<lparr>tv_sec = 0, tv_usec = g\<rparr>)"
  by (auto simp: clock_time_def timeradd_def timerisset_def Let_def)

lemma register_input_inv: "clock_time now \<Longrightarrow> release_inv rl \<Longrightarrow> release_inv (register_input now rl)"
  by (auto simp: register_input_def release_inv_def intro!: timeradd_set)

lemma press_held:
  "rl_remote (register_button_press drv s now p c code reps rl) = Some p"
  "rl_ncode (register_button_press drv s now p c code reps rl) = c"
  "rl_code (register_button_press drv s now p c code reps rl) = code"
  "rl_time (register_button_press drv s now p c code reps rl)
     = timeradd now \<lparr>tv_sec = 0, tv_usec = release_gap_of drv (s p)\<rparr>"
  by (simp_all add: register_button_press_def register_input_def Let_def)

lemma press_second:
  "rl_remote rl = Some p0 \<Longrightarrow>
   rl_remote2 (register_button_press drv s now p c code 0 rl) = Some p0
   \<and> rl_ncode2 (register_button_press drv s now p c code 0 rl) = rl_ncode rl
   \<and> rl_code2 (register_button_press drv s now p c code 0 rl) = rl_code rl"
  "reps \<noteq> 0 \<Longrightarrow> rl_remote2 (register_button_press drv s now p c code reps rl) = rl_remote2 rl"
  "rl_suffix (register_button_press drv s now p c code reps rl) = rl_suffix rl"
  by (simp_all add: register_button_press_def register_input_def Let_def)

lemma release_step_inv:
  assumes "release_step drv st op st'" and "release_inv (snd st)"
  shows "release_inv (snd st')"
  using assms
proof (cases rule: release_step.cases)
  case (Press now s rl p c code reps)
  then show ?thesis by (simp add: release_inv_def press_held timeradd_set)
next
  case Input
  then show ?thesis using assms(2) by (simp add: register_input_inv)
qed (use assms(2) in \<open>auto simp: check_release_event_def trigger_release_event_def
       release_map_remotes_def set_release_suffix_def release_inv_def Let_def split: option.splits if_splits\<close>)

interpretation released: invariant_system "(s0, release_init)" "release_step drv" "\<lambda>st. release_inv (snd st)" for s0 drv
proof unfold_locales
  show "release_inv (snd (s0, release_init))" by (simp add: release_inv_def release_init_def)
qed (rule release_step_inv)

text \<open>
  C10: In every state the release generator can reach, whatever the order of presses, input,
  checks, timeouts and reloads of the configuration, the release timer is armed exactly while a
  button is held.
\<close>

theorem release_timer_armed:
  assumes "release_reachable drv s0 (s, rl)"
  shows "(rl_remote rl \<noteq> None \<longleftrightarrow> timerisset (get_release_time rl))
    \<and> (rl_remote rl = None \<longrightarrow> rl_ncode rl = Eof_Ref \<and> rl_code rl = 0)"
  using released.reaches_inv [OF assms]
  by (auto simp: release_inv_def get_release_time_def timerisset_def timerclear_def)

definition sample_store :: store where
  "sample_store = (\<lambda>p. if p = 1 then sample_nec else zero_remote ''lirc'')"

definition sample_now :: timeval where
  "sample_now = \<lparr>tv_sec = 1000, tv_usec = 999000\<rparr>"

definition sample_drv :: driver where
  "sample_drv = \<lparr>d_rec_mode = LIRC_MODE_MODE2, d_code_length = 0, d_resolution = 50\<rparr>"

definition sample_pressed :: release_state where
  "sample_pressed = register_button_press sample_drv sample_store sample_now 1 (Code_Ref 1) 0x20B4 0 release_init"

theorem release_timer_armed_witness:
  "rl_remote sample_pressed \<noteq> None \<longleftrightarrow> timerisset (get_release_time sample_pressed)"
proof -
  have "clock_time sample_now" by code_simp
  then have "release_reachable sample_drv sample_store (sample_store, sample_pressed)"
    unfolding sample_pressed_def
    by - (rule reaches.further, rule reaches.start, erule release_step.Press)
  from release_timer_armed [OF this] show ?thesis by (rule conjunct1)
qed

section \<open>Releases\<close>

lemma check_after_press:
  "rl_remote rl = Some p0 \<Longrightarrow> fst (check_release_event s (register_button_press drv s now p c code 0 rl))
      = (Some (button_of s p0 (rl_ncode rl)), release_message s (rl_suffix rl) p0 (rl_ncode rl) (rl_code rl))"
  using press_second(1) [of rl p0 drv s now p c code]
  by (simp add: check_release_event_def press_second)

lemma check_twice: "fst (check_release_event s (snd (check_release_event s rl))) = (None, None)"
  by (simp add: check_release_event_def split: option.split)

lemma check_after_repeat:
  "reps \<noteq> 0 \<Longrightarrow> rl_remote2 rl = None \<Longrightarrow>
   fst (check_release_event s (register_button_press drv s now p c code reps rl)) = (None, None)"
  by (simp add: check_release_event_def press_second)

lemma sample_release:
  "rl_remote sample_pressed = Some 1"
  "button_of sample_store 1 (rl_ncode sample_pressed) = (''nec'', ''KEY_DOWN'')"
  by code_simp+

text \<open>
  C33: A new button while another is held: the next \<open>check_release_event\<close> hands out the release
  of the button held before, with its own code and the suffix, once; a repetition of a button
  releases nothing.
\<close>

theorem press_releases_previous:
  assumes "rl_remote rl = Some p0"
  shows "fst (check_release_event s (register_button_press drv s now p c code 0 rl))
      = (Some (button_of s p0 (rl_ncode rl)), release_message s (rl_suffix rl) p0 (rl_ncode rl) (rl_code rl))
    \<and> fst (check_release_event s (snd (check_release_event s (register_button_press drv s now p c code 0 rl))))
      = (None, None)
    \<and> (reps \<noteq> 0 \<and> rl_remote2 rl = None \<longrightarrow>
         fst (check_release_event s (register_button_press drv s now p c code reps rl)) = (None, None))"
  using check_after_press [OF assms] check_twice check_after_repeat by blast

theorem press_releases_previous_witness:
  "fst (check_release_event sample_store
      (register_button_press sample_drv sample_store sample_now 1 (Code_Ref 0) 0x2010 0 sample_pressed))
    = (Some (''nec'', ''KEY_DOWN''),
       release_message sample_store (rl_suffix sample_pressed) 1 (rl_ncode sample_pressed) (rl_code sample_pressed))"
  by (simp only: press_releases_previous [OF sample_release(1), THEN conjunct1] sample_release(2))

lemma start_button_fields [simp]:
  "r_reps (start_button r f t) \<le> 1" "r_release_detected (start_button r f t) = r_release_detected r"
  by (simp_all add: start_button_def Let_def)

lemma is_repetition_flag: "\<not> is_repetition r same f t False e"
  by (simp add: is_repetition_def)

lemma set_code_fields:
  "ctx_repeat_flag (fst (set_code r same found tbms ctx current))
     \<longleftrightarrow> ctx_repeat_flag ctx \<and> \<not> r_release_detected r"
  "r_release_detected (snd (set_code r same found tbms ctx current)) \<longleftrightarrow> False"
  "r_reps (snd (set_code r same found tbms ctx current)) =
     r_reps (if is_repetition (r\<lparr>r_release_detected := False\<rparr>) same found tbms
                  (ctx_repeat_flag ctx \<and> \<not> r_release_detected r) (time_elapsed (r_last_send r) current)
             then count_repetition (r\<lparr>r_release_detected := False\<rparr>) found
             else start_button (r\<lparr>r_release_detected := False\<rparr>) found tbms)"
proof -
  have keep: "r_release_detected (count_repetition q f) = r_release_detected q" for q f
    by (simp add: count_repetition_def)
  show "ctx_repeat_flag (fst (set_code r same found tbms ctx current))
     \<longleftrightarrow> ctx_repeat_flag ctx \<and> \<not> r_release_detected r"
    unfolding set_code_def Let_def fst_conv by simp
  show "r_release_detected (snd (set_code r same found tbms ctx current)) \<longleftrightarrow> False"
    unfolding set_code_def Let_def snd_conv by (simp add: keep)
  show "r_reps (snd (set_code r same found tbms ctx current)) =
     r_reps (if is_repetition (r\<lparr>r_release_detected := False\<rparr>) same found tbms
                  (ctx_repeat_flag ctx \<and> \<not> r_release_detected r) (time_elapsed (r_last_send r) current)
             then count_repetition (r\<lparr>r_release_detected := False\<rparr>) found
             else start_button (r\<lparr>r_release_detected := False\<rparr>) found tbms)"
    unfolding set_code_def Let_def snd_conv by (cases "r_release_detected r") simp_all
qed
text \<open>
  After a timeout the held button is released and the next signal of that remote starts a new
  button press: \<open>set_code\<close> clears the repeat flag and counts from the beginning, whatever the
  signal says about being a repetition.
\<close>

theorem trigger_starts_anew:
  assumes "rl_remote rl = Some p" and "trigger_release_event s rl = (e, s', rl')"
  shows "e = (Some (button_of s p (rl_ncode rl)), release_message s (rl_suffix rl) p (rl_ncode rl) (rl_code rl))
    \<and> rl_remote rl' = None \<and> \<not> timerisset (get_release_time rl')
    \<and> (case set_code (s' p) same found tbms ctx current of (ctx', r) \<Rightarrow>
         \<not> ctx_repeat_flag ctx' \<and> \<not> r_release_detected r \<and> r_reps r \<le> 1)"
proof -
  have s': "s' p = (s p)\<lparr>r_release_detected := True\<rparr>"
    and e: "e = (Some (button_of s p (rl_ncode rl)), release_message s (rl_suffix rl) p (rl_ncode rl) (rl_code rl))"
    "rl_remote rl' = None" "\<not> timerisset (get_release_time rl')"
    using assms by (auto simp: trigger_release_event_def get_release_time_def timerclear_def timerisset_def)
  show ?thesis
    using e by (simp add: s' split_beta set_code_fields is_repetition_flag)
qed

theorem trigger_starts_anew_witness:
  "case trigger_release_event sample_store sample_pressed of (e, s', rl') \<Rightarrow>
     e = (Some (''nec'', ''KEY_DOWN''),
       release_message sample_store (rl_suffix sample_pressed) 1 (rl_ncode sample_pressed) (rl_code sample_pressed))
     \<and> (case set_code (s' 1) True (Code_Ref 1) 0
            \<lparr>ctx_code = 0xB4, ctx_pre = 0x20, ctx_post = 0, ctx_repeat_flag = True,
             ctx_max_remaining_gap = 0, ctx_min_remaining_gap = 0\<rparr> sample_now of (ctx', r) \<Rightarrow>
         \<not> ctx_repeat_flag ctx' \<and> \<not> r_release_detected r \<and> r_reps r \<le> 1)"
proof (cases "trigger_release_event sample_store sample_pressed")
  case (fields e s' rl')
  from trigger_starts_anew [OF sample_release(1) this, unfolded sample_release(2)] this
  show ?thesis by (simp only: prod.case)
qed

section \<open>Reading the configuration again\<close>

lemma get_ir_remote_mem:
  "nm \<noteq> ''lirc'' \<Longrightarrow> get_ir_remote s rs nm = Some q \<Longrightarrow> q \<in> set rs \<and> strcasecmp_eq (r_name (s q)) nm"
  by (auto simp: get_ir_remote_def find_Some_iff)

lemma get_code_by_name_name:
  "get_code_by_name r nm = Some c \<Longrightarrow> r_name r \<noteq> ''lirc'' \<Longrightarrow> strcasecmp_eq (nc_name (deref r c)) nm"
proof -
  have "strcasecmp_eq (nc_name (cs ! i)) nm"
    if "index_where (\<lambda>c. strcasecmp_eq (nc_name c) nm) cs = Some i" for cs i
    using that by (induction cs arbitrary: i) (auto split: if_splits)
  then show "get_code_by_name r nm = Some c \<Longrightarrow> r_name r \<noteq> ''lirc'' \<Longrightarrow> ?thesis"
    by (auto simp: get_code_by_name_def deref_def codes_of_def split: option.splits if_splits)
qed

text \<open>
  C30: Reading the configuration again leaves no reference to the old remotes: a button of the
  old list that is held is afterwards either a button of the same names (up to case) of a remote
  of the new list, or it has been released with its names and nothing is held. The second
  pending release is dropped.
\<close>

theorem map_remotes_no_dangling:
  assumes "rl_remote rl = Some p" and "p \<in> set old"
    and "\<forall>q\<in>set new. r_name (s q) \<noteq> ''lirc''"
    and "r_codes (s lirc_internal_remote) = None"
    and "release_map_remotes s old new rl = (e, s', rl')"
  shows "rl_remote2 rl' = None
    \<and> ((\<exists>q\<in>set new. rl_remote rl' = Some q \<and> e = (None, None) \<and> s' = s
          \<and> strcasecmp_eq (r_name (s q)) (r_name (s p))
          \<and> strcasecmp_eq (nc_name (deref (s q) (rl_ncode rl'))) (nc_name (deref (s p) (rl_ncode rl))))
       \<or> (rl_remote rl' = None \<and> fst e = Some (button_of s p (rl_ncode rl))))"
proof (cases "get_ir_remote s new (r_name (s p))")
  case None
  then show ?thesis
    using assms by (auto simp: release_map_remotes_def is_in_remotes_def trigger_release_event_def Let_def)
next
  case (Some q)
  show ?thesis
  proof (cases "get_code_by_name (s q) (nc_name (deref (s p) (rl_ncode rl)))")
    case None
    then show ?thesis
      using Some assms
      by (auto simp: release_map_remotes_def is_in_remotes_def trigger_release_event_def Let_def)
  next
    case code: (Some c)
    have "r_name (s p) \<noteq> ''lirc''"
    proof
      assume "r_name (s p) = ''lirc''"
      then have "q = lirc_internal_remote" using Some by (simp add: get_ir_remote_def)
      then show False using code assms(4) by (simp add: get_code_by_name_def)
    qed
    then have q: "q \<in> set new" "strcasecmp_eq (r_name (s q)) (r_name (s p))"
      using get_ir_remote_mem [OF _ Some] by simp_all
    moreover have "r_name (s q) \<noteq> ''lirc''" using q assms(3) by blast
    ultimately show ?thesis
      using Some code assms get_code_by_name_name [OF code]
      by (auto simp: release_map_remotes_def is_in_remotes_def Let_def)
  qed
qed

definition two_store :: store where
  "two_store = (\<lambda>p. if p = 1 then sample_nec else if p = 2 then sample_nec\<lparr>r_name := ''NEC''\<rparr>
     else zero_remote ''lirc'')"

theorem map_remotes_no_dangling_witness:
  "case release_map_remotes two_store [1] [2] sample_pressed of (e, s', rl') \<Rightarrow>
     rl_remote2 rl' = None
    \<and> ((\<exists>q\<in>set [2]. rl_remote rl' = Some q \<and> e = (None, None) \<and> s' = two_store
          \<and> strcasecmp_eq (r_name (two_store q)) (r_name (two_store 1))
          \<and> strcasecmp_eq (nc_name (deref (two_store q) (rl_ncode rl')))
              (nc_name (deref (two_store 1) (rl_ncode sample_pressed))))
       \<or> (rl_remote rl' = None \<and> fst e = Some (button_of two_store 1 (rl_ncode sample_pressed))))"
proof (cases "release_map_remotes two_store [1] [2] sample_pressed")
  case (fields e s' rl')
  have "rl_remote sample_pressed = Some 1" "(1 :: nat) \<in> set [1]"
    "\<forall>q\<in>set [2]. r_name (two_store q) \<noteq> ''lirc''" "r_codes (two_store lirc_internal_remote) = None"
    by code_simp+
  from map_remotes_no_dangling [OF this fields] show ?thesis using fields by simp
qed

section \<open>The release time\<close>

text \<open>
  The release of a button is due \<open>release_gap\<close> microseconds after the press, at a normalised
  time, when that gap is below a second. \<open>timeradd\<close> carries once, so with a gap of a second or more
  (1 s total signal, 500 ms gap) the microseconds stay out of range.
\<close>

theorem release_time_due:
  assumes "clock_time now" and "0 \<le> release_gap_of drv (s p)" and "release_gap_of drv (s p) < 1000000"
  shows "(let t = rl_time (register_button_press drv s now p c code reps rl)
     in 1000000 * tv_sec t + tv_usec t
          = 1000000 * tv_sec now + tv_usec now + release_gap_of drv (s p)
        \<and> 0 \<le> tv_usec t \<and> tv_usec t < 1000000)
    \<and> (let r = (zero_remote ''slow'')\<lparr>r_max_total_signal_length := 1000000, r_min_gap_length := 500000\<rparr>
       in tv_usec (rl_time (register_button_press sample_drv (\<lambda>_. r) sample_now p c code reps rl)) = 1509150)"
proof -
  have "release_gap_of sample_drv
     ((zero_remote ''slow'')\<lparr>r_max_total_signal_length := 1000000, r_min_gap_length := 500000\<rparr>) = 1510150"
    by code_simp
  then show ?thesis
    using assms by (auto simp: press_held timeradd_def clock_time_def sample_now_def Let_def)
qed

theorem release_time_due_witness:
  "let t = rl_time (register_button_press sample_drv sample_store sample_now 1 (Code_Ref 1) 0xB4 0 sample_pressed)
     in 1000000 * tv_sec t + tv_usec t
          = 1000000 * tv_sec sample_now + tv_usec sample_now + release_gap_of sample_drv (sample_store 1)
        \<and> 0 \<le> tv_usec t \<and> tv_usec t < 1000000"
proof -
  have "clock_time sample_now" "0 \<le> release_gap_of sample_drv (sample_store 1)"
    "release_gap_of sample_drv (sample_store 1) < 1000000"
    by code_simp+
  from release_time_due [where s = sample_store and p = 1, OF this] show ?thesis by blast
qed

end
