(* ===== verification/Receive.thy ===== *)
theory Receive
  imports Ir_Inline
begin

text \<open>
  \<open>lib/receive.c\<close>: the receive buffer, the reads that fill it from the driver, the primitives
  that expect a pulse or a space of a given length (with the pending pulse or space of the
  previous bit), the decoders of the parts of a signal for each protocol, and
  \<open>receive_decode\<close>.

  The state \<open>rx\<close> holds the global \<open>rec_buffer\<close>, the remote that is being decoded, the global
  \<open>last_remote\<close>, the current driver's constants, and the environment: the values the driver's
  \<open>readdata\<close> returns from now on (0, a timeout, once the list is used up) and the results of
  the coming calls of \<open>gettimeofday\<close>. The ghost field \<open>b_stray\<close> is set by a read or write of
  \<open>data\<close> outside its 512 entries; no branch reads it.
\<close>

section \<open>State\<close>

definition RBUF_SIZE :: int where "RBUF_SIZE = 512"
definition REC_SYNC :: nat where "REC_SYNC = 8"

record rbuf =
  b_data :: "lirc_t list"
  b_decoded :: ir_code
  b_rptr :: int
  b_wptr :: int
  b_too_long :: bool
  b_is_biphase :: bool
  b_pendingp :: lirc_t
  b_pendings :: lirc_t
  b_sum :: lirc_t
  b_last_signal_time :: timeval
  b_at_eof :: bool
  b_input_log :: "(bool \<times> lirc_t) list option"
  b_stray :: bool

datatype last_ref = Last_None | Last_Same | Last_Other ir_remote

record rx =
  rx_buf :: rbuf
  rx_remote :: ir_remote
  rx_last :: last_ref
  rx_driver :: driver
  rx_update_mode :: bool
  rx_inputs :: "lirc_t list"
  rx_clock :: "timeval list"

definition rx_last_remote :: "rx \<Rightarrow> ir_remote option" where
  "rx_last_remote st =
     (case rx_last st of Last_None \<Rightarrow> None | Last_Same \<Rightarrow> Some (rx_remote st)
      | Last_Other r \<Rightarrow> Some r)"

definition gettimeofday :: "rx \<Rightarrow> timeval \<times> rx" where
  "gettimeofday st =
     (case rx_clock st of
        [] \<Rightarrow> (timerclear, st)
      | t # ts \<Rightarrow> (t, st\<lparr>rx_clock := ts\<rparr>))"

definition in_rbuf :: "int \<Rightarrow> bool" where
  "in_rbuf i \<longleftrightarrow> 0 \<le> i \<and> i < RBUF_SIZE"

definition data_at :: "rbuf \<Rightarrow> int \<Rightarrow> lirc_t" where
  "data_at b i = (if in_rbuf i then b_data b ! nat i else 0)"

definition touch :: "int \<Rightarrow> rbuf \<Rightarrow> rbuf" where
  "touch i b = b\<lparr>b_stray := b_stray b \<or> \<not> in_rbuf i\<rparr>"

definition put_data :: "int \<Rightarrow> lirc_t \<Rightarrow> rbuf \<Rightarrow> rbuf" where
  "put_data i d b =
     (if in_rbuf i then b\<lparr>b_data := (b_data b)[nat i := d]\<rparr> else b\<lparr>b_stray := True\<rparr>)"

definition upd_buf :: "(rbuf \<Rightarrow> rbuf) \<Rightarrow> rx \<Rightarrow> rx" where
  "upd_buf f st = st\<lparr>rx_buf := f (rx_buf st)\<rparr>"

definition rec_buffer_init :: rbuf where
  "rec_buffer_init = \<lparr>b_data = replicate (nat RBUF_SIZE) 0, b_decoded = 0, b_rptr = 0, b_wptr = 0,
     b_too_long = False, b_is_biphase = False, b_pendingp = 0, b_pendings = 0, b_sum = 0,
     b_last_signal_time = timerclear, b_at_eof = False, b_input_log = None, b_stray = False\<rparr>"

definition rec_buffer_rewind :: "rbuf \<Rightarrow> rbuf" where
  "rec_buffer_rewind b = b\<lparr>b_rptr := 0, b_too_long := False, b_pendingp := 0, b_pendings := 0,
     b_sum := 0, b_at_eof := False\<rparr>"

definition rec_buffer_reset_wptr :: "rbuf \<Rightarrow> rbuf" where
  "rec_buffer_reset_wptr b = b\<lparr>b_wptr := 0\<rparr>"

definition set_pending_pulse :: "lirc_t \<Rightarrow> rx \<Rightarrow> rx" where
  "set_pending_pulse d = upd_buf (\<lambda>b. b\<lparr>b_pendingp := d\<rparr>)"

definition set_pending_space :: "lirc_t \<Rightarrow> rx \<Rightarrow> rx" where
  "set_pending_space d = upd_buf (\<lambda>b. b\<lparr>b_pendings := d\<rparr>)"

section \<open>Reading the driver\<close>

definition readdata :: "rx \<Rightarrow> lirc_t \<times> rx" where
  "readdata st =
     (case rx_inputs st of
        [] \<Rightarrow> (0, upd_buf (\<lambda>b. b\<lparr>b_at_eof := False\<rparr>) st)
      | d # ds \<Rightarrow>
          (d, upd_buf (\<lambda>b. b\<lparr>b_at_eof := (d AND LIRC_EOF \<noteq> 0)\<rparr>) (st\<lparr>rx_inputs := ds\<rparr>)))"

definition log_input :: "lirc_t \<Rightarrow> rbuf \<Rightarrow> rbuf" where
  "log_input d b =
     b\<lparr>b_input_log := map_option (\<lambda>l. l @ [(d AND PULSE_BIT \<noteq> 0, d AND PULSE_MASK)]) (b_input_log b)\<rparr>"

text \<open>The time since the last signal, 0 when there was none.\<close>

definition signal_elapsed :: "rx \<Rightarrow> int \<times> rx" where
  "signal_elapsed st =
     (if timerisset (b_last_signal_time (rx_buf st))
      then (case gettimeofday st of
              (t, st) \<Rightarrow> (time_elapsed (b_last_signal_time (rx_buf st)) t, st))
      else (0, st))"

text \<open>Taking the value at the read pointer.\<close>

definition take_buffered :: "rbuf \<Rightarrow> rbuf" where
  "take_buffered b =
     (touch (b_rptr b) b)\<lparr>b_sum := b_sum b + (data_at b (b_rptr b) AND PULSE_MASK),
                          b_rptr := b_rptr b + 1\<rparr>"

text \<open>Storing a value that was read at the write pointer and taking it at once.\<close>

definition store_input :: "lirc_t \<Rightarrow> rbuf \<Rightarrow> rbuf" where
  "store_input d b =
     (let b = log_input d (put_data (b_wptr b) d b);
          b = touch (b_rptr b) b
      in b\<lparr>b_sum := b_sum b + (data_at b (b_rptr b) AND PULSE_MASK),
           b_wptr := b_wptr b + 1, b_rptr := b_rptr b + 1\<rparr>)"

lemma rx_inputs_upd_buf [simp]: "rx_inputs (upd_buf f st) = rx_inputs st"
  by (simp add: upd_buf_def)

lemma signal_elapsed_inputs: "signal_elapsed st = (e, st') \<Longrightarrow> rx_inputs st' = rx_inputs st"
  by (auto simp: signal_elapsed_def gettimeofday_def split: if_splits list.splits)

function get_next_rec_buffer_internal :: "lirc_t \<Rightarrow> rx \<Rightarrow> lirc_t \<times> rx" where
  "get_next_rec_buffer_internal maxusec st =
     (let b = rx_buf st
      in if b_rptr b < b_wptr b
         then (data_at b (b_rptr b), upd_buf take_buffered st)
         else if b_wptr b < RBUF_SIZE then
           (case signal_elapsed st of
              (elapsed, st) \<Rightarrow>
                (case (if elapsed < u32 maxusec then readdata st else (0, st)) of
                   (data, st) \<Rightarrow>
                     (if data = 0 then (0, st)
                      else if data AND LIRC_EOF \<noteq> 0 then (data, st)
                      else if LIRC_IS_TIMEOUT data then
                        (if LIRC_VALUE data < maxusec
                         then get_next_rec_buffer_internal (maxusec - LIRC_VALUE data) st
                         else (0, st))
                      else
                        (let st = upd_buf (store_input data) st
                         in (data_at (rx_buf st) (b_rptr (rx_buf st) - 1), st)))))
         else (0, upd_buf (\<lambda>b. b\<lparr>b_too_long := True\<rparr>) st))"
  by pat_completeness auto
termination
  by (relation "measure (\<lambda>(m, st). length (rx_inputs st))")
    (auto simp: readdata_def dest!: signal_elapsed_inputs [OF sym] split: list.splits if_splits)

declare get_next_rec_buffer_internal.simps [simp del]

definition get_next_rec_buffer :: "lirc_t \<Rightarrow> rx \<Rightarrow> lirc_t \<times> rx" where
  "get_next_rec_buffer maxusec st = get_next_rec_buffer_internal (receive_timeout maxusec) st"

text \<open>
  \<open>rec_buffer_clear\<close>; the bytes that \<open>read\<close> returns in mode LIRCCODE are an argument, \<open>None\<close>
  when it does not return the expected number of them.
\<close>

definition rec_buffer_clear :: "8 word list option \<Rightarrow> rx \<Rightarrow> bool \<times> rx" where
  "rec_buffer_clear bytes st =
     (let st = upd_buf (\<lambda>b. b\<lparr>b_last_signal_time := timerclear\<rparr>) st;
          done = (\<lambda>st. (True, upd_buf (\<lambda>b. (rec_buffer_rewind b)\<lparr>b_is_biphase := False\<rparr>) st))
      in if d_rec_mode (rx_driver st) = LIRC_MODE_LIRCCODE then
           (case bytes of
              None \<Rightarrow> (False, st)
            | Some bs \<Rightarrow>
                done (upd_buf (\<lambda>b. b\<lparr>b_decoded :=
                  fold (\<lambda>x c. push_bit 8 c + ucast x) bs 0\<rparr>) st))
         else
           (let b = rx_buf st; move = b_wptr b - b_rptr b
            in if move > 0 \<and> b_rptr b > 0 then
                 done (upd_buf (\<lambda>b. b\<lparr>
                   b_data := take (nat move) (drop (nat (b_rptr b)) (b_data b))
                             @ drop (nat move) (b_data b),
                   b_wptr := b_wptr b - b_rptr b\<rparr>) st)
               else
                 (case readdata (upd_buf (\<lambda>b. b\<lparr>b_wptr := 0\<rparr>) st) of
                    (data, st) \<Rightarrow>
                      done (upd_buf (\<lambda>b. (put_data 0 data b)\<lparr>b_wptr := 1\<rparr>) st))))"

definition unget_rec_buffer :: "int \<Rightarrow> rx \<Rightarrow> rx" where
  "unget_rec_buffer count st =
     (if count = 1 \<or> count = 2 then
        upd_buf (\<lambda>b.
          let p = b_rptr b - count;
              b = touch p b;
              b = b\<lparr>b_rptr := p, b_sum := b_sum b - (data_at b p AND PULSE_MASK)\<rparr>
          in if count = 2
             then (touch (p + 1) b)\<lparr>b_sum := b_sum b - (data_at b (p + 1) AND PULSE_MASK)\<rparr>
             else b) st
      else st)"

definition unget_rec_buffer_delta :: "lirc_t \<Rightarrow> rx \<Rightarrow> rx" where
  "unget_rec_buffer_delta delta =
     upd_buf (\<lambda>b. put_data (b_rptr b - 1) delta
       (b\<lparr>b_rptr := b_rptr b - 1, b_sum := b_sum b - (delta AND PULSE_MASK)\<rparr>))"

definition get_next_pulse :: "lirc_t \<Rightarrow> rx \<Rightarrow> lirc_t \<times> rx" where
  "get_next_pulse maxusec st =
     (case get_next_rec_buffer maxusec st of
        (data, st) \<Rightarrow>
          if data = 0 then (0, st)
          else if \<not> is_pulse data then (0, st)
          else (data AND PULSE_MASK, st))"

definition get_next_space :: "lirc_t \<Rightarrow> rx \<Rightarrow> lirc_t \<times> rx" where
  "get_next_space maxusec st =
     (case get_next_rec_buffer maxusec st of
        (data, st) \<Rightarrow>
          if data = 0 then (0, st)
          else if \<not> is_space data then (0, st)
          else (data, st))"

section \<open>Expecting pulses and spaces\<close>

definition rx_expect :: "rx \<Rightarrow> lirc_t \<Rightarrow> lirc_t \<Rightarrow> bool" where
  "rx_expect st delta exdelta \<longleftrightarrow> expect (rx_driver st) (rx_remote st) delta exdelta"

text \<open>
  \<open>then_ok f g\<close> is \<open>if (!f) return 0; g\<close>, \<open>guarded c f\<close> is \<open>c && !f\<close> as a failure, and
  \<open>unget_on_fail n f\<close> is \<open>if (!f) { unget_rec_buffer(n); return 0; }\<close>.
\<close>

definition then_ok :: "(rx \<Rightarrow> bool \<times> rx) \<Rightarrow> (rx \<Rightarrow> bool \<times> rx) \<Rightarrow> rx \<Rightarrow> bool \<times> rx" where
  "then_ok f g st = (case f st of (ok, st) \<Rightarrow> if ok then g st else (False, st))"

definition guarded :: "bool \<Rightarrow> (rx \<Rightarrow> bool \<times> rx) \<Rightarrow> rx \<Rightarrow> bool \<times> rx" where
  "guarded c f st = (if c then f st else (True, st))"

definition unget_on_fail :: "int \<Rightarrow> (rx \<Rightarrow> bool \<times> rx) \<Rightarrow> rx \<Rightarrow> bool \<times> rx" where
  "unget_on_fail n f st =
     (case f st of (ok, st) \<Rightarrow> if ok then (True, st) else (False, unget_rec_buffer n st))"

definition succeed :: "(rx \<Rightarrow> rx) \<Rightarrow> rx \<Rightarrow> bool \<times> rx" where
  "succeed f st = (True, f st)"

definition sync_pending_pulse :: "rx \<Rightarrow> bool \<times> rx" where
  "sync_pending_pulse st =
     (let p = b_pendingp (rx_buf st)
      in if p > 0 then
           (case get_next_pulse p st of
              (deltap, st) \<Rightarrow>
                if deltap = 0 then (False, st)
                else if \<not> rx_expect st deltap p then (False, st)
                else (True, set_pending_pulse 0 st))
         else (True, st))"

definition sync_pending_space :: "rx \<Rightarrow> bool \<times> rx" where
  "sync_pending_space st =
     (let s = b_pendings (rx_buf st)
      in if s > 0 then
           (case get_next_space s st of
              (deltas, st) \<Rightarrow>
                if deltas = 0 then (False, st)
                else if \<not> rx_expect st deltas s then (False, st)
                else (True, set_pending_space 0 st))
         else (True, st))"

definition expectpulse :: "lirc_t \<Rightarrow> rx \<Rightarrow> bool \<times> rx" where
  "expectpulse exdelta =
     then_ok sync_pending_space
       (\<lambda>st. let p = b_pendingp (rx_buf st)
             in case get_next_pulse (p + exdelta) st of
                  (deltap, st) \<Rightarrow>
                    if deltap = 0 then (False, st)
                    else if p > 0 then
                      (if p > deltap then (False, st)
                       else if \<not> rx_expect st (deltap - p) exdelta then (False, st)
                       else (True, set_pending_pulse 0 st))
                    else (rx_expect st deltap exdelta, st))"

definition expectspace :: "lirc_t \<Rightarrow> rx \<Rightarrow> bool \<times> rx" where
  "expectspace exdelta =
     then_ok sync_pending_pulse
       (\<lambda>st. let s = b_pendings (rx_buf st)
             in case get_next_space (s + exdelta) st of
                  (deltas, st) \<Rightarrow>
                    if deltas = 0 then (False, st)
                    else if s > 0 then
                      (if s > deltas then (False, st)
                       else if \<not> rx_expect st (deltas - s) exdelta then (False, st)
                       else (True, set_pending_space 0 st))
                    else (rx_expect st deltas exdelta, st))"

definition bit_mask_of :: "ir_remote \<Rightarrow> int \<Rightarrow> ir_code" where
  "bit_mask_of remote n = push_bit (nat (bit_count remote - 1 - n)) 1"

definition expectone :: "int \<Rightarrow> rx \<Rightarrow> bool \<times> rx" where
  "expectone n st =
     (let r = rx_remote st
      in if is_biphase r then
           (if bit_mask_of r n AND r_rc6_mask r \<noteq> 0
            then then_ok (unget_on_fail 1 (guarded (r_sone r > 0) (expectspace (2 * r_sone r))))
                   (succeed (set_pending_pulse (2 * r_pone r))) st
            else then_ok (unget_on_fail 1 (guarded (r_sone r > 0) (expectspace (r_sone r))))
                   (succeed (set_pending_pulse (r_pone r))) st)
         else if is_space_first r then
           then_ok (unget_on_fail 1 (guarded (r_sone r > 0) (expectspace (r_sone r))))
             (unget_on_fail 2 (guarded (r_pone r > 0) (expectpulse (r_pone r)))) st
         else
           then_ok (unget_on_fail 1 (guarded (r_pone r > 0) (expectpulse (r_pone r))))
             (if r_ptrail r > 0
              then unget_on_fail 2 (guarded (r_sone r > 0) (expectspace (r_sone r)))
              else succeed (set_pending_space (r_sone r))) st)"

definition expectzero :: "int \<Rightarrow> rx \<Rightarrow> bool \<times> rx" where
  "expectzero n st =
     (let r = rx_remote st
      in if is_biphase r then
           (if bit_mask_of r n AND r_rc6_mask r \<noteq> 0
            then then_ok (unget_on_fail 1 (expectpulse (2 * r_pzero r)))
                   (succeed (set_pending_space (2 * r_szero r))) st
            else then_ok (unget_on_fail 1 (expectpulse (r_pzero r)))
                   (succeed (set_pending_space (r_szero r))) st)
         else if is_space_first r then
           then_ok (unget_on_fail 1 (guarded (r_szero r > 0) (expectspace (r_szero r))))
             (unget_on_fail 2 (guarded (r_pzero r > 0) (expectpulse (r_pzero r)))) st
         else
           then_ok (unget_on_fail 1 (expectpulse (r_pzero r)))
             (if r_ptrail r > 0
              then unget_on_fail 2 (expectspace (r_szero r))
              else succeed (set_pending_space (r_szero r))) st)"

end
