(* ===== verification/Receive_Decode.thy ===== *)
theory Receive_Decode
  imports Receive
begin

text \<open>
  The second half of \<open>lib/receive.c\<close>: synchronisation on the gap before a signal, header, foot,
  lead, trail, gap and repeat detection, the decoders \<open>get_data\<close> of all protocols, and
  \<open>receive_decode\<close>.

  The loop for serial protocols need not stop (a configuration with a zero pulse length keeps
  it going), so \<open>get_data\<close> and what calls it return an option: \<open>None\<close> is a run that does not
  return. The other loops are bounded by the number of bits or of codes.
\<close>

section \<open>Synchronisation, header, foot, gap\<close>

text \<open>\<open>k\<close> counts down from \<open>REC_SYNC\<close> where the code counts up.\<close>

fun sync_loop :: "nat \<Rightarrow> ir_remote \<Rightarrow> lirc_t \<Rightarrow> rx \<Rightarrow> lirc_t \<times> rx" where
  "sync_loop k lr deltas st =
     (if expect_at_least (rx_driver st) lr deltas (r_min_remaining_gap lr) then (deltas, st)
      else
        (case get_next_pulse 1000000 st of
           (deltap, st) \<Rightarrow>
             if deltap = 0 then (0, st)
             else
               (case get_next_space 1000000 st of
                  (deltas, st) \<Rightarrow>
                    if deltas = 0 then (0, st)
                    else (case k of 0 \<Rightarrow> (0, st) | Suc k \<Rightarrow> sync_loop k lr deltas st))))"

declare sync_loop.simps [simp del]

definition sync_rec_buffer :: "rx \<Rightarrow> lirc_t \<times> rx" where
  "sync_rec_buffer st =
     (let remote = rx_remote st;
          done = (\<lambda>(deltas, st). (deltas, upd_buf (\<lambda>b. b\<lparr>b_sum := 0\<rparr>) st))
      in case get_next_space 1000000 st of
           (deltas, st) \<Rightarrow>
             if deltas = 0 then (0, st)
             else
               (case rx_last_remote st of
                  Some lr \<Rightarrow>
                    if is_rcmm remote then done (deltas, st)
                    else
                      (case sync_loop REC_SYNC lr deltas st of
                         (deltas, st) \<Rightarrow>
                           if deltas = 0 then (0, st)
                           else if has_toggle_mask remote
                             \<and> \<not> expect_at_most (rx_driver st) lr deltas (r_max_remaining_gap lr)
                           then done (deltas, st\<lparr>rx_remote := remote\<lparr>r_toggle_mask_state := 0,
                                                                       r_toggle_code := None\<rparr>\<rparr>)
                           else done (deltas, st))
                | None \<Rightarrow> done (deltas, st)))"

definition get_header :: "rx \<Rightarrow> bool \<times> rx" where
  "get_header st =
     (let r = rx_remote st
      in if is_rcmm r then
           (case get_next_pulse (r_phead r) st of
              (deltap, st) \<Rightarrow>
                if deltap = 0 then (False, unget_rec_buffer 1 st)
                else
                  (case get_next_space (r_shead r) st of
                     (deltas, st) \<Rightarrow>
                       if deltas = 0 then (False, unget_rec_buffer 2 st)
                       else if rx_expect st (deltap + deltas) (r_phead r + r_shead r)
                       then (True, st)
                       else (False, unget_rec_buffer 2 st)))
         else if is_bo r then
           then_ok (expectpulse (r_pone r)) (then_ok (expectspace (r_sone r))
             (then_ok (expectpulse (r_pone r)) (then_ok (expectspace (r_sone r))
               (then_ok (expectpulse (r_phead r)) (expectspace (r_shead r)))))) st
         else if r_shead r = 0 then
           then_ok sync_pending_space (succeed (set_pending_pulse (r_phead r))) st
         else
           then_ok (unget_on_fail 1 (expectpulse (r_phead r)))
             (\<lambda>st.
                if has_flag r NO_HEAD_REP then
                  (case get_next_space (r_shead r) st of
                     (deltas, st) \<Rightarrow>
                       if deltas \<noteq> 0 then
                         (if rx_expect st (r_shead r) deltas then (True, st)
                          else (False, unget_rec_buffer 2 st))
                       else (True, set_pending_space (r_shead r) st))
                else (True, set_pending_space (r_shead r) st)) st)"

definition get_foot :: "rx \<Rightarrow> bool \<times> rx" where
  "get_foot st =
     then_ok (expectspace (r_sfoot (rx_remote st))) (expectpulse (r_pfoot (rx_remote st))) st"

definition get_lead :: "rx \<Rightarrow> bool \<times> rx" where
  "get_lead st =
     (if r_plead (rx_remote st) = 0 then (True, st)
      else then_ok sync_pending_space (succeed (set_pending_pulse (r_plead (rx_remote st)))) st)"

definition get_trail :: "rx \<Rightarrow> bool \<times> rx" where
  "get_trail st =
     (let r = rx_remote st
      in then_ok (guarded (r_ptrail r \<noteq> 0) (expectpulse (r_ptrail r)))
           (\<lambda>st. guarded (b_pendingp (rx_buf st) > 0) sync_pending_pulse st) st)"

definition get_gap :: "lirc_t \<Rightarrow> rx \<Rightarrow> bool \<times> rx" where
  "get_gap gap st =
     (case get_next_rec_buffer (gap - gap * r_eps (rx_remote st) sdiv 100) st of
        (data, st) \<Rightarrow>
          if data = 0 then (True, st)
          else if \<not> is_space data then (False, st)
          else
            (let st = unget_rec_buffer 1 st
             in (expect_at_least (rx_driver st) (rx_remote st) data gap, st)))"

text \<open>The gap left by a signal of constant length, 0 when the signal is longer than the gap.\<close>

definition gap_left :: "lirc_t \<Rightarrow> lirc_t \<Rightarrow> lirc_t" where
  "gap_left gap sm = (if gap > sm then gap - sm else 0)"

definition get_repeat :: "rx \<Rightarrow> bool \<times> rx" where
  "get_repeat st =
     (let r = rx_remote st
      in then_ok get_lead
           (then_ok
              (if is_biphase r
               then then_ok (expectspace (r_srepeat r)) (expectpulse (r_prepeat r))
               else then_ok (expectpulse (r_prepeat r)) (succeed (set_pending_space (r_srepeat r))))
              (then_ok get_trail
                 (\<lambda>st. get_gap
                    (if is_const r then gap_left (min_gap r) (b_sum (rx_buf st))
                     else if has_repeat_gap r then s32 (r_repeat_gap r) else min_gap r) st))) st)"

section \<open>Data\<close>

text \<open>The code \<open>(ir_code) -1\<close> with which the decoders report a failure.\<close>

definition bad_code :: ir_code where "bad_code = - 1"

definition sum_p :: "ir_remote \<Rightarrow> lirc_t" where
  "sum_p r = r_pzero r + r_pone r + r_ptwo r + r_pthree r"

definition sum_s :: "ir_remote \<Rightarrow> lirc_t" where
  "sum_s r = r_szero r + r_sone r + r_stwo r + r_sthree r"

fun get_rcmm_loop :: "nat \<Rightarrow> ir_code \<Rightarrow> rx \<Rightarrow> ir_code \<times> rx" where
  "get_rcmm_loop 0 code st = (code, st)"
| "get_rcmm_loop (Suc n) code st =
     (let r = rx_remote st; code = push_bit 2 code
      in case get_next_pulse (sum_p r) st of
           (deltap, st) \<Rightarrow>
             (case get_next_space (sum_s r) st of
                (deltas, st) \<Rightarrow>
                  if deltap = 0 \<or> deltas = 0 then (bad_code, st)
                  else
                    (let sm = deltap + deltas
                     in if rx_expect st sm (r_pzero r + r_szero r)
                        then get_rcmm_loop n (code OR 0) st
                        else if rx_expect st sm (r_pone r + r_sone r)
                        then get_rcmm_loop n (code OR 1) st
                        else if rx_expect st sm (r_ptwo r + r_stwo r)
                        then get_rcmm_loop n (code OR 2) st
                        else if rx_expect st sm (r_pthree r + r_sthree r)
                        then get_rcmm_loop n (code OR 3) st
                        else (bad_code, st))))"

text \<open>
  Grundig: \<open>n\<close> bits are still to come (\<open>bits - i\<close> of the code); the state of the last pair is
  \<open>None\<close> for -1. A pair of states gives two bits, the first of a pair gives none.
\<close>

definition grundig_state :: "rx \<Rightarrow> lirc_t \<Rightarrow> nat option" where
  "grundig_state st sm =
     (let r = rx_remote st
      in if rx_expect st sm (r_szero r + r_pzero r) then Some 0
         else if rx_expect st sm (r_sone r + r_pone r) then Some 1
         else if rx_expect st sm (r_stwo r + r_ptwo r) then Some 2
         else if rx_expect st sm (r_sthree r + r_pthree r) then Some 3
         else None)"

definition grundig_pair :: "nat option \<Rightarrow> nat \<Rightarrow> ir_code option" where
  "grundig_pair laststate state =
     (if state = 3 then Some 0
      else if laststate = Some 2 \<and> state = 0 then Some 1
      else if laststate = Some 1 \<and> state = 1 then Some 2
      else if laststate = Some 0 \<and> state = 2 then Some 3
      else None)"

function get_grundig_loop :: "nat \<Rightarrow> nat option \<Rightarrow> ir_code \<Rightarrow> rx \<Rightarrow> ir_code \<times> rx" where
  "get_grundig_loop n laststate code st =
     (if n = 0 then (code, st)
      else
        (let r = rx_remote st
         in case get_next_space (sum_s r) st of
              (deltas, st) \<Rightarrow>
                (case get_next_pulse (sum_p r) st of
                   (deltap, st) \<Rightarrow>
                     if deltas = 0 \<or> deltap = 0 then (bad_code, st)
                     else
                       (case grundig_state st (deltas + deltap) of
                          None \<Rightarrow> (bad_code, st)
                        | Some state \<Rightarrow>
                            (case grundig_pair laststate state of
                               Some v \<Rightarrow> get_grundig_loop (n - 2) None (push_bit 2 code OR v) st
                             | None \<Rightarrow>
                                 if laststate = None
                                 then get_grundig_loop n (Some state) code st
                                 else (bad_code, st))))))"
  by pat_completeness auto
termination
  by (relation "measures [\<lambda>(n, l, c, st). n, \<lambda>(n, l, c, st). if l = None then 1 else 0]") auto

declare get_grundig_loop.simps [simp del]

text \<open>The loop variables of the serial decoder.\<close>

record serial_vars =
  v_code :: ir_code
  v_received :: int
  v_space :: bool
  v_stop_bit :: bool
  v_parity :: bool
  v_delta :: lirc_t
  v_origdelta :: lirc_t
  v_gap_delta :: lirc_t

text \<open>
  One pass through the body of the serial loop: \<open>None\<close> in the first component is the early
  return with -1. \<open>bits\<close> counts the parity bits in.
\<close>

definition serial_read :: "int \<Rightarrow> int \<Rightarrow> int \<Rightarrow> lirc_t \<Rightarrow> lirc_t \<Rightarrow> serial_vars \<Rightarrow> rx \<Rightarrow> serial_vars \<times> rx"
where
  "serial_read bits bib parity_bit max_space max_pulse v st =
     (if v_delta v = 0 then
        (case (if v_space v then get_next_space max_space st else get_next_pulse max_pulse st) of
           (delta, st) \<Rightarrow>
             (let delta = (if delta = 0 \<and> v_space v \<and> u32 (v_received v + bib + parity_bit) \<ge> u32 bits
                           then max_space else delta)
              in (v\<lparr>v_delta := delta, v_origdelta := delta\<rparr>, st)))
      else (v, st))"

definition serial_pending :: "lirc_t \<Rightarrow> serial_vars \<Rightarrow> rx \<Rightarrow> serial_vars \<times> rx" where
  "serial_pending base v st =
     (if v_stop_bit v then
        (v\<lparr>v_gap_delta := v_delta v, v_delta := 0, v_stop_bit := False, v_space := False\<rparr>,
         set_pending_space 0 (set_pending_pulse base st))
      else
        (v\<lparr>v_space := (if v_delta v = 0 then \<not> v_space v else v_space v)\<rparr>,
         set_pending_space 0 (set_pending_pulse 0 st)))"

definition serial_bit :: "lirc_t \<Rightarrow> serial_vars \<Rightarrow> rx \<Rightarrow> serial_vars option \<times> rx" where
  "serial_bit stop v st =
     (let r = rx_remote st;
          bib = r_bits_in_byte r;
          parity_bit = (if r_parity r \<noteq> IR_PARITY_NONE then 1 else 0);
          expecting = (if v_space v then r_sone r else r_pzero r);
          delta = v_delta v;
          flip = (\<lambda>v. v\<lparr>v_space := (if v_delta v = 0 then \<not> v_space v else v_space v)\<rparr>)
      in if delta > expecting \<or> rx_expect st delta expecting then
           (let v = v\<lparr>v_delta := delta - (if expecting > delta then delta else expecting),
                     v_received := v_received v + 1,
                     v_code := push_bit 1 (v_code v) OR (if v_space v then 1 else 0),
                     v_parity := (v_parity v \<noteq> v_space v)\<rparr>
            in if v_received v mod (bib + parity_bit) = 0 then
                 (if r_parity r = IR_PARITY_EVEN \<and> v_parity v
                     \<or> r_parity r = IR_PARITY_ODD \<and> \<not> v_parity v
                  then (None, st)
                  else
                    (let temp = drop_bit (nat (bib + parity_bit)) (v_code v);
                         v = v\<lparr>v_parity := False,
                               v_code := push_bit (nat bib) temp
                                 OR reverse (drop_bit (nat parity_bit) (v_code v)) bib\<rparr>
                     in if v_space v \<and> v_delta v = 0 then (None, st)
                        else (Some (flip (v\<lparr>v_stop_bit := True\<rparr>)), set_pending_space stop st)))
               else (Some (flip v), st))
         else if delta = v_origdelta v then (None, st)
         else (Some (flip (v\<lparr>v_delta := 0\<rparr>)), st))"

definition serial_body ::
    "int \<Rightarrow> lirc_t \<Rightarrow> lirc_t \<Rightarrow> lirc_t \<Rightarrow> lirc_t \<Rightarrow> serial_vars \<Rightarrow> rx \<Rightarrow> serial_vars option \<times> rx"
where
  "serial_body bits base stop max_space max_pulse v st =
     (let r = rx_remote st;
          parity_bit = (if r_parity r \<noteq> IR_PARITY_NONE then 1 else 0)
      in case serial_read bits (r_bits_in_byte r) parity_bit max_space max_pulse v st of
           (v, st) \<Rightarrow>
             if v_delta v = 0 then (None, st)
             else
               (let pending = (if v_space v then b_pendings (rx_buf st) else b_pendingp (rx_buf st))
                in if rx_expect st (v_delta v) pending \<or> v_delta v > pending then
                     (let v = (if rx_expect st (v_delta v) pending then v\<lparr>v_delta := 0\<rparr>
                               else v\<lparr>v_delta := v_delta v - pending\<rparr>)
                      in if pending > 0
                         then (case serial_pending base v st of (v, st) \<Rightarrow> (Some v, st))
                         else serial_bit stop v st)
                   else (None, st)))"

partial_function (option) get_serial_loop ::
    "int \<Rightarrow> lirc_t \<Rightarrow> lirc_t \<Rightarrow> lirc_t \<Rightarrow> lirc_t \<Rightarrow> serial_vars \<Rightarrow> rx \<Rightarrow> (serial_vars option \<times> rx) option"
where
  "get_serial_loop bits base stop max_space max_pulse v st =
     (if v_received v < bits \<or> v_stop_bit v then
        (case serial_body bits base stop max_space max_pulse v st of
           (None, st) \<Rightarrow> Some (None, st)
         | (Some v, st) \<Rightarrow> get_serial_loop bits base stop max_space max_pulse v st)
      else Some (Some v, st))"

definition get_serial :: "int \<Rightarrow> rx \<Rightarrow> (ir_code \<times> rx) option" where
  "get_serial bits st =
     (let r = rx_remote st;
          base = 1000000 div r_baud r;
          st = set_pending_pulse base st;
          stop = s32 (u32 (base * r_stop_bits r) div 2);
          v = \<lparr>v_code = 0, v_received = 0, v_space = (b_pendingp (rx_buf st) = 0),
               v_stop_bit = False, v_parity = False, v_delta = 0, v_origdelta = 0, v_gap_delta = 0\<rparr>;
          has_par = r_parity r \<noteq> IR_PARITY_NONE;
          max_space = s32 (r_sone r * r_bits_in_byte r + stop) + (if has_par then r_sone r else 0);
          max_pulse = s32 (r_pzero r * (1 + r_bits_in_byte r)) + (if has_par then r_pzero r else 0);
          bits = (if has_par then bits + bits div r_bits_in_byte r else bits)
      in case get_serial_loop bits base stop max_space max_pulse v st of
           None \<Rightarrow> None
         | Some (None, st) \<Rightarrow> Some (bad_code, st)
         | Some (Some v, st) \<Rightarrow>
             (let st = (if v_gap_delta v \<noteq> 0 then unget_rec_buffer_delta (v_gap_delta v) st else st)
              in Some (v_code v, set_pending_space 0 (set_pending_pulse 0 st))))"

fun get_bo_loop :: "nat \<Rightarrow> bool \<Rightarrow> ir_code \<Rightarrow> rx \<Rightarrow> ir_code \<times> rx" where
  "get_bo_loop 0 lastbit code st = (code, st)"
| "get_bo_loop (Suc n) lastbit code st =
     (let r = rx_remote st; code = push_bit 1 code
      in case get_next_pulse (sum_p r) st of
           (deltap, st) \<Rightarrow>
             (case get_next_space (sum_s r) st of
                (deltas, st) \<Rightarrow>
                  if deltap = 0 \<or> deltas = 0 then (bad_code, st)
                  else
                    (let (pzero, szero, pone, sone) =
                           (if lastbit then (r_pone r, r_sone r, r_ptwo r, r_stwo r)
                            else (r_ptwo r, r_stwo r, r_pthree r, r_sthree r))
                     in if rx_expect st deltap pzero \<and> rx_expect st deltas szero
                        then get_bo_loop n False (code OR 0) st
                        else if rx_expect st deltap pone \<and> rx_expect st deltas sone
                        then get_bo_loop n True (code OR 1) st
                        else (bad_code, st))))"

text \<open>XMP: the value of a nibble is the length of its space, in units of \<open>sone\<close>.\<close>

definition xmp_nibble :: "ir_remote \<Rightarrow> lirc_t \<Rightarrow> ir_code" where
  "xmp_nibble r sm =
     word_of_int ((sm - (r_pzero r + r_szero r) + r_sone r sdiv 2) sdiv r_sone r)"

fun get_xmp_loop :: "nat \<Rightarrow> ir_code \<Rightarrow> rx \<Rightarrow> ir_code \<times> rx" where
  "get_xmp_loop 0 code st = (code, st)"
| "get_xmp_loop (Suc n) code st =
     (let r = rx_remote st; code = push_bit 4 code
      in case get_next_pulse (r_pzero r) st of
           (deltap, st) \<Rightarrow>
             (case get_next_space (r_szero r + 16 * r_sone r) st of
                (deltas, st) \<Rightarrow>
                  if deltap = 0 \<or> deltas = 0 then (bad_code, st)
                  else
                    (let v = xmp_nibble r (deltap + deltas)
                     in if v \<ge> 16 then (bad_code, st)
                        else get_xmp_loop n (code OR v) st)))"

text \<open>The general loop; for Goldstar the lengths of a one alternate from bit to bit.\<close>

definition goldstar_step :: "int \<Rightarrow> rx \<Rightarrow> rx" where
  "goldstar_step n st =
     (let r = rx_remote st
      in if is_goldstar r
         then st\<lparr>rx_remote :=
                (if n smod 2 \<noteq> 0 then r\<lparr>r_pone := r_ptwo r, r_sone := r_stwo r\<rparr>
                 else r\<lparr>r_pone := r_pthree r, r_sone := r_sthree r\<rparr>)\<rparr>
         else st)"

fun get_bits_loop :: "nat \<Rightarrow> int \<Rightarrow> ir_code \<Rightarrow> rx \<Rightarrow> ir_code \<times> rx" where
  "get_bits_loop 0 n code st = (code, st)"
| "get_bits_loop (Suc k) n code st =
     (let code = push_bit 1 code; st = goldstar_step n st
      in case expectone n st of
           (True, st) \<Rightarrow> get_bits_loop k (n + 1) (code OR 1) st
         | (False, st) \<Rightarrow>
             (case expectzero n st of
                (True, st) \<Rightarrow> get_bits_loop k (n + 1) (code OR 0) st
              | (False, st) \<Rightarrow> (bad_code, st)))"

definition get_data :: "int \<Rightarrow> int \<Rightarrow> rx \<Rightarrow> (ir_code \<times> rx) option" where
  "get_data bits done st =
     (let r = rx_remote st
      in if is_rcmm r then
           (if bits smod 2 \<noteq> 0 \<or> done smod 2 \<noteq> 0 then Some (bad_code, st)
            else
              (case sync_pending_space st of
                 (False, st) \<Rightarrow> Some (0, st)
               | (True, st) \<Rightarrow> Some (get_rcmm_loop (nat bits div 2) 0 st)))
         else if is_grundig r then
           (if bits smod 2 \<noteq> 0 \<or> done smod 2 \<noteq> 0 then Some (bad_code, st)
            else
              (case sync_pending_pulse st of
                 (False, st) \<Rightarrow> Some (bad_code, st)
               | (True, st) \<Rightarrow> Some (get_grundig_loop (nat bits) None 0 st)))
         else if is_serial r then get_serial bits st
         else if is_bo r then Some (get_bo_loop (nat bits) True 0 st)
         else if is_xmp r then
           (if bits smod 4 \<noteq> 0 \<or> done smod 4 \<noteq> 0 then Some (bad_code, st)
            else
              (case sync_pending_space st of
                 (False, st) \<Rightarrow> Some (0, st)
               | (True, st) \<Rightarrow> Some (get_xmp_loop (nat bits div 4) 0 st)))
         else Some (get_bits_loop (nat bits) done 0 st))"

definition get_pre :: "rx \<Rightarrow> (ir_code \<times> rx) option" where
  "get_pre st =
     (case get_data (r_pre_data_bits (rx_remote st)) 0 st of
        None \<Rightarrow> None
      | Some (pre, st) \<Rightarrow>
          (let r = rx_remote st
           in if pre = bad_code then Some (bad_code, st)
              else if rx_update_mode st \<and> r_pre_data r \<noteq> 0
                \<and> r_pre_data r AND NOT (drop_bit (nat (r_post_data_bits r)) (r_toggle_bit_mask r))
                  \<noteq> pre AND NOT (drop_bit (nat (r_post_data_bits r)) (r_toggle_bit_mask r))
              then Some (bad_code, st)
              else if r_pre_p r > 0 \<and> r_pre_s r > 0 then
                (case expectpulse (r_pre_p r) st of
                   (False, st) \<Rightarrow> Some (bad_code, st)
                 | (True, st) \<Rightarrow> Some (pre, set_pending_space (r_pre_s r) st))
              else Some (pre, st)))"

definition get_post :: "rx \<Rightarrow> (ir_code \<times> rx) option" where
  "get_post st =
     (let r = rx_remote st
      in case (if r_post_p r > 0 \<and> r_post_s r > 0
               then then_ok (expectpulse (r_post_p r)) (succeed (set_pending_space (r_post_s r))) st
               else (True, st)) of
           (False, st) \<Rightarrow> Some (bad_code, st)
         | (True, st) \<Rightarrow> get_data (r_post_data_bits r) (r_pre_data_bits r + r_bits r) st)"

section \<open>Decoding a signal\<close>

definition zero_ctx :: decode_ctx_t where
  "zero_ctx = \<lparr>ctx_code = 0, ctx_pre = 0, ctx_post = 0, ctx_repeat_flag = False,
     ctx_max_remaining_gap = 0, ctx_min_remaining_gap = 0\<rparr>"

text \<open>A return of \<open>receive_decode\<close>: the result, the context and the state.\<close>

type_synonym decode_result = "bool \<times> decode_ctx_t \<times> rx"

definition raw_mode :: "rx \<Rightarrow> bool" where
  "raw_mode st \<longleftrightarrow> d_rec_mode (rx_driver st) = LIRC_MODE_MODE2
     \<or> d_rec_mode (rx_driver st) = LIRC_MODE_PULSE \<or> d_rec_mode (rx_driver st) = LIRC_MODE_RAW"

definition lirccode_mode :: "rx \<Rightarrow> bool" where
  "lirccode_mode st \<longleftrightarrow> d_rec_mode (rx_driver st) = LIRC_MODE_LIRCCODE"

definition resync :: "rx \<Rightarrow> rx" where
  "resync st = snd (sync_rec_buffer (upd_buf rec_buffer_rewind st))"

text \<open>
  One raw code against the buffer: pulses and spaces alternate, the buffer is rewound at the
  first that does not fit. Then the whole list of codes, up to the first that fits and is
  followed by a gap.
\<close>

fun raw_signals :: "bool \<Rightarrow> lirc_t list \<Rightarrow> rx \<Rightarrow> bool \<times> rx" where
  "raw_signals pulse [] st = (True, st)"
| "raw_signals pulse (d # ds) st =
     (case (if pulse then expectpulse d st else expectspace d st) of
        (True, st) \<Rightarrow> raw_signals (\<not> pulse) ds st
      | (False, st) \<Rightarrow> (False, resync st))"

fun raw_search :: "ir_ncode list \<Rightarrow> rx \<Rightarrow> ir_ncode option \<times> rx" where
  "raw_search [] st = (None, st)"
| "raw_search (c # cs) st =
     (case raw_signals True (case nc_signals c of None \<Rightarrow> [] | Some xs \<Rightarrow> take (nat (nc_length c)) xs) st of
        (False, st) \<Rightarrow> raw_search cs st
      | (True, st) \<Rightarrow>
          (let r = rx_remote st
           in case get_gap (if is_const r then min_gap r - b_sum (rx_buf st) else min_gap r) st of
                (True, st) \<Rightarrow> (Some c, st)
              | (False, st) \<Rightarrow> raw_search cs st))"

text \<open>A repeat signal of the last code: its result is complete.\<close>

definition repeat_ctx :: "rx \<Rightarrow> ncode_ref \<Rightarrow> decode_ctx_t" where
  "repeat_ctx st lc =
     (let r = rx_remote st; sm = b_sum (rx_buf st)
      in \<lparr>ctx_code = nc_code (deref r lc), ctx_pre = r_pre_data r, ctx_post = r_post_data r,
          ctx_repeat_flag = True,
          ctx_max_remaining_gap =
            (if is_const r then gap_left (max_gap r) sm
             else if has_repeat_gap r then s32 (r_repeat_gap r) else max_gap r),
          ctx_min_remaining_gap =
            (if is_const r then gap_left (min_gap r) sm
             else if has_repeat_gap r then s32 (r_repeat_gap r) else min_gap r)\<rparr>)"

text \<open>
  The part of \<open>receive_decode\<close> for drivers that deliver pulses and spaces, up to and with the
  header: \<open>Inl\<close> is a return, \<open>Inr\<close> the length of the space before the signal and whether a
  header was found.
\<close>

definition decode_sync :: "rx \<Rightarrow> decode_result + lirc_t \<times> bool \<times> rx" where
  "decode_sync st =
     (let st = upd_buf (\<lambda>b. (rec_buffer_rewind b)\<lparr>b_is_biphase := is_biphase (rx_remote st)\<rparr>) st
      in case sync_rec_buffer st of
           (sync, st) \<Rightarrow>
             if sync = 0 then Inl (False, zero_ctx, st)
             else
               (let header = (\<lambda>st.
                      if has_header (rx_remote st) then
                        (case get_header st of
                           (True, st) \<Rightarrow> Inr (sync, True, st)
                         | (False, st) \<Rightarrow>
                             if has_flag (rx_remote st) NO_HEAD_REP
                                \<and> expect_at_most (rx_driver st) (rx_remote st) sync (max_gap (rx_remote st))
                             then Inr (sync, False, st) else Inl (False, zero_ctx, st))
                      else Inr (sync, False, st))
                in if has_repeat (rx_remote st) \<and> rx_last st = Last_Same then
                     (case guarded (has_flag (rx_remote st) REPEAT_HEADER \<and> has_header (rx_remote st))
                             get_header st of
                        (False, st) \<Rightarrow> Inl (False, zero_ctx, st)
                      | (True, st) \<Rightarrow>
                          (case get_repeat st of
                             (True, st) \<Rightarrow>
                               (case r_last_code (rx_remote st) of
                                  None \<Rightarrow> Inl (False, zero_ctx, st)
                                | Some lc \<Rightarrow> Inl (True, repeat_ctx st lc, st))
                           | (False, st) \<Rightarrow> header (resync st)))
                   else header st))"

text \<open>The code of a driver that decodes in hardware, split into its three parts.\<close>

definition decode_lirccode :: "decode_ctx_t \<Rightarrow> rx \<Rightarrow> (lirc_t \<times> timeval \<times> decode_ctx_t \<times> rx) option" where
  "decode_lirccode ctx st =
     (let r = rx_remote st; decoded = b_decoded (rx_buf st)
      in if d_code_length (rx_driver st) \<noteq> bit_count r then None
         else
           (let ctx = ctx\<lparr>ctx_post := decoded AND gen_mask (r_post_data_bits r)\<rparr>;
                decoded = drop_bit (nat (r_post_data_bits r)) decoded;
                ctx = ctx\<lparr>ctx_code := decoded AND gen_mask (r_bits r),
                          ctx_pre := drop_bit (nat (r_bits r)) decoded\<rparr>
            in case gettimeofday st of
                 (current, st) \<Rightarrow>
                   (let sm = r_phead r + r_shead r
                          + max (r_pone r + r_sone r) (r_pzero r + r_szero r) * bit_count r
                          + r_plead r + r_ptrail r + r_pfoot r + r_sfoot r + r_pre_p r + r_pre_s r
                          + r_post_p r + r_post_s r;
                        sm = (if u32 sm \<ge> r_gap r then s32 (r_gap r - 1) else sm);
                        st = upd_buf (\<lambda>b. b\<lparr>b_sum := sm\<rparr>) st
                    in Some (s32 (time_elapsed (r_last_send r) current - sm), current, ctx, st))))"

text \<open>Pulses and spaces: lead, pre data, code, post data, trail, foot and the gap behind it all.\<close>

definition decode_tail :: "bool \<Rightarrow> rx \<Rightarrow> bool \<times> rx" where
  "decode_tail header st =
     then_ok get_trail
       (then_ok (\<lambda>st. guarded (has_foot (rx_remote st)) get_foot st)
          (\<lambda>st.
             let r = rx_remote st;
                 st = (if header \<and> is_const r \<and> has_flag r NO_HEAD_REP
                       then upd_buf (\<lambda>b. b\<lparr>b_sum := b_sum b - (r_phead r + r_shead r)\<rparr>) st else st)
             in if is_rcmm r then get_gap 1000 st
                else if is_const r then get_gap (gap_left (min_gap r) (b_sum (rx_buf st))) st
                else get_gap (min_gap r) st)) st"

definition decode_post :: "bool \<Rightarrow> decode_ctx_t \<Rightarrow> rx \<Rightarrow> decode_result option" where
  "decode_post header ctx st =
     (case (if has_post (rx_remote st) then get_post st else Some (0, st)) of
        None \<Rightarrow> None
      | Some (post, st) \<Rightarrow>
          (let ctx = ctx\<lparr>ctx_post := post\<rparr>
           in if has_post (rx_remote st) \<and> post = bad_code then Some (False, ctx, st)
              else (case decode_tail header st of (ok, st) \<Rightarrow> Some (ok, ctx, st))))"

definition decode_main :: "bool \<Rightarrow> decode_ctx_t \<Rightarrow> rx \<Rightarrow> decode_result option" where
  "decode_main header ctx st =
     (case get_data (r_bits (rx_remote st)) (r_pre_data_bits (rx_remote st)) st of
        None \<Rightarrow> None
      | Some (code, st) \<Rightarrow>
          (let ctx = ctx\<lparr>ctx_code := code\<rparr>
           in if code = bad_code then Some (False, ctx, st) else decode_post header ctx st))"

definition decode_signal :: "bool \<Rightarrow> decode_ctx_t \<Rightarrow> rx \<Rightarrow> decode_result option" where
  "decode_signal header ctx st =
     (case get_lead st of
        (False, st) \<Rightarrow> Some (False, ctx, st)
      | (True, st) \<Rightarrow>
          (case (if has_pre (rx_remote st) then get_pre st else Some (0, st)) of
             None \<Rightarrow> None
           | Some (pre, st) \<Rightarrow>
               (let ctx = ctx\<lparr>ctx_pre := pre\<rparr>
                in if has_pre (rx_remote st) \<and> pre = bad_code then Some (False, ctx, st)
                   else decode_main header ctx st)))"

text \<open>The end of \<open>receive_decode\<close>: the repeat flag and the gaps that are left.\<close>

definition decode_finish :: "lirc_t \<Rightarrow> timeval option \<Rightarrow> decode_ctx_t \<Rightarrow> rx \<Rightarrow> decode_ctx_t" where
  "decode_finish sync current ctx st =
     (let r = rx_remote st; sm = b_sum (rx_buf st);
          rep = ((\<not> has_repeat r \<or> u32 (r_reps r) < r_min_code_repeat r)
                 \<and> expect_at_most (rx_driver st) r sync (r_max_remaining_gap r));
          rep = (case current of
                   Some t \<Rightarrow> if time_elapsed (r_last_send r) t < 325000 then True else rep
                 | None \<Rightarrow> rep)
      in ctx\<lparr>ctx_repeat_flag := rep,
             ctx_min_remaining_gap := (if is_const r then gap_left (min_gap r) sm else min_gap r),
             ctx_max_remaining_gap := (if is_const r then gap_left (max_gap r) sm else max_gap r)\<rparr>)"

definition receive_decode :: "rx \<Rightarrow> decode_result option" where
  "receive_decode st =
     (let b = rx_buf st
      in if b_at_eof b \<and> b_wptr b - b_rptr b \<le> 1
         then Some (True, zero_ctx\<lparr>ctx_code := word_of_int LIRC_EOF\<rparr>,
                    upd_buf (\<lambda>b. b\<lparr>b_at_eof := False\<rparr>) st)
         else
           (case (if raw_mode st then decode_sync st else Inr (0, False, st)) of
              Inl res \<Rightarrow> Some res
            | Inr (sync, header, st) \<Rightarrow>
                (if is_raw (rx_remote st) then
                   (if lirccode_mode st then Some (False, zero_ctx, st)
                    else
                      (case raw_search (case r_codes (rx_remote st) of None \<Rightarrow> [] | Some cs \<Rightarrow> cs) st of
                         (None, st) \<Rightarrow> Some (False, zero_ctx, st)
                       | (Some c, st) \<Rightarrow>
                           Some (True, decode_finish sync None (zero_ctx\<lparr>ctx_code := nc_code c\<rparr>) st, st)))
                 else if lirccode_mode st then
                   (case decode_lirccode zero_ctx st of
                      None \<Rightarrow> Some (False, zero_ctx, st)
                    | Some (sync, current, ctx, st) \<Rightarrow>
                        Some (True, decode_finish sync (Some current) ctx st, st))
                 else
                   (case decode_signal header zero_ctx st of
                      None \<Rightarrow> None
                    | Some (False, ctx, st) \<Rightarrow> Some (False, ctx, st)
                    | Some (True, ctx, st) \<Rightarrow> Some (True, decode_finish sync None ctx st, st)))))"

end
