(* ===== verification/Decode_All.thy ===== *)
theory Decode_All
  imports Release Receive_Decode Transmit
begin

text \<open>
  \<open>decode_all\<close> and \<open>send_ir_ncode\<close> of \<open>lib/ir_remote.c\<close>, over the library's global state: the
  store of remotes, \<open>last_remote\<close>, the static \<open>last_decoded\<close> of \<open>set_code\<close>, \<open>repeat_remote\<close>, the
  switch \<open>dyncodes\<close>, the release state, the receiver (with the driver and its input) and the sending
  buffer. The ghost field \<open>l_sent\<close> holds the signals that were written to the device, in order.

  \<open>decode_func\<close> and \<open>send_func\<close> are pointers of the current driver and so arguments here;
  \<open>receive_decode\<close> is the \<open>decode_func\<close> of the drivers that deliver pulses and spaces.
\<close>

record lib =
  l_store :: store
  l_last_remote :: "remote_ptr option"
  l_last_decoded :: "remote_ptr option"
  l_repeat_remote :: "remote_ptr option"
  l_dyncodes :: bool
  l_release :: release_state
  l_rx :: rx
  l_send :: sbuf
  l_sent :: "lirc_t list list"

definition PACKET_EOF :: string where
  "PACKET_EOF = ''0000000008000000 00 __EOF lirc'' @ [CHR 0x0A]"

definition ir_remote_init :: "bool \<Rightarrow> lib \<Rightarrow> lib" where
  "ir_remote_init use_dyncodes l = l\<lparr>l_dyncodes := use_dyncodes\<rparr>"

definition lib_remote :: "lib \<Rightarrow> remote_ptr \<Rightarrow> ir_remote" where
  "lib_remote l p = l_store l p"

definition set_remote :: "remote_ptr \<Rightarrow> ir_remote \<Rightarrow> lib \<Rightarrow> lib" where
  "set_remote p r l = l\<lparr>l_store := (l_store l)(p := r)\<rparr>"

text \<open>Calling the driver's \<open>decode_func\<close> on the remote at \<open>p\<close>.\<close>

definition last_ref_of :: "lib \<Rightarrow> remote_ptr \<Rightarrow> last_ref" where
  "last_ref_of l p =
     (case l_last_remote l of
        None \<Rightarrow> Last_None
      | Some q \<Rightarrow> if q = p then Last_Same else Last_Other (lib_remote l q))"

definition call_decode ::
    "(rx \<Rightarrow> decode_result option) \<Rightarrow> remote_ptr \<Rightarrow> lib \<Rightarrow> (bool \<times> decode_ctx_t \<times> lib) option" where
  "call_decode decode_func p l =
     (case decode_func ((l_rx l)\<lparr>rx_remote := lib_remote l p, rx_last := last_ref_of l p\<rparr>) of
        None \<Rightarrow> None
      | Some (ok, ctx, st) \<Rightarrow> Some (ok, ctx, set_remote p (rx_remote st) (l\<lparr>l_rx := st\<rparr>)))"

definition lib_clock :: "lib \<Rightarrow> timeval \<times> lib" where
  "lib_clock l = (case gettimeofday (l_rx l) of (t, st) \<Rightarrow> (t, l\<lparr>l_rx := st\<rparr>))"

text \<open>The sequences of all codes of all remotes start again.\<close>

definition clear_current :: "ir_remote \<Rightarrow> ir_remote" where
  "clear_current r = r\<lparr>r_codes := map_option (map (\<lambda>c. c\<lparr>nc_current := None\<rparr>)) (r_codes r)\<rparr>"

definition clear_all :: "remote_ptr list \<Rightarrow> lib \<Rightarrow> lib" where
  "clear_all remotes l =
     l\<lparr>l_store := (\<lambda>p. if p \<in> set remotes then clear_current (l_store l p) else l_store l p)\<rparr>"

definition upd_ncode :: "ncode_ref \<Rightarrow> (ir_ncode \<Rightarrow> ir_ncode) \<Rightarrow> ir_remote \<Rightarrow> ir_remote" where
  "upd_ncode c f r =
     (case c of
        Code_Ref i \<Rightarrow> r\<lparr>r_codes := map_option (\<lambda>cs. cs[i := f (cs ! i)]) (r_codes r)\<rparr>
      | Dyn_Ref i \<Rightarrow> r\<lparr>r_dyncodes := (r_dyncodes r)[i := f (r_dyncodes r ! i)]\<rparr>
      | Eof_Ref \<Rightarrow> r)"

text \<open>An XMP sequence waits for its second code from now on.\<close>

definition restart_xmp :: "ir_remote \<Rightarrow> ir_remote" where
  "restart_xmp r =
     (if is_xmp r then
        (case r_last_code r of
           None \<Rightarrow> r
         | Some c \<Rightarrow> upd_ncode c (\<lambda>c. c\<lparr>nc_current := (if nc_next c = [] then None else Some 0)\<rparr>) r)
      else r)"

text \<open>
  The repeat count that is reported: \<open>None\<close> while repeats are suppressed.
\<close>

definition reported_reps :: "ir_remote \<Rightarrow> ir_ncode \<Rightarrow> int option" where
  "reported_reps r c =
     (let reps = r_reps r - (if nc_next c \<noteq> [] then 1 else 0)
      in if reps > 0
         then (if reps \<le> r_suppress_repeat r then None else Some (reps - r_suppress_repeat r))
         else Some reps)"

text \<open>
  A code was found: \<open>set_code\<close>, then the message, unless the second signal of a pair or the
  rest of a sequence is still to come.
\<close>

definition decoded_button ::
    "remote_ptr list \<Rightarrow> remote_ptr \<Rightarrow> ncode_ref \<Rightarrow> ir_code \<Rightarrow> decode_ctx_t \<Rightarrow> lib \<Rightarrow> string option \<times> lib"
where
  "decoded_button remotes p ncode tbms ctx l =
     (case lib_clock l of
        (current, l) \<Rightarrow>
          (case set_code (lib_remote l p) (l_last_decoded l = Some p) ncode tbms ctx current of
             (ctx, r) \<Rightarrow>
               (let l = set_remote p r (l\<lparr>l_last_remote := Some p, l_last_decoded := Some p\<rparr>)
                in if has_toggle_mask r \<and> r_toggle_mask_state r smod 2 \<noteq> 0
                      \<or> nc_current (deref r ncode) \<noteq> None
                   then (None, l)
                   else
                     (let l = clear_all remotes l;
                          r = restart_xmp (lib_remote l p);
                          l = set_remote p r l
                      in case reported_reps r (deref r ncode) of
                           None \<Rightarrow> (None, l)
                         | Some reps \<Rightarrow>
                             (let lc = (case r_last_code r of Some c \<Rightarrow> c | None \<Rightarrow> ncode)
                              in case lib_clock l of
                                   (now, l) \<Rightarrow>
                                     (let l = l\<lparr>l_release := register_button_press (rx_driver (l_rx l))
                                                 (l_store l) now p lc (ctx_code ctx) reps (l_release l)\<rparr>
                                      in case write_message (PACKET_SIZE + 1) (r_name r)
                                                (nc_name (deref r lc)) [] (ctx_code ctx) reps of
                                           (msg, len) \<Rightarrow>
                                             (if len \<ge> PACKET_SIZE + 1 then None else Some msg, l)))))))"

text \<open>The loop over the remotes: \<open>todo\<close> are those not tried yet.\<close>

fun decode_loop ::
    "(rx \<Rightarrow> decode_result option) \<Rightarrow> remote_ptr list \<Rightarrow> remote_ptr list \<Rightarrow> lib \<Rightarrow> (string option \<times> lib) option"
where
  "decode_loop decode_func remotes [] l = Some (None, l\<lparr>l_last_remote := None\<rparr>)"
| "decode_loop decode_func remotes (p # todo) l =
     (case call_decode decode_func p l of
        None \<Rightarrow> None
      | Some (ok, ctx, l) \<Rightarrow>
          (let failed = (\<lambda>l. decode_loop decode_func remotes todo
                 (set_remote p ((lib_remote l p)\<lparr>r_toggle_mask_state := 0\<rparr>) l))
           in if ok then
                (case get_code (l_dyncodes l) (lib_remote l p) (ctx_pre ctx) (ctx_code ctx) (ctx_post ctx)
                        (ctx_repeat_flag ctx) of
                   ((found, tbms), r) \<Rightarrow>
                     (let l = set_remote p r l
                      in case found of
                           Some ncode \<Rightarrow>
                             if ncode = Eof_Ref then Some (Some PACKET_EOF, l)
                             else Some (decoded_button remotes p ncode tbms ctx l)
                         | None \<Rightarrow> failed l))
              else failed l))"

definition decode_all ::
    "(rx \<Rightarrow> decode_result option) \<Rightarrow> remote_ptr list \<Rightarrow> lib \<Rightarrow> (string option \<times> lib) option" where
  "decode_all decode_func remotes l = decode_loop decode_func remotes remotes l"

section \<open>Sending\<close>

text \<open>
  \<open>send_ir_ncode\<close>: the pause that is slept before the signal, and the call of the driver. The
  driver's \<open>send_func\<close> says whether it succeeded; None is undefined behaviour in it.
\<close>

definition send_pause :: "lib \<Rightarrow> remote_ptr \<Rightarrow> ncode_ref \<Rightarrow> timeval \<Rightarrow> int" where
  "send_pause l p code current =
     (let r = lib_remote l p;
          usecs = time_left current (r_last_send r) (r_min_remaining_gap r * 2)
      in if usecs > 0 \<and> (l_repeat_remote l = None \<or> l_repeat_remote l \<noteq> Some p
                         \<or> r_last_code r \<noteq> Some code)
         then usecs else 0)"

definition send_ir_ncode ::
    "(remote_ptr \<Rightarrow> ncode_ref \<Rightarrow> lib \<Rightarrow> (bool \<times> lib) option) \<Rightarrow> remote_ptr \<Rightarrow> ncode_ref \<Rightarrow> bool \<Rightarrow> lib
     \<Rightarrow> ((bool \<times> int) \<times> lib) option"
where
  "send_ir_ncode send_func p code delay l =
     (case (if delay \<and> r_last_code (lib_remote l p) \<noteq> None
            then (case lib_clock l of (current, l) \<Rightarrow> (send_pause l p code current, l))
            else (0, l)) of
        (pause, l) \<Rightarrow>
          (case send_func p code l of
             None \<Rightarrow> None
           | Some (True, l) \<Rightarrow>
               (case lib_clock l of
                  (now, l) \<Rightarrow>
                    Some ((True, pause),
                      set_remote p ((lib_remote l p)\<lparr>r_last_send := now, r_last_code := Some code\<rparr>) l))
           | Some (False, l) \<Rightarrow> Some ((False, pause), l)))"

end
