(* ===== verification/Tape.thy ===== *)
theory Tape
  imports Receive_Decode Send_Events Inline_Spec
begin

text \<open>
  The receiver seen from outside: it stands at a position of a tape of pulses and spaces, part of
  which is in its buffer already and the rest still comes from the driver. The primitives of
  \<open>lib/receive.c\<close> move along this tape; the lemmas say where they go and what they accept.
\<close>

section \<open>Signals on the wire\<close>

fun wire :: "sig \<Rightarrow> lirc_t" where
  "wire (Pulse d) = d + PULSE_BIT"
| "wire (Space d) = d"

definition valid :: "sig \<Rightarrow> bool" where
  "valid e \<longleftrightarrow> 0 < dur e \<and> dur e \<le> PULSE_MASK"

lemma and_pulse_mask: "(x :: int) AND PULSE_MASK = x mod 16777216"
  using take_bit_eq_mask [of 24 x] by (simp add: PULSE_MASK_def take_bit_eq_mod mask_eq_exp_minus_1)

lemma and_bit24: "(x :: int) AND 16777216 \<noteq> 0 \<longleftrightarrow> odd (x div 16777216)"
  using and_exp_eq_0_iff_not_bit [of x 24] by (simp add: bit_iff_odd)

lemma and_bit27: "(x :: int) AND 134217728 \<noteq> 0 \<longleftrightarrow> odd (x div 134217728)"
  using and_exp_eq_0_iff_not_bit [of x 27] by (simp add: bit_iff_odd)

lemma wire_pulse:
  assumes "0 < d" "d \<le> PULSE_MASK"
  shows "is_pulse (d + PULSE_BIT)" "(d + PULSE_BIT) AND PULSE_MASK = d"
    "(d + PULSE_BIT) AND LIRC_EOF = 0" "\<not> LIRC_IS_TIMEOUT (d + PULSE_BIT)" "d + PULSE_BIT \<noteq> 0"
proof -
  have d: "(d + 16777216) div 16777216 = 1" "(d + 16777216) div 134217728 = 0" "(d + 16777216) mod 16777216 = d"
    using assms by (simp_all add: PULSE_MASK_def)
  show "is_pulse (d + PULSE_BIT)" using and_bit24 [of "d + 16777216"] d by (simp add: is_pulse_def PULSE_BIT_def)
  show "(d + PULSE_BIT) AND PULSE_MASK = d" using d by (simp add: and_pulse_mask PULSE_BIT_def)
  show "(d + PULSE_BIT) AND LIRC_EOF = 0" using and_bit27 [of "d + 16777216"] d by (simp add: LIRC_EOF_def PULSE_BIT_def)
  have u: "u32 (d + PULSE_BIT) = d + 16777216" using assms by (simp add: u32_def PULSE_BIT_def PULSE_MASK_def)
  have "\<not> bit (d + 16777216) (25 :: nat)" using assms by (simp add: bit_iff_odd PULSE_MASK_def)
  then have "\<not> bit (u32 (d + PULSE_BIT) AND LIRC_MODE2_MASK) 25" using u by (simp add: bit_and_iff)
  moreover have "bit LIRC_MODE2_TIMEOUT 25" by (simp add: LIRC_MODE2_TIMEOUT_def bit_iff_odd)
  ultimately show "\<not> LIRC_IS_TIMEOUT (d + PULSE_BIT)" by (auto simp: LIRC_IS_TIMEOUT_def)
  show "d + PULSE_BIT \<noteq> 0" using assms by (simp add: PULSE_BIT_def)
qed

lemma wire_space:
  assumes "0 < d" "d \<le> PULSE_MASK"
  shows "\<not> is_pulse d" "d AND PULSE_MASK = d" "d AND LIRC_EOF = 0" "\<not> LIRC_IS_TIMEOUT d"
proof -
  have d: "d div 16777216 = 0" "d div 134217728 = 0" "d mod 16777216 = d"
    using assms by (simp_all add: PULSE_MASK_def)
  show "\<not> is_pulse d" using and_bit24 [of d] d by (simp add: is_pulse_def PULSE_BIT_def)
  show "d AND PULSE_MASK = d" using d by (simp add: and_pulse_mask)
  show "d AND LIRC_EOF = 0" using and_bit27 [of d] d by (simp add: LIRC_EOF_def)
  have u: "u32 d = d" using assms by (simp add: u32_def PULSE_MASK_def)
  have "\<not> bit d (25 :: nat)" using assms by (simp add: bit_iff_odd PULSE_MASK_def)
  then have "\<not> bit (u32 d AND LIRC_MODE2_MASK) 25" using u by (simp add: bit_and_iff)
  moreover have "bit LIRC_MODE2_TIMEOUT 25" by (simp add: LIRC_MODE2_TIMEOUT_def bit_iff_odd)
  ultimately show "\<not> LIRC_IS_TIMEOUT d" by (auto simp: LIRC_IS_TIMEOUT_def)
qed

lemma wire_dur: "valid e \<Longrightarrow> wire e AND PULSE_MASK = dur e"
  using wire_pulse(2) wire_space(2) by (cases e) (auto simp: valid_def)

lemma wire_facts:
  assumes "valid e"
  shows "wire e \<noteq> 0" "wire e AND LIRC_EOF = 0" "\<not> LIRC_IS_TIMEOUT (wire e)"
  using assms wire_pulse wire_space by (cases e; force simp: valid_def)+

section \<open>Positions\<close>

text \<open>
  The receiver is in the environment (driver, remote and the other globals) of the state \<open>env\<close>, has
  the pulse \<open>p\<close> and the space \<open>s\<close> pending, has taken the events \<open>pre\<close> and will get the events
  \<open>rest\<close>, then a timeout. The sum of the buffer is the length of \<open>pre\<close> plus \<open>k\<close>.
\<close>

definition same_env :: "rx \<Rightarrow> rx \<Rightarrow> bool" where
  "same_env env st \<longleftrightarrow> rx_driver st = rx_driver env \<and> rx_remote st = rx_remote env \<and> rx_last st = rx_last env
     \<and> rx_update_mode st = rx_update_mode env \<and> rx_clock st = rx_clock env"

definition rxat :: "rx \<Rightarrow> int \<Rightarrow> lirc_t \<Rightarrow> lirc_t \<Rightarrow> sig list \<Rightarrow> sig list \<Rightarrow> rx \<Rightarrow> bool" where
  "rxat env k p s pre rest st \<longleftrightarrow>
     same_env env st
     \<and> b_pendingp (rx_buf st) = p \<and> b_pendings (rx_buf st) = s
     \<and> length (b_data (rx_buf st)) = 512
     \<and> b_rptr (rx_buf st) = int (length pre) \<and> b_rptr (rx_buf st) \<le> b_wptr (rx_buf st)
     \<and> b_wptr (rx_buf st) \<le> 512
     \<and> take (nat (b_wptr (rx_buf st))) (b_data (rx_buf st)) @ rx_inputs st = map wire (pre @ rest)
     \<and> length (pre @ rest) \<le> 512 \<and> (\<forall>e\<in>set (pre @ rest). valid e)
     \<and> b_last_signal_time (rx_buf st) = timerclear
     \<and> b_sum (rx_buf st) = k + sum_list (map dur pre)"

lemma rxat_valid: "rxat env k p s pre (e # rest) st \<Longrightarrow> valid e"
  by (simp add: rxat_def)

lemma rxat_nth:
  assumes "rxat env k p s pre (e # rest) st"
  shows "b_rptr (rx_buf st) < b_wptr (rx_buf st) \<Longrightarrow> b_data (rx_buf st) ! length pre = wire e"
    and "\<not> b_rptr (rx_buf st) < b_wptr (rx_buf st) \<Longrightarrow> rx_inputs st = wire e # map wire rest
         \<and> nat (b_wptr (rx_buf st)) = length pre \<and> take (length pre) (b_data (rx_buf st)) = map wire pre"
proof -
  let ?w = "nat (b_wptr (rx_buf st))" and ?d = "b_data (rx_buf st)"
  have eq: "take ?w ?d @ rx_inputs st = map wire pre @ wire e # map wire rest"
    and len: "length ?d = 512" "?w \<le> 512" "b_rptr (rx_buf st) = int (length pre)"
    "b_rptr (rx_buf st) \<le> b_wptr (rx_buf st)"
    using assms by (auto simp: rxat_def)
  {
    assume "b_rptr (rx_buf st) < b_wptr (rx_buf st)"
    then have lt: "length pre < ?w" using len by linarith
    then have "?d ! length pre = (take ?w ?d @ rx_inputs st) ! length pre" using len by (simp add: nth_append)
    then show "?d ! length pre = wire e" unfolding eq by (simp add: nth_append)
  }
  assume "\<not> b_rptr (rx_buf st) < b_wptr (rx_buf st)"
  then have w: "?w = length pre" using len by linarith
  then have "length (take ?w ?d) = length (map wire pre)" using len by simp
  then show "rx_inputs st = wire e # map wire rest \<and> ?w = length pre \<and> take (length pre) ?d = map wire pre"
    using eq w by (metis append_eq_append_conv)
qed

lemma receive_timeout_u32: "m \<le> 2000000000 \<Longrightarrow> 0 < u32 (receive_timeout m)"
  by (auto simp: receive_timeout_def u32_def)

text \<open>Taking the next event, from the buffer or from the driver.\<close>

lemma next_buffer:
  assumes at: "rxat env k p s pre (e # rest) st" and m: "m \<le> 2000000000"
  shows "\<exists>st'. get_next_rec_buffer m st = (wire e, st') \<and> rxat env k p s (pre @ [e]) rest st'"
proof (cases "b_rptr (rx_buf st) < b_wptr (rx_buf st)")
  case True
  have inr: "in_rbuf (b_rptr (rx_buf st))" using at True by (simp add: rxat_def in_rbuf_def RBUF_SIZE_def)
  then have "get_next_rec_buffer m st = (wire e, upd_buf take_buffered st)"
    using rxat_nth(1) [OF at True] True at
    by (simp add: get_next_rec_buffer_def get_next_rec_buffer_internal.simps Let_def data_at_def rxat_def)
  moreover have "rxat env k p s (pre @ [e]) rest (upd_buf take_buffered st)"
    using at True inr rxat_nth(1) [OF at True] wire_dur [OF rxat_valid [OF at]]
    by (auto simp: rxat_def same_env_def upd_buf_def take_buffered_def touch_def data_at_def)
  ultimately show ?thesis by simp
next
  case False
  note n = rxat_nth(2) [OF at False]
  have w: "b_wptr (rx_buf st) = int (length pre)" "b_rptr (rx_buf st) = int (length pre)"
    and lt: "length pre < 512" and len: "length (b_data (rx_buf st)) = 512"
    using at False by (auto simp: rxat_def)
  note wf = wire_facts [OF rxat_valid [OF at]]
  have sig: "signal_elapsed st = (0, st)"
    using at by (simp add: signal_elapsed_def rxat_def timerisset_def timerclear_def)
  define st1 where "st1 = upd_buf (\<lambda>b. b\<lparr>b_at_eof := False\<rparr>) (st\<lparr>rx_inputs := map wire rest\<rparr>)"
  have rd: "readdata st = (wire e, st1)" using n wf by (simp add: readdata_def st1_def)
  define st2 where "st2 = upd_buf (store_input (wire e)) st1"
  have in_r: "in_rbuf (int (length pre))" using lt by (simp add: in_rbuf_def RBUF_SIZE_def)
  have buf: "b_data (rx_buf st2) = (b_data (rx_buf st))[length pre := wire e]"
    "b_rptr (rx_buf st2) = int (length pre) + 1" "b_wptr (rx_buf st2) = int (length pre) + 1"
    "b_sum (rx_buf st2) = b_sum (rx_buf st) + dur e"
    using w in_r lt len wire_dur [OF rxat_valid [OF at]]
    by (simp_all add: st2_def st1_def upd_buf_def store_input_def log_input_def put_data_def
        touch_def data_at_def Let_def)
  have data: "data_at (rx_buf st2) (b_rptr (rx_buf st2) - 1) = wire e"
    using buf lt len in_r by (simp add: data_at_def)
  have get: "get_next_rec_buffer m st = (wire e, st2)"
    using False w lt sig rd wf data receive_timeout_u32 [OF m]
    by (simp add: get_next_rec_buffer_def get_next_rec_buffer_internal.simps [of _ st] RBUF_SIZE_def
        st2_def [symmetric] Let_def)
  have fields: "same_env env st2" "b_pendingp (rx_buf st2) = p"
    "b_pendings (rx_buf st2) = s" "b_last_signal_time (rx_buf st2) = timerclear"
    "rx_inputs st2 = map wire rest"
    using at w in_r by (simp_all add: rxat_def same_env_def st2_def st1_def upd_buf_def store_input_def log_input_def
        put_data_def touch_def Let_def)
  have "take (Suc (length pre)) (b_data (rx_buf st2)) = map wire (pre @ [e])"
    using n buf lt len by (simp add: take_Suc_conv_app_nth)
  moreover have "nat (int (length pre) + 1) = Suc (length pre)" by simp
  ultimately have "rxat env k p s (pre @ [e]) rest st2"
    using at fields buf len lt by (simp add: rxat_def)
  then show ?thesis using get fields by simp
qed

text \<open>At the end of the tape the reads time out and nothing moves.\<close>

lemma next_end:
  assumes at: "rxat env k p s pre [] st" and m: "m \<le> 2000000000"
  shows "\<exists>st'. get_next_rec_buffer m st = (0, st') \<and> rxat env k p s pre [] st'"
proof -
  have eq: "take (nat (b_wptr (rx_buf st))) (b_data (rx_buf st)) @ rx_inputs st = map wire pre"
    and f: "length (b_data (rx_buf st)) = 512" "b_rptr (rx_buf st) = int (length pre)"
    "b_rptr (rx_buf st) \<le> b_wptr (rx_buf st)" "b_wptr (rx_buf st) \<le> 512"
    using at by (simp_all add: rxat_def)
  have "length (take (nat (b_wptr (rx_buf st))) (b_data (rx_buf st))) + length (rx_inputs st) = length pre"
    using arg_cong [OF eq, of length] by simp
  moreover have "min (length (b_data (rx_buf st))) (nat (b_wptr (rx_buf st))) = nat (b_wptr (rx_buf st))"
    using f by linarith
  ultimately have "nat (b_wptr (rx_buf st)) + length (rx_inputs st) = length pre" by simp
  moreover have "length pre \<le> nat (b_wptr (rx_buf st))" using f by linarith
  ultimately have "nat (b_wptr (rx_buf st)) = length pre" "length (rx_inputs st) = 0" by linarith+
  then have w: "b_wptr (rx_buf st) = int (length pre)" and inp: "rx_inputs st = []"
    using f by auto
  have sig: "signal_elapsed st = (0, st)"
    using at by (simp add: signal_elapsed_def rxat_def timerisset_def timerclear_def)
  show ?thesis
    using w f sig inp receive_timeout_u32 [OF m] at
    by (auto simp: get_next_rec_buffer_def get_next_rec_buffer_internal.simps [of _ st] readdata_def
        rxat_def same_env_def upd_buf_def RBUF_SIZE_def Let_def)
qed

section \<open>Moving along the tape\<close>

lemma rxat_pending:
  "rxat env k p s pre rest st \<Longrightarrow> b_pendingp (rx_buf st) = p \<and> b_pendings (rx_buf st) = s"
  by (simp add: rxat_def)

lemma rxat_remote: "rxat env k p s pre rest st \<Longrightarrow> rx_remote st = rx_remote env"
  by (simp add: rxat_def same_env_def)

lemma rxat_expect: "rxat env k p s pre rest st \<Longrightarrow> rx_expect st = rx_expect env"
  by (simp add: rxat_def same_env_def rx_expect_def fun_eq_iff)

lemma rxat_set_space: "rxat env k p s pre rest st \<Longrightarrow> rxat env k p s' pre rest (set_pending_space s' st)"
  by (simp add: rxat_def same_env_def set_pending_space_def upd_buf_def)

lemma rxat_set_pulse: "rxat env k p s pre rest st \<Longrightarrow> rxat env k p' s pre rest (set_pending_pulse p' st)"
  by (simp add: rxat_def same_env_def set_pending_pulse_def upd_buf_def)

lemma rxat_sum_0:
  "rxat env k p s pre rest st \<Longrightarrow>
   rxat env (- sum_list (map dur pre)) p s pre rest (upd_buf (\<lambda>b. b\<lparr>b_sum := 0\<rparr>) st)"
  by (simp add: rxat_def same_env_def upd_buf_def)

lemma rxat_unget:
  assumes at: "rxat env k p s (pre @ es) rest st" and n: "n = int (length es)" "n = 1 \<or> n = 2"
  shows "rxat env k p s pre (es @ rest) (unget_rec_buffer n st)"
proof -
  have data: "data_at (rx_buf st) (int (length pre + i)) AND PULSE_MASK = dur (es ! i)" if "i < length es" for i
  proof -
    let ?w = "nat (b_wptr (rx_buf st))" and ?d = "b_data (rx_buf st)"
    have eq: "take ?w ?d @ rx_inputs st = map wire (pre @ es @ rest)"
      and f: "length ?d = 512" "b_wptr (rx_buf st) \<le> 512" "int (length (pre @ es)) \<le> b_wptr (rx_buf st)"
      and v: "valid (es ! i)"
      using at that by (auto simp: rxat_def)
    have lt: "length pre + i < ?w" "length pre + i < 512" using f that by auto
    then have "?d ! (length pre + i) = (take ?w ?d @ rx_inputs st) ! (length pre + i)" using f by (simp add: nth_append)
    also have "\<dots> = wire (es ! i)" unfolding eq using that by (simp add: nth_append)
    finally show ?thesis
      using lt v by (simp add: data_at_def in_rbuf_def RBUF_SIZE_def wire_dur nat_int_add)
  qed
  have rp: "b_rptr (rx_buf st) = int (length pre) + n" using at n by (simp add: rxat_def)
  have d: "data_at (b\<lparr>b_stray := x\<rparr>) i = data_at b i" "data_at (b\<lparr>b_rptr := y\<rparr>) i = data_at b i"
    "data_at (b\<lparr>b_sum := y\<rparr>) i = data_at b i" for b :: rbuf and x y i
    by (simp_all add: data_at_def)
  let ?u = "unget_rec_buffer n st"
  have sm: "b_sum (rx_buf ?u) = b_sum (rx_buf st) - sum_list (map dur es)"
  proof (cases "n = 1")
    case True
    then obtain e where "es = [e]" using n(1) by (cases es) auto
    then show ?thesis
      using True rp data [of 0] by (simp add: unget_rec_buffer_def upd_buf_def touch_def Let_def d)
  next
    case False
    then obtain e f where es: "es = [e, f]" using n by (cases es rule: list.exhaust; cases "tl es") auto
    have "data_at (rx_buf st) (int (length pre)) AND PULSE_MASK = dur e"
      "data_at (rx_buf st) (1 + int (length pre)) AND PULSE_MASK = dur f"
      using data [of 0] data [of 1] es by simp_all
    then show ?thesis
      using False n rp es by (simp add: unget_rec_buffer_def upd_buf_def touch_def Let_def d)
  qed
  have "b_rptr (rx_buf ?u) = int (length pre)" "b_data (rx_buf ?u) = b_data (rx_buf st)"
    "b_wptr (rx_buf ?u) = b_wptr (rx_buf st)" "b_pendingp (rx_buf ?u) = b_pendingp (rx_buf st)"
    "b_pendings (rx_buf ?u) = b_pendings (rx_buf st)"
    "b_last_signal_time (rx_buf ?u) = b_last_signal_time (rx_buf st)" "rx_inputs ?u = rx_inputs st"
    "same_env env ?u = same_env env st"
    using n rp by (auto simp: unget_rec_buffer_def upd_buf_def touch_def same_env_def Let_def)
  then show ?thesis using at sm by (simp add: rxat_def)
qed

lemma next_pulse:
  assumes "rxat env k p s pre (e # rest) st" and "m \<le> 2000000000"
  shows "\<exists>st'. get_next_pulse m st = ((case e of Pulse d \<Rightarrow> d | Space _ \<Rightarrow> 0), st') \<and> rxat env k p s (pre @ [e]) rest st'"
proof -
  obtain st' where st': "get_next_rec_buffer m st = (wire e, st')" "rxat env k p s (pre @ [e]) rest st'"
    using next_buffer [OF assms] by blast
  have "valid e" using rxat_valid [OF assms(1)] .
  then show ?thesis
    using st' wire_pulse wire_space by (cases e) (auto simp: get_next_pulse_def valid_def)
qed

lemma next_space:
  assumes "rxat env k p s pre (e # rest) st" and "m \<le> 2000000000"
  shows "\<exists>st'. get_next_space m st = ((case e of Space d \<Rightarrow> d | Pulse _ \<Rightarrow> 0), st') \<and> rxat env k p s (pre @ [e]) rest st'"
proof -
  obtain st' where st': "get_next_rec_buffer m st = (wire e, st')" "rxat env k p s (pre @ [e]) rest st'"
    using next_buffer [OF assms] by blast
  have "valid e" using rxat_valid [OF assms(1)] .
  then show ?thesis
    using st' wire_pulse wire_space by (cases e) (auto simp: get_next_space_def is_space_def valid_def)
qed

text \<open>
  A space that is pending is the first event of the tape; without one nothing is read.
\<close>

definition pending_ok :: "rx \<Rightarrow> lirc_t \<Rightarrow> sig list \<Rightarrow> bool" where
  "pending_ok env s sp \<longleftrightarrow> (if s > 0 then \<exists>d. sp = [Space d] \<and> rx_expect env d s else s = 0 \<and> sp = [])"

lemma sync_space:
  assumes at: "rxat env k 0 s pre (sp @ rest) st" and sp: "pending_ok env s sp" and "s \<le> 2000000000"
  shows "\<exists>st'. sync_pending_space st = (True, st') \<and> rxat env k 0 0 (pre @ sp) rest st'"
proof (cases "s > 0")
  case True
  then obtain d where d: "sp = [Space d]" "rx_expect env d s" using sp by (auto simp: pending_ok_def)
  obtain st' where st': "get_next_space s st = (d, st')" "rxat env k 0 s (pre @ [Space d]) rest st'"
    using next_space [of env k 0 s pre "Space d" rest st s] at d assms(3) by auto
  have "d \<noteq> 0" using rxat_valid [of env k 0 s pre "Space d" rest st] at d by (simp add: valid_def)
  then show ?thesis
    using True st' d rxat_pending [OF at] rxat_expect [OF st'(2)] rxat_set_space [OF st'(2), of 0]
    by (simp add: sync_pending_space_def)
next
  case False
  then show ?thesis using sp at rxat_pending [OF at] by (simp add: pending_ok_def sync_pending_space_def)
qed

lemma sync_pulse_none: "rxat env k 0 s pre rest st \<Longrightarrow> sync_pending_pulse st = (True, st)"
  by (simp add: sync_pending_pulse_def rxat_def)

lemma expectpulse_at:
  assumes at: "rxat env k 0 s pre (sp @ Pulse d # rest) st" and sp: "pending_ok env s sp"
    and b: "s \<le> 2000000000" "x \<le> 2000000000"
  shows "\<exists>st'. expectpulse x st = (rx_expect env d x, st') \<and> rxat env k 0 0 (pre @ sp @ [Pulse d]) rest st'"
proof -
  obtain st1 where st1: "sync_pending_space st = (True, st1)" "rxat env k 0 0 (pre @ sp) (Pulse d # rest) st1"
    using sync_space [OF at sp b(1)] by blast
  obtain st2 where st2: "get_next_pulse x st1 = (d, st2)" "rxat env k 0 0 ((pre @ sp) @ [Pulse d]) rest st2"
    using next_pulse [OF st1(2) b(2)] by auto
  have "d \<noteq> 0" using rxat_valid [OF st1(2)] by (simp add: valid_def)
  then show ?thesis
    using st1 st2 rxat_pending [OF st1(2)] rxat_expect [OF st2(2)]
    by (simp add: expectpulse_def then_ok_def)
qed

lemma expectspace_at:
  assumes at: "rxat env k 0 0 pre (Space d # rest) st" and b: "x \<le> 2000000000"
  shows "\<exists>st'. expectspace x st = (rx_expect env d x, st') \<and> rxat env k 0 0 (pre @ [Space d]) rest st'"
proof -
  obtain st2 where st2: "get_next_space x st = (d, st2)" "rxat env k 0 0 (pre @ [Space d]) rest st2"
    using next_space [OF at b] by auto
  have "d \<noteq> 0" using rxat_valid [OF at] by (simp add: valid_def)
  then show ?thesis
    using st2 rxat_pending [OF at] rxat_expect [OF st2(2)] sync_pulse_none [OF at]
    by (simp add: expectspace_def then_ok_def)
qed

end
