(* ===== verification/Codec.thy ===== *)
theory Codec
  imports Tape
begin

text \<open>
  The decoding loops of \<open>get_data\<close>. A loop that reads one symbol after another keeps the contract
  of \<open>symbol_codec\<close>; the contract gives whole lists of symbols. The loops of the space encoding,
  of RC-MM and of XMP are interpretations of it.
\<close>

section \<open>The contract of a decoding loop\<close>

text \<open>A list of events is heard as a list of symbols.\<close>

fun heard_as :: "('s \<Rightarrow> sig list \<Rightarrow> bool) \<Rightarrow> 's list \<Rightarrow> sig list \<Rightarrow> bool" where
  "heard_as h [] es \<longleftrightarrow> es = []"
| "heard_as h (s # ss) es \<longleftrightarrow> (\<exists>a b. es = a @ b \<and> h s a \<and> heard_as h ss b)"

lemma heard_as_ConsI: "h s a \<Longrightarrow> heard_as h ss b \<Longrightarrow> heard_as h (s # ss) (a @ b)"
  by auto

locale symbol_codec =
  fixes at :: "rx \<Rightarrow> sig list \<Rightarrow> bool"
    and hears :: "'s \<Rightarrow> sig list \<Rightarrow> bool"
    and get :: "nat \<Rightarrow> int \<Rightarrow> ir_code \<Rightarrow> rx \<Rightarrow> ir_code \<times> rx"
    and add :: "'s \<Rightarrow> ir_code \<Rightarrow> ir_code"
  assumes get_none: "get 0 i c st = (c, st)"
    and get_one: "at st (es @ rest) \<Longrightarrow> hears s es \<Longrightarrow>
      \<exists>st'. get (Suc n) i c st = get n (i + 1) (add s c) st' \<and> at st' rest"
begin

lemma get_all:
  "at st (es @ rest) \<Longrightarrow> heard_as hears ss es \<Longrightarrow>
   \<exists>st'. get (length ss) i c st = (fold add ss c, st') \<and> at st' rest"
proof (induction ss arbitrary: st es i c)
  case Nil
  then show ?case by (auto simp: get_none)
next
  case (Cons s ss)
  then obtain a b where ab: "es = a @ b" "hears s a" "heard_as hears ss b" by auto
  then obtain st1 where st1: "get (Suc (length ss)) i c st = get (length ss) (i + 1) (add s c) st1"
    "at st1 (b @ rest)"
    using get_one [of st a "b @ rest" s "length ss" i c] Cons.prems by auto
  obtain st2 where "get (length ss) (i + 1) (add s c) st1 = (fold add ss (add s c), st2)" "at st2 rest"
    using Cons.IH [OF st1(2) ab(3)] by blast
  then show ?case using st1 by auto
qed

end

section \<open>Two-valued bits of a pulse and a space\<close>

text \<open>Two lengths no duration is taken for both of.\<close>

definition apart :: "rx \<Rightarrow> lirc_t \<Rightarrow> lirc_t \<Rightarrow> bool" where
  "apart env x y \<longleftrightarrow>
     (let t = tolerance (rx_driver env) (rx_remote env)
      in x + t x < y - t y \<or> y + t y < x - t x)"

lemma apartD: "apart env x y \<Longrightarrow> rx_expect env d x \<Longrightarrow> \<not> rx_expect env d y"
  by (auto simp: apart_def rx_expect_def expect_window Let_def)

definition usable :: "lirc_t \<Rightarrow> bool" where
  "usable d \<longleftrightarrow> 0 < d \<and> d \<le> 1000000000"

definition space_enc_ok :: "rx \<Rightarrow> bool" where
  "space_enc_ok env \<longleftrightarrow>
     (let r = rx_remote env
      in is_space_enc r \<and> r_rc6_mask r = 0 \<and> r_ptrail r > 0
         \<and> usable (r_pone r) \<and> usable (r_sone r) \<and> usable (r_pzero r) \<and> usable (r_szero r)
         \<and> (apart env (r_pone r) (r_pzero r) \<or> apart env (r_sone r) (r_szero r)))"

definition bit_heard :: "rx \<Rightarrow> bool \<Rightarrow> sig list \<Rightarrow> bool" where
  "bit_heard env b es \<longleftrightarrow>
     (let r = rx_remote env
      in \<exists>d e. es = [Pulse d, Space e]
           \<and> rx_expect env d (if b then r_pone r else r_pzero r)
           \<and> rx_expect env e (if b then r_sone r else r_szero r))"

definition add_bit :: "bool \<Rightarrow> ir_code \<Rightarrow> ir_code" where
  "add_bit b c = push_bit 1 c OR of_bool b"

text \<open>
  Before a bit: a space that is pending comes first. \<open>tot\<close> is the length of the whole tape from
  where the sum of the buffer was cleared.
\<close>

definition bits_at :: "rx \<Rightarrow> int \<Rightarrow> rx \<Rightarrow> sig list \<Rightarrow> bool" where
  "bits_at env tot st rest \<longleftrightarrow> space_enc_ok env
     \<and> (\<exists>k pre s sp. rxat env k 0 s pre (sp @ rest) st \<and> pending_ok env s sp \<and> s \<le> 2000000000
          \<and> k + sum_list (map dur (pre @ sp @ rest)) = tot)"

lemma bits_atI:
  assumes "space_enc_ok env" and "rxat env k 0 s pre (sp @ rest) st" and "pending_ok env s sp"
    and "s \<le> 2000000000" and "k + sum_list (map dur (pre @ sp @ rest)) = tot"
  shows "bits_at env tot st rest"
  using assms unfolding bits_at_def by blast

lemma space_enc_flags:
  assumes "space_enc_ok env"
  shows "\<not> is_biphase (rx_remote env)" "\<not> is_space_first (rx_remote env)" "\<not> is_goldstar (rx_remote env)"
    "\<not> is_rcmm (rx_remote env)" "\<not> is_bo (rx_remote env)" "\<not> is_xmp (rx_remote env)"
    "\<not> is_grundig (rx_remote env)" "\<not> is_serial (rx_remote env)" "\<not> is_raw (rx_remote env)"
  using assms by (auto simp: space_enc_ok_def cdefs flag_defs Let_def)

text \<open>A pulse and a space against the lengths \<open>x\<close> and \<open>y\<close>; on failure the receiver goes back.\<close>

lemma expect_pair_at:
  assumes at: "rxat env k 0 s pre (sp @ Pulse d # Space e # rest) st" and sp: "pending_ok env s sp"
    and b: "s \<le> 2000000000" "x \<le> 2000000000" "y \<le> 2000000000"
  shows "\<exists>st'. then_ok (unget_on_fail 1 (expectpulse x)) (unget_on_fail 2 (expectspace y)) st
      = (rx_expect env d x \<and> rx_expect env e y, st')
    \<and> rxat env k 0 0 (if rx_expect env d x \<and> rx_expect env e y then pre @ sp @ [Pulse d, Space e] else pre @ sp)
        (if rx_expect env d x \<and> rx_expect env e y then rest else Pulse d # Space e # rest) st'"
proof -
  obtain st1 where st1: "expectpulse x st = (rx_expect env d x, st1)"
    "rxat env k 0 0 (pre @ sp @ [Pulse d]) (Space e # rest) st1"
    using expectpulse_at [OF at sp b(1,2)] by blast
  obtain st2 where st2: "expectspace y st1 = (rx_expect env e y, st2)"
    "rxat env k 0 0 ((pre @ sp @ [Pulse d]) @ [Space e]) rest st2"
    using expectspace_at [OF st1(2) b(3)] by blast
  have u1: "rxat env k 0 0 (pre @ sp) (Pulse d # Space e # rest) (unget_rec_buffer 1 st1)"
    using rxat_unget [of env k 0 0 "pre @ sp" "[Pulse d]" "Space e # rest" st1 1] st1(2) by simp
  have u2: "rxat env k 0 0 (pre @ sp) (Pulse d # Space e # rest) (unget_rec_buffer 2 st2)"
    using rxat_unget [of env k 0 0 "pre @ sp" "[Pulse d, Space e]" rest st2 2] st2(2) by simp
  show ?thesis
    using st1 st2 u1 u2 by (simp add: then_ok_def unget_on_fail_def)
qed

lemma guarded_True [simp]: "guarded True f = f"
  by (simp add: guarded_def fun_eq_iff)

lemma expectone_at:
  assumes at: "rxat env k 0 s pre (sp @ Pulse d # Space e # rest) st" and sp: "pending_ok env s sp"
    and "s \<le> 2000000000" and ok: "space_enc_ok env"
  defines "one \<equiv> rx_expect env d (r_pone (rx_remote env)) \<and> rx_expect env e (r_sone (rx_remote env))"
  shows "\<exists>st'. expectone n st = (one, st')
    \<and> rxat env k 0 0 (if one then pre @ sp @ [Pulse d, Space e] else pre @ sp)
        (if one then rest else Pulse d # Space e # rest) st'"
proof -
  let ?r = "rx_remote env"
  have g: "r_pone ?r > 0" "r_sone ?r > 0" "r_ptrail ?r > 0" "r_pone ?r \<le> 2000000000" "r_sone ?r \<le> 2000000000"
    using ok by (simp_all add: space_enc_ok_def usable_def Let_def)
  have "expectone n st = then_ok (unget_on_fail 1 (expectpulse (r_pone ?r))) (unget_on_fail 2 (expectspace (r_sone ?r))) st"
    using space_enc_flags [OF ok] g rxat_remote [OF at] by (simp add: expectone_def Let_def)
  then show ?thesis
    using expect_pair_at [OF at sp assms(3) g(4,5)] unfolding one_def by simp
qed

lemma expectzero_at:
  assumes at: "rxat env k 0 0 pre (Pulse d # Space e # rest) st" and ok: "space_enc_ok env"
    and zero: "rx_expect env d (r_pzero (rx_remote env))" "rx_expect env e (r_szero (rx_remote env))"
  shows "\<exists>st'. expectzero n st = (True, st') \<and> rxat env k 0 0 (pre @ [Pulse d, Space e]) rest st'"
proof -
  let ?r = "rx_remote env"
  have g: "r_pzero ?r > 0" "r_szero ?r > 0" "r_ptrail ?r > 0" "r_pzero ?r \<le> 2000000000" "r_szero ?r \<le> 2000000000"
    using ok by (simp_all add: space_enc_ok_def usable_def Let_def)
  have "expectzero n st = then_ok (unget_on_fail 1 (expectpulse (r_pzero ?r))) (unget_on_fail 2 (expectspace (r_szero ?r))) st"
    using space_enc_flags [OF ok] g rxat_remote [OF at] by (simp add: expectzero_def Let_def)
  then show ?thesis
    using expect_pair_at [of env k 0 pre "[]" d e rest st "r_pzero ?r" "r_szero ?r"] at zero g
    by (simp add: pending_ok_def)
qed

lemma get_bits_one:
  assumes at: "bits_at env tot st (es @ rest)" and heard: "bit_heard env b es"
  shows "\<exists>st'. get_bits_loop (Suc m) n c st = get_bits_loop m (n + 1) (add_bit b c) st' \<and> bits_at env tot st' rest"
proof -
  let ?r = "rx_remote env"
  obtain k pre s sp where ok: "space_enc_ok env" and rx: "rxat env k 0 s pre (sp @ es @ rest) st"
    and sp: "pending_ok env s sp" "s \<le> 2000000000"
    and tot: "k + sum_list (map dur (pre @ sp @ es @ rest)) = tot"
    using at by (auto simp: bits_at_def)
  obtain d e where es: "es = [Pulse d, Space e]" "rx_expect env d (if b then r_pone ?r else r_pzero ?r)"
    "rx_expect env e (if b then r_sone ?r else r_szero ?r)"
    using heard by (auto simp: bit_heard_def Let_def)
  have at2: "rxat env k 0 s pre (sp @ Pulse d # Space e # rest) st" using rx es(1) by simp
  have gold: "goldstar_step n st = st"
    using space_enc_flags [OF ok] rxat_remote [OF at2] by (simp add: goldstar_step_def Let_def)
  have fin: "bits_at env tot st' rest" if "rxat env k 0 0 (pre @ sp @ [Pulse d, Space e]) rest st'" for st'
    using bits_atI [OF ok, of k 0 "pre @ sp @ [Pulse d, Space e]" "[]" rest st' tot] tot es(1) that
    by (simp add: pending_ok_def)
  obtain st1 where st1: "expectone n st = (b, st1)"
      "rxat env k 0 0 (if b then pre @ sp @ [Pulse d, Space e] else pre @ sp)
        (if b then rest else Pulse d # Space e # rest) st1"
  proof -
    have "(rx_expect env d (r_pone ?r) \<and> rx_expect env e (r_sone ?r)) = b"
      using es ok by (cases b) (auto simp: space_enc_ok_def Let_def dest: apartD)
    then show ?thesis using expectone_at [OF at2 sp ok, of n] that by auto
  qed
  show ?thesis
  proof (cases b)
    case True
    then show ?thesis using st1 gold fin by (auto simp: Let_def add_bit_def)
  next
    case False
    then obtain st2 where "expectzero n st1 = (True, st2)" "rxat env k 0 0 ((pre @ sp) @ [Pulse d, Space e]) rest st2"
      using expectzero_at [of env k "pre @ sp" d e rest st1 n] st1 ok es by auto
    then show ?thesis using False st1 gold fin by (auto simp: Let_def add_bit_def)
  qed
qed

interpretation bits: symbol_codec "bits_at env tot" "bit_heard env" get_bits_loop add_bit for env tot
  by unfold_locales (simp, rule get_bits_one)

end
