(* ===== verification/Data_Roundtrip.thy ===== *)
theory Data_Roundtrip
  imports Codec
begin

text \<open>
  Data sent and received: the symbols in which \<open>send_data\<close> puts a code on the wire are those in
  which \<open>get_data\<close> reads it, for the space encoding, RC-MM and XMP, with every duration disturbed
  within the tolerance of the receiver.
\<close>

section \<open>Lists of bits and words\<close>

lemma bit_fold_add_bit:
  "bit (fold add_bit bs c) k \<longleftrightarrow>
     k < 64 \<and> (if k < length bs then bs ! (length bs - 1 - k) else bit c (k - length bs))"
proof (induction bs arbitrary: c)
  case Nil
  then show ?case by (auto dest: bit_imp_le_length)
next
  case (Cons b bs)
  have *: "bit (add_bit b c) j \<longleftrightarrow> j < 64 \<and> (if j = 0 then b else bit c (j - 1))" for j
  proof -
    have "bit (of_bool b :: ir_code) j \<longleftrightarrow> b \<and> j = 0" by (cases b) (simp_all add: bit_1_iff)
    moreover have "bit (push_bit 1 c) j \<longleftrightarrow> j < 64 \<and> 1 \<le> j \<and> bit c (j - 1)"
      by (simp only: bit_push_bit_iff) (auto dest: bit_imp_le_length)
    ultimately show ?thesis by (simp only: add_bit_def bit_or_iff) auto
  qed
  show ?case
    using Cons.IH [of "add_bit b c"]
    by (auto simp: * nth_Cons' Suc_diff_le not_less split: if_splits)
qed

text \<open>The lowest \<open>n\<close> bits, highest first: the order in which a code is sent.\<close>

definition sent_bits :: "ir_code \<Rightarrow> nat \<Rightarrow> bool list" where
  "sent_bits d n = map (\<lambda>i. bit d (n - 1 - i)) [0..<n]"

lemma fold_sent_bits: "n \<le> 64 \<Longrightarrow> fold add_bit (sent_bits d n) 0 = take_bit n d"
  by (rule bit_eqI) (auto simp: bit_fold_add_bit sent_bits_def bit_take_bit_iff)

lemma length_sent_bits [simp]: "length (sent_bits d n) = n"
  by (simp add: sent_bits_def)

lemma sent_bits_reverse:
  "0 \<le> n \<Longrightarrow> n \<le> 64 \<Longrightarrow> map (bit (reverse d n)) [0..<nat n] = sent_bits d (nat n)"
  by (auto simp: sent_bits_def bit_reverse)

section \<open>Disturbed signals\<close>

text \<open>What is received for a pulse or a space: the same kind, with a length that is accepted.\<close>

fun near :: "rx \<Rightarrow> sig \<Rightarrow> sig \<Rightarrow> bool" where
  "near env (Pulse x) (Pulse d) \<longleftrightarrow> rx_expect env d x"
| "near env (Space x) (Space d) \<longleftrightarrow> rx_expect env d x"
| "near env _ _ \<longleftrightarrow> False"

definition no_toggle :: "ir_remote \<Rightarrow> bool" where
  "no_toggle r \<longleftrightarrow> r_toggle_bit_mask r = 0 \<and> r_toggle_mask r = 0"

lemma near_cases:
  "near env e f \<longleftrightarrow> (case e of Pulse x \<Rightarrow> \<exists>d. f = Pulse d \<and> rx_expect env d x
                           | Space x \<Rightarrow> \<exists>d. f = Space d \<and> rx_expect env d x)"
  by (cases e; cases f) auto

lemma bits_events_heard:
  assumes ok: "space_enc_ok env" and tog: "no_toggle (rx_remote env)"
  shows "list_all2 (near env) (bits_events (rx_remote env) n m d) fs \<Longrightarrow>
    heard_as (bit_heard env) (map (bit d) [0..<n]) fs"
proof (induction n arbitrary: m d fs)
  case (Suc n)
  let ?r = "rx_remote env"
  have t: "toggle_data ?r m d = d"
    using tog by (simp add: toggle_data_def no_toggle_def has_toggle_bit_mask_def has_toggle_mask_def)
  have b: "bit_events ?r m c = [Pulse (if c then r_pone ?r else r_pzero ?r), Space (if c then r_sone ?r else r_szero ?r)]" for c
    using space_enc_flags [OF ok] ok by (simp add: bit_events_def space_enc_ok_def Let_def)
  have "map (bit d) [0..<Suc n] = bit d 0 # map (bit (drop_bit 1 d)) [0..<n]"
    by (simp add: map_upt_Suc bit_drop_bit_eq del: upt_Suc)
  moreover from Suc.prems t obtain gs hs where fs: "fs = gs @ hs" "list_all2 (near env) (bit_events ?r m (bit d 0)) gs"
    "list_all2 (near env) (bits_events ?r n (drop_bit 1 m) (drop_bit 1 d)) hs"
    by (auto simp: Let_def test_bit_1 list_all2_append1)
  moreover have "bit_heard env (bit d 0) gs"
    using fs(2) by (auto simp: b bit_heard_def near_cases list_all2_Cons1 Let_def)
  moreover have "heard_as (bit_heard env) (map (bit (drop_bit 1 d)) [0..<n]) hs"
    using Suc.IH [OF fs(3)] .
  ultimately show ?case by (simp only: heard_as.simps) blast
qed simp

section \<open>Data\<close>

lemma get_data_space_enc:
  assumes at: "bits_at env tot st (fs @ rest)" and tog: "no_toggle (rx_remote env)"
    and n: "0 \<le> n" "n \<le> 64"
    and near: "list_all2 (near env) (data_events (rx_remote env) d n done) fs"
  shows "\<exists>st'. get_data n done' st = Some (take_bit (nat n) d, st') \<and> bits_at env tot st' rest"
proof -
  have ok: "space_enc_ok env" using at by (simp add: bits_at_def)
  have r: "rx_remote st = rx_remote env" using at by (auto simp: bits_at_def dest: rxat_remote)
  have "heard_as (bit_heard env) (map (bit (reverse d n)) [0..<nat n]) fs"
    using near space_enc_flags [OF ok] bits_events_heard [OF ok tog] by (simp add: data_events_def)
  then have heard: "heard_as (bit_heard env) (sent_bits d (nat n)) fs"
    using n by (simp add: sent_bits_reverse)
  obtain st' where "get_bits_loop (nat n) done' 0 st = (fold add_bit (sent_bits d (nat n)) 0, st')" "bits_at env tot st' rest"
    using bits.get_all [OF at heard, of done' 0] by auto
  then show ?thesis
    using space_enc_flags [OF ok] n
    by (simp add: get_data_def r fold_sent_bits Let_def)
qed

section \<open>Symbols of several bits\<close>

text \<open>RC-MM sends two bits and XMP four bits per symbol; the highest come first.\<close>

fun words_of :: "nat \<Rightarrow> nat \<Rightarrow> ir_code \<Rightarrow> ir_code list" where
  "words_of w 0 d = []"
| "words_of w (Suc m) d = reverse (take_bit w d) (int w) # words_of w m (drop_bit w d)"

definition add_word :: "nat \<Rightarrow> ir_code \<Rightarrow> ir_code \<Rightarrow> ir_code" where
  "add_word w q c = push_bit w c OR q"

lemma length_words_of [simp]: "length (words_of w m d) = m"
  by (induction m arbitrary: d) simp_all

lemma sent_bits_word: "w \<le> 64 \<Longrightarrow> sent_bits (reverse (take_bit w d) (int w)) w = map (bit d) [0..<w]"
  by (auto simp: sent_bits_def bit_reverse bit_take_bit_iff)

lemma add_word_bits:
  assumes "w \<le> 64"
  shows "add_word w (reverse d (int w)) c = fold add_bit (sent_bits (reverse d (int w)) w) c"
proof (rule bit_eqI)
  fix k
  have "bit c (k - w) \<Longrightarrow> k - w < 64" by (auto dest: bit_imp_le_length)
  then show "bit (add_word w (reverse d (int w)) c) k \<longleftrightarrow> bit (fold add_bit (sent_bits (reverse d (int w)) w) c) k"
    using assms
    by (auto simp: add_word_def bit_or_iff bit_push_bit_iff bit_reverse bit_fold_add_bit sent_bits_def
        dest: bit_imp_le_length)
qed

lemma fold_words_of:
  assumes "w \<le> 64"
  shows "fold (add_word w) (words_of w m d) c = fold add_bit (map (bit d) [0..<m * w]) c"
proof (induction m arbitrary: d c)
  case (Suc m)
  have "[0..<Suc m * w] = [0..<w] @ map (\<lambda>i. i + w) [0..<m * w]"
    by (simp add: map_add_upt upt_add_eq_append [symmetric] add.commute)
  then have "map (bit d) [0..<Suc m * w] = map (bit d) [0..<w] @ map (bit (drop_bit w d)) [0..<m * w]"
    by (simp add: bit_drop_bit_eq o_def add.commute)
  then show ?case
    using Suc.IH [of "drop_bit w d"] assms by (simp add: add_word_bits sent_bits_word)
qed simp

lemma fold_words_take:
  assumes "0 < w" "w \<le> 64" "0 \<le> n" "n \<le> 64" "n mod int w = 0"
  shows "fold (add_word w) (words_of w (nat n div w) (reverse d n)) 0 = take_bit (nat n) d"
proof -
  have "nat n div w * w = nat n"
    using assms by (metis dvd_div_mult_self mod_0_imp_dvd nat_int nat_mod_distrib nat_zero_as_int of_nat_0_le_iff)
  then show ?thesis
    using assms fold_words_of [of w "nat n div w" "reverse d n" 0] fold_sent_bits [of "nat n" d]
    by (simp add: sent_bits_reverse)
qed

text \<open>Disturbed pairs of a pulse and a space: the receiver looks at their sum.\<close>

fun paired :: "(lirc_t \<Rightarrow> lirc_t \<Rightarrow> bool) \<Rightarrow> sig list \<Rightarrow> sig list \<Rightarrow> bool" where
  "paired ok [] [] \<longleftrightarrow> True"
| "paired ok (Pulse p # Space s # es) (Pulse d # Space e # fs) \<longleftrightarrow> ok (d + e) (p + s) \<and> paired ok es fs"
| "paired ok _ _ \<longleftrightarrow> False"

lemma paired_Cons:
  "paired ok (Pulse p # Space s # es) fs \<longleftrightarrow>
   (\<exists>d e gs. fs = Pulse d # Space e # gs \<and> ok (d + e) (p + s) \<and> paired ok es gs)"
proof (cases fs rule: list.exhaust)
  case (Cons f gs)
  then show ?thesis by (cases gs; cases f; cases "hd gs") auto
qed simp

definition plain_at :: "rx \<Rightarrow> rx \<Rightarrow> sig list \<Rightarrow> bool" where
  "plain_at env st rest \<longleftrightarrow> (\<exists>k pre. rxat env k 0 0 pre rest st)"

lemma plain_at_pair:
  assumes "plain_at env st (Pulse d # Space e # rest)" and "x \<le> 2000000000" "y \<le> 2000000000"
  shows "\<exists>st1 st2. get_next_pulse x st = (d, st1) \<and> get_next_space y st1 = (e, st2)
    \<and> d \<noteq> 0 \<and> e \<noteq> 0 \<and> rx_remote st = rx_remote env \<and> rx_expect st2 = rx_expect env \<and> plain_at env st2 rest"
proof -
  obtain k pre where at: "rxat env k 0 0 pre (Pulse d # Space e # rest) st" using assms(1) by (auto simp: plain_at_def)
  obtain st1 where st1: "get_next_pulse x st = (d, st1)" "rxat env k 0 0 (pre @ [Pulse d]) (Space e # rest) st1"
    using next_pulse [OF at assms(2)] by auto
  obtain st2 where st2: "get_next_space y st1 = (e, st2)" "rxat env k 0 0 ((pre @ [Pulse d]) @ [Space e]) rest st2"
    using next_space [OF st1(2) assms(3)] by auto
  have "d \<noteq> 0" "e \<noteq> 0" using rxat_valid [OF at] rxat_valid [OF st1(2)] by (simp_all add: valid_def)
  then show ?thesis
    using st1(1) st2 rxat_remote [OF at] rxat_expect [OF st2(2)] by (auto simp: plain_at_def)
qed

subsection \<open>RC-MM\<close>

definition rcmm_sum :: "ir_remote \<Rightarrow> ir_code \<Rightarrow> lirc_t" where
  "rcmm_sum r q =
     (if q = 0 then r_pzero r + r_szero r else if q = 1 then r_pone r + r_sone r
      else if q = 2 then r_ptwo r + r_stwo r else r_pthree r + r_sthree r)"

definition rcmm_ok :: "rx \<Rightarrow> bool" where
  "rcmm_ok env \<longleftrightarrow> is_rcmm (rx_remote env) \<and> sum_p (rx_remote env) \<le> 2000000000 \<and> sum_s (rx_remote env) \<le> 2000000000
     \<and> list_all (\<lambda>(a, b). apart env (rcmm_sum (rx_remote env) a) (rcmm_sum (rx_remote env) b))
         [(0, 1), (0, 2), (0, 3), (1, 2), (1, 3), (2, 3)]"

definition rcmm_heard :: "rx \<Rightarrow> ir_code \<Rightarrow> sig list \<Rightarrow> bool" where
  "rcmm_heard env q es \<longleftrightarrow> q < 4
     \<and> (\<exists>d e. es = [Pulse d, Space e] \<and> rx_expect env (d + e) (rcmm_sum (rx_remote env) q))"

definition rcmm_at :: "rx \<Rightarrow> rx \<Rightarrow> sig list \<Rightarrow> bool" where
  "rcmm_at env st rest \<longleftrightarrow> rcmm_ok env \<and> plain_at env st rest"

lemma less_4_cases: "(q :: ir_code) < 4 \<Longrightarrow> q = 0 \<or> q = 1 \<or> q = 2 \<or> q = 3"
proof -
  assume "q < 4"
  then have "unat q < 4" by (simp add: word_less_nat_alt)
  then have "unat q = 0 \<or> unat q = 1 \<or> unat q = 2 \<or> unat q = 3" by linarith
  then show ?thesis by (simp add: word_unat_eq_iff)
qed

lemma get_rcmm_one:
  assumes at: "rcmm_at env st (es @ rest)" and heard: "rcmm_heard env q es"
  shows "\<exists>st'. get_rcmm_loop (Suc m) c st = get_rcmm_loop m (add_word 2 q c) st' \<and> rcmm_at env st' rest"
proof -
  let ?r = "rx_remote env"
  have ok: "rcmm_ok env" using at by (simp add: rcmm_at_def)
  obtain d e where es: "es = [Pulse d, Space e]" "rx_expect env (d + e) (rcmm_sum ?r q)" and q: "q < 4"
    using heard by (auto simp: rcmm_heard_def)
  obtain st1 st2 where st: "get_next_pulse (sum_p ?r) st = (d, st1)" "get_next_space (sum_s ?r) st1 = (e, st2)"
    "d \<noteq> 0" "e \<noteq> 0" "rx_remote st = ?r" "rx_expect st2 = rx_expect env" "plain_at env st2 rest"
    using plain_at_pair [of env st d e rest "sum_p ?r" "sum_s ?r"] at ok es(1)
    by (simp add: rcmm_at_def rcmm_ok_def) blast
  have ap: "\<not> rx_expect env (d + e) (rcmm_sum ?r a)" if "(a, q) \<in> set [(0, 1), (0, 2), (0, 3), (1, 2), (1, 3), (2, 3)]" for a
    using that ok es(2) apartD unfolding rcmm_ok_def list_all_iff by blast
  have "get_rcmm_loop (Suc m) c st = get_rcmm_loop m (add_word 2 q c) st2"
    using less_4_cases [OF q] st es(2) ap [of 0] ap [of 1] ap [of 2]
    by (elim disjE) (simp_all add: Let_def add_word_def rcmm_sum_def)
  then show ?thesis using st ok by (auto simp: rcmm_at_def)
qed

interpretation rcmm: symbol_codec "rcmm_at env" "rcmm_heard env" "\<lambda>m i c st. get_rcmm_loop m c st" "add_word 2" for env
  by unfold_locales (simp, rule get_rcmm_one)

lemma rcmm_events_heard:
  assumes "is_rcmm (rx_remote env)"
  shows "paired (rx_expect env) (rcmm_events (rx_remote env) m d) fs \<Longrightarrow>
    heard_as (rcmm_heard env) (words_of 2 m d) fs"
proof (induction m arbitrary: d fs)
  case 0
  then show ?case by (cases fs) auto
next
  case (Suc m)
  let ?r = "rx_remote env"
  have two: "reverse (take_bit 2 d) 2 = (if d AND 3 = 0 then 0 else if d AND 3 = 2 then 1 else if d AND 3 = 1 then 2 else 3)"
  proof -
    have "take_bit 2 d = d AND 3" by (simp add: take_bit_eq_mask mask_eq_exp_minus_1)
    moreover have "take_bit 2 d < 4" by (simp add: take_bit_eq_mod word_mod_less_divisor)
    then have "take_bit 2 d = 0 \<or> take_bit 2 d = 1 \<or> take_bit 2 d = 2 \<or> take_bit 2 d = 3" by (rule less_4_cases)
    moreover have "reverse 0 2 = 0" "reverse 1 2 = 2" "reverse 2 2 = 1" "reverse 3 2 = 3" by code_simp+
    ultimately show ?thesis by auto
  qed
  have pair: "\<exists>p s. rcmm_events ?r (Suc m) d = Pulse p # Space s # rcmm_events ?r m (drop_bit 2 d)
      \<and> p + s = rcmm_sum ?r (reverse (take_bit 2 d) 2)"
    unfolding two by (auto simp: Let_def rcmm_sum_def)
  obtain p s where ps: "rcmm_events ?r (Suc m) d = Pulse p # Space s # rcmm_events ?r m (drop_bit 2 d)"
    "p + s = rcmm_sum ?r (reverse (take_bit 2 d) 2)"
    using pair by blast
  obtain a b gs where fs: "fs = [Pulse a, Space b] @ gs" "rx_expect env (a + b) (p + s)"
    "paired (rx_expect env) (rcmm_events ?r m (drop_bit 2 d)) gs"
    using Suc.prems unfolding ps(1) paired_Cons by auto
  have "reverse (take_bit 2 d) 2 < 4" unfolding two by simp
  then have "rcmm_heard env (reverse (take_bit 2 d) 2) [Pulse a, Space b]"
    using fs(2) ps(2) by (simp add: rcmm_heard_def)
  then show ?case unfolding fs(1) words_of.simps by (intro heard_as_ConsI Suc.IH [OF fs(3)]) simp
qed

lemma get_data_rcmm:
  assumes at: "rcmm_at env st (fs @ rest)" and n: "0 \<le> n" "n \<le> 64" "n mod 2 = 0" "done mod 2 = 0" "0 \<le> done"
    and near: "paired (rx_expect env) (data_events (rx_remote env) d n done) fs"
  shows "\<exists>st'. get_data n done st = Some (take_bit (nat n) d, st') \<and> rcmm_at env st' rest"
proof -
  let ?r = "rx_remote env"
  have ok: "is_rcmm ?r" using at by (simp add: rcmm_at_def rcmm_ok_def)
  obtain k pre where rx: "rxat env k 0 0 pre (fs @ rest) st" using at by (auto simp: rcmm_at_def plain_at_def)
  have r: "rx_remote st = ?r" using rxat_remote [OF rx] .
  have sm: "n smod 2 = 0" "done smod 2 = 0" using n by (simp_all add: signed_modulo_int_def sdiv_nonneg)
  have heard: "heard_as (rcmm_heard env) (words_of 2 (nat n div 2) (reverse d n)) fs"
    using near sm ok rcmm_events_heard [OF ok] by (simp add: data_events_def)
  obtain st' where "get_rcmm_loop (nat n div 2) 0 st = (fold (add_word 2) (words_of 2 (nat n div 2) (reverse d n)) 0, st')"
      "rcmm_at env st' rest"
    using rcmm.get_all [OF at heard, of 0] by auto
  then show ?thesis
    using sm ok n fold_words_take [of 2 n d] rxat_pending [OF rx]
    by (simp add: get_data_def r sync_pending_space_def Let_def)
qed

subsection \<open>XMP\<close>

definition xmp_ok :: "rx \<Rightarrow> bool" where
  "xmp_ok env \<longleftrightarrow>
     (let r = rx_remote env
      in is_xmp r \<and> r_pzero r \<le> 2000000000 \<and> 0 < r_sone r \<and> r_szero r + 16 * r_sone r \<le> 2000000000)"

text \<open>The length of a nibble may be off by less than half a unit.\<close>

definition xmp_near :: "rx \<Rightarrow> lirc_t \<Rightarrow> lirc_t \<Rightarrow> bool" where
  "xmp_near env x y \<longleftrightarrow> 2 * \<bar>x - y\<bar> < r_sone (rx_remote env)"

definition xmp_heard :: "rx \<Rightarrow> ir_code \<Rightarrow> sig list \<Rightarrow> bool" where
  "xmp_heard env q es \<longleftrightarrow> q < 16
     \<and> (\<exists>d e. es = [Pulse d, Space e]
          \<and> xmp_near env (d + e) (r_pzero (rx_remote env) + r_szero (rx_remote env) + uint q * r_sone (rx_remote env)))"

definition xmp_at :: "rx \<Rightarrow> rx \<Rightarrow> sig list \<Rightarrow> bool" where
  "xmp_at env st rest \<longleftrightarrow> xmp_ok env \<and> plain_at env st rest"

lemma xmp_nibble_near:
  assumes "0 < r_sone r" and "2 * \<bar>x - (r_pzero r + r_szero r + uint q * r_sone r)\<bar> < r_sone r"
  shows "xmp_nibble r x = q"
proof -
  let ?u = "r_sone r" and ?d = "x - (r_pzero r + r_szero r + uint q * r_sone r)"
  have h: "?u sdiv 2 = ?u div 2" using assms by (simp add: sdiv_nonneg)
  have "0 \<le> y + v div 2 \<and> y + v div 2 < v" if "2 * \<bar>y\<bar> < v" for y v :: int using that by linarith
  from this [OF assms(2)] have b: "0 \<le> ?d + ?u div 2" "?d + ?u div 2 < ?u" by blast+
  have e: "x - (r_pzero r + r_szero r) + ?u sdiv 2 = ?d + ?u div 2 + uint q * ?u" using h by simp
  have "0 \<le> uint q * ?u" using assms(1) by simp
  then have "0 \<le> ?d + ?u div 2 + uint q * ?u" by (rule add_nonneg_nonneg [OF b(1)])
  then have "(x - (r_pzero r + r_szero r) + ?u sdiv 2) sdiv ?u = (?d + ?u div 2 + uint q * ?u) div ?u"
    unfolding e using assms(1) by (rule sdiv_nonneg)
  also have "(y + k * v) div v = k" if "0 \<le> y" "y < v" for y k v :: int using that by simp
  from this [OF b] have "(?d + ?u div 2 + uint q * ?u) div ?u = uint q" .
  finally show ?thesis by (simp add: xmp_nibble_def)
qed

lemma get_xmp_one:
  assumes at: "xmp_at env st (es @ rest)" and heard: "xmp_heard env q es"
  shows "\<exists>st'. get_xmp_loop (Suc m) c st = get_xmp_loop m (add_word 4 q c) st' \<and> xmp_at env st' rest"
proof -
  let ?r = "rx_remote env"
  have ok: "xmp_ok env" using at by (simp add: xmp_at_def)
  obtain d e where es: "es = [Pulse d, Space e]" "2 * \<bar>d + e - (r_pzero ?r + r_szero ?r + uint q * r_sone ?r)\<bar> < r_sone ?r"
    and q: "q < 16"
    using heard by (auto simp: xmp_heard_def xmp_near_def)
  obtain st1 st2 where st: "get_next_pulse (r_pzero ?r) st = (d, st1)"
    "get_next_space (r_szero ?r + 16 * r_sone ?r) st1 = (e, st2)"
    "d \<noteq> 0" "e \<noteq> 0" "rx_remote st = ?r" "plain_at env st2 rest"
    using plain_at_pair [of env st d e rest "r_pzero ?r" "r_szero ?r + 16 * r_sone ?r"] at ok es(1)
    by (simp add: xmp_at_def xmp_ok_def Let_def) blast
  have "xmp_nibble ?r (d + e) = q"
    using es(2) ok by (intro xmp_nibble_near) (simp_all add: xmp_ok_def Let_def)
  then have "get_xmp_loop (Suc m) c st = get_xmp_loop m (add_word 4 q c) st2"
    using st q [unfolded not_le [symmetric]] by (simp add: Let_def add_word_def)
  then show ?thesis using st ok by (auto simp: xmp_at_def)
qed

interpretation xmp: symbol_codec "xmp_at env" "xmp_heard env" "\<lambda>m i c st. get_xmp_loop m c st" "add_word 4" for env
  by unfold_locales (simp, rule get_xmp_one)

lemma xmp_events_heard:
  "paired (xmp_near env) (xmp_events (rx_remote env) m d) fs \<Longrightarrow> heard_as (xmp_heard env) (words_of 4 m d) fs"
proof (induction m arbitrary: d fs)
  case 0
  then show ?case by (cases fs) auto
next
  case (Suc m)
  let ?r = "rx_remote env"
  have mask: "d AND 0xf = take_bit 4 d" by (simp add: take_bit_eq_mask mask_eq_exp_minus_1)
  obtain a b gs where fs: "fs = [Pulse a, Space b] @ gs"
    "xmp_near env (a + b) (r_pzero ?r + (r_szero ?r + uint (reverse (take_bit 4 d) 4) * r_sone ?r))"
    "paired (xmp_near env) (xmp_events ?r m (drop_bit 4 d)) gs"
    using Suc.prems by (auto simp: paired_Cons mask)
  have "reverse (take_bit 4 d) 4 = take_bit 4 (reverse (take_bit 4 d) 4)"
    by (rule bit_eqI) (auto simp: bit_reverse bit_take_bit_iff)
  also have "\<dots> < 16" by (simp add: take_bit_eq_mod word_mod_less_divisor)
  finally have "xmp_heard env (reverse (take_bit 4 d) 4) [Pulse a, Space b]"
    using fs(2) by (simp add: xmp_heard_def add.assoc)
  then show ?case unfolding fs(1) words_of.simps by (intro heard_as_ConsI Suc.IH [OF fs(3)]) simp
qed

lemma get_data_xmp:
  assumes at: "xmp_at env st (fs @ rest)" and n: "0 \<le> n" "n \<le> 64" "n mod 4 = 0" "done mod 4 = 0" "0 \<le> done"
    and near: "paired (xmp_near env) (data_events (rx_remote env) d n done) fs"
  shows "\<exists>st'. get_data n done st = Some (take_bit (nat n) d, st') \<and> xmp_at env st' rest"
proof -
  let ?r = "rx_remote env"
  have ok: "is_xmp ?r" "\<not> is_rcmm ?r" "\<not> is_grundig ?r" "\<not> is_serial ?r" "\<not> is_bo ?r"
    using at by (auto simp: xmp_at_def xmp_ok_def cdefs flag_defs Let_def)
  obtain k pre where rx: "rxat env k 0 0 pre (fs @ rest) st" using at by (auto simp: xmp_at_def plain_at_def)
  have r: "rx_remote st = ?r" using rxat_remote [OF rx] .
  have sm: "n smod 4 = 0" "done smod 4 = 0" using n by (simp_all add: signed_modulo_int_def sdiv_nonneg)
  have heard: "heard_as (xmp_heard env) (words_of 4 (nat n div 4) (reverse d n)) fs"
    using near sm ok xmp_events_heard by (simp add: data_events_def)
  obtain st' where "get_xmp_loop (nat n div 4) 0 st = (fold (add_word 4) (words_of 4 (nat n div 4) (reverse d n)) 0, st')"
      "xmp_at env st' rest"
    using xmp.get_all [OF at heard, of 0] by auto
  then show ?thesis
    using sm ok n fold_words_take [of 4 n d] rxat_pending [OF rx]
    by (simp add: get_data_def r sync_pending_space_def Let_def)
qed

end
