(* ===== verification/Loopback.thy ===== *)
theory Loopback
  imports Data_Roundtrip Remote_Spec
begin

text \<open>
  From the transmitter to the receiver: \<open>receive_decode\<close> on the signal that \<open>send_code\<close> makes of a
  code, every duration disturbed within the receiver's tolerance, gives the three parts of the
  code back.
\<close>

section \<open>Remotes and situations covered\<close>

text \<open>A length that need not be there but if so is usable.\<close>

definition bounded :: "lirc_t \<Rightarrow> bool" where
  "bounded d \<longleftrightarrow> d \<le> 1000000000"

definition frame_ok :: "rx \<Rightarrow> bool" where
  "frame_ok env \<longleftrightarrow>
     (let r = rx_remote env
      in space_enc_ok env \<and> no_toggle r \<and> widths_ok r
         \<and> r_pre_data_bits r < 64 \<and> r_bits r < 64 \<and> r_post_data_bits r < 64
         \<and> r_plead r = 0 \<and> \<not> has_foot r \<and> \<not> has_flag r NO_HEAD_REP
         \<and> bounded (r_phead r) \<and> bounded (r_shead r) \<and> bounded (r_pre_p r) \<and> bounded (r_pre_s r)
         \<and> bounded (r_post_p r) \<and> bounded (r_post_s r) \<and> bounded (r_ptrail r)
         \<and> 0 \<le> r_eps r \<and> 0 \<le> eff_aeps (rx_driver env) r \<and> 0 \<le> min_gap r \<and> bounded (min_gap r)
         \<and> raw_mode env \<and> rx_last env = Last_None \<and> \<not> rx_update_mode env)"

text \<open>The receiver starts with a tape: a space, the signal and what follows it.\<close>

definition loaded :: "rx \<Rightarrow> sig list \<Rightarrow> bool" where
  "loaded st tape \<longleftrightarrow> \<not> b_at_eof (rx_buf st) \<and> rxat st 0 0 0 [] tape (upd_buf rec_buffer_rewind st)"

text \<open>After the signal nothing comes any more, or the gap does.\<close>

definition silent :: "ir_remote \<Rightarrow> sig list \<Rightarrow> bool" where
  "silent r tail \<longleftrightarrow> (case tail of [] \<Rightarrow> True | Space g # _ \<Rightarrow> min_gap r \<le> g | Pulse _ # _ \<Rightarrow> False)"

section \<open>Parts of a signal\<close>

lemma bits_at_remote: "bits_at env tot st rest \<Longrightarrow> rx_remote st = rx_remote env"
  by (auto simp: bits_at_def dest: rxat_remote)

lemma pulse_then_space:
  assumes at: "bits_at env tot st (fs @ rest)" and near: "list_all2 (near env) [Pulse x, Space y] fs"
    and b: "bounded x" "bounded y" "0 < y"
  shows "\<exists>st'. expectpulse x st = (True, st') \<and> bits_at env tot (set_pending_space y st') rest"
proof -
  obtain d e where fs: "fs = [Pulse d, Space e]" "rx_expect env d x" "rx_expect env e y"
    using near by (auto simp: list_all2_Cons1 near_cases)
  obtain k pre s sp where ok: "space_enc_ok env" and rx: "rxat env k 0 s pre (sp @ Pulse d # Space e # rest) st"
    and sp: "pending_ok env s sp" "s \<le> 2000000000"
    and tot: "k + sum_list (map dur (pre @ sp @ fs @ rest)) = tot"
    using at fs(1) by (auto simp: bits_at_def)
  obtain st' where st': "expectpulse x st = (True, st')" "rxat env k 0 0 (pre @ sp @ [Pulse d]) (Space e # rest) st'"
    using expectpulse_at [OF rx sp, of x] b fs by (auto simp: bounded_def)
  have "bits_at env tot (set_pending_space y st') rest"
    using bits_atI [OF ok, of k y "pre @ sp @ [Pulse d]" "[Space e]" rest "set_pending_space y st'" tot]
      rxat_set_space [OF st'(2), of y] tot fs b
    by (simp add: pending_ok_def bounded_def)
  then show ?thesis using st'(1) by blast
qed

lemma last_pulse:
  assumes at: "bits_at env tot st (fs @ rest)" and near: "list_all2 (near env) [Pulse x] fs" and b: "bounded x"
  shows "\<exists>st' k pre. expectpulse x st = (True, st') \<and> rxat env k 0 0 pre rest st'
    \<and> k + sum_list (map dur (pre @ rest)) = tot"
proof -
  obtain d where fs: "fs = [Pulse d]" "rx_expect env d x"
    using near by (auto simp: list_all2_Cons1 near_cases)
  obtain k pre s sp where rx: "rxat env k 0 s pre (sp @ Pulse d # rest) st"
    and sp: "pending_ok env s sp" "s \<le> 2000000000"
    and tot: "k + sum_list (map dur (pre @ sp @ fs @ rest)) = tot"
    using at fs(1) by (auto simp: bits_at_def)
  obtain st' where st': "expectpulse x st = (True, st')" "rxat env k 0 0 (pre @ sp @ [Pulse d]) rest st'"
    using expectpulse_at [OF rx sp, of x] b fs by (auto simp: bounded_def)
  have "k + sum_list (map dur ((pre @ sp @ [Pulse d]) @ rest)) = tot" using tot fs(1) by simp
  then show ?thesis using st' by blast
qed

lemma get_gap_silent:
  assumes at: "rxat env k 0 0 pre tail st" and f: "frame_ok env" and s: "silent (rx_remote env) tail"
    and g: "0 \<le> gap" "gap \<le> min_gap (rx_remote env)"
  shows "\<exists>st'. get_gap gap st = (True, st') \<and> rxat env k 0 0 pre tail st'"
proof -
  let ?r = "rx_remote env"
  have r: "rx_remote st = ?r" "rx_driver st = rx_driver env" using at by (simp_all add: rxat_def same_env_def)
  have eps: "0 \<le> r_eps ?r" "min_gap ?r \<le> 1000000000" "0 \<le> eff_aeps (rx_driver env) ?r"
    using f by (simp_all add: frame_ok_def bounded_def Let_def)
  have "0 \<le> gap * r_eps ?r sdiv 100" using g(1) eps(1) by (intro sdiv_pos_nonneg) simp_all
  then have m: "gap - gap * r_eps ?r sdiv 100 \<le> 2000000000" using g eps by linarith
  show ?thesis
  proof (cases tail)
    case Nil
    then obtain st' where "get_next_rec_buffer (gap - gap * r_eps ?r sdiv 100) st = (0, st')" "rxat env k 0 0 pre [] st'"
      using next_end [of env k 0 0 pre st] at m by auto
    then show ?thesis using Nil r by (auto simp: get_gap_def)
  next
    case (Cons e rest)
    then obtain d where e: "e = Space d" "min_gap ?r \<le> d" using s by (auto simp: silent_def split: sig.splits)
    obtain st' where st': "get_next_rec_buffer (gap - gap * r_eps ?r sdiv 100) st = (d, st')"
      "rxat env k 0 0 (pre @ [Space d]) rest st'"
      using next_buffer [of env k 0 0 pre e rest st] at m Cons e by auto
    have v: "valid (Space d)" using rxat_valid [of env k 0 0 pre "Space d" rest st] at Cons e by simp
    then have "is_space d" "d \<noteq> 0" using wire_space(1) by (auto simp: is_space_def valid_def)
    moreover have "rxat env k 0 0 pre tail (unget_rec_buffer 1 st')"
      using rxat_unget [OF st'(2), of 1] Cons e by simp
    moreover have "expect_at_least (rx_driver env) ?r d gap"
      using g e(2) eps(3) by (simp add: expect_at_least_def)
    ultimately show ?thesis
      using st' r by (auto simp: get_gap_def rxat_def same_env_def Let_def)
  qed
qed

section \<open>The whole signal\<close>

lemma frame_flags:
  assumes "frame_ok env"
  shows "space_enc_ok env" "no_toggle (rx_remote env)" "widths_ok (rx_remote env)" "\<not> lirccode_mode env"
    "raw_mode env" "\<not> is_rcmm (rx_remote env)" "\<not> is_bo (rx_remote env)" "\<not> is_raw (rx_remote env)"
    "0 \<le> r_pre_data_bits (rx_remote env)" "r_pre_data_bits (rx_remote env) < 64"
    "0 \<le> r_bits (rx_remote env)" "r_bits (rx_remote env) < 64"
    "0 \<le> r_post_data_bits (rx_remote env)" "r_post_data_bits (rx_remote env) < 64"
  using assms space_enc_flags [of env]
  by (auto simp: frame_ok_def widths_ok_def raw_mode_def lirccode_mode_def rec_mode_defs Let_def)

lemma take_not_bad: "0 \<le> n \<Longrightarrow> n < 64 \<Longrightarrow> take_bit (nat n) d \<noteq> bad_code"
proof
  assume n: "0 \<le> n" "n < 64" and eq: "take_bit (nat n) d = bad_code"
  have "bit (take_bit (nat n) d) 63" unfolding eq by (simp add: bad_code_def)
  then show False using n by (simp add: bit_take_bit_iff) linarith
qed

text \<open>Pulse and space that are there only when both are positive.\<close>

lemma opt_pair:
  assumes at: "bits_at env tot st (fs @ rest)"
    and near: "list_all2 (near env) (opt_events (x > 0 \<and> y > 0) [Pulse x, Space y]) fs"
    and b: "bounded x" "bounded y"
  shows "\<exists>st'. (if x > 0 \<and> y > 0
                then then_ok (expectpulse x) (succeed (set_pending_space y)) st else (True, st)) = (True, st')
    \<and> bits_at env tot st' rest"
proof (cases "x > 0 \<and> y > 0")
  case True
  then obtain st' where "expectpulse x st = (True, st')" "bits_at env tot (set_pending_space y st') rest"
    using pulse_then_space [OF at _ b] near by (auto simp: opt_events_def)
  then show ?thesis using True by (simp add: then_ok_def succeed_def)
next
  case False
  then show ?thesis using at near by (auto simp: opt_events_def)
qed

lemma get_pre_at:
  assumes at: "bits_at env tot st (fs @ gs @ rest)" and f: "frame_ok env"
    and near: "list_all2 (near env) (data_events (rx_remote env) d (r_pre_data_bits (rx_remote env)) 0) fs"
      "list_all2 (near env) (opt_events (r_pre_p (rx_remote env) > 0 \<and> r_pre_s (rx_remote env) > 0)
         [Pulse (r_pre_p (rx_remote env)), Space (r_pre_s (rx_remote env))]) gs"
  shows "\<exists>st'. get_pre st = Some (take_bit (nat (r_pre_data_bits (rx_remote env))) d, st') \<and> bits_at env tot st' rest"
proof -
  let ?r = "rx_remote env"
  note fl = frame_flags [OF f]
  obtain st1 where st1: "get_data (r_pre_data_bits ?r) 0 st = Some (take_bit (nat (r_pre_data_bits ?r)) d, st1)"
    "bits_at env tot st1 (gs @ rest)"
    using get_data_space_enc [OF at fl(2,9) _ near(1), of 0] fl by auto
  have u: "\<not> rx_update_mode st1" "rx_remote st1 = ?r"
    using st1(2) f by (auto simp: bits_at_def rxat_def same_env_def frame_ok_def Let_def)
  have b: "bounded (r_pre_p ?r)" "bounded (r_pre_s ?r)" using f by (simp_all add: frame_ok_def Let_def)
  obtain st2 where st2: "(if r_pre_p ?r > 0 \<and> r_pre_s ?r > 0
      then then_ok (expectpulse (r_pre_p ?r)) (succeed (set_pending_space (r_pre_s ?r))) st1 else (True, st1)) = (True, st2)"
    "bits_at env tot st2 rest"
    using opt_pair [OF st1(2) near(2) b] by blast
  show ?thesis
    using st1(1) st2 u bits_at_remote [OF at] take_not_bad [OF fl(9,10)]
    by (auto simp: get_pre_def then_ok_def succeed_def Let_def split: if_splits prod.splits bool.splits)
qed

lemma get_post_at:
  assumes at: "bits_at env tot st (fs @ gs @ rest)" and f: "frame_ok env"
    and near: "list_all2 (near env) (opt_events (r_post_p (rx_remote env) > 0 \<and> r_post_s (rx_remote env) > 0)
         [Pulse (r_post_p (rx_remote env)), Space (r_post_s (rx_remote env))]) fs"
      "list_all2 (near env) (data_events (rx_remote env) d (r_post_data_bits (rx_remote env))
         (r_pre_data_bits (rx_remote env) + r_bits (rx_remote env))) gs"
  shows "\<exists>st'. get_post st = Some (take_bit (nat (r_post_data_bits (rx_remote env))) d, st') \<and> bits_at env tot st' rest"
proof -
  let ?r = "rx_remote env"
  note fl = frame_flags [OF f]
  have b: "bounded (r_post_p ?r)" "bounded (r_post_s ?r)" using f by (simp_all add: frame_ok_def Let_def)
  obtain st1 where st1: "(if r_post_p ?r > 0 \<and> r_post_s ?r > 0
      then then_ok (expectpulse (r_post_p ?r)) (succeed (set_pending_space (r_post_s ?r))) st else (True, st)) = (True, st1)"
    "bits_at env tot st1 (gs @ rest)"
    using opt_pair [OF at near(1) b] by blast
  obtain st2 where "get_data (r_post_data_bits ?r) (r_pre_data_bits ?r + r_bits ?r) st1
      = Some (take_bit (nat (r_post_data_bits ?r)) d, st2)" "bits_at env tot st2 rest"
    using get_data_space_enc [OF st1(2) fl(2,13) _ near(2)] fl by auto
  then show ?thesis using st1(1) bits_at_remote [OF at] by (simp add: get_post_def Let_def)
qed

text \<open>The trail and the gap.\<close>

lemma decode_tail_at:
  assumes at: "bits_at env tot st (fs @ tail)" and f: "frame_ok env"
    and near: "list_all2 (near env) [Pulse (r_ptrail (rx_remote env))] fs"
    and s: "silent (rx_remote env) tail" and tot: "sum_list (map dur tail) \<le> tot"
  shows "\<exists>st' k pre. decode_tail header st = (True, st') \<and> rxat env k 0 0 pre tail st'
    \<and> b_sum (rx_buf st') = tot - sum_list (map dur tail)"
proof -
  let ?r = "rx_remote env"
  have tr: "r_ptrail ?r > 0" "bounded (r_ptrail ?r)" "\<not> has_foot ?r" "\<not> has_flag ?r NO_HEAD_REP" "0 \<le> min_gap ?r"
    using f by (simp_all add: frame_ok_def space_enc_ok_def Let_def)
  obtain st1 k pre where st1: "expectpulse (r_ptrail ?r) st = (True, st1)" "rxat env k 0 0 pre tail st1"
    "k + sum_list (map dur (pre @ tail)) = tot"
    using last_pulse [OF at near tr(2)] by blast
  have sm: "b_sum (rx_buf st1) = tot - sum_list (map dur tail)" using st1 by (simp add: rxat_def)
  have rem: "rx_remote st = ?r" "rx_remote st1 = ?r" using bits_at_remote [OF at] rxat_remote [OF st1(2)] by simp_all
  let ?gap = "if is_const ?r then gap_left (min_gap ?r) (b_sum (rx_buf st1)) else min_gap ?r"
  have "0 \<le> ?gap" "?gap \<le> min_gap ?r" using sm tot tr by (auto simp: gap_left_def)
  then obtain st2 where st2: "get_gap ?gap st1 = (True, st2)" "rxat env k 0 0 pre tail st2"
    using get_gap_silent [OF st1(2) f s] by blast
  have "b_sum (rx_buf st2) = b_sum (rx_buf st1)" using st1(2) st2(2) by (simp add: rxat_def)
  then have sm2: "b_sum (rx_buf st2) = tot - sum_list (map dur tail)" using sm by simp
  have "decode_tail header st = (True, st2)"
    using st1 st2(1) rem tr frame_flags(6) [OF f] rxat_pending [OF st1(2)]
    by (auto simp: decode_tail_def get_trail_def then_ok_def guarded_def Let_def)
  then show ?thesis using st2(2) sm2 by blast
qed

lemma append_near:
  "list_all2 (near env) (xs @ ys) fs \<Longrightarrow>
   \<exists>as bs. fs = as @ bs \<and> list_all2 (near env) xs as \<and> list_all2 (near env) ys bs"
  by (auto simp: list_all2_append1)

text \<open>What is sent behind the header.\<close>

definition body_events :: "ir_remote \<Rightarrow> ir_code \<Rightarrow> sig list" where
  "body_events r code =
     opt_events (has_pre r) (data_events r (r_pre_data r) (r_pre_data_bits r) 0)
     @ opt_events (has_pre r \<and> r_pre_p r > 0 \<and> r_pre_s r > 0) [Pulse (r_pre_p r), Space (r_pre_s r)]
     @ data_events r code (r_bits r) (r_pre_data_bits r)
     @ opt_events (has_post r \<and> r_post_p r > 0 \<and> r_post_s r > 0) [Pulse (r_post_p r), Space (r_post_s r)]
     @ opt_events (has_post r) (data_events r (r_post_data r) (r_post_data_bits r) (r_pre_data_bits r + r_bits r))
     @ [Pulse (r_ptrail r)]"

lemma code_events_frame:
  assumes "frame_ok env"
  shows "code_events (rx_remote env) code False
    = opt_events (has_header (rx_remote env)) [Pulse (r_phead (rx_remote env)), Space (r_shead (rx_remote env))]
      @ body_events (rx_remote env) code"
  using assms
  by (simp add: code_events_def body_events_def frame_ok_def space_enc_ok_def opt_events_def Let_def)

lemma decode_signal_at:
  assumes at: "bits_at env tot st (fs @ tail)" and f: "frame_ok env"
    and near: "list_all2 (near env) (body_events (rx_remote env) code) fs"
    and s: "silent (rx_remote env) tail" and tot: "sum_list (map dur tail) \<le> tot"
  shows "\<exists>ctx' st' k pre. decode_signal header zero_ctx st = Some (True, ctx', st')
    \<and> ctx_code ctx' = take_bit (nat (r_bits (rx_remote env))) code
    \<and> ctx_pre ctx' = take_bit (nat (r_pre_data_bits (rx_remote env))) (r_pre_data (rx_remote env))
    \<and> ctx_post ctx' = take_bit (nat (r_post_data_bits (rx_remote env))) (r_post_data (rx_remote env))
    \<and> rxat env k 0 0 pre tail st' \<and> b_sum (rx_buf st') = tot - sum_list (map dur tail)"
proof -
  let ?r = "rx_remote env"
  note fl = frame_flags [OF f]
  obtain as bs cs ds es gs where fs: "fs = as @ bs @ cs @ ds @ es @ gs"
    and a: "list_all2 (near env) (opt_events (has_pre ?r) (data_events ?r (r_pre_data ?r) (r_pre_data_bits ?r) 0)) as"
    and b: "list_all2 (near env) (opt_events (has_pre ?r \<and> r_pre_p ?r > 0 \<and> r_pre_s ?r > 0) [Pulse (r_pre_p ?r), Space (r_pre_s ?r)]) bs"
    and c: "list_all2 (near env) (data_events ?r code (r_bits ?r) (r_pre_data_bits ?r)) cs"
    and d: "list_all2 (near env) (opt_events (has_post ?r \<and> r_post_p ?r > 0 \<and> r_post_s ?r > 0) [Pulse (r_post_p ?r), Space (r_post_s ?r)]) ds"
    and e: "list_all2 (near env) (opt_events (has_post ?r) (data_events ?r (r_post_data ?r) (r_post_data_bits ?r) (r_pre_data_bits ?r + r_bits ?r))) es"
    and g: "list_all2 (near env) [Pulse (r_ptrail ?r)] gs"
    using near unfolding body_events_def by (metis append_near)
  obtain st1 where st1: "(if has_pre ?r then get_pre st else Some (0, st))
      = Some (take_bit (nat (r_pre_data_bits ?r)) (r_pre_data ?r), st1)"
    "bits_at env tot st1 (cs @ ds @ es @ gs @ tail)"
  proof (cases "has_pre ?r")
    case True
    then show ?thesis
      using get_pre_at [of env tot st as bs "cs @ ds @ es @ gs @ tail" "r_pre_data ?r"] at f a b fs that
      by (auto simp: opt_events_def)
  next
    case False
    moreover from this have "r_pre_data_bits ?r = 0" using fl(9) by (simp add: has_pre_def)
    ultimately show ?thesis using at a b fs that by (auto simp: opt_events_def)
  qed
  obtain st2 where st2: "get_data (r_bits ?r) (r_pre_data_bits ?r) st1 = Some (take_bit (nat (r_bits ?r)) code, st2)"
    "bits_at env tot st2 (ds @ es @ gs @ tail)"
    using get_data_space_enc [OF st1(2) fl(2,11) _ c] fl by auto
  obtain st3 where st3: "(if has_post ?r then get_post st2 else Some (0, st2))
      = Some (take_bit (nat (r_post_data_bits ?r)) (r_post_data ?r), st3)"
    "bits_at env tot st3 (gs @ tail)"
  proof (cases "has_post ?r")
    case True
    then show ?thesis
      using get_post_at [of env tot st2 ds es "gs @ tail" "r_post_data ?r"] st2(2) f d e that
      by (auto simp: opt_events_def)
  next
    case False
    moreover from this have "r_post_data_bits ?r = 0" using fl(13) by (simp add: has_post_def)
    ultimately show ?thesis using st2(2) d e that by (auto simp: opt_events_def)
  qed
  obtain st4 k pre where st4: "decode_tail header st3 = (True, st4)" "rxat env k 0 0 pre tail st4"
    "b_sum (rx_buf st4) = tot - sum_list (map dur tail)"
    using decode_tail_at [OF st3(2) f g s tot] by blast
  have rem: "rx_remote st = ?r" "rx_remote st1 = ?r" "rx_remote st2 = ?r"
    using bits_at_remote at st1(2) st2(2) by blast+
  have lead: "get_lead st = (True, st)" using f rem by (simp add: get_lead_def frame_ok_def Let_def)
  note nb = take_not_bad [OF fl(9,10)] take_not_bad [OF fl(11,12)] take_not_bad [OF fl(13,14)]
  have "decode_signal header zero_ctx st
      = Some (True, zero_ctx\<lparr>ctx_pre := take_bit (nat (r_pre_data_bits ?r)) (r_pre_data ?r),
           ctx_code := take_bit (nat (r_bits ?r)) code,
           ctx_post := take_bit (nat (r_post_data_bits ?r)) (r_post_data ?r)\<rparr>, st4)"
    using st1(1) st2(1) st3(1) st4(1) nb
    by (simp add: decode_signal_def decode_main_def decode_post_def lead rem Let_def)
  then show ?thesis using st4 by (intro exI conjI) (assumption | simp)+
qed

lemma rxat_biphase: "rxat env k p s pre rest (upd_buf (\<lambda>b. (rec_buffer_rewind b)\<lparr>b_is_biphase := x\<rparr>) st)
    = rxat env k p s pre rest (upd_buf rec_buffer_rewind st)"
  by (simp add: rxat_def same_env_def upd_buf_def)

lemma get_header_at:
  assumes at: "bits_at env tot st (fs @ rest)" and f: "frame_ok env" and h: "has_header (rx_remote env)"
    and near: "list_all2 (near env) [Pulse (r_phead (rx_remote env)), Space (r_shead (rx_remote env))] fs"
  shows "\<exists>st'. get_header st = (True, st') \<and> bits_at env tot st' rest"
proof -
  let ?r = "rx_remote env"
  have b: "bounded (r_phead ?r)" "bounded (r_shead ?r)" "0 < r_shead ?r" "\<not> has_flag ?r NO_HEAD_REP"
    using f h by (simp_all add: frame_ok_def has_header_def Let_def)
  obtain st1 where st1: "expectpulse (r_phead ?r) st = (True, st1)" "bits_at env tot (set_pending_space (r_shead ?r) st1) rest"
    using pulse_then_space [OF at near b(1-3)] by blast
  have "get_header st = (True, set_pending_space (r_shead ?r) st1)"
    using st1(1) b frame_flags [OF f] bits_at_remote [OF at]
    by (simp add: get_header_def then_ok_def unget_on_fail_def Let_def)
  then show ?thesis using st1(2) by blast
qed

lemma decode_sync_at:
  assumes at: "loaded st (Space g # fs @ rest)" and f: "frame_ok st"
    and near: "list_all2 (near st) (opt_events (has_header (rx_remote st))
       [Pulse (r_phead (rx_remote st)), Space (r_shead (rx_remote st))]) fs"
  shows "\<exists>st'. decode_sync st = Inr (g, has_header (rx_remote st), st')
    \<and> bits_at st (sum_list (map dur (fs @ rest))) st' rest"
proof -
  let ?r = "rx_remote st" and ?tot = "sum_list (map dur (fs @ rest))"
  define st1 where "st1 = upd_buf (\<lambda>b. (rec_buffer_rewind b)\<lparr>b_is_biphase := is_biphase (rx_remote st)\<rparr>) st"
  have r1: "rxat st 0 0 0 [] (Space g # fs @ rest) st1" using at by (simp add: st1_def loaded_def rxat_biphase)
  have last: "rx_last st = Last_None" using f by (simp add: frame_ok_def Let_def)
  obtain st2 where st2: "get_next_space 1000000 st1 = (g, st2)" "rxat st 0 0 0 [Space g] (fs @ rest) st2"
    using next_space [OF r1, of 1000000] by auto
  have g: "g \<noteq> 0" using rxat_valid [OF r1] by (simp add: valid_def)
  define st3 where "st3 = upd_buf (\<lambda>b. b\<lparr>b_sum := 0\<rparr>) st2"
  have r3: "rxat st (- g) 0 0 [Space g] (fs @ rest) st3" using rxat_sum_0 [OF st2(2)] by (simp add: st3_def)
  have last2: "rx_last st2 = Last_None" using st2(2) last by (simp add: rxat_def same_env_def)
  have sync: "sync_rec_buffer st1 = (g, st3)"
    using st2(1) g last2 by (simp add: sync_rec_buffer_def rx_last_remote_def st3_def Let_def)
  have b3: "bits_at st ?tot st3 (fs @ rest)"
    using bits_atI [OF frame_flags(1) [OF f], of "- g" 0 "[Space g]" "[]" "fs @ rest" st3 ?tot] r3
    by (simp add: pending_ok_def)
  have l3: "rx_last st3 = Last_None" "rx_remote st3 = ?r" using r3 last by (simp_all add: rxat_def same_env_def)
  show ?thesis
  proof (cases "has_header ?r")
    case True
    then obtain st4 where st4: "get_header st3 = (True, st4)" "bits_at st ?tot st4 rest"
      using get_header_at [OF b3 f True] near by (auto simp: opt_events_def)
    have "decode_sync st = Inr (g, True, st4)"
      using sync g l3 True st4(1) unfolding decode_sync_def st1_def [symmetric] by (simp add: Let_def)
    then show ?thesis using st4(2) True by auto
  next
    case False
    then have "decode_sync st = Inr (g, False, st3)"
      using sync g l3 unfolding decode_sync_def st1_def [symmetric] by (simp add: Let_def)
    then show ?thesis using b3 False near by (auto simp: opt_events_def)
  qed
qed

lemma valid_dur: "\<forall>e\<in>set es. valid e \<Longrightarrow> 0 \<le> sum_list (map dur es)"
  by (induction es) (auto simp: valid_def)

lemma receive_decode_at:
  assumes at: "loaded st (Space g # fs @ tail)" and f: "frame_ok st"
    and near: "list_all2 (near st) (code_events (rx_remote st) code False) fs"
    and s: "silent (rx_remote st) tail"
  shows "\<exists>ctx st'. receive_decode st = Some (True, ctx, st')
    \<and> ctx_code ctx = take_bit (nat (r_bits (rx_remote st))) code
    \<and> ctx_pre ctx = take_bit (nat (r_pre_data_bits (rx_remote st))) (r_pre_data (rx_remote st))
    \<and> ctx_post ctx = take_bit (nat (r_post_data_bits (rx_remote st))) (r_post_data (rx_remote st))
    \<and> rx_remote st' = rx_remote st
    \<and> (is_const (rx_remote st) \<longrightarrow>
         ctx_min_remaining_gap ctx = gap_left (min_gap (rx_remote st)) (sum_list (map dur fs)))"
proof -
  let ?r = "rx_remote st"
  note fl = frame_flags [OF f]
  obtain hs bs where fs: "fs = hs @ bs"
    and h: "list_all2 (near st) (opt_events (has_header ?r) [Pulse (r_phead ?r), Space (r_shead ?r)]) hs"
    and b: "list_all2 (near st) (body_events ?r code) bs"
    using near unfolding code_events_frame [OF f] by (metis append_near)
  let ?tot = "sum_list (map dur (fs @ tail))"
  obtain st1 where st1: "decode_sync st = Inr (g, has_header ?r, st1)" "bits_at st ?tot st1 (bs @ tail)"
    using decode_sync_at [of st g hs "bs @ tail"] at f h fs by auto
  have v: "\<forall>e\<in>set fs. valid e" using at by (simp add: loaded_def rxat_def)
  have le: "sum_list (map dur tail) \<le> ?tot" using valid_dur [OF v] by simp
  obtain ctx' st2 k pre where st2: "decode_signal (has_header ?r) zero_ctx st1 = Some (True, ctx', st2)"
    and c: "ctx_code ctx' = take_bit (nat (r_bits ?r)) code"
      "ctx_pre ctx' = take_bit (nat (r_pre_data_bits ?r)) (r_pre_data ?r)"
      "ctx_post ctx' = take_bit (nat (r_post_data_bits ?r)) (r_post_data ?r)"
    and r2: "rxat st k 0 0 pre tail st2" and sm: "b_sum (rx_buf st2) = ?tot - sum_list (map dur tail)"
    using decode_signal_at [OF st1(2) f b s le] by blast
  have env1: "rx_remote st1 = ?r" "rx_driver st1 = rx_driver st"
    using st1(2) by (auto simp: bits_at_def rxat_def same_env_def)
  have rem2: "rx_remote st2 = ?r" using rxat_remote [OF r2] .
  have "\<not> b_at_eof (rx_buf st)" using at by (simp add: loaded_def)
  then have "receive_decode st = Some (True, decode_finish g None ctx' st2, st2)"
    using st1(1) st2 env1 fl by (simp add: receive_decode_def lirccode_mode_def Let_def)
  moreover have "ctx_code (decode_finish g None ctx' st2) = ctx_code ctx'"
    "ctx_pre (decode_finish g None ctx' st2) = ctx_pre ctx'"
    "ctx_post (decode_finish g None ctx' st2) = ctx_post ctx'"
    "is_const ?r \<longrightarrow> ctx_min_remaining_gap (decode_finish g None ctx' st2) = gap_left (min_gap ?r) (sum_list (map dur fs))"
    using rem2 sm by (simp_all add: decode_finish_def Let_def)
  ultimately show ?thesis using c rem2 by auto
qed

section \<open>Through the air\<close>

text \<open>A list of durations as the receiver gets it.\<close>

fun alternate :: "bool \<Rightarrow> lirc_t list \<Rightarrow> sig list" where
  "alternate p [] = []"
| "alternate p (d # ds) = (if p then Pulse d else Space d) # alternate (\<not> p) ds"

fun alternates :: "bool \<Rightarrow> sig list \<Rightarrow> bool" where
  "alternates p [] \<longleftrightarrow> True"
| "alternates p (Pulse d # es) \<longleftrightarrow> p \<and> alternates False es"
| "alternates p (Space d # es) \<longleftrightarrow> \<not> p \<and> alternates True es"

lemma merged_alternates:
  "alternates p es \<Longrightarrow> p = even (length ds) \<Longrightarrow> fold merge_event es ds = ds @ map dur es"
proof (induction p es arbitrary: ds rule: alternates.induct)
  case (2 p d es)
  then show ?case by simp
next
  case (3 p d es)
  then show ?case by (cases ds) auto
qed simp

fun pairs :: "sig list \<Rightarrow> bool" where
  "pairs [] \<longleftrightarrow> True"
| "pairs (Pulse p # Space s # es) \<longleftrightarrow> 0 < p \<and> 0 < s \<and> pairs es"
| "pairs _ \<longleftrightarrow> False"

lemma pairs_append: "pairs es \<Longrightarrow> pairs (es @ fs) = pairs fs"
  by (induction es rule: pairs.induct) auto

lemma pairs_alternates: "pairs es \<Longrightarrow> alternates True (es @ [Pulse d])"
  by (induction es rule: pairs.induct) auto

lemma pairs_pos: "pairs es \<Longrightarrow> e \<in> set es \<Longrightarrow> pos_event e"
  by (induction es rule: pairs.induct) (auto simp: pos_event_def)

lemma pairs_even: "pairs es \<Longrightarrow> even (length es)"
  by (induction es rule: pairs.induct) auto

lemma pairs_bits: "space_enc_ok env \<Longrightarrow> pairs (bits_events (rx_remote env) n m d)"
proof (induction n arbitrary: m d)
  case (Suc n)
  have "pairs (bit_events (rx_remote env) m b)" for b
    using space_enc_flags [OF Suc.prems] Suc.prems
    by (auto simp: bit_events_def space_enc_ok_def usable_def Let_def)
  then show ?case using Suc by (simp add: Let_def pairs_append)
qed simp

lemma code_events_pairs:
  assumes f: "frame_ok env"
  shows "\<exists>ps. code_events (rx_remote env) code False = ps @ [Pulse (r_ptrail (rx_remote env))] \<and> pairs ps"
proof -
  note fl = frame_flags [OF f]
  have d: "pairs (data_events (rx_remote env) d n j)" for d n j
    using space_enc_flags [OF fl(1)] pairs_bits [OF fl(1)] by (simp add: data_events_def)
  show ?thesis
    unfolding code_events_frame [OF f] body_events_def append_assoc [symmetric]
    by (rule exI, rule conjI, rule refl) (simp add: pairs_append d opt_events_def has_header_def)
qed

lemma code_events_air:
  assumes f: "frame_ok env"
  shows "durations (code_events (rx_remote env) code False) = map dur (code_events (rx_remote env) code False)"
    and "merged (code_events (rx_remote env) code False) = map dur (code_events (rx_remote env) code False)"
    and "\<forall>e\<in>set (code_events (rx_remote env) code False). pos_event e"
    and "code_events (rx_remote env) code False = alternate True (map dur (code_events (rx_remote env) code False))"
proof -
  let ?es = "code_events (rx_remote env) code False"
  obtain ps where es: "?es = ps @ [Pulse (r_ptrail (rx_remote env))]" "pairs ps"
    using code_events_pairs [OF f] by blast
  have alt: "alternates True ?es" using es pairs_alternates by simp
  show m: "merged ?es = map dur ?es" using merged_alternates [OF alt, of "[]"] by (simp add: merged_def)
  have "odd (length ?es)" using pairs_even [OF es(2)] es(1) by simp
  then show "durations ?es = map dur ?es" by (simp add: durations_def trim_def m)
  have "0 < r_ptrail (rx_remote env)" using f by (simp add: frame_ok_def space_enc_ok_def Let_def)
  then show "\<forall>e\<in>set ?es. pos_event e" using es pairs_pos by (auto simp: pos_event_def)
  have "es = alternate p (map dur es)" if "alternates p es" for p es
    using that by (induction p es rule: alternates.induct) auto
  from this [OF alt] show "?es = alternate True (map dur ?es)" .
qed

lemma near_alternate:
  "list_all2 (\<lambda>d d'. rx_expect env d' d) ds ds' \<Longrightarrow> list_all2 (near env) (alternate p ds) (alternate p ds')"
  by (induction ds ds' arbitrary: p rule: list_all2_induct) auto

end
