(* ===== verification/Loopback_Spec.thy ===== *)
theory Loopback_Spec
  imports Loopback Send_Loop
begin

text \<open>The properties of a transmitter and a receiver together.\<close>

section \<open>Concrete receivers\<close>

text \<open>
  A receiver whose buffer holds the space before a signal and whose driver delivers the signal:
  all durations come a tenth too long.
\<close>

definition stretch :: "lirc_t list \<Rightarrow> lirc_t list" where
  "stretch ds = map (\<lambda>d. d + d div 10) ds"

definition sample_rx :: "ir_remote \<Rightarrow> sig list \<Rightarrow> rx" where
  "sample_rx r tape = \<lparr>rx_buf = rec_buffer_init\<lparr>b_data := (replicate 512 0)[0 := 50000], b_wptr := 1\<rparr>,
     rx_remote = r, rx_last = Last_None,
     rx_driver = \<lparr>d_rec_mode = LIRC_MODE_MODE2, d_code_length = 0, d_resolution = 50\<rparr>,
     rx_update_mode = False, rx_inputs = map wire tape, rx_clock = []\<rparr>"

definition sample_signal :: "sig list" where
  "sample_signal = alternate True (stretch (map dur (code_events sample_nec 0xB4 False)))"

definition sample_heard :: rx where
  "sample_heard = sample_rx sample_nec sample_signal"

lemma sample_heard_ok:
  "frame_ok sample_heard" "loaded sample_heard (Space 50000 # sample_signal @ [])"
  "list_all2 (near sample_heard) (code_events (rx_remote sample_heard) 0xB4 False) sample_signal"
  "silent (rx_remote sample_heard) []" "rx_remote sample_heard = sample_nec"
  by code_simp+

section \<open>Whole signals\<close>

text \<open>
  C4: The receiver inverts the transmitter. For a space encoded remote with a trailing pulse -
  with or without header, pre data, post data and the pulses between them - whose ones and zeros
  are apart by more than the tolerance: when the pulses and spaces of \<open>send_code\<close> arrive after a
  space, each disturbed by no more than the tolerance, and are followed by silence or a gap, then
  \<open>receive_decode\<close> succeeds and returns exactly the transmitted bits of the code, the pre data and
  the post data; the remaining gap of a remote of constant length is what is left of its gap
  after the signal as it was received.
\<close>

theorem receive_decode_recovers:
  assumes "loaded st (Space g # fs @ tail)" and "frame_ok st"
    and "list_all2 (near st) (code_events (rx_remote st) code False) fs"
    and "silent (rx_remote st) tail"
  shows "\<exists>ctx st'. receive_decode st = Some (True, ctx, st')
    \<and> ctx_code ctx = code AND gen_mask (r_bits (rx_remote st))
    \<and> ctx_pre ctx = r_pre_data (rx_remote st) AND gen_mask (r_pre_data_bits (rx_remote st))
    \<and> ctx_post ctx = r_post_data (rx_remote st) AND gen_mask (r_post_data_bits (rx_remote st))
    \<and> rx_remote st' = rx_remote st
    \<and> (is_const (rx_remote st) \<longrightarrow>
         ctx_min_remaining_gap ctx = gap_left (min_gap (rx_remote st)) (sum_list (map dur fs)))"
  using receive_decode_at [OF assms] unfolding and_gen_mask .

theorem receive_decode_recovers_witness:
  "\<exists>ctx st'. receive_decode sample_heard = Some (True, ctx, st')
    \<and> ctx_code ctx = 0xB4 AND gen_mask (r_bits sample_nec)
    \<and> ctx_pre ctx = r_pre_data sample_nec AND gen_mask (r_pre_data_bits sample_nec)
    \<and> ctx_post ctx = r_post_data sample_nec AND gen_mask (r_post_data_bits sample_nec)
    \<and> rx_remote st' = sample_nec
    \<and> (is_const sample_nec \<longrightarrow>
         ctx_min_remaining_gap ctx = gap_left (min_gap sample_nec) (sum_list (map dur sample_signal)))"
  using receive_decode_recovers [OF sample_heard_ok(2,1,3,4)] unfolding sample_heard_ok(5) .










end
