(* ===== verification/C_Text.thy ===== *)
theory C_Text
  imports Prelude
begin

text \<open>
  The C library functions on text the parsers of the program use: \<open>fgets\<close>, \<open>strtok\<close>, the
  \<open>strto\<close> family and the \<open>sscanf\<close> scan sets. A \<open>long\<close> has 32 bits, a \<open>long long\<close> 64.
  A file or a buffer is the list of its characters; none of them is NUL.
\<close>

abbreviation newline :: char where "newline \<equiv> CHR 0x0A"
abbreviation carriage_return :: char where "carriage_return \<equiv> CHR 0x0D"

section \<open>Reading lines\<close>

text \<open>The text up to the first newline, which is included.\<close>

primrec first_line :: "string \<Rightarrow> string" where
  "first_line [] = []"
| "first_line (c # s) = (if c = newline then [c] else c # first_line s)"

text \<open>\<open>fgets\<close> with a buffer of \<open>n\<close> bytes: what is read and what is left; None at the end.\<close>

definition fgets :: "nat \<Rightarrow> string \<Rightarrow> (string \<times> string) option" where
  "fgets n s = (if s = [] then None
     else let chunk = take (n - 1) (first_line s) in Some (chunk, drop (length chunk) s))"

lemma length_first_line: "length (first_line s) \<le> length s"
  by (induction s) auto

lemma first_line_Nil [simp]: "first_line s = [] \<longleftrightarrow> s = []"
  by (cases s) auto

lemma first_line_line [simp]: "newline \<notin> set l \<Longrightarrow> first_line (l @ newline # s) = l @ [newline]"
  by (induction l) auto

lemma fgets_progress: "1 < n \<Longrightarrow> fgets n s = Some (chunk, rest) \<Longrightarrow> chunk \<noteq> [] \<and> length rest < length s"
  by (auto simp: fgets_def Let_def split: if_splits)

lemma fgets_line:
  "newline \<notin> set l \<Longrightarrow> length l + 1 < n \<Longrightarrow> fgets n (l @ newline # s) = Some (l @ [newline], s)"
  by (simp add: fgets_def Let_def)

lemma fgets_Nil [simp]: "fgets n [] = None"
  by (simp add: fgets_def)

lemma fgets_length: "fgets n s = Some (chunk, rest) \<Longrightarrow> length chunk \<le> n - 1"
  by (auto simp: fgets_def Let_def split: if_splits)

section \<open>Tokens\<close>

text \<open>\<open>strtok\<close>: the next token and what follows the delimiter that ends it; None is NULL.\<close>

definition strtok :: "string \<Rightarrow> string \<Rightarrow> (string \<times> string) option" where
  "strtok delims s = (case dropWhile (\<lambda>c. c \<in> set delims) s of
     [] \<Rightarrow> None
   | t \<Rightarrow> Some (takeWhile (\<lambda>c. c \<notin> set delims) t, drop 1 (dropWhile (\<lambda>c. c \<notin> set delims) t)))"

lemma strtok_nonempty: "strtok ds s = Some (t, r) \<Longrightarrow> t \<noteq> [] \<and> set t \<inter> set ds = {} \<and> length r < length s"
proof -
  assume a: "strtok ds s = Some (t, r)"
  obtain c u where u: "dropWhile (\<lambda>c. c \<in> set ds) s = c # u"
    using a by (auto simp: strtok_def split: list.splits)
  then have "c \<notin> set ds" using hd_dropWhile [of "\<lambda>c. c \<in> set ds" s] by simp
  moreover have "length (c # u) \<le> length s" using u length_dropWhile_le [of "\<lambda>c. c \<in> set ds" s] by simp
  moreover have "length (dropWhile (\<lambda>c. c \<notin> set ds) u) \<le> length u" by (rule length_dropWhile_le)
  ultimately show ?thesis using a u by (auto simp: strtok_def dest: set_takeWhileD)
qed

lemma strtok_token:
  assumes "set ws \<subseteq> set ds" and "t \<noteq> []" and "set t \<inter> set ds = {}" and "d \<in> set ds"
  shows "strtok ds (ws @ t @ d # r) = Some (t, r)" "strtok ds (ws @ t) = Some (t, [])"
proof -
  obtain c u where t: "t = c # u" using assms(2) by (cases t) auto
  have 1: "dropWhile (\<lambda>c. c \<in> set ds) (ws @ t @ x) = t @ x" for x
    using assms(1,3) t by (subst dropWhile_append2) auto
  have 2: "strtok ds (ws @ t @ x)
      = Some (takeWhile (\<lambda>c. c \<notin> set ds) (t @ x), drop 1 (dropWhile (\<lambda>c. c \<notin> set ds) (t @ x)))" for x
    unfolding strtok_def 1 by (simp only: t append_Cons list.case)
  have 3: "dropWhile (\<lambda>c. c \<notin> set ds) (t @ d # r) = d # r" "takeWhile (\<lambda>c. c \<notin> set ds) (t @ d # r) = t"
    using assms(3,4) by (simp_all add: dropWhile_append2 takeWhile_append2 disjoint_iff)
  have 4: "dropWhile (\<lambda>c. c \<notin> set ds) t = []" "takeWhile (\<lambda>c. c \<notin> set ds) t = t"
    using assms(3) by (auto simp: dropWhile_eq_Nil_conv takeWhile_eq_all_conv)
  show "strtok ds (ws @ t @ d # r) = Some (t, r)" unfolding 2 3 by simp
  show "strtok ds (ws @ t) = Some (t, [])" using 2 [of "[]"] unfolding append_Nil2 4 by simp
qed

lemma strtok_blank: "set s \<subseteq> set ds \<Longrightarrow> strtok ds s = None"
proof -
  assume "set s \<subseteq> set ds"
  then have "dropWhile (\<lambda>c. c \<in> set ds) s = []" by (auto simp: dropWhile_eq_Nil_conv)
  then show ?thesis by (simp only: strtok_def list.case)
qed

section \<open>Numbers\<close>

definition skip_space :: "string \<Rightarrow> string" where
  "skip_space s = dropWhile c_isspace s"

text \<open>The value of a digit; letters of both cases count from ten.\<close>

definition c_digit :: "char \<Rightarrow> nat option" where
  "c_digit c = (let k = char_code c in
     if 48 \<le> k \<and> k \<le> 57 then Some (k - 48)
     else if 97 \<le> k \<and> k \<le> 122 then Some (k - 87)
     else if 65 \<le> k \<and> k \<le> 90 then Some (k - 55)
     else None)"

definition is_digit_of :: "nat \<Rightarrow> char \<Rightarrow> bool" where
  "is_digit_of b c \<longleftrightarrow> (case c_digit c of Some d \<Rightarrow> d < b | None \<Rightarrow> False)"

definition digits_value :: "nat \<Rightarrow> string \<Rightarrow> nat" where
  "digits_value b s = foldl (\<lambda>v c. v * b + the (c_digit c)) 0 s"

text \<open>The sign, and the base a number without a given base is in.\<close>

definition scan_sign :: "string \<Rightarrow> bool \<times> string" where
  "scan_sign s = (case s of
     [] \<Rightarrow> (False, [])
   | c # r \<Rightarrow> if c = CHR ''-'' then (True, r) else if c = CHR ''+'' then (False, r) else (False, s))"

definition scan_base :: "nat \<Rightarrow> string \<Rightarrow> nat \<times> string" where
  "scan_base base s =
     (let hex = (case s of z # x # d # r \<Rightarrow> z = CHR ''0'' \<and> (x = CHR ''x'' \<or> x = CHR ''X'') \<and> is_digit_of 16 d
                 | _ \<Rightarrow> False)
      in if (base = 0 \<or> base = 16) \<and> hex then (16, drop 2 s)
         else if base = 0 then (case s of z # r \<Rightarrow> if z = CHR ''0'' then 8 else 10 | [] \<Rightarrow> 10, s)
         else (base, s))"

text \<open>
  What the \<open>strto\<close> functions read: sign, magnitude and the rest of the text; when there is no
  digit nothing is read and the rest is the whole text.
\<close>

definition scan_number :: "nat \<Rightarrow> string \<Rightarrow> (bool \<times> nat) option \<times> string" where
  "scan_number base s =
     (case scan_sign (skip_space s) of (neg, t) \<Rightarrow>
      case scan_base base t of (b, u) \<Rightarrow>
        let ds = takeWhile (is_digit_of b) u
        in if ds = [] then (None, s)
           else (Some (neg, digits_value b ds), dropWhile (is_digit_of b) u))"

definition strtoul_bits :: "nat \<Rightarrow> nat \<Rightarrow> string \<Rightarrow> int \<times> bool \<times> string" where
  "strtoul_bits w base s = (case scan_number base s of
     (None, r) \<Rightarrow> (0, False, r)
   | (Some (neg, v), r) \<Rightarrow>
       if 2 ^ w \<le> v then (2 ^ w - 1, True, r)
       else ((if neg then (- int v) mod 2 ^ w else int v), False, r))"

text \<open>For evaluation the bound is compared as an integer.\<close>

lemma strtoul_bits_code [code]: "strtoul_bits w base s = (case scan_number base s of
     (None, r) \<Rightarrow> (0, False, r)
   | (Some (neg, v), r) \<Rightarrow>
       if (2 :: int) ^ w \<le> int v then (2 ^ w - 1, True, r)
       else ((if neg then (- int v) mod 2 ^ w else int v), False, r))"
proof -
  have "(2 :: int) ^ w \<le> int v \<longleftrightarrow> 2 ^ w \<le> v" for v
    by (metis of_nat_le_iff of_nat_numeral of_nat_power)
  then show ?thesis by (simp only: strtoul_bits_def)
qed

definition strtoul :: "nat \<Rightarrow> string \<Rightarrow> int \<times> bool \<times> string" where
  "strtoul = strtoul_bits 32"

definition strtoull :: "nat \<Rightarrow> string \<Rightarrow> int \<times> bool \<times> string" where
  "strtoull = strtoul_bits 64"

definition strtol :: "nat \<Rightarrow> string \<Rightarrow> int \<times> bool \<times> string" where
  "strtol base s = (case scan_number base s of
     (None, r) \<Rightarrow> (0, False, r)
   | (Some (neg, v), r) \<Rightarrow>
       let x = (if neg then - int v else int v)
       in if x < - 2147483648 then (- 2147483648, True, r)
          else if 2147483647 < x then (2147483647, True, r)
          else (x, False, r))"

lemma strtol_range: "in_s32 (fst (strtol base s))"
  by (auto simp: strtol_def in_s32_def Let_def split: prod.splits option.splits)

lemma strtoul_range: "in_u32 (fst (strtoul base s))"
  by (auto simp: strtoul_def strtoul_bits_def in_u32_def Let_def split: prod.splits option.splits)

section \<open>Reading back a printed number\<close>

definition decimal :: "nat \<Rightarrow> string" where
  "decimal n = show_base 10 n"

definition signed_decimal :: "int \<Rightarrow> string" where
  "signed_decimal n = (if n < 0 then CHR ''-'' # decimal (nat (- n)) else decimal (nat n))"

definition hexadecimal :: "nat \<Rightarrow> string" where
  "hexadecimal n = ''0x'' @ show_base 16 n"

lemma c_digit_digit_char: "d < 16 \<Longrightarrow> c_digit (digit_char d) = Some d"
  by (auto simp: c_digit_def digit_char_def char_code_def Let_def)

lemma is_digit_digit_char: "d < b \<Longrightarrow> b \<le> 16 \<Longrightarrow> is_digit_of b (digit_char d)"
  by (simp add: is_digit_of_def c_digit_digit_char)

lemma digits_of_not_Nil [simp]: "digits_of b n \<noteq> []"
  by (subst digits_of.simps) simp

lemma show_base_not_Nil [simp]: "show_base b n \<noteq> []"
  by (simp add: show_base_def)

lemma digits_value_show: "2 \<le> b \<Longrightarrow> b \<le> 16 \<Longrightarrow> digits_value b (show_base b n) = n"
proof -
  assume b: "2 \<le> b" "b \<le> 16"
  have "foldl (\<lambda>v c. v * b + the (c_digit c)) a (map digit_char ds) = foldl (\<lambda>v d. v * b + d) a ds"
    if "\<forall>d\<in>set ds. d < 16" for ds a
    using that by (induction ds arbitrary: a) (auto simp: c_digit_digit_char)
  moreover have "\<forall>d\<in>set (digits_of b n). d < 16" using digits_of_less [OF b(1)] b(2) by fastforce
  ultimately show ?thesis using foldl_digits_of [OF b(1)] by (simp add: digits_value_def show_base_def)
qed

lemma show_base_digits: "2 \<le> b \<Longrightarrow> b \<le> 16 \<Longrightarrow> c \<in> set (show_base b n) \<Longrightarrow> is_digit_of b c"
  by (auto simp: show_base_def is_digit_digit_char dest: digits_of_less)

lemma is_digit_chars:
  assumes "is_digit_of b c" and "b \<le> 16"
  shows "\<not> c_isspace c" "c \<noteq> CHR ''-''" "c \<noteq> CHR ''+''" "c \<noteq> newline" "c \<noteq> CHR ''x''"
  using assms by (auto simp: is_digit_of_def c_digit_def c_isspace_def char_code_def Let_def split: if_splits)

lemma digits_of_hd: "0 < n \<Longrightarrow> 2 \<le> b \<Longrightarrow> hd (digits_of b n) \<noteq> 0"
proof (induction b n rule: digits_of.induct)
  case (1 b n)
  show ?case
  proof (cases "n < b")
    case True
    then show ?thesis using 1 by (subst digits_of.simps) simp
  next
    case False
    then have "0 < n div b" using 1 by (simp add: div_greater_zero_iff)
    moreover have "digits_of b n = digits_of b (n div b) @ [n mod b]"
      using False 1 by (subst digits_of.simps) simp
    ultimately show ?thesis using 1 False by simp
  qed
qed

end
