(* ===== verification/Dictionary.thy ===== *)
theory Dictionary
  imports C_Text
begin

text \<open>
  The string dictionary of \<open>dictionary.c\<close>: three arrays of the same size for keys, values and
  hashes, where a NULL key marks a free slot. A key that is present may have the value NULL, so a
  value is an option. The behaviour is that of a map from strings to values; the interface
  \<open>string_dict\<close> states it, and the functions of the file are an interpretation of it. Memory
  allocation is taken to succeed.
\<close>

section \<open>Data and operations\<close>

record dictionary =
  d_n :: int
  d_size :: nat
  d_val :: "string option list"
  d_key :: "string option list"
  d_hash :: "32 word list"

definition DICTMINSZ :: int where "DICTMINSZ = 128"

text \<open>A doubled array: the old contents and as much zeroed memory.\<close>

definition mem_double :: "'a \<Rightarrow> 'a list \<Rightarrow> 'a list" where
  "mem_double zero xs = xs @ replicate (length xs) zero"

definition hash_step :: "32 word \<Rightarrow> char \<Rightarrow> 32 word" where
  "hash_step hash c =
     (let hash = hash + of_nat (char_code c);
          hash = hash + push_bit 10 hash
      in hash XOR drop_bit 6 hash)"

definition dictionary_hash :: "string \<Rightarrow> 32 word" where
  "dictionary_hash key =
     (let hash = foldl hash_step 0 key;
          hash = hash + push_bit 3 hash;
          hash = hash XOR drop_bit 11 hash
      in hash + push_bit 15 hash)"

definition dictionary_new :: "int \<Rightarrow> dictionary" where
  "dictionary_new sz =
     (let n = nat (if sz < DICTMINSZ then DICTMINSZ else sz)
      in \<lparr>d_n = 0, d_size = n, d_val = replicate n None, d_key = replicate n None,
          d_hash = replicate n 0\<rparr>)"

text \<open>The loop that looks for a key: the first slot whose hash and key are equal.\<close>

definition key_at :: "dictionary \<Rightarrow> string \<Rightarrow> nat \<Rightarrow> bool" where
  "key_at d key i = (case d_key d ! i of
     None \<Rightarrow> False
   | Some k \<Rightarrow> dictionary_hash key = d_hash d ! i \<and> key = k)"

definition find_key :: "dictionary \<Rightarrow> string \<Rightarrow> nat option" where
  "find_key d key = find (key_at d key) [0..<d_size d]"

definition dictionary_get :: "dictionary \<Rightarrow> string \<Rightarrow> string option \<Rightarrow> string option" where
  "dictionary_get d key def = (case find_key d key of Some i \<Rightarrow> d_val d ! i | None \<Rightarrow> def)"

definition free_slot :: "dictionary \<Rightarrow> nat" where
  "free_slot d = (case find (\<lambda>i. d_key d ! i = None) [0..<d_size d] of Some i \<Rightarrow> i | None \<Rightarrow> d_size d)"

text \<open>The arrays when a new key has to go in: doubled when all slots are used.\<close>

definition grow :: "dictionary \<Rightarrow> dictionary" where
  "grow d = (if d_n d = int (d_size d) then
       d\<lparr>d_val := mem_double None (d_val d), d_key := mem_double None (d_key d),
         d_hash := mem_double 0 (d_hash d), d_size := d_size d * 2\<rparr>
     else d)"

definition dictionary_set :: "dictionary \<Rightarrow> string \<Rightarrow> string option \<Rightarrow> dictionary \<times> int" where
  "dictionary_set d key val =
     (case (if d_n d > 0 then find_key d key else None) of
        Some i \<Rightarrow> (d\<lparr>d_val := (d_val d)[i := val]\<rparr>, 0)
      | None \<Rightarrow>
          let d = grow d; i = free_slot d
          in (d\<lparr>d_key := (d_key d)[i := Some key], d_val := (d_val d)[i := val],
                d_hash := (d_hash d)[i := dictionary_hash key], d_n := d_n d + 1\<rparr>, 0))"

definition dictionary_unset :: "dictionary \<Rightarrow> string \<Rightarrow> dictionary" where
  "dictionary_unset d key = (case find_key d key of
     None \<Rightarrow> d
   | Some i \<Rightarrow> d\<lparr>d_key := (d_key d)[i := None], d_val := (d_val d)[i := None],
       d_hash := (d_hash d)[i := 0], d_n := d_n d - 1\<rparr>)"

text \<open>The lines \<open>dictionary_dump\<close> prints; a key takes at least 20 columns.\<close>

definition dictionary_dump :: "dictionary \<Rightarrow> string" where
  "dictionary_dump d =
     (if d_n d < 1 then ''empty dictionary'' @ [newline]
      else concat (map (\<lambda>i. case d_key d ! i of
          None \<Rightarrow> []
        | Some k \<Rightarrow> pad_left 20 CHR '' '' k @ [CHR 0x09] @ ''['' @
            (case d_val d ! i of Some v \<Rightarrow> v | None \<Rightarrow> ''UNDEF'') @ '']'' @ [newline])
        [0..<d_size d]))"

section \<open>The interface\<close>

text \<open>
  What the clients of a dictionary rely on: its abstraction to a map, and the laws of lookup,
  insertion and removal.
\<close>

locale string_dict =
  fixes new :: 'd
    and get :: "'d \<Rightarrow> string \<Rightarrow> string option \<Rightarrow> string option"
    and set :: "'d \<Rightarrow> string \<Rightarrow> string option \<Rightarrow> 'd"
    and unset :: "'d \<Rightarrow> string \<Rightarrow> 'd"
    and dmap :: "'d \<Rightarrow> string \<Rightarrow> string option option"
    and inv :: "'d \<Rightarrow> bool"
  assumes inv_new: "inv new"
    and map_new: "dmap new = Map.empty"
    and get_map: "inv d \<Longrightarrow> get d k def = (case dmap d k of Some v \<Rightarrow> v | None \<Rightarrow> def)"
    and inv_set: "inv d \<Longrightarrow> inv (set d k v)"
    and map_set: "inv d \<Longrightarrow> dmap (set d k v) = (dmap d)(k \<mapsto> v)"
    and inv_unset: "inv d \<Longrightarrow> inv (unset d k)"
    and map_unset: "inv d \<Longrightarrow> dmap (unset d k) = (dmap d)(k := None)"
begin

text \<open>A sequence of insertions, as a reader of a file makes them.\<close>

lemma inv_sets: "inv d \<Longrightarrow> inv (foldl (\<lambda>d (k, v). set d k v) d kvs)"
  by (induction kvs arbitrary: d) (auto simp: inv_set)

lemma map_sets: "inv d \<Longrightarrow> dmap (foldl (\<lambda>d (k, v). set d k v) d kvs) = dmap d ++ map_of (rev kvs)"
  by (induction kvs arbitrary: d) (auto simp: inv_set map_set map_add_upd_left)

lemma get_sets:
  "get (foldl (\<lambda>d (k, v). set d k v) new kvs) k def
     = (case map_of (rev kvs) k of Some v \<Rightarrow> v | None \<Rightarrow> def)"
  by (simp add: get_map inv_sets inv_new map_sets map_new)

lemma get_set: "inv d \<Longrightarrow> get (set d k v) k' def = (if k' = k then v else get d k' def)"
  by (simp add: get_map inv_set map_set)

lemma get_unset: "inv d \<Longrightarrow> get (unset d k) k' def = (if k' = k then def else get d k' def)"
  by (simp add: get_map inv_unset map_unset)

end

section \<open>The invariant\<close>

text \<open>
  The arrays have the size of the dictionary, which is not 0; the counter counts the keys; no key
  is stored twice; a slot holds the hash of its key.
\<close>

definition dict_inv :: "dictionary \<Rightarrow> bool" where
  "dict_inv d \<longleftrightarrow> 0 < d_size d \<and> length (d_val d) = d_size d \<and> length (d_key d) = d_size d
     \<and> length (d_hash d) = d_size d
     \<and> d_n d = int (card {i. i < d_size d \<and> d_key d ! i \<noteq> None})
     \<and> (\<forall>i j k. i < d_size d \<and> j < d_size d \<and> d_key d ! i = Some k \<and> d_key d ! j = Some k \<longrightarrow> i = j)
     \<and> (\<forall>i k. i < d_size d \<and> d_key d ! i = Some k \<longrightarrow> d_hash d ! i = dictionary_hash k)"

lemma dict_inv_len:
  assumes "dict_inv d"
  shows "length (d_val d) = d_size d" "length (d_key d) = d_size d" "length (d_hash d) = d_size d" "0 < d_size d"
  using assms by (simp_all add: dict_inv_def)

lemma dict_inv_n: "dict_inv d \<Longrightarrow> d_n d = int (card {i. i < d_size d \<and> d_key d ! i \<noteq> None})"
  unfolding dict_inv_def by blast

lemma dict_inv_unique:
  "dict_inv d \<Longrightarrow> d_key d ! i = Some k \<Longrightarrow> d_key d ! j = Some k \<Longrightarrow> i < d_size d \<Longrightarrow> j < d_size d \<Longrightarrow> i = j"
  unfolding dict_inv_def by blast

lemma dict_inv_hash: "dict_inv d \<Longrightarrow> d_key d ! i = Some k \<Longrightarrow> i < d_size d \<Longrightarrow> d_hash d ! i = dictionary_hash k"
  unfolding dict_inv_def by blast

lemma dict_invI:
  assumes "0 < d_size d" "length (d_val d) = d_size d" "length (d_key d) = d_size d" "length (d_hash d) = d_size d"
    and "d_n d = int (card {i. i < d_size d \<and> d_key d ! i \<noteq> None})"
    and "\<And>i j k. i < d_size d \<Longrightarrow> j < d_size d \<Longrightarrow> d_key d ! i = Some k \<Longrightarrow> d_key d ! j = Some k \<Longrightarrow> i = j"
    and "\<And>i k. i < d_size d \<Longrightarrow> d_key d ! i = Some k \<Longrightarrow> d_hash d ! i = dictionary_hash k"
  shows "dict_inv d"
  unfolding dict_inv_def using assms by blast

definition dict_map :: "dictionary \<Rightarrow> string \<Rightarrow> string option option" where
  "dict_map d k = map_option ((!) (d_val d)) (find_key d k)"

lemma find_upt_Some:
  "find P [0..<n] = Some i \<longleftrightarrow> i < n \<and> P i \<and> (\<forall>j<i. \<not> P j)"
  by (auto simp: find_Some_iff)

lemma find_upt_None: "find P [0..<n] = None \<longleftrightarrow> (\<forall>i<n. \<not> P i)"
  by (auto simp: find_None_iff)

lemma find_key_search: "dict_inv d \<Longrightarrow> find_key d k = find (\<lambda>i. d_key d ! i = Some k) [0..<d_size d]"
  unfolding find_key_def by (rule find_cong) (auto simp: key_at_def dict_inv_hash split: option.split)

lemma find_key_Some:
  assumes "dict_inv d"
  shows "find_key d k = Some i \<longleftrightarrow> i < d_size d \<and> d_key d ! i = Some k"
proof
  assume "find_key d k = Some i"
  then show "i < d_size d \<and> d_key d ! i = Some k"
    unfolding find_key_search [OF assms] find_upt_Some by blast
next
  assume i: "i < d_size d \<and> d_key d ! i = Some k"
  have "d_key d ! j \<noteq> Some k" if "j < i" for j
  proof
    assume "d_key d ! j = Some k"
    then have "i = j" using dict_inv_unique [OF assms, of i k j] i that by simp
    then show False using that by simp
  qed
  then show "find_key d k = Some i"
    unfolding find_key_search [OF assms] find_upt_Some using i by blast
qed

lemma find_key_None:
  assumes "dict_inv d"
  shows "find_key d k = None \<longleftrightarrow> (\<forall>i<d_size d. d_key d ! i \<noteq> Some k)"
  using find_key_Some [OF assms] by (metis not_None_eq)

lemma dict_map_Some:
  "dict_inv d \<Longrightarrow> dict_map d k = Some v \<longleftrightarrow> (\<exists>i<d_size d. d_key d ! i = Some k \<and> d_val d ! i = v)"
  using find_key_Some [of d k] by (auto simp: dict_map_def)

lemma dict_map_None: "dict_inv d \<Longrightarrow> dict_map d k = None \<longleftrightarrow> (\<forall>i<d_size d. d_key d ! i \<noteq> Some k)"
  by (simp add: dict_map_def find_key_None)

section \<open>Every operation keeps the invariant\<close>

lemma new_slots: "d_key (dictionary_new sz) = replicate (d_size (dictionary_new sz)) None"
  by (simp add: dictionary_new_def Let_def)

lemma dict_inv_new: "dict_inv (dictionary_new sz)"
  by (rule dict_invI) (auto simp: new_slots, auto simp: dictionary_new_def DICTMINSZ_def Let_def)

lemma dict_map_new: "dict_map (dictionary_new sz) = Map.empty"
  by (rule ext) (simp add: dict_map_None [OF dict_inv_new], simp add: new_slots)

text \<open>A free slot after growing, and what growing leaves alone.\<close>

lemma grow_facts:
  assumes "dict_inv d"
  shows "dict_inv (grow d)" "dict_map (grow d) = dict_map d" "d_n (grow d) = d_n d"
    "free_slot (grow d) < d_size (grow d)" "d_key (grow d) ! free_slot (grow d) = None"
proof -
  have len: "length (d_key d) = d_size d" "length (d_val d) = d_size d" "length (d_hash d) = d_size d" "0 < d_size d"
    using assms by (simp_all add: dict_inv_def)
  show inv: "dict_inv (grow d)"
  proof (cases "d_n d = int (d_size d)")
    case True
    have "{i. i < d_size d * 2 \<and> (d_key d @ replicate (d_size d) None) ! i \<noteq> None}
        = {i. i < d_size d \<and> d_key d ! i \<noteq> None}"
      using len(1) by (auto simp: nth_append split: if_splits)
    then have n: "d_n d = int (card {i. i < d_size d * 2 \<and> (d_key d @ replicate (d_size d) None) ! i \<noteq> None})"
      using dict_inv_n [OF assms] by simp
    have key: "i < d_size d \<and> d_key d ! i = Some k"
      if "i < d_size d * 2" "(d_key d @ replicate (d_size d) None) ! i = Some k" for i k
      using that len(1) by (simp add: nth_append split: if_splits)
    have hash: "(d_hash d @ replicate (d_size d) 0) ! i = d_hash d ! i" if "i < d_size d" for i
      using that len(3) by (simp add: nth_append)
    show ?thesis
    proof (rule dict_invI)
      show "d_n (grow d) = int (card {i. i < d_size (grow d) \<and> d_key (grow d) ! i \<noteq> None})"
        using n True len by (simp add: grow_def mem_double_def)
      show "i = j" if "i < d_size (grow d)" "j < d_size (grow d)" "d_key (grow d) ! i = Some k" "d_key (grow d) ! j = Some k" for i j k
        using that key [of i k] key [of j k] dict_inv_unique [OF assms, of i k j] True len
        by (simp add: grow_def mem_double_def)
      show "d_hash (grow d) ! i = dictionary_hash k" if "i < d_size (grow d)" "d_key (grow d) ! i = Some k" for i k
        using that key [of i k] hash [of i] dict_inv_hash [OF assms, of i k] True len
        by (simp add: grow_def mem_double_def)
    qed (use len True in \<open>simp_all add: grow_def mem_double_def\<close>)
  qed (simp add: grow_def assms)
  show "dict_map (grow d) = dict_map d"
  proof
    fix k
    have "(i < d_size (grow d) \<and> d_key (grow d) ! i = Some k \<and> d_val (grow d) ! i = v)
        \<longleftrightarrow> (i < d_size d \<and> d_key d ! i = Some k \<and> d_val d ! i = v)" for i v
    proof (cases "i < d_size d")
      case False
      then have "i < d_size d * 2 \<longrightarrow> i - d_size d < d_size d" by linarith
      then show ?thesis using len False by (auto simp: grow_def mem_double_def nth_append)
    qed (use len in \<open>simp add: grow_def mem_double_def nth_append\<close>)
    then have "dict_map (grow d) k = Some v \<longleftrightarrow> dict_map d k = Some v" for v
      unfolding dict_map_Some [OF inv] dict_map_Some [OF assms] by blast
    then show "dict_map (grow d) k = dict_map d k" by (metis not_None_eq)
  qed
  show "d_n (grow d) = d_n d" by (simp add: grow_def)
  have "\<exists>i<d_size (grow d). d_key (grow d) ! i = None"
  proof (cases "d_n d = int (d_size d)")
    case True
    then show ?thesis
      using len by (intro exI [of _ "d_size d"]) (simp add: grow_def mem_double_def nth_append)
  next
    case False
    have "\<not> (\<forall>i<d_size d. d_key d ! i \<noteq> None)"
    proof
      assume "\<forall>i<d_size d. d_key d ! i \<noteq> None"
      then have "{i. i < d_size d \<and> d_key d ! i \<noteq> None} = {..<d_size d}" by auto
      then show False using assms False by (simp add: dict_inv_def)
    qed
    then show ?thesis using False by (simp add: grow_def)
  qed
  then have "find (\<lambda>i. d_key (grow d) ! i = None) [0..<d_size (grow d)] \<noteq> None"
    unfolding find_upt_None by blast
  then obtain i where i: "find (\<lambda>i. d_key (grow d) ! i = None) [0..<d_size (grow d)] = Some i" by blast
  from i have "free_slot (grow d) = i" by (simp add: free_slot_def)
  moreover have "i < d_size (grow d) \<and> d_key (grow d) ! i = None" using i unfolding find_upt_Some by blast
  ultimately show "free_slot (grow d) < d_size (grow d)" "d_key (grow d) ! free_slot (grow d) = None"
    by simp_all
qed

text \<open>The two kinds of updates: a new value for a present key, and a new key in a free slot.\<close>

lemma update_value:
  assumes inv: "dict_inv d" and i: "i < d_size d" "d_key d ! i = Some k"
  shows "dict_inv (d\<lparr>d_val := (d_val d)[i := v]\<rparr>)"
    and "dict_map (d\<lparr>d_val := (d_val d)[i := v]\<rparr>) = (dict_map d)(k \<mapsto> v)"
proof -
  show inv': "dict_inv (d\<lparr>d_val := (d_val d)[i := v]\<rparr>)"
    using inv by (simp add: dict_inv_def)
  show "dict_map (d\<lparr>d_val := (d_val d)[i := v]\<rparr>) = (dict_map d)(k \<mapsto> v)"
  proof
    fix k'
    have "find_key (d\<lparr>d_val := (d_val d)[i := v]\<rparr>) k' = find_key d k'"
      by (simp add: find_key_search [OF inv] find_key_search [OF inv'])
    then have at: "dict_map (d\<lparr>d_val := (d_val d)[i := v]\<rparr>) k' = map_option ((!) ((d_val d)[i := v])) (find_key d k')"
      by (simp add: dict_map_def)
    have k: "find_key d k = Some i" using find_key_Some [OF inv] i by blast
    show "dict_map (d\<lparr>d_val := (d_val d)[i := v]\<rparr>) k' = ((dict_map d)(k \<mapsto> v)) k'"
    proof (cases "k' = k")
      case True
      then show ?thesis using k i(1) dict_inv_len(1) [OF inv] unfolding at by simp
    next
      case False
      have "j \<noteq> i" if "find_key d k' = Some j" for j
        using that False i find_key_Some [OF inv, of k' j] by auto
      then show ?thesis using False unfolding at by (cases "find_key d k'") (simp_all add: dict_map_def)
    qed
  qed
qed

lemma update_slot:
  assumes inv: "dict_inv d" and i: "i < d_size d"
    and new: "\<And>k. x = Some k \<Longrightarrow> h = dictionary_hash k \<and> (\<forall>j<d_size d. j \<noteq> i \<longrightarrow> d_key d ! j \<noteq> Some k)"
    and n: "n = int (card {j. j < d_size d \<and> (d_key d)[i := x] ! j \<noteq> None})"
  shows "dict_inv (d\<lparr>d_key := (d_key d)[i := x], d_val := (d_val d)[i := v], d_hash := (d_hash d)[i := h], d_n := n\<rparr>)"
    (is "dict_inv ?d")
proof (rule dict_invI)
  note len = dict_inv_len [OF inv]
  show "j = l" if "j < d_size ?d" "l < d_size ?d" "d_key ?d ! j = Some k" "d_key ?d ! l = Some k" for j l k
    using that new dict_inv_unique [OF inv, of j k l] len i by (cases "j = i"; cases "l = i") auto
  show "d_hash ?d ! j = dictionary_hash k" if "j < d_size ?d" "d_key ?d ! j = Some k" for j k
    using that new dict_inv_hash [OF inv, of j k] len i by (cases "j = i") auto
qed (use dict_inv_len [OF inv] n in simp_all)

lemma dictionary_set_keeps:
  assumes inv: "dict_inv d"
  shows "dict_inv (fst (dictionary_set d k v))"
    and "dict_map (fst (dictionary_set d k v)) = (dict_map d)(k \<mapsto> v)"
proof -
  have empty: "find_key d k = None" if "\<not> d_n d > 0"
  proof -
    have "card {i. i < d_size d \<and> d_key d ! i \<noteq> None} = 0" using that dict_inv_n [OF inv] by simp
    then have "{i. i < d_size d \<and> d_key d ! i \<noteq> None} = {}" by simp
    then show ?thesis unfolding find_key_None [OF inv] by blast
  qed
  have "dict_inv (fst (dictionary_set d k v)) \<and> dict_map (fst (dictionary_set d k v)) = (dict_map d)(k \<mapsto> v)"
  proof (cases "find_key d k")
    case (Some i)
    then have "d_n d > 0" "i < d_size d" "d_key d ! i = Some k"
      using empty find_key_Some [OF inv] by fastforce+
    then show ?thesis using Some update_value [OF inv] by (simp add: dictionary_set_def)
  next
    case None
    define g where "g = grow d"
    define i where "i = free_slot g"
    note g = grow_facts [OF inv, folded g_def, folded i_def]
    note len = dict_inv_len [OF g(1)]
    let ?d = "g\<lparr>d_key := (d_key g)[i := Some k], d_val := (d_val g)[i := v],
        d_hash := (d_hash g)[i := dictionary_hash k], d_n := d_n g + 1\<rparr>"
    have set: "fst (dictionary_set d k v) = ?d"
      using None by (simp add: dictionary_set_def g_def i_def Let_def)
    have "dict_map g k = None" using None by (simp add: g(2) dict_map_def)
    then have fresh: "\<forall>j<d_size g. d_key g ! j \<noteq> Some k" by (simp add: dict_map_None [OF g(1)])
    have "{j. j < d_size g \<and> (d_key g)[i := Some k] ! j \<noteq> None}
        = insert i {j. j < d_size g \<and> d_key g ! j \<noteq> None}"
      using g(4) len by (auto simp: nth_list_update)
    then have n: "d_n g + 1 = int (card {j. j < d_size g \<and> (d_key g)[i := Some k] ! j \<noteq> None})"
      using dict_inv_n [OF g(1)] g(5) by simp
    have inv': "dict_inv ?d" by (rule update_slot [OF g(1,4) _ n]) (use fresh in auto)
    have "dict_map ?d k' = Some w \<longleftrightarrow> ((dict_map d)(k \<mapsto> v)) k' = Some w" for k' w
    proof (cases "k' = k")
      case True
      then show ?thesis
        unfolding dict_map_Some [OF inv'] using fresh len g(4) by (auto simp: nth_list_update)
    next
      case False
      have "(j < d_size ?d \<and> d_key ?d ! j = Some k' \<and> d_val ?d ! j = w)
          \<longleftrightarrow> (j < d_size g \<and> d_key g ! j = Some k' \<and> d_val g ! j = w)" for j
        using False len g(4,5) by (auto simp: nth_list_update)
      then show ?thesis
        using False unfolding dict_map_Some [OF inv'] fun_upd_apply g(2) [symmetric]
        by (simp add: dict_map_Some [OF g(1)])
    qed
    then have "dict_map ?d = (dict_map d)(k \<mapsto> v)" by (intro ext) (metis not_None_eq)
    then show ?thesis using inv' set by simp
  qed
  then show "dict_inv (fst (dictionary_set d k v))"
    "dict_map (fst (dictionary_set d k v)) = (dict_map d)(k \<mapsto> v)" by simp_all
qed

lemma dictionary_set_ok [simp]: "snd (dictionary_set d k v) = 0"
  by (simp add: dictionary_set_def Let_def split: option.split)

lemma dictionary_unset_keeps:
  assumes inv: "dict_inv d"
  shows "dict_inv (dictionary_unset d k)"
    and "dict_map (dictionary_unset d k) = (dict_map d)(k := None)"
proof -
  have "dict_inv (dictionary_unset d k) \<and> dict_map (dictionary_unset d k) = (dict_map d)(k := None)"
  proof (cases "find_key d k")
    case None
    then have "dict_map d k = None" by (simp add: dict_map_def)
    then show ?thesis using None inv by (auto simp: dictionary_unset_def fun_upd_idem)
  next
    case (Some i)
    note len = dict_inv_len [OF inv]
    let ?d = "d\<lparr>d_key := (d_key d)[i := None], d_val := (d_val d)[i := None], d_hash := (d_hash d)[i := 0], d_n := d_n d - 1\<rparr>"
    have i: "i < d_size d" "d_key d ! i = Some k" using Some find_key_Some [OF inv] by blast+
    have set: "dictionary_unset d k = ?d" using Some by (simp add: dictionary_unset_def)
    have "{j. j < d_size d \<and> d_key d ! j \<noteq> None}
        = insert i {j. j < d_size d \<and> (d_key d)[i := None] ! j \<noteq> None}"
      using i len by (auto simp: nth_list_update)
    then have n: "d_n d - 1 = int (card {j. j < d_size d \<and> (d_key d)[i := None] ! j \<noteq> None})"
      using dict_inv_n [OF inv] i len by (simp add: card_insert_if)
    have inv': "dict_inv ?d" by (rule update_slot [OF inv i(1) _ n]) simp
    have "dict_map ?d k' = Some w \<longleftrightarrow> ((dict_map d)(k := None)) k' = Some w" for k' w
    proof (cases "k' = k")
      case True
      have "d_key ?d ! j \<noteq> Some k" if "j < d_size d" for j
        using that i len dict_inv_unique [OF inv i(2), of j] by (cases "j = i") auto
      then have "dict_map ?d k = None" unfolding dict_map_None [OF inv'] by simp
      then show ?thesis using True by simp
    next
      case False
      have "(j < d_size ?d \<and> d_key ?d ! j = Some k' \<and> d_val ?d ! j = w)
          \<longleftrightarrow> (j < d_size d \<and> d_key d ! j = Some k' \<and> d_val d ! j = w)" for j
        using False len i by (auto simp: nth_list_update)
      then show ?thesis
        using False unfolding dict_map_Some [OF inv'] fun_upd_apply by (simp add: dict_map_Some [OF inv])
    qed
    then have "dict_map ?d = (dict_map d)(k := None)" by (intro ext) (metis not_None_eq)
    then show ?thesis using inv' set by simp
  qed
  then show "dict_inv (dictionary_unset d k)"
    "dict_map (dictionary_unset d k) = (dict_map d)(k := None)" by simp_all
qed

section \<open>The dictionary is a map\<close>

lemma dictionary_get_map:
  "dict_inv d \<Longrightarrow> dictionary_get d k def = (case dict_map d k of Some v \<Rightarrow> v | None \<Rightarrow> def)"
  by (simp add: dictionary_get_def dict_map_def split: option.split)

interpretation sd: string_dict "dictionary_new 0" dictionary_get "\<lambda>d k v. fst (dictionary_set d k v)"
  dictionary_unset dict_map dict_inv
  by unfold_locales
    (simp_all add: dict_inv_new dict_map_new dictionary_get_map dictionary_set_keeps dictionary_unset_keeps)

end
