(* ===== verification/Ciniparser.thy ===== *)
theory Ciniparser
  imports Dictionary "HOL-Library.Monad_Syntax"
begin

text \<open>
  The reader of ini files of \<open>ciniparser.c\<close>, on top of the dictionary. A section is the key
  \<open>section\<close> without a value, an entry the key \<open>section:key\<close>. A file is its text, None when it cannot
  be opened; the messages on \<open>stderr\<close> are not modelled, nor is \<open>ciniparser_getdouble\<close> (floating point).
\<close>

section \<open>Strings\<close>

definition ASCIILINESZ :: nat where "ASCIILINESZ = 1024"

definition strlwc :: "string \<Rightarrow> string" where
  "strlwc s = map c_tolower (take ASCIILINESZ s)"

definition strip_end :: "string \<Rightarrow> string" where
  "strip_end s = rev (dropWhile c_isspace (rev s))"

definition strstrip :: "string \<Rightarrow> string" where
  "strstrip s = strip_end (take ASCIILINESZ (skip_space s))"

section \<open>One line\<close>

text \<open>
  The conversions of \<open>sscanf\<close> the parser uses: a scan set takes the longest non-empty prefix of
  its characters, a literal character must come next, white space in the format skips any.
\<close>

definition scan_set :: "(char \<Rightarrow> bool) \<Rightarrow> string \<Rightarrow> (string \<times> string) option" where
  "scan_set P s = (if takeWhile P s = [] then None else Some (takeWhile P s, dropWhile P s))"

definition scan_char :: "char \<Rightarrow> string \<Rightarrow> string option" where
  "scan_char c s = (case s of x # r \<Rightarrow> if x = c then Some r else None | [] \<Rightarrow> None)"

text \<open>The formats, e.g. \<open>%[^=] = "%[^"]"\<close>: the key and the value when both conversions succeed.\<close>

definition scan_key :: "string \<Rightarrow> (string \<times> string) option" where
  "scan_key line = do {
     (key, r) \<leftarrow> scan_set (\<lambda>c. c \<noteq> CHR ''='') line;
     r \<leftarrow> scan_char CHR ''='' (skip_space r);
     Some (key, skip_space r) }"

definition scan_quoted :: "char \<Rightarrow> string \<Rightarrow> (string \<times> string) option" where
  "scan_quoted q line = do {
     (key, r) \<leftarrow> scan_key line;
     r \<leftarrow> scan_char q r;
     (value, r) \<leftarrow> scan_set (\<lambda>c. c \<noteq> q) r;
     Some (key, value) }"

definition scan_plain :: "string \<Rightarrow> (string \<times> string) option" where
  "scan_plain line = do {
     (key, r) \<leftarrow> scan_key line;
     (value, r) \<leftarrow> scan_set (\<lambda>c. c \<noteq> CHR '';'' \<and> c \<noteq> CHR ''#'') r;
     Some (key, value) }"

definition scan_remark :: "string \<Rightarrow> (string \<times> string) option" where
  "scan_remark line = do {
     (key, r) \<leftarrow> scan_key line;
     (value, r) \<leftarrow> scan_set (\<lambda>c. c = CHR '';'' \<or> c = CHR ''#'') r;
     Some (key, value) }"

definition scan_bare :: "string \<Rightarrow> (string \<times> string) option" where
  "scan_bare line = do {
     (key, r) \<leftarrow> scan_set (\<lambda>c. c \<noteq> CHR ''='') line;
     (value, r) \<leftarrow> scan_set (\<lambda>c. c = CHR ''='') (skip_space r);
     Some (key, value) }"

definition first_of :: "'a option \<Rightarrow> 'a option \<Rightarrow> 'a option" where
  "first_of x y = (case x of Some v \<Rightarrow> Some v | None \<Rightarrow> y)"

text \<open>The status of a line, with what the code writes into the buffers of its caller.\<close>

datatype line_status =
    LINE_UNPROCESSED
  | LINE_ERROR
  | LINE_EMPTY
  | LINE_COMMENT
  | LINE_SECTION string
  | LINE_VALUE string string

definition ciniparser_line :: "string \<Rightarrow> line_status" where
  "ciniparser_line input_line =
     (let line = strstrip input_line in
      if length line < 1 then LINE_EMPTY
      else if line ! 0 = CHR ''#'' then LINE_COMMENT
      else if line ! 0 = CHR ''['' \<and> line ! (length line - 1) = CHR '']'' then
        (case scan_set (\<lambda>c. c \<noteq> CHR '']'') (drop 1 line) of
           Some (sec, _) \<Rightarrow> LINE_SECTION (strlwc (strstrip sec))
         | None \<Rightarrow> LINE_ERROR)
      else case first_of (scan_quoted CHR 0x22 line) (first_of (scan_quoted CHR 0x27 line) (scan_plain line)) of
        Some (key, value) \<Rightarrow>
          (let value = strstrip value
           in LINE_VALUE (strlwc (strstrip key))
                (if value = [CHR 0x22, CHR 0x22] \<or> value = [CHR 0x27, CHR 0x27] then [] else value))
      | None \<Rightarrow>
          (case first_of (scan_remark line) (scan_bare line) of
             Some (key, _) \<Rightarrow> LINE_VALUE (strlwc (strstrip key)) []
           | None \<Rightarrow> LINE_ERROR))"

section \<open>Sections and entries\<close>

definition keys_at :: "dictionary \<Rightarrow> string list" where
  "keys_at d = map the (filter (\<lambda>k. k \<noteq> None) (d_key d))"

definition ciniparser_getnsec :: "dictionary \<Rightarrow> int" where
  "ciniparser_getnsec d = int (length (filter (\<lambda>k. CHR '':'' \<notin> set k) (keys_at d)))"

text \<open>Sections count from 1; number 0 is taken for 1.\<close>

definition ciniparser_getsecname :: "dictionary \<Rightarrow> int \<Rightarrow> string option" where
  "ciniparser_getsecname d n =
     (if n < 0 then None
      else let n = nat (if n = 0 then n + 1 else n);
               secs = filter (\<lambda>k. CHR '':'' \<notin> set k) (keys_at d)
           in if n \<le> length secs then Some (secs ! (n - 1)) else None)"

text \<open>The slots in use with their values, in the order of the arrays.\<close>

definition slots :: "dictionary \<Rightarrow> (string \<times> string option) list" where
  "slots d = map (\<lambda>(k, v). (the k, v)) (filter (\<lambda>(k, v). k \<noteq> None) (zip (d_key d) (d_val d)))"

definition ciniparser_dump :: "dictionary \<Rightarrow> string" where
  "ciniparser_dump d = concat (map (\<lambda>(k, v). case v of
      Some v \<Rightarrow> ''['' @ k @ '']=['' @ v @ '']'' @ [newline]
    | None \<Rightarrow> ''['' @ k @ '']=UNDEF'' @ [newline]) (slots d))"

definition dump_section :: "dictionary \<Rightarrow> string \<Rightarrow> string" where
  "dump_section d secname =
     (let seclen = length secname; keym = take ASCIILINESZ (secname @ '':'')
      in [newline] @ ''['' @ secname @ '']'' @ [newline] @
         concat (map (\<lambda>(k, v). if take (seclen + 1) k = take (seclen + 1) keym
             then pad_right 30 (drop (seclen + 1) k) @ '' = '' @ (case v of Some v \<Rightarrow> v | None \<Rightarrow> []) @ [newline]
             else []) (slots d)))"

definition ciniparser_dump_ini :: "dictionary \<Rightarrow> string" where
  "ciniparser_dump_ini d =
     (let nsec = ciniparser_getnsec d in
      if nsec < 1 then
        concat (map (\<lambda>(k, v). k @ '' = '' @ (case v of Some v \<Rightarrow> v | None \<Rightarrow> ''(null)'') @ [newline]) (slots d))
      else concat (map (\<lambda>i. case ciniparser_getsecname d (int i) of
             Some secname \<Rightarrow> dump_section d secname | None \<Rightarrow> []) [0..<nat nsec]) @ [newline])"

definition ciniparser_getstring :: "dictionary \<Rightarrow> string \<Rightarrow> string option \<Rightarrow> string option" where
  "ciniparser_getstring d key def = dictionary_get d (strlwc key) def"

definition ciniparser_getint :: "dictionary \<Rightarrow> string \<Rightarrow> int \<Rightarrow> int" where
  "ciniparser_getint d key notfound = (case ciniparser_getstring d key None of
     None \<Rightarrow> notfound
   | Some str \<Rightarrow> s32 (fst (strtol 10 str)))"

definition ciniparser_getboolean :: "dictionary \<Rightarrow> string \<Rightarrow> int \<Rightarrow> int" where
  "ciniparser_getboolean d key notfound = (case ciniparser_getstring d key None of
     None \<Rightarrow> notfound
   | Some c \<Rightarrow>
       if c \<noteq> [] \<and> hd c \<in> set ''yY1tT'' then 1
       else if c \<noteq> [] \<and> hd c \<in> set ''nN0fF'' then 0
       else notfound)"

definition ciniparser_find_entry :: "dictionary \<Rightarrow> string \<Rightarrow> int" where
  "ciniparser_find_entry ini entry = (if ciniparser_getstring ini entry None \<noteq> None then 1 else 0)"

definition ciniparser_set :: "dictionary \<Rightarrow> string \<Rightarrow> string option \<Rightarrow> dictionary \<times> int" where
  "ciniparser_set d entry val = dictionary_set d (strlwc entry) val"

definition ciniparser_unset :: "dictionary \<Rightarrow> string \<Rightarrow> dictionary" where
  "ciniparser_unset ini entry = dictionary_unset ini (strlwc entry)"

section \<open>Reading a file\<close>

record load_state =
  l_dict :: dictionary
  l_section :: string
  l_errs :: int

definition load_start :: load_state where
  "load_start = \<lparr>l_dict = dictionary_new 0, l_section = [], l_errs = 0\<rparr>"

definition load_line :: "load_state \<Rightarrow> string \<Rightarrow> load_state" where
  "load_line st line = (case ciniparser_line line of
     LINE_SECTION sec \<Rightarrow>
       (case dictionary_set (l_dict st) sec None of (d, e) \<Rightarrow> st\<lparr>l_dict := d, l_section := sec, l_errs := e\<rparr>)
   | LINE_VALUE key val \<Rightarrow>
       (case dictionary_set (l_dict st) (take ASCIILINESZ (l_section st @ '':'' @ key)) (Some val) of
          (d, e) \<Rightarrow> st\<lparr>l_dict := d, l_errs := e\<rparr>)
   | LINE_ERROR \<Rightarrow> st\<lparr>l_errs := l_errs st + 1\<rparr>
   | _ \<Rightarrow> st)"

definition load_result :: "load_state \<Rightarrow> dictionary option" where
  "load_result st = (if l_errs st \<noteq> 0 then None else Some (l_dict st))"

text \<open>
  The loop over the lines. \<open>pending\<close> is what the lines before, which ended in a backslash, left at
  the start of the buffer. Nothing is read only when the buffer is full, and then its last
  character is no newline.
\<close>

function load_loop :: "string \<Rightarrow> load_state \<Rightarrow> string \<Rightarrow> dictionary option" where
  "load_loop pending st content =
     (case fgets (ASCIILINESZ - length pending) content of
        None \<Rightarrow> load_result st
      | Some (chunk, rest) \<Rightarrow>
          if chunk = [] \<or> last (pending @ chunk) \<noteq> newline then None
          else let line = strip_end (pending @ chunk) in
            if line \<noteq> [] \<and> last line = CHR 0x5C then load_loop (butlast line) st rest
            else let st = load_line st line in
              if l_errs st < 0 then load_result st else load_loop [] st rest)"
  by pat_completeness auto

lemma fgets_shorter: "fgets n s = Some (chunk, rest) \<Longrightarrow> chunk \<noteq> [] \<Longrightarrow> length rest < length s"
  by (auto simp: fgets_def Let_def split: if_splits)

termination load_loop
  by (relation "measure (\<lambda>(_, _, content). length content)") (auto dest: fgets_shorter)

declare load_loop.simps [simp del]

definition ciniparser_load :: "string option \<Rightarrow> dictionary option" where
  "ciniparser_load file = (case file of None \<Rightarrow> None | Some content \<Rightarrow> load_loop [] load_start content)"

end
