(* ===== verification/Dictionary_Spec.thy ===== *)
theory Dictionary_Spec
  imports Dictionary
begin

text \<open>The promise of the dictionary: after any history of changes it is the map of that history.\<close>

datatype dict_op = Put string "string option" | Drop string

definition run_op :: "dictionary \<Rightarrow> dict_op \<Rightarrow> dictionary" where
  "run_op d c = (case c of Put k v \<Rightarrow> fst (dictionary_set d k v) | Drop k \<Rightarrow> dictionary_unset d k)"

definition map_op :: "(string \<Rightarrow> string option option) \<Rightarrow> dict_op \<Rightarrow> string \<Rightarrow> string option option" where
  "map_op m c = (case c of Put k v \<Rightarrow> m(k \<mapsto> v) | Drop k \<Rightarrow> m(k := None))"

lemma run_op_map:
  "dict_inv d \<Longrightarrow> dict_inv (run_op d c) \<and> dict_map (run_op d c) = map_op (dict_map d) c"
  by (cases c) (simp_all add: run_op_def map_op_def sd.inv_set sd.map_set sd.inv_unset sd.map_unset)

lemma run_ops_map:
  "dict_inv d \<Longrightarrow> dict_inv (foldl run_op d cs) \<and> dict_map (foldl run_op d cs) = foldl map_op (dict_map d) cs"
  by (induction cs arbitrary: d) (auto simp: run_op_map)

text \<open>The counter is the number of keys of the map.\<close>

lemma dict_count:
  assumes "dict_inv d"
  shows "d_n d = int (card (dom (dict_map d)))"
proof -
  let ?S = "{i. i < d_size d \<and> d_key d ! i \<noteq> None}"
  have dom: "dom (dict_map d) = (\<lambda>i. the (d_key d ! i)) ` ?S"
  proof -
    have "k \<in> dom (dict_map d) \<longleftrightarrow> (\<exists>i<d_size d. d_key d ! i = Some k)" for k
      unfolding dom_def mem_Collect_eq dict_map_None [OF assms] by blast
    moreover have "k = the x \<and> i < d_size d \<and> x \<noteq> None \<longleftrightarrow> i < d_size d \<and> x = Some k"
      for k i and x :: "string option"
      by (cases x) auto
    ultimately show ?thesis unfolding set_eq_iff image_iff by (simp only: mem_Collect_eq Bex_def) blast
  qed
  have "inj_on (\<lambda>i. the (d_key d ! i)) ?S"
  proof (rule inj_onI)
    fix i j
    assume "i \<in> ?S" "j \<in> ?S" "the (d_key d ! i) = the (d_key d ! j)"
    then obtain k where "d_key d ! i = Some k" "d_key d ! j = Some k" "i < d_size d" "j < d_size d" by auto
    then show "i = j" by (rule dict_inv_unique [OF assms])
  qed
  then show ?thesis by (simp add: dict_inv_n [OF assms] dom card_image)
qed

text \<open>
  C11: The dictionary is a map: after any history of \<open>dictionary_set\<close> and \<open>dictionary_unset\<close> calls on
  a new dictionary - hash collisions, reused slots and growing included - \<open>dictionary_get\<close>
  returns the value the key was given last, or the default when the key is not there, and \<open>n\<close> is
  the number of keys; every key that is there occupies exactly one slot.
\<close>

theorem dictionary_is_map:
  "let d = foldl run_op (dictionary_new sz) cs; m = foldl map_op Map.empty cs
   in dictionary_get d k def = (case m k of Some v \<Rightarrow> v | None \<Rightarrow> def)
    \<and> d_n d = int (card (dom m))
    \<and> card {i. i < d_size d \<and> d_key d ! i = Some k} = (if m k = None then 0 else 1)"
proof -
  define d where "d = foldl run_op (dictionary_new sz) cs"
  have inv: "dict_inv d" and m: "foldl map_op Map.empty cs = dict_map d"
    using run_ops_map [OF dict_inv_new [of sz], of cs] by (simp_all add: d_def dict_map_new)
  have "card {i. i < d_size d \<and> d_key d ! i = Some k} = (if dict_map d k = None then 0 else 1)"
  proof (cases "dict_map d k")
    case None
    then have "{i. i < d_size d \<and> d_key d ! i = Some k} = {}"
      using dict_map_None [OF inv, of k] by auto
    then show ?thesis using None by simp
  next
    case (Some v)
    then obtain i where "i < d_size d" "d_key d ! i = Some k" using dict_map_Some [OF inv, of k v] by auto
    then have "{i. i < d_size d \<and> d_key d ! i = Some k} = {i}" using dict_inv_unique [OF inv] by blast
    then show ?thesis using Some by simp
  qed
  then show ?thesis
    using dictionary_get_map [OF inv] dict_count [OF inv] unfolding d_def [symmetric] m by simp
qed

end
