(* ===== verification/Ciniparser_Spec.thy ===== *)
theory Ciniparser_Spec
  imports Ciniparser Dictionary_Spec
begin

text \<open>
  Reading back what \<open>ciniparser_dump_ini\<close> writes, and what a file with errors gives.
\<close>

section \<open>Lines\<close>

text \<open>Text without blanks at either end.\<close>

definition trimmed :: "string \<Rightarrow> bool" where
  "trimmed t \<longleftrightarrow> t \<noteq> [] \<and> \<not> c_isspace (hd t) \<and> \<not> c_isspace (last t)"

definition blank :: "string \<Rightarrow> bool" where
  "blank w \<longleftrightarrow> (\<forall>c\<in>set w. c_isspace c)"

lemma strip_end_trimmed: "trimmed t \<Longrightarrow> blank w \<Longrightarrow> strip_end (t @ w) = t"
proof -
  assume t: "trimmed t" and w: "blank w"
  obtain u c where u: "t = u @ [c]" using t by (cases t rule: rev_cases) (auto simp: trimmed_def)
  have "dropWhile c_isspace (rev w @ rev t) = dropWhile c_isspace (rev t)"
    using w by (subst dropWhile_append2) (auto simp: blank_def)
  also have "\<dots> = rev t" using t u by (simp add: trimmed_def)
  finally show ?thesis by (simp add: strip_end_def)
qed

lemma strip_end_blank: "blank w \<Longrightarrow> strip_end w = []"
proof -
  assume "blank w"
  then have "dropWhile c_isspace (rev w) = []" by (simp add: dropWhile_eq_Nil_conv blank_def)
  then show ?thesis by (simp only: strip_end_def rev.simps)
qed

lemma skip_space_trimmed: "trimmed t \<Longrightarrow> skip_space (t @ w) = t @ w"
  by (cases t) (auto simp: skip_space_def trimmed_def)

lemma skip_space_blank: "blank b \<Longrightarrow> skip_space (b @ s) = skip_space s"
  by (auto simp: skip_space_def blank_def intro!: dropWhile_append2)

lemma strstrip_trimmed:
  "trimmed t \<Longrightarrow> blank w \<Longrightarrow> length (t @ w) \<le> ASCIILINESZ \<Longrightarrow> strstrip (t @ w) = t"
  by (simp add: strstrip_def skip_space_trimmed strip_end_trimmed)

text \<open>Keys and values a line can carry.\<close>

definition lower :: "string \<Rightarrow> bool" where
  "lower s \<longleftrightarrow> map c_tolower s = s"

definition good_key :: "string \<Rightarrow> bool" where
  "good_key k \<longleftrightarrow> trimmed k \<and> lower k \<and> CHR ''='' \<notin> set k \<and> newline \<notin> set k
     \<and> hd k \<noteq> CHR ''#'' \<and> hd k \<noteq> CHR ''['' \<and> length k \<le> 400"

definition good_value :: "string \<Rightarrow> bool" where
  "good_value v \<longleftrightarrow> trimmed v \<and> newline \<notin> set v \<and> CHR '';'' \<notin> set v \<and> CHR ''#'' \<notin> set v
     \<and> hd v \<noteq> CHR 0x22 \<and> hd v \<noteq> CHR 0x27 \<and> last v \<noteq> CHR 0x5C \<and> length v \<le> 400"

definition good_section :: "string \<Rightarrow> bool" where
  "good_section s \<longleftrightarrow> trimmed s \<and> lower s \<and> newline \<notin> set s \<and> CHR '']'' \<notin> set s
     \<and> CHR '':'' \<notin> set s \<and> length s \<le> 400"

definition entry_text :: "string \<Rightarrow> string \<Rightarrow> string" where
  "entry_text k v = pad_right 30 k @ '' = '' @ v"

lemma lower_strlwc: "lower s \<Longrightarrow> length s \<le> ASCIILINESZ \<Longrightarrow> strlwc s = s"
  by (simp add: strlwc_def lower_def)

lemma blank_replicate [simp]: "blank (replicate n CHR '' '')"
  by (simp add: blank_def c_isspace_def)

lemma scan_set_prefix:
  "\<forall>c\<in>set t. P c \<Longrightarrow> t \<noteq> [] \<Longrightarrow> r = [] \<or> \<not> P (hd r) \<Longrightarrow> scan_set P (t @ r) = Some (t, r)"
  by (cases r; cases t) (auto simp: scan_set_def takeWhile_append2 dropWhile_append2 takeWhile_eq_all_conv dropWhile_eq_Nil_conv)

lemma skip_equals [simp]: "skip_space (CHR ''='' # s) = CHR ''='' # s"
  by (simp add: skip_space_def c_isspace_def)

lemma scan_key_entry:
  assumes "good_key k" and "trimmed v"
  shows "scan_key (entry_text k v) = Some (pad_right 30 k @ '' '', v)"
proof -
  have "scan_set (\<lambda>c. c \<noteq> CHR ''='') ((pad_right 30 k @ '' '') @ ''= '' @ v) = Some (pad_right 30 k @ '' '', ''= '' @ v)"
    using assms(1) by (intro scan_set_prefix) (auto simp: pad_right_def good_key_def)
  moreover have "skip_space ('' '' @ v) = v"
    using skip_space_trimmed [OF assms(2), of "[]"] by (simp add: skip_space_def c_isspace_def)
  ultimately show ?thesis
    by (simp add: scan_key_def entry_text_def scan_char_def)
qed

lemma entry_line:
  assumes k: "good_key k" and v: "good_value v"
  shows "ciniparser_line (entry_text k v) = LINE_VALUE k v"
proof -
  let ?l = "entry_text k v"
  have tk: "trimmed k" and tv: "trimmed v" using assms by (simp_all add: good_key_def good_value_def)
  have hd: "hd ?l = hd k" "?l \<noteq> []" "last ?l = last v"
    using tk tv by (auto simp: entry_text_def pad_right_def trimmed_def)
  have len: "length (pad_right 30 k) \<le> 430" using k by (auto simp: pad_right_def good_key_def)
  have "strstrip (?l @ []) = ?l"
    using tk tv hd len k v by (intro strstrip_trimmed)
      (auto simp: trimmed_def blank_def entry_text_def ASCIILINESZ_def good_value_def)
  then have strip: "strstrip ?l = ?l" by simp
  have first: "?l ! 0 = hd k" using hd by (simp add: hd_conv_nth)
  note key = scan_key_entry [OF k tv]
  have "scan_char q v = None" if "hd v \<noteq> q" for q
    using that v by (cases v) (simp_all add: scan_char_def good_value_def trimmed_def)
  then have q: "scan_quoted CHR 0x22 ?l = None" "scan_quoted CHR 0x27 ?l = None"
    using v by (simp_all add: scan_quoted_def key good_value_def)
  have "scan_set (\<lambda>c. c \<noteq> CHR '';'' \<and> c \<noteq> CHR ''#'') (v @ []) = Some (v, [])"
    using v by (intro scan_set_prefix) (auto simp: good_value_def trimmed_def)
  then have p: "scan_plain ?l = Some (pad_right 30 k @ '' '', v)"
    by (simp add: scan_plain_def key)
  have "blank (replicate (30 - length k) CHR '' '' @ '' '')" by (simp add: blank_def c_isspace_def)
  then have "\<exists>w. blank w \<and> pad_right 30 k @ '' '' = k @ w" unfolding pad_right_def append_assoc by blast
  then obtain w where w: "blank w" "pad_right 30 k @ '' '' = k @ w" by blast
  then have "strstrip (pad_right 30 k @ '' '') = k"
    using strstrip_trimmed [OF tk w(1)] len by (simp add: ASCIILINESZ_def flip: w(2))
  moreover have "strstrip (v @ []) = v" using v by (intro strstrip_trimmed) (auto simp: tv blank_def good_value_def ASCIILINESZ_def)
  moreover have "strlwc k = k" using k by (intro lower_strlwc) (auto simp: good_key_def ASCIILINESZ_def)
  moreover have "v \<noteq> [CHR 0x22, CHR 0x22]" "v \<noteq> [CHR 0x27, CHR 0x27]" using v by (auto simp: good_value_def)
  ultimately show ?thesis
    using hd(2) k by (simp add: ciniparser_line_def Let_def strip first p q first_of_def good_key_def Suc_le_eq)
qed

lemma section_line:
  assumes "good_section s"
  shows "ciniparser_line (''['' @ s @ '']'') = LINE_SECTION s"
proof -
  have "strstrip ((''['' @ s @ '']'') @ []) = ''['' @ s @ '']''"
    using assms by (intro strstrip_trimmed) (auto simp: trimmed_def blank_def good_section_def ASCIILINESZ_def c_isspace_def)
  moreover have "scan_set (\<lambda>c. c \<noteq> CHR '']'') (s @ '']'') = Some (s, '']'')"
    using assms by (intro scan_set_prefix) (auto simp: good_section_def trimmed_def)
  moreover have "strstrip (s @ []) = s"
    using assms by (intro strstrip_trimmed) (auto simp: blank_def good_section_def ASCIILINESZ_def)
  moreover have "strlwc s = s" using assms by (intro lower_strlwc) (auto simp: good_section_def ASCIILINESZ_def)
  ultimately show ?thesis by (simp add: ciniparser_line_def Let_def nth_append)
qed

section \<open>Files\<close>

text \<open>Lines that fit into the buffer and are not continued.\<close>

definition readable :: "string \<Rightarrow> bool" where
  "readable l \<longleftrightarrow> newline \<notin> set l \<and> length l \<le> 1000
     \<and> (strip_end l = [] \<or> last (strip_end l) \<noteq> CHR 0x5C)"

definition file_text :: "string list \<Rightarrow> string" where
  "file_text ls = concat (map (\<lambda>l. l @ [newline]) ls)"

lemma strip_end_newline [simp]: "strip_end (l @ [newline]) = strip_end l"
  by (simp add: strip_end_def c_isspace_def)

lemma load_line_eq:
  "load_line st line = (case ciniparser_line line of
     LINE_SECTION sec \<Rightarrow>
       st\<lparr>l_dict := fst (dictionary_set (l_dict st) sec None), l_section := sec, l_errs := 0\<rparr>
   | LINE_VALUE key val \<Rightarrow>
       st\<lparr>l_dict := fst (dictionary_set (l_dict st) (take ASCIILINESZ (l_section st @ '':'' @ key)) (Some val)),
          l_errs := 0\<rparr>
   | LINE_ERROR \<Rightarrow> st\<lparr>l_errs := l_errs st + 1\<rparr>
   | _ \<Rightarrow> st)"
  unfolding load_line_def case_prod_beta dictionary_set_ok ..

lemma load_line_errs: "0 \<le> l_errs st \<Longrightarrow> 0 \<le> l_errs (load_line st l)"
  by (simp add: load_line_eq split: line_status.split)

lemma load_file:
  "0 \<le> l_errs st \<Longrightarrow> \<forall>l\<in>set ls. readable l \<Longrightarrow>
   load_loop [] st (file_text ls) = load_result (foldl (\<lambda>st l. load_line st (strip_end l)) st ls)"
proof (induction ls arbitrary: st)
  case Nil
  then show ?case by (simp add: file_text_def load_loop.simps)
next
  case (Cons l ls)
  have l: "newline \<notin> set l" "length l + 1 < ASCIILINESZ" "strip_end l = [] \<or> last (strip_end l) \<noteq> CHR 0x5C"
    using Cons.prems(2) by (simp_all add: readable_def ASCIILINESZ_def)
  have "file_text (l # ls) = l @ newline # file_text ls" by (simp add: file_text_def)
  then have "load_loop [] st (file_text (l # ls)) = load_loop [] (load_line st (strip_end l)) (file_text ls)"
    using l load_line_errs [OF Cons.prems(1), of "strip_end l"]
    by (subst load_loop.simps) (auto simp: fgets_line Let_def)
  also have "\<dots> = load_result (foldl (\<lambda>st l. load_line st (strip_end l)) (load_line st (strip_end l)) ls)"
    using Cons.prems load_line_errs by (intro Cons.IH) auto
  finally show ?case by simp
qed

text \<open>
  A syntax error in a file is forgotten when a section or an entry follows: the line counts as
  an error, but the next \<open>dictionary_set\<close> overwrites the count with its own result 0. Only an error
  that no section and no entry follows makes \<open>ciniparser_load\<close> fail.
\<close>

theorem load_forgets_errors:
  assumes "\<forall>l\<in>set ls. readable l"
  shows "ciniparser_load (Some (file_text ls)) = None \<longleftrightarrow>
    (\<exists>pre l post. ls = pre @ l # post \<and> ciniparser_line (strip_end l) = LINE_ERROR
       \<and> (\<forall>x\<in>set post. ciniparser_line (strip_end x) \<in> {LINE_EMPTY, LINE_COMMENT, LINE_ERROR}))"
proof -
  define load where "load = foldl (\<lambda>st l. load_line st (strip_end l)) load_start"
  define bad where "bad l \<longleftrightarrow> ciniparser_line (strip_end l) = LINE_ERROR" for l
  define idle where "idle l \<longleftrightarrow> ciniparser_line (strip_end l) \<in> {LINE_EMPTY, LINE_COMMENT, LINE_ERROR}" for l
  have unprocessed: "ciniparser_line x \<noteq> LINE_UNPROCESSED" for x
    by (auto simp: ciniparser_line_def Let_def split: option.split prod.split)
  have "0 \<le> l_errs (load xs) \<and> (l_errs (load xs) \<noteq> 0 \<longleftrightarrow> (\<exists>pre l post. xs = pre @ l # post \<and> bad l \<and> (\<forall>x\<in>set post. idle x)))" for xs
  proof (induction xs rule: rev_induct)
    case Nil
    then show ?case by (simp add: load_def load_start_def)
  next
    case (snoc x xs)
    have split: "(\<exists>pre l post. xs @ [x] = pre @ l # post \<and> bad l \<and> (\<forall>y\<in>set post. idle y))
        \<longleftrightarrow> bad x \<or> (idle x \<and> (\<exists>pre l post. xs = pre @ l # post \<and> bad l \<and> (\<forall>y\<in>set post. idle y)))"
      (is "?A \<longleftrightarrow> _ \<or> (_ \<and> ?B)")
    proof
      assume ?A
      then obtain pre l post where a: "xs @ [x] = pre @ l # post" "bad l" "\<forall>y\<in>set post. idle y" by blast
      then show "bad x \<or> (idle x \<and> ?B)"
        by (cases post rule: rev_cases) auto
    next
      assume "bad x \<or> (idle x \<and> ?B)"
      then show ?A
      proof
        assume "bad x" then show ?A by (intro exI [of _ xs] exI [of _ x] exI [of _ "[]"]) simp
      next
        assume "idle x \<and> ?B"
        then obtain pre l post where "xs = pre @ l # post" "bad l" "\<forall>y\<in>set post. idle y" "idle x" by blast
        then show ?A by (intro exI [of _ pre] exI [of _ l] exI [of _ "post @ [x]"]) auto
      qed
    qed
    have step: "load (xs @ [x]) = load_line (load xs) (strip_end x)" by (simp add: load_def)
    have "0 \<le> l_errs (load_line (load xs) (strip_end x))
        \<and> (l_errs (load_line (load xs) (strip_end x)) \<noteq> 0 \<longleftrightarrow> bad x \<or> (idle x \<and> l_errs (load xs) \<noteq> 0))"
      using snoc.IH unprocessed [of "strip_end x"]
      by (cases "ciniparser_line (strip_end x)") (simp_all add: load_line_eq bad_def idle_def)
    then show ?case using snoc.IH unfolding step split by blast
  qed
  moreover have "ciniparser_load (Some (file_text ls)) = load_result (load ls)"
    using load_file [of load_start ls] assms by (simp add: ciniparser_load_def load_def load_start_def)
  ultimately show ?thesis by (simp add: load_result_def bad_def idle_def)
qed

theorem load_forgets_errors_witness:
  "ciniparser_load (Some (file_text [''nonsense'', ''[a]''])) \<noteq> None"
proof -
  have bad: "ciniparser_line (strip_end ''nonsense'') = LINE_ERROR"
    "ciniparser_line (strip_end ''[a]'') = LINE_SECTION ''a''" by code_simp+
  have "\<forall>l\<in>set [''nonsense'', ''[a]'']. readable l" by code_simp
  from load_forgets_errors [OF this] bad show ?thesis
    by (auto simp: Cons_eq_append_conv)
qed

section \<open>Reading back a dumped dictionary\<close>

text \<open>The slots are the map.\<close>

lemma set_slots:
  assumes "dict_inv d"
  shows "(k, v) \<in> set (slots d) \<longleftrightarrow> dict_map d k = Some v"
proof -
  have "(k, v) \<in> set (slots d) \<longleftrightarrow> (Some k, v) \<in> set (zip (d_key d) (d_val d))"
    by (force simp: slots_def)
  also have "\<dots> \<longleftrightarrow> (\<exists>i<d_size d. d_key d ! i = Some k \<and> d_val d ! i = v)"
    using dict_inv_len [OF assms] by (simp add: in_set_zip) blast
  finally show ?thesis by (simp add: dict_map_Some [OF assms])
qed

lemma set_keys_at: "dict_inv d \<Longrightarrow> k \<in> set (keys_at d) \<longleftrightarrow> k \<in> dom (dict_map d)"
proof -
  assume inv: "dict_inv d"
  have "k \<in> set (keys_at d) \<longleftrightarrow> Some k \<in> set (d_key d)" by (force simp: keys_at_def)
  also have "\<dots> \<longleftrightarrow> (\<exists>i<d_size d. d_key d ! i = Some k)"
    using dict_inv_len [OF inv] by (auto simp: in_set_conv_nth)
  finally show ?thesis using dict_map_None [OF inv, of k] unfolding domIff by metis
qed

lemma distinct_keys_at:
  assumes "dict_inv d"
  shows "distinct (keys_at d)"
proof -
  have "distinct (filter (\<lambda>k. k \<noteq> None) ks)"
    if "\<And>i j k. i < length ks \<Longrightarrow> j < length ks \<Longrightarrow> ks ! i = Some k \<Longrightarrow> ks ! j = Some k \<Longrightarrow> i = j"
    for ks :: "string option list"
    using that
  proof (induction ks)
    case (Cons x ks)
    have "distinct (filter (\<lambda>k. k \<noteq> None) ks)"
      using Cons.prems [of "Suc _" "Suc _"] by (intro Cons.IH) auto
    moreover have "x \<notin> set ks" if "x \<noteq> None"
    proof
      assume "x \<in> set ks"
      then obtain i where "i < length ks" "ks ! i = x" by (auto simp: in_set_conv_nth)
      then show False using Cons.prems [of 0 "Suc i" "the x"] that by auto
    qed
    ultimately show ?case by auto
  qed simp
  from this [of "d_key d"] have "distinct (filter (\<lambda>k. k \<noteq> None) (d_key d))"
    using dict_inv_unique [OF assms] dict_inv_len [OF assms] by metis
  then show ?thesis by (auto simp: keys_at_def distinct_map inj_on_def)
qed

text \<open>A dictionary that a file can carry: one section, and entries of that section.\<close>

definition dumpable :: "dictionary \<Rightarrow> string \<Rightarrow> bool" where
  "dumpable d s \<longleftrightarrow> dict_inv d \<and> good_section s \<and> (s, None) \<in> set (slots d)
     \<and> (\<forall>(k, v)\<in>set (slots d). k = s \<or>
         (take (length s + 1) k = s @ '':'' \<and> good_key (drop (length s + 1) k) \<and> v \<noteq> None \<and> good_value (the v)))"

text \<open>The entries without their section, in the order of the slots.\<close>

definition entries :: "dictionary \<Rightarrow> string \<Rightarrow> (string \<times> string) list" where
  "entries d s = map (\<lambda>(k, v). (drop (length s + 1) k, the v)) (filter (\<lambda>(k, v). k \<noteq> s) (slots d))"

lemma dumpable_entry:
  assumes "dumpable d s" and "(k, v) \<in> set (slots d)" and "k \<noteq> s"
  obtains k' w where "k = s @ '':'' @ k'" "v = Some w" "good_key k'" "good_value w"
proof -
  have e: "take (length s + 1) k = s @ '':''" "good_key (drop (length s + 1) k)" "v \<noteq> None" "good_value (the v)"
    using assms by (auto simp: dumpable_def)
  have "k = s @ '':'' @ drop (length s + 1) k"
    using append_take_drop_id [of "length s + 1" k] unfolding e(1) append_assoc by (rule sym)
  moreover have "v = Some (the v)" using e(3) by simp
  ultimately show ?thesis using that e(2,4) by blast
qed

lemma concat_map_if:
  "concat (map (\<lambda>(k, v). if P k v then f k v else []) xs)
     = concat (map (\<lambda>(k, v). f k v) (filter (\<lambda>(k, v). P k v) xs))"
  by (induction xs) auto

lemma distinct_singleton: "set xs = {s} \<Longrightarrow> distinct xs \<Longrightarrow> xs = [s]"
  by (cases xs; cases "tl xs") auto

lemma dump_text:
  assumes d: "dumpable d s"
  shows "ciniparser_dump_ini d
    = file_text ([[], ''['' @ s @ '']''] @ map (\<lambda>(k, v). entry_text k v) (entries d s) @ [[]])"
proof -
  have inv: "dict_inv d" using d by (simp add: dumpable_def)
  have secs: "filter (\<lambda>k. CHR '':'' \<notin> set k) (keys_at d) = [s]"
  proof -
    have "k = s" if mem: "k \<in> set (keys_at d)" and no: "CHR '':'' \<notin> set k" for k
    proof -
      obtain v where "dict_map d k = Some v" using mem unfolding set_keys_at [OF inv] by blast
      then have "(k, v) \<in> set (slots d)" by (simp add: set_slots [OF inv])
      moreover have "CHR '':'' \<in> set k" if "take (length s + 1) k = s @ '':''"
        using arg_cong [OF that, of set] set_take_subset [of "length s + 1" k] by auto
      ultimately show ?thesis using d no by (auto simp: dumpable_def)
    qed
    moreover have "s \<in> set (keys_at d)" "CHR '':'' \<notin> set s"
      using d set_keys_at [OF inv, of s] set_slots [OF inv, of s None]
      by (simp_all add: dumpable_def good_section_def domIff)
    ultimately have "set (filter (\<lambda>k. CHR '':'' \<notin> set k) (keys_at d)) = {s}"
      unfolding set_filter by blast
    moreover have "distinct (filter (\<lambda>k. CHR '':'' \<notin> set k) (keys_at d))" using distinct_keys_at [OF inv] by simp
    ultimately show ?thesis by (rule distinct_singleton)
  qed
  have keym: "take (length s + 1) (take ASCIILINESZ (s @ '':'')) = s @ '':''"
    using d by (auto simp: dumpable_def good_section_def ASCIILINESZ_def)
  define line where "line k v = (if take (length s + 1) k = s @ '':''
       then pad_right 30 (drop (length s + 1) k) @ '' = '' @ (case v of Some v \<Rightarrow> v | None \<Rightarrow> []) @ [newline] else [])" for k v
  have line: "line k v = (if k \<noteq> s then entry_text (drop (length s + 1) k) (the v) @ [newline] else [])"
    if kv: "(k, v) \<in> set (slots d)" for k v
  proof -
    consider "k = s" | k' w where "k = s @ '':'' @ k'" "v = Some w"
      using dumpable_entry [OF d kv] by blast
    then show ?thesis by cases (simp_all add: line_def entry_text_def)
  qed
  have "map (\<lambda>(k, v). line k v) (slots d)
      = map (\<lambda>(k, v). if k \<noteq> s then entry_text (drop (length s + 1) k) (the v) @ [newline] else []) (slots d)"
    using line by (intro map_cong) auto
  then have "concat (map (\<lambda>(k, v). line k v) (slots d))
      = concat (map (\<lambda>(k, v). entry_text k v @ [newline]) (entries d s))"
    by (simp only: concat_map_if) (simp add: entries_def comp_def case_prod_beta')
  moreover have "dump_section d s = [newline] @ ''['' @ s @ '']'' @ [newline] @
      concat (map (\<lambda>(k, v). line k v) (slots d))"
    by (simp only: dump_section_def Let_def keym line_def)
  ultimately have one: "dump_section d s = [newline] @ ''['' @ s @ '']'' @ [newline] @
      concat (map (\<lambda>(k, v). entry_text k v @ [newline]) (entries d s))"
    by simp
  show ?thesis
    by (simp add: ciniparser_dump_ini_def ciniparser_getnsec_def ciniparser_getsecname_def secs one file_text_def
        Let_def comp_def case_prod_beta')
qed

lemma strip_end_good:
  "good_section s \<Longrightarrow> strip_end (''['' @ s @ '']'') = ''['' @ s @ '']''"
  "good_key k \<Longrightarrow> good_value v \<Longrightarrow> strip_end (entry_text k v) = entry_text k v"
proof -
  show "strip_end (''['' @ s @ '']'') = ''['' @ s @ '']''" if "good_section s"
    using strip_end_trimmed [of "''['' @ s @ '']''" "[]"] that
    by (simp add: trimmed_def blank_def c_isspace_def)
  show "strip_end (entry_text k v) = entry_text k v" if "good_key k" "good_value v"
    using strip_end_trimmed [of "entry_text k v" "[]"] that
    by (auto simp: trimmed_def blank_def good_key_def good_value_def entry_text_def pad_right_def)
qed

lemma readable_good:
  "readable []" "good_section s \<Longrightarrow> readable (''['' @ s @ '']'')"
  "good_key k \<Longrightarrow> good_value v \<Longrightarrow> readable (entry_text k v)"
proof -
  show "readable []" by (simp add: readable_def strip_end_def)
  show "readable (''['' @ s @ '']'')" if "good_section s"
    unfolding readable_def strip_end_good(1) [OF that] using that by (auto simp: good_section_def)
  have "last (entry_text k v) = last v" if "good_value v"
    using that by (simp add: entry_text_def good_value_def trimmed_def)
  then show "readable (entry_text k v)" if "good_key k" "good_value v"
    unfolding readable_def strip_end_good(2) [OF that] using that
    by (auto simp: entry_text_def pad_right_def good_key_def good_value_def)
qed

lemma load_entries:
  "\<forall>(k, v)\<in>set es. good_key k \<and> good_value v \<Longrightarrow> good_section (l_section st) \<Longrightarrow> l_errs st = 0 \<Longrightarrow>
   foldl (\<lambda>st l. load_line st (strip_end l)) st (map (\<lambda>(k, v). entry_text k v) es)
     = st\<lparr>l_dict := foldl (\<lambda>d (k, v). fst (dictionary_set d k v)) (l_dict st)
         (map (\<lambda>(k, v). (l_section st @ '':'' @ k, Some v)) es)\<rparr>"
proof (induction es arbitrary: st)
  case (Cons e es)
  obtain k v where e: "e = (k, v)" "good_key k" "good_value v" using Cons.prems(1) by (cases e) auto
  have "length (l_section st @ '':'' @ k) \<le> ASCIILINESZ"
    using e(2) Cons.prems(2) by (simp add: good_key_def good_section_def ASCIILINESZ_def)
  then have "load_line st (entry_text k v)
      = st\<lparr>l_dict := fst (dictionary_set (l_dict st) (l_section st @ '':'' @ k) (Some v))\<rparr>"
    using e Cons.prems(3) by (simp add: load_line_eq entry_line)
  then show ?case
    using Cons.IH [of "st\<lparr>l_dict := fst (dictionary_set (l_dict st) (l_section st @ '':'' @ k) (Some v))\<rparr>"]
      Cons.prems e by (simp add: strip_end_good)
qed simp

lemma map_of_agrees:
  "\<forall>(k, v)\<in>set xs. m k = Some v \<Longrightarrow> map_of xs k = (if k \<in> fst ` set xs then m k else None)"
  by (induction xs) auto

text \<open>
  C31: What \<open>ciniparser_dump_ini\<close> writes for a dictionary with one section, \<open>ciniparser_load\<close> reads
  back: the new dictionary has the same keys with the same values. (Keys in lower case, keys and
  values that need no quoting, lines that fit into the line buffer.)
\<close>

theorem dump_load_round_trip:
  assumes "dumpable d s"
  shows "\<exists>d'. ciniparser_load (Some (ciniparser_dump_ini d)) = Some d' \<and> dict_inv d' \<and> dict_map d' = dict_map d"
proof -
  have inv: "dict_inv d" and s: "good_section s" using assms by (simp_all add: dumpable_def)
  let ?kvs = "map (\<lambda>(k, v). (s @ '':'' @ k, Some v)) (entries d s)"
  let ?d = "foldl (\<lambda>d (k, v). fst (dictionary_set d k v)) (dictionary_new 0) ((s, None) # ?kvs)"
  have good: "\<forall>(k, v)\<in>set (entries d s). good_key k \<and> good_value v"
    using assms by (auto simp: entries_def elim: dumpable_entry)
  have kvs: "?kvs = filter (\<lambda>(k, v). k \<noteq> s) (slots d)"
    unfolding entries_def map_map
    by (rule map_idI) (auto elim: dumpable_entry [OF assms])
  let ?load = "\<lambda>st l. load_line st (strip_end l)"
  have empty: "load_line st (strip_end []) = st" for st
    by (simp add: load_line_eq strip_end_def ciniparser_line_def strstrip_def skip_space_def)
  have sec: "load_line load_start (strip_end (''['' @ s @ '']''))
      = load_start\<lparr>l_dict := fst (dictionary_set (dictionary_new 0) s None), l_section := s\<rparr>"
    unfolding strip_end_good(1) [OF s] load_line_eq section_line [OF s] by (simp add: load_start_def)
  have read: "\<forall>l\<in>set ([[], ''['' @ s @ '']''] @ map (\<lambda>(k, v). entry_text k v) (entries d s) @ [[]]). readable l"
    using s good readable_good(2) [OF s] by (auto simp: readable_good)
  have "foldl ?load load_start ([[], ''['' @ s @ '']''] @ map (\<lambda>(k, v). entry_text k v) (entries d s) @ [[]])
      = foldl ?load (load_start\<lparr>l_dict := fst (dictionary_set (dictionary_new 0) s None), l_section := s\<rparr>)
          (map (\<lambda>(k, v). entry_text k v) (entries d s))"
    by (simp only: foldl_append foldl_Cons foldl_Nil empty sec)
  also have "\<dots> = load_start\<lparr>l_dict := ?d, l_section := s\<rparr>"
    using load_entries [OF good, of "load_start\<lparr>l_dict := fst (dictionary_set (dictionary_new 0) s None), l_section := s\<rparr>"] s
    by (simp add: load_start_def)
  finally have "ciniparser_load (Some (ciniparser_dump_ini d)) = Some ?d"
    using load_file [of load_start, OF _ read]
    by (simp add: ciniparser_load_def dump_text [OF assms] load_result_def load_start_def)
  moreover have "dict_inv ?d" by (rule sd.inv_sets [OF sd.inv_new])
  moreover have "dict_map ?d = dict_map d"
  proof
    fix k
    let ?es = "rev ((s, None) # filter (\<lambda>(k, v). k \<noteq> s) (slots d))"
    have "\<forall>(k, v)\<in>set ?es. dict_map d k = Some v"
      using assms set_slots [OF inv] by (auto simp: dumpable_def)
    note agrees = map_of_agrees [OF this]
    have "k \<in> fst ` set ?es" if "dict_map d k = Some v" for v
      using that by (cases "k = s") (force simp: set_slots [OF inv])+
    then have "map_of ?es k = dict_map d k" unfolding agrees by (cases "dict_map d k") auto
    then show "dict_map ?d k = dict_map d k"
      unfolding kvs sd.map_sets [OF sd.inv_new] by (simp add: sd.map_new)
  qed
  ultimately show ?thesis by blast
qed

definition sample_ini :: dictionary where
  "sample_ini = fst (dictionary_set (fst (dictionary_set (fst (dictionary_set (dictionary_new 0)
     ''lircd'' None)) ''lircd:driver'' (Some ''default''))) ''lircd:output'' (Some ''/var/run/lirc''))"

theorem dump_load_round_trip_witness:
  "\<exists>d'. ciniparser_load (Some (ciniparser_dump_ini sample_ini)) = Some d' \<and> dict_inv d' \<and> dict_map d' = dict_map sample_ini"
proof (rule dump_load_round_trip)
  have "dict_inv sample_ini"
    unfolding sample_ini_def by (intro sd.inv_set dict_inv_new)
  moreover have "good_section ''lircd''"
    "slots sample_ini = [(''lircd'', None), (''lircd:driver'', Some ''default''), (''lircd:output'', Some ''/var/run/lirc'')]"
    by code_simp+
  moreover have "good_key ''driver''" "good_key ''output''" "good_value ''default''" "good_value ''/var/run/lirc''"
    by code_simp+
  ultimately show "dumpable sample_ini ''lircd''" by (simp add: dumpable_def)
qed

text \<open>
  With more than one section \<open>ciniparser_dump_ini\<close> writes the first one twice and never the
  last: \<open>ciniparser_getsecname\<close> takes number 0 for 1, and the loop asks for the numbers from 0. The
  sections written are the first one and then all but the last, in the order of the slots.
\<close>

theorem dump_loses_last_section:
  "ciniparser_dump_ini d =
     (let secs = filter (\<lambda>k. CHR '':'' \<notin> set k) (keys_at d)
      in if secs = []
         then concat (map (\<lambda>(k, v). k @ '' = '' @ (case v of Some v \<Rightarrow> v | None \<Rightarrow> ''(null)'') @ [newline]) (slots d))
         else concat (map (dump_section d) (hd secs # butlast secs)) @ [newline])"
proof -
  define secs where "secs = filter (\<lambda>k. CHR '':'' \<notin> set k) (keys_at d)"
  have name: "ciniparser_getsecname d (int i) = Some (secs ! (i - 1))" if "i < length secs" for i
    using that by (auto simp: ciniparser_getsecname_def secs_def [symmetric] Let_def)
  have "map (\<lambda>i. case ciniparser_getsecname d (int i) of Some secname \<Rightarrow> dump_section d secname | None \<Rightarrow> [])
      [0..<length secs] = map (\<lambda>i. dump_section d (secs ! (i - 1))) [0..<length secs]"
    by (rule map_cong) (simp_all add: name)
  also have "\<dots> = map (dump_section d) (hd secs # butlast secs)" if "secs \<noteq> []"
  proof (rule nth_equalityI)
    fix i
    assume "i < length (map (\<lambda>i. dump_section d (secs ! (i - 1))) [0..<length secs])"
    then show "map (\<lambda>i. dump_section d (secs ! (i - 1))) [0..<length secs] ! i
        = map (dump_section d) (hd secs # butlast secs) ! i"
      using that by (cases i) (simp_all add: hd_conv_nth nth_butlast)
  qed (use that in simp)
  finally have loop: "secs \<noteq> [] \<Longrightarrow>
      map (\<lambda>i. case ciniparser_getsecname d (int i) of Some secname \<Rightarrow> dump_section d secname | None \<Rightarrow> [])
        [0..<length secs] = map (dump_section d) (hd secs # butlast secs)" .
  have n: "ciniparser_getnsec d = int (length secs)" by (simp add: ciniparser_getnsec_def secs_def)
  show ?thesis
    unfolding secs_def [symmetric] ciniparser_dump_ini_def n Let_def
    by (cases "secs = []") (simp_all add: loop)
qed

end
