(* ===== verification/Config_Values.thy ===== *)
theory Config_Values
  imports C_Text Ir_Inline
begin

text \<open>
  The small pieces of the parser of \<open>lircd.conf\<close> (\<open>lib/config_file.c\<close>): growing arrays, numbers,
  flags, codes. The global \<open>parse_error\<close> is passed as a boolean: a function that may set it
  returns, beside its value, whether it did. Memory allocation is taken to succeed, messages
  of the log are not modelled.
\<close>

section \<open>Growing arrays\<close>

text \<open>
  \<open>ptr\<close> is the allocated memory, in elements; \<open>zero\<close> is an element of zero bytes. Memory that
  \<open>realloc\<close> adds is indeterminate in C and zero here; it is written before it is read.
\<close>

record 'a void_array =
  va_ptr :: "'a list"
  va_nr_items :: nat
  va_chunk_size :: nat

definition init_void_array :: "'a \<Rightarrow> nat \<Rightarrow> 'a void_array" where
  "init_void_array zero chunk_size =
     \<lparr>va_ptr = replicate chunk_size zero, va_nr_items = 0, va_chunk_size = chunk_size\<rparr>"

definition realloc :: "'a \<Rightarrow> nat \<Rightarrow> 'a list \<Rightarrow> 'a list" where
  "realloc zero n xs = take n xs @ replicate (n - length xs) zero"

definition add_void_array :: "'a \<Rightarrow> 'a void_array \<Rightarrow> 'a \<Rightarrow> 'a void_array" where
  "add_void_array zero ar x =
     (let nr = va_nr_items ar;
          ptr = (if nr mod va_chunk_size ar = va_chunk_size ar - 1
                 then realloc zero (nr + va_chunk_size ar + 1) (va_ptr ar) else va_ptr ar)
      in ar\<lparr>va_ptr := ptr[nr := x, nr + 1 := zero], va_nr_items := nr + 1\<rparr>)"

text \<open>The elements of the array \<open>get_void_array\<close> returns; the one after them is zero.\<close>

definition get_void_array :: "'a void_array \<Rightarrow> 'a list" where
  "get_void_array ar = take (va_nr_items ar) (va_ptr ar)"

text \<open>The items and the zero behind them are inside the allocated memory.\<close>

definition va_ok :: "'a \<Rightarrow> 'a void_array \<Rightarrow> bool" where
  "va_ok zero ar \<longleftrightarrow> 0 < va_chunk_size ar
     \<and> (va_nr_items ar div va_chunk_size ar + 1) * va_chunk_size ar \<le> length (va_ptr ar)
     \<and> va_ptr ar ! va_nr_items ar = zero"

section \<open>Numbers\<close>

definition s_strtocode :: "string \<Rightarrow> ir_code \<times> bool" where
  "s_strtocode val = (case strtoull 0 val of (code, erange, endptr) \<Rightarrow>
     if (code = 2 ^ 64 - 1 \<and> erange) \<or> length endptr \<noteq> 0 \<or> length val = 0
     then (0, True) else (word_of_int code, False))"

definition s_strtou32 :: "string \<Rightarrow> int \<times> bool" where
  "s_strtou32 val = (case strtoul 0 val of (n, _, endptr) \<Rightarrow>
     if val = [] \<or> endptr \<noteq> [] then (0, True) else (n, False))"

definition s_strtoi :: "string \<Rightarrow> int \<times> bool" where
  "s_strtoi val = (case strtol 0 val of (n, _, endptr) \<Rightarrow>
     let h = s32 n in if val = [] \<or> endptr \<noteq> [] \<or> n \<noteq> h then (0, True) else (h, False))"

definition s_strtoui :: "string \<Rightarrow> int \<times> bool" where
  "s_strtoui val = (case strtoul 0 val of (n, _, endptr) \<Rightarrow>
     let h = u32 n in if val = [] \<or> endptr \<noteq> [] \<or> n \<noteq> u32 h then (0, True) else (h, False))"

definition s_strtolirc_t :: "string \<Rightarrow> lirc_t \<times> bool" where
  "s_strtolirc_t val = (case strtoul 0 val of (n, _, endptr) \<Rightarrow>
     let h = s32 n in if val = [] \<or> endptr \<noteq> [] \<or> n \<noteq> u32 h then (0, True) else (h, False))"

section \<open>Flags\<close>

definition SHIFT_ENC :: "32 word" where "SHIFT_ENC = RC5"

definition all_flags :: "(string \<times> 32 word) list" where
  "all_flags = [(''RAW_CODES'', RAW_CODES), (''RC5'', RC5), (''SHIFT_ENC'', SHIFT_ENC), (''RC6'', RC6),
     (''RCMM'', RCMM), (''SPACE_ENC'', SPACE_ENC), (''SPACE_FIRST'', SPACE_FIRST),
     (''GOLDSTAR'', GOLDSTAR), (''GRUNDIG'', GRUNDIG), (''BO'', BO), (''SERIAL'', SERIAL), (''XMP'', XMP),
     (''REVERSE'', REVERSE), (''NO_HEAD_REP'', NO_HEAD_REP), (''NO_FOOT_REP'', NO_FOOT_REP),
     (''CONST_LENGTH'', CONST_LENGTH), (''REPEAT_HEADER'', REPEAT_HEADER)]"

text \<open>The loop over the flags between the bars: the flags so far and what is left of the text.\<close>

definition find_flag :: "string \<Rightarrow> 32 word option" where
  "find_flag flag = map_option snd (find (\<lambda>(name, f). strcasecmp_eq name flag) all_flags)"

function parse_flags_loop :: "32 word \<Rightarrow> string \<Rightarrow> 32 word \<times> bool" where
  "parse_flags_loop flags val =
     (let flag = takeWhile (\<lambda>c. c \<noteq> CHR ''|'') val; rest = dropWhile (\<lambda>c. c \<noteq> CHR ''|'') val
      in case find_flag flag of
           None \<Rightarrow> (0, True)
         | Some f \<Rightarrow>
             if f AND IR_PROTOCOL_MASK \<noteq> 0 \<and> flags AND IR_PROTOCOL_MASK \<noteq> 0 then (0, True)
             else if rest = [] then (flags OR f, False)
             else parse_flags_loop (flags OR f) (tl rest))"
  by pat_completeness auto

termination parse_flags_loop
proof (relation "measure (\<lambda>(flags, val). length val)", simp)
  fix flags :: "32 word" and val flag rest :: string and f
  assume rest: "rest = dropWhile (\<lambda>c. c \<noteq> CHR ''|'') val" "rest \<noteq> []"
  have "length rest \<le> length val" unfolding rest(1) by (rule length_dropWhile_le)
  moreover have "length (tl rest) < length rest" using rest(2) by (cases rest) simp_all
  ultimately show "((flags OR f, tl rest), flags, val) \<in> measure (\<lambda>(flags, val). length val)" by simp
qed

declare parse_flags_loop.simps [simp del]

definition parseFlags :: "string \<Rightarrow> 32 word \<times> bool" where
  "parseFlags val = parse_flags_loop 0 val"

section \<open>Signals and codes\<close>

definition addSignal :: "lirc_t void_array \<Rightarrow> string \<Rightarrow> lirc_t void_array \<times> bool" where
  "addSignal signals val = (case s_strtoui val of (t, err) \<Rightarrow>
     if err then (signals, True) else (add_void_array 0 signals (s32 t), False))"

definition defineCode :: "string \<Rightarrow> string \<Rightarrow> ir_ncode \<times> bool" where
  "defineCode key val = (case s_strtocode val of (code, err) \<Rightarrow>
     (zero_ncode\<lparr>nc_name := key, nc_code := code\<rparr>, err))"

text \<open>The new node is linked behind \<open>current\<close>, the last one.\<close>

definition defineNode :: "ir_ncode \<Rightarrow> string \<Rightarrow> ir_ncode \<times> bool" where
  "defineNode code val = (case s_strtocode val of (c, err) \<Rightarrow>
     (code\<lparr>nc_next := nc_next code @ [c], nc_current := Some (length (nc_next code))\<rparr>, err))"

text \<open>The further codes of a button, up to a comment; \<open>rest\<close> is what \<open>strtok\<close> has left.\<close>

definition whitespace :: string where "whitespace = [CHR '' '', CHR 0x09]"

function define_nodes :: "ir_ncode \<Rightarrow> bool \<Rightarrow> string option \<Rightarrow> string \<Rightarrow> ir_ncode \<times> bool" where
  "define_nodes code err val2 rest =
     (case val2 of
        None \<Rightarrow> (code, err)
      | Some v \<Rightarrow>
          if err \<or> hd v = CHR ''#'' then (code, err)
          else case defineNode code v of (code, err) \<Rightarrow>
            (case strtok whitespace rest of
               None \<Rightarrow> (code, err)
             | Some (v', rest') \<Rightarrow> define_nodes code err (Some v') rest'))"
  by pat_completeness auto

termination define_nodes
  by (relation "measure (\<lambda>(code, err, val2, rest). length rest)") (auto dest: strtok_nonempty)

declare define_nodes.simps [simp del]

section \<open>Comparing codes\<close>

text \<open>
  A pointer to a node is the list that starts there. The loop of \<open>array_guest_code_equals\<close> sets both
  pointers to the first node again, and so never ends once the first nodes are equal.
\<close>

definition ir_code_node_equals :: "ir_code list \<Rightarrow> ir_code list \<Rightarrow> bool" where
  "ir_code_node_equals node1 node2 = (case (node1, node2) of
     (c1 # _, c2 # _) \<Rightarrow> c1 = c2
   | ([], []) \<Rightarrow> True
   | _ \<Rightarrow> False)"

partial_function (option) code_equals_loop ::
    "ir_ncode \<Rightarrow> ir_ncode \<Rightarrow> ir_code list \<Rightarrow> ir_code list \<Rightarrow> bool option" where
  "code_equals_loop code1 code2 next1 next2 =
     (if nc_next code1 = [] then Some True
      else if \<not> ir_code_node_equals next1 next2 then Some False
      else code_equals_loop code1 code2 (nc_next code1) (nc_next code2))"

definition array_guest_code_equals :: "ir_ncode \<Rightarrow> ir_ncode \<Rightarrow> bool option" where
  "array_guest_code_equals code1 code2 =
     (if nc_code code1 \<noteq> nc_code code2 then Some False
      else code_equals_loop code1 code2 (nc_next code1) (nc_next code2))"

definition array_guest_ncode_cmp :: "ir_ncode \<Rightarrow> ir_ncode \<Rightarrow> bool" where
  "array_guest_ncode_cmp item code \<longleftrightarrow> nc_name item = nc_name code"

text \<open>\<open>foreach_void_array\<close> with the code comparison stops at the first equal code.\<close>

primrec foreach_code_equals :: "ir_ncode list \<Rightarrow> ir_ncode \<Rightarrow> bool option" where
  "foreach_code_equals [] code = Some False"
| "foreach_code_equals (c # cs) code = (case array_guest_code_equals c code of
     None \<Rightarrow> None
   | Some True \<Rightarrow> Some True
   | Some False \<Rightarrow> foreach_code_equals cs code)"

text \<open>
  \<open>check_ncode_dups\<close> only writes messages: the names and the values that are defined twice; None
  when it does not return.
\<close>

definition check_ncode_dups :: "ir_ncode void_array \<Rightarrow> ir_ncode \<Rightarrow> (bool \<times> bool) option" where
  "check_ncode_dups ar code =
     (case foreach_code_equals (get_void_array ar) code of
        None \<Rightarrow> None
      | Some same_code \<Rightarrow> Some (\<exists>c\<in>set (get_void_array ar). array_guest_ncode_cmp c code, same_code))"

end
