(* ===== verification/Config_Remote.thy ===== *)
theory Config_Remote
  imports Config_Values Transmit
begin

text \<open>
  What the parser of \<open>lircd.conf\<close> does with one remote: the definitions of its parameters
  (\<open>defineRemote\<close>), the checks at its end, the normalisation of old formats and the signal lengths,
  which it finds by simulating every code with the transmitter; and the sorting of the remotes.

  A NULL name or driver is the empty string, as tokens are never empty. \<open>None\<close> stands for an
  execution that follows a NULL pointer.
\<close>

section \<open>Parameters\<close>

text \<open>
  Each branch stores one or two numbers and returns how many arguments it has taken; the last
  component says whether \<open>parse_error\<close> is set.
\<close>

definition define1 :: "('v \<Rightarrow> ir_remote) \<Rightarrow> 'v \<times> bool \<Rightarrow> ir_remote \<times> int \<times> bool" where
  "define1 upd v = (upd (fst v), 1, snd v)"

definition define2 :: "(lirc_t \<Rightarrow> lirc_t \<Rightarrow> ir_remote) \<Rightarrow> string \<Rightarrow> string \<Rightarrow> ir_remote \<times> int \<times> bool" where
  "define2 upd val val2 =
     (upd (fst (s_strtolirc_t val)) (fst (s_strtolirc_t val2)), 2, snd (s_strtolirc_t val) \<or> snd (s_strtolirc_t val2))"

definition defineGap :: "string \<Rightarrow> string option \<Rightarrow> ir_remote \<Rightarrow> ir_remote \<times> int \<times> bool" where
  "defineGap val val2 rem = (case val2 of
     None \<Rightarrow> (rem\<lparr>r_gap := fst (s_strtou32 val)\<rparr>, 1, snd (s_strtou32 val))
   | Some v2 \<Rightarrow> (rem\<lparr>r_gap2 := fst (s_strtou32 v2), r_gap := fst (s_strtou32 val)\<rparr>, 2,
       snd (s_strtou32 v2) \<or> snd (s_strtou32 val)))"

definition c_toupper :: "char \<Rightarrow> char" where
  "c_toupper c = (if 97 \<le> char_code c \<and> char_code c \<le> 122 then char_of (char_code c - 32) else c)"

text \<open>\<open>8N1\<close>: the bits of a byte, the parity and the stop bits, counted in halves.\<close>

definition defineSerialMode :: "string \<Rightarrow> ir_remote \<Rightarrow> ir_remote \<times> int \<times> bool" where
  "defineSerialMode val rem =
     (if val = [] \<or> char_code (val ! 0) < 53 \<or> 57 < char_code (val ! 0) then (rem, 0, True)
      else
        let rem = rem\<lparr>r_bits_in_byte := int (char_code (val ! 0)) - 48\<rparr>;
            parity = (if length val < 2 then None
                      else if c_toupper (val ! 1) = CHR ''N'' then Some IR_PARITY_NONE
                      else if c_toupper (val ! 1) = CHR ''E'' then Some IR_PARITY_EVEN
                      else if c_toupper (val ! 1) = CHR ''O'' then Some IR_PARITY_ODD
                      else None)
        in case parity of
             None \<Rightarrow> (rem, 0, True)
           | Some p \<Rightarrow>
               let rem = rem\<lparr>r_parity := p\<rparr>
               in if drop 2 val = ''1.5'' then (rem\<lparr>r_stop_bits := 3\<rparr>, 1, False)
                  else define1 (\<lambda>x. rem\<lparr>r_stop_bits := u32 (x * 2)\<rparr>) (s_strtoui (drop 2 val)))"

text \<open>The parameters with two arguments.\<close>

definition definePair :: "string \<Rightarrow> string \<Rightarrow> string option \<Rightarrow> ir_remote \<Rightarrow> ir_remote \<times> int \<times> bool" where
  "definePair key val val2 rem = (case val2 of
     None \<Rightarrow> (rem, 0, True)
   | Some v2 \<Rightarrow>
       if strcasecmp_eq ''header'' key then define2 (\<lambda>p s. rem\<lparr>r_phead := p, r_shead := s\<rparr>) val v2
       else if strcasecmp_eq ''three'' key then define2 (\<lambda>p s. rem\<lparr>r_pthree := p, r_sthree := s\<rparr>) val v2
       else if strcasecmp_eq ''two'' key then define2 (\<lambda>p s. rem\<lparr>r_ptwo := p, r_stwo := s\<rparr>) val v2
       else if strcasecmp_eq ''one'' key then define2 (\<lambda>p s. rem\<lparr>r_pone := p, r_sone := s\<rparr>) val v2
       else if strcasecmp_eq ''zero'' key then define2 (\<lambda>p s. rem\<lparr>r_pzero := p, r_szero := s\<rparr>) val v2
       else if strcasecmp_eq ''foot'' key then define2 (\<lambda>p s. rem\<lparr>r_pfoot := p, r_sfoot := s\<rparr>) val v2
       else if strcasecmp_eq ''repeat'' key then define2 (\<lambda>p s. rem\<lparr>r_prepeat := p, r_srepeat := s\<rparr>) val v2
       else if strcasecmp_eq ''pre'' key then define2 (\<lambda>p s. rem\<lparr>r_pre_p := p, r_pre_s := s\<rparr>) val v2
       else if strcasecmp_eq ''post'' key then define2 (\<lambda>p s. rem\<lparr>r_post_p := p, r_post_s := s\<rparr>) val v2
       else (rem, 0, True))"

text \<open>
  With the option \<open>lircd:dynamic-codes\<close> the chain ends after \<open>dyncodes_name\<close>, because its \<open>else\<close>
  belongs to the test of the option.
\<close>

definition defineRemote ::
    "bool \<Rightarrow> string \<Rightarrow> string \<Rightarrow> string option \<Rightarrow> ir_remote \<Rightarrow> ir_remote \<times> int \<times> bool" where
  "defineRemote dynamic_codes key val val2 rem =
    (if strcasecmp_eq ''name'' key then (rem\<lparr>r_name := val\<rparr>, 1, False)
     else if dynamic_codes then
       (if strcasecmp_eq ''dyncodes_name'' key then (rem\<lparr>r_dyncodes_name := val\<rparr>, 1, False) else (rem, 0, True))
     else if strcasecmp_eq ''driver'' key then (rem\<lparr>r_driver := val\<rparr>, 1, False)
     else if strcasecmp_eq ''bits'' key then define1 (\<lambda>x. rem\<lparr>r_bits := x\<rparr>) (s_strtoi val)
     else if strcasecmp_eq ''flags'' key then define1 (\<lambda>x. rem\<lparr>r_flags := r_flags rem OR x\<rparr>) (parseFlags val)
     else if strcasecmp_eq ''eps'' key then define1 (\<lambda>x. rem\<lparr>r_eps := x\<rparr>) (s_strtoi val)
     else if strcasecmp_eq ''aeps'' key then define1 (\<lambda>x. rem\<lparr>r_aeps := u32 x\<rparr>) (s_strtoi val)
     else if strcasecmp_eq ''plead'' key then define1 (\<lambda>x. rem\<lparr>r_plead := x\<rparr>) (s_strtolirc_t val)
     else if strcasecmp_eq ''ptrail'' key then define1 (\<lambda>x. rem\<lparr>r_ptrail := x\<rparr>) (s_strtolirc_t val)
     else if strcasecmp_eq ''pre_data_bits'' key then define1 (\<lambda>x. rem\<lparr>r_pre_data_bits := x\<rparr>) (s_strtoi val)
     else if strcasecmp_eq ''pre_data'' key then define1 (\<lambda>x. rem\<lparr>r_pre_data := x\<rparr>) (s_strtocode val)
     else if strcasecmp_eq ''post_data_bits'' key then define1 (\<lambda>x. rem\<lparr>r_post_data_bits := x\<rparr>) (s_strtoi val)
     else if strcasecmp_eq ''post_data'' key then define1 (\<lambda>x. rem\<lparr>r_post_data := x\<rparr>) (s_strtocode val)
     else if strcasecmp_eq ''gap'' key then defineGap val val2 rem
     else if strcasecmp_eq ''repeat_gap'' key then define1 (\<lambda>x. rem\<lparr>r_repeat_gap := x\<rparr>) (s_strtou32 val)
     else if strcasecmp_eq ''repeat_mask'' key then define1 (\<lambda>x. rem\<lparr>r_repeat_mask := x\<rparr>) (s_strtocode val)
     else if strcasecmp_eq ''toggle_bit'' key then define1 (\<lambda>x. rem\<lparr>r_toggle_bit := x\<rparr>) (s_strtoi val)
     else if strcasecmp_eq ''toggle_bit_mask'' key then define1 (\<lambda>x. rem\<lparr>r_toggle_bit_mask := x\<rparr>) (s_strtocode val)
     else if strcasecmp_eq ''toggle_mask'' key then define1 (\<lambda>x. rem\<lparr>r_toggle_mask := x\<rparr>) (s_strtocode val)
     else if strcasecmp_eq ''rc6_mask'' key then define1 (\<lambda>x. rem\<lparr>r_rc6_mask := x\<rparr>) (s_strtocode val)
     else if strcasecmp_eq ''ignore_mask'' key then define1 (\<lambda>x. rem\<lparr>r_ignore_mask := x\<rparr>) (s_strtocode val)
     else if strcasecmp_eq ''manual_sort'' key then define1 (\<lambda>x. rem\<lparr>r_manual_sort := x\<rparr>) (s_strtoi val)
     else if strcasecmp_eq ''repeat_bit'' key then define1 (\<lambda>x. rem\<lparr>r_toggle_bit := x\<rparr>) (s_strtoi val)
     else if strcasecmp_eq ''suppress_repeat'' key then define1 (\<lambda>x. rem\<lparr>r_suppress_repeat := x\<rparr>) (s_strtoi val)
     else if strcasecmp_eq ''min_repeat'' key then define1 (\<lambda>x. rem\<lparr>r_min_repeat := x\<rparr>) (s_strtoi val)
     else if strcasecmp_eq ''min_code_repeat'' key then define1 (\<lambda>x. rem\<lparr>r_min_code_repeat := u32 x\<rparr>) (s_strtoi val)
     else if strcasecmp_eq ''frequency'' key then define1 (\<lambda>x. rem\<lparr>r_freq := x\<rparr>) (s_strtoui val)
     else if strcasecmp_eq ''duty_cycle'' key then define1 (\<lambda>x. rem\<lparr>r_duty_cycle := x\<rparr>) (s_strtoui val)
     else if strcasecmp_eq ''baud'' key then define1 (\<lambda>x. rem\<lparr>r_baud := x\<rparr>) (s_strtoui val)
     else if strcasecmp_eq ''serial_mode'' key then defineSerialMode val rem
     else definePair key val val2 rem)"

section \<open>The end of a remote\<close>

definition mask_code :: "int \<Rightarrow> ir_ncode \<Rightarrow> ir_ncode" where
  "mask_code bits c = c\<lparr>nc_code := nc_code c AND gen_mask bits, nc_next := map (\<lambda>n. n AND gen_mask bits) (nc_next c)\<rparr>"

text \<open>A remote that is not raw must have its codes here: the loop over them does not test for NULL.\<close>

definition sanityChecks :: "ir_remote \<Rightarrow> (bool \<times> ir_remote) option" where
  "sanityChecks rem =
     (if r_name rem = [] then Some (False, rem)
      else if is_raw rem then Some (True, rem)
      else case r_codes rem of
        None \<Rightarrow> None
      | Some codes \<Rightarrow> Some (True, rem\<lparr>
            r_pre_data := r_pre_data rem AND gen_mask (r_pre_data_bits rem),
            r_post_data := r_post_data rem AND gen_mask (r_post_data_bits rem),
            r_codes := Some (map (mask_code (r_bits rem)) codes)\<rparr>))"

section \<open>Signal lengths\<close>

text \<open>What the loop over the simulated signals collects.\<close>

record lengths =
  sl_buf :: sbuf
  sl_min :: lirc_t
  sl_max :: lirc_t
  sl_max_pulse :: lirc_t
  sl_max_space :: lirc_t
  sl_first :: bool

definition max_of :: "lirc_t list \<Rightarrow> lirc_t \<Rightarrow> lirc_t" where
  "max_of xs m = fold (\<lambda>x m. if x > m then x else m) xs m"

definition evens :: "'a list \<Rightarrow> 'a list" where
  "evens xs = map snd (filter (\<lambda>(i, x). even i) (zip [0..<length xs] xs))"

definition odds :: "'a list \<Rightarrow> 'a list" where
  "odds xs = map snd (filter (\<lambda>(i, x). odd i) (zip [0..<length xs] xs))"

definition simulate_code :: "ir_remote \<Rightarrow> ir_ncode \<Rightarrow> lengths \<Rightarrow> bool \<Rightarrow> lengths option" where
  "simulate_code remote code sl repeat =
     (case init_sim repeat \<lparr>ss_buf = sl_buf sl, ss_remote = remote, ss_code = code\<rparr> of
        None \<Rightarrow> None
      | Some (ok, st) \<Rightarrow>
          let sl = sl\<lparr>sl_buf := ss_buf st\<rparr> in
          if \<not> ok then Some sl
          else
            let sm = send_buffer_sum (ss_buf st);
                ds = take (nat (send_buffer_length (ss_buf st))) (send_buffer_data (ss_buf st));
                sl = (if sm \<noteq> 0
                      then sl\<lparr>sl_min := (if sl_first sl \<or> sm < sl_min sl then sm else sl_min sl),
                              sl_max := (if sl_first sl \<or> sm > sl_max sl then sm else sl_max sl),
                              sl_first := False\<rparr>
                      else sl)
            in Some (sl\<lparr>sl_max_pulse := max_of (evens ds) (sl_max_pulse sl),
                        sl_max_space := max_of (odds ds) (sl_max_space sl)\<rparr>))"

text \<open>All the codes of all buttons, each as a first signal and as a repetition.\<close>

definition sim_jobs :: "ir_ncode list \<Rightarrow> (ir_ncode \<times> bool) list" where
  "sim_jobs codes = concat (map (\<lambda>c. concat (map (\<lambda>v. [(c\<lparr>nc_code := v\<rparr>, False), (c\<lparr>nc_code := v\<rparr>, True)])
     (nc_code c # nc_next c))) codes)"

primrec simulate_all :: "ir_remote \<Rightarrow> (ir_ncode \<times> bool) list \<Rightarrow> lengths \<Rightarrow> lengths option" where
  "simulate_all remote [] sl = Some sl"
| "simulate_all remote (j # js) sl = (case simulate_code remote (fst j) sl (snd j) of
     None \<Rightarrow> None | Some sl \<Rightarrow> simulate_all remote js sl)"

definition lengths_init :: "sbuf \<Rightarrow> lengths" where
  "lengths_init sb = \<lparr>sl_buf = sb, sl_min = 0, sl_max = 0, sl_max_pulse = 0, sl_max_space = 0, sl_first = True\<rparr>"

text \<open>The fields that are set at the end, from the shortest and the longest signal.\<close>

definition store_lengths :: "ir_remote \<Rightarrow> lengths \<Rightarrow> ir_remote" where
  "store_lengths remote sl =
     (if sl_first sl then
        remote\<lparr>r_min_total_signal_length := min_gap remote, r_max_total_signal_length := max_gap remote,
               r_min_gap_length := min_gap remote, r_max_gap_length := max_gap remote\<rparr>
      else if is_const remote then
        remote\<lparr>r_min_gap_length := (if r_min_total_signal_length remote > sl_max sl
                 then r_min_total_signal_length remote - sl_max sl else 0),
               r_max_gap_length := (if r_max_total_signal_length remote > sl_min sl
                 then r_max_total_signal_length remote - sl_min sl else 0)\<rparr>
      else
        remote\<lparr>r_min_total_signal_length := sl_min sl + r_min_gap_length remote,
               r_max_total_signal_length := sl_max sl + r_max_gap_length remote\<rparr>)"

text \<open>The fields that are set before the simulation.\<close>

definition calc_start :: "ir_remote \<Rightarrow> ir_remote" where
  "calc_start remote =
     (if is_const remote
      then remote\<lparr>r_min_total_signal_length := min_gap remote, r_max_total_signal_length := max_gap remote\<rparr>
      else remote\<lparr>r_min_gap_length := min_gap remote, r_max_gap_length := max_gap remote\<rparr>)"

definition calculate_signal_lengths :: "sbuf \<Rightarrow> ir_remote \<Rightarrow> (sbuf \<times> ir_remote) option" where
  "calculate_signal_lengths sb remote =
     (let remote = calc_start remote
      in case r_codes remote of
           None \<Rightarrow> None
         | Some codes \<Rightarrow> (case simulate_all remote (sim_jobs codes) (lengths_init sb) of
             None \<Rightarrow> None
           | Some sl \<Rightarrow> Some (sl_buf sl, store_lengths remote sl)))"

section \<open>Old formats\<close>

text \<open>
  The bits of a remote with the flag REVERSE are turned around once and for all; the further codes
  of a button are not.
\<close>

definition kick_reverse :: "ir_remote \<Rightarrow> ir_remote option" where
  "kick_reverse rem =
     (if \<not> is_raw rem \<and> has_flag rem REVERSE then
        (case r_codes rem of
           None \<Rightarrow> None
         | Some codes \<Rightarrow> Some (rem\<lparr>
             r_pre_data := (if has_pre rem then reverse (r_pre_data rem) (r_pre_data_bits rem) else r_pre_data rem),
             r_post_data := (if has_post rem then reverse (r_post_data rem) (r_post_data_bits rem) else r_post_data rem),
             r_codes := Some (map (\<lambda>c. c\<lparr>nc_code := reverse (nc_code c) (r_bits rem)\<rparr>) codes),
             r_flags := (r_flags rem AND NOT REVERSE) OR COMPAT_REVERSE\<rparr>))
      else Some rem)"

text \<open>The mask of the toggle bit, which is counted from the left of the whole code.\<close>

definition toggle_bit_value :: "ir_remote \<Rightarrow> ir_code" where
  "toggle_bit_value rem = push_bit (nat (bit_count rem - r_toggle_bit rem)) 1"

definition kick_toggle :: "ir_remote \<Rightarrow> ir_remote" where
  "kick_toggle rem =
     (let rem = (if has_flag rem RC6 \<and> r_rc6_mask rem = 0 \<and> r_toggle_bit rem > 0
                 then rem\<lparr>r_rc6_mask := toggle_bit_value rem\<rparr> else rem);
          rem = (if r_toggle_bit rem > 0
                 then rem\<lparr>r_toggle_bit_mask := (if has_toggle_bit_mask rem then r_toggle_bit_mask rem
                            else toggle_bit_value rem), r_toggle_bit := 0\<rparr>
                 else rem)
      in if has_toggle_bit_mask rem \<and> \<not> is_raw rem \<and> r_codes rem \<noteq> None
         then (let state = (nc_code (hd (codes_of rem @ [zero_ncode])) AND r_toggle_bit_mask rem)
               in rem\<lparr>r_toggle_bit_mask_state := (if state \<noteq> 0 then state XOR r_toggle_bit_mask rem else state)\<rparr>)
         else rem)"

definition kick_serial :: "ir_remote \<Rightarrow> ir_remote" where
  "kick_serial rem =
     (if is_serial rem then
        let base = 1000000 div r_baud rem;
            rem = (if r_baud rem > 0
                   then let rem = (if r_pzero rem = 0 \<and> r_szero rem = 0 then rem\<lparr>r_pzero := base\<rparr> else rem)
                        in if r_pone rem = 0 \<and> r_sone rem = 0 then rem\<lparr>r_sone := base\<rparr> else rem
                   else rem)
        in if r_bits_in_byte rem = 0 then rem\<lparr>r_bits_in_byte := 8\<rparr> else rem
      else rem)"

definition kick_repeat :: "ir_remote \<Rightarrow> ir_remote" where
  "kick_repeat rem =
     (if r_min_code_repeat rem > 0 \<and> (\<not> has_repeat rem \<or> r_min_code_repeat rem > u32 (r_min_repeat rem))
      then rem\<lparr>r_min_code_repeat := 0\<rparr> else rem)"

definition finish_remote :: "sbuf \<Rightarrow> ir_remote \<Rightarrow> (sbuf \<times> ir_remote) option" where
  "finish_remote sb rem = (case kick_reverse rem of
     None \<Rightarrow> None
   | Some rem \<Rightarrow> calculate_signal_lengths sb (kick_repeat (kick_serial (kick_toggle rem))))"

section \<open>Sorting\<close>

definition remote_bits_cmp :: "ir_remote \<Rightarrow> ir_remote \<Rightarrow> int" where
  "remote_bits_cmp r1 r2 =
     (if \<not> is_raw r1 \<and> is_raw r2 then - 1
      else if is_raw r1 \<and> \<not> is_raw r2 then 1
      else
        let r1_size = (if is_raw r1 then int (length (codes_of r1)) else bit_count r1);
            r2_size = (if is_raw r1 then int (length (codes_of r2)) else bit_count r2)
        in if r1_size = r2_size then 0 else if r1_size < r2_size then - 1 else 1)"

text \<open>The new remote goes behind all that are not slower.\<close>

primrec insert_remote :: "ir_remote \<Rightarrow> ir_remote list \<Rightarrow> ir_remote list" where
  "insert_remote rem [] = [rem]"
| "insert_remote rem (scan # rest) =
     (if remote_bits_cmp scan rem \<le> 0 then scan # insert_remote rem rest else rem # scan # rest)"

definition sort_by_bit_count :: "ir_remote list \<Rightarrow> ir_remote list" where
  "sort_by_bit_count remotes =
     (if \<exists>r\<in>set remotes. r_manual_sort r \<noteq> 0 then remotes
      else foldl (\<lambda>sorted rem. insert_remote rem sorted) [] remotes)"

end
