(* ===== verification/Config_Parse.thy ===== *)
theory Config_Parse
  imports Config_Remote
begin

text \<open>
  The reader of \<open>lircd.conf\<close>: \<open>read_config_recursive\<close> with its modes, the lines of each mode, and
  the inclusion of other files. The files, the matches of a \<open>glob\<close> pattern and the option
  \<open>lircd:dynamic-codes\<close> are the environment of the model.

  The linked list of remotes is a list of addresses, into the list of all remotes allocated so
  far; \<open>top_rem\<close> NULL is the empty list. The counter \<open>line\<close>, which only messages use, is left out. \<open>None\<close> stands for an execution that does not return: it
  follows a NULL pointer, or \<open>array_guest_code_equals\<close> loops.
\<close>

section \<open>State\<close>

datatype directive = ID_none | ID_remote | ID_codes | ID_raw_codes | ID_raw_name

record config_env =
  ce_files :: "string \<Rightarrow> string option"
  ce_glob :: "string \<Rightarrow> string list"
  ce_dynamic_codes :: bool

record parse_state =
  ps_err :: bool
  ps_mode :: directive
  ps_store :: "ir_remote list"
  ps_top :: "nat list"
  ps_rem :: "nat option"
  ps_codes :: "ir_ncode void_array"
  ps_raw_codes :: "ir_ncode void_array"
  ps_signals :: "lirc_t void_array"
  ps_raw_code :: ir_ncode
  ps_sbuf :: sbuf

definition LINE_LEN :: nat where "LINE_LEN = 1024"
definition MAX_INCLUDES :: nat where "MAX_INCLUDES = 10"
definition DEFAULT_FREQ :: int where "DEFAULT_FREQ = 38000"

definition fail :: "parse_state \<Rightarrow> parse_state" where
  "fail st = st\<lparr>ps_err := True\<rparr>"

text \<open>\<open>checkMode\<close>: the error of a section that does not belong here.\<close>

definition checkMode :: "directive \<Rightarrow> parse_state \<Rightarrow> bool" where
  "checkMode c_mode st \<longleftrightarrow> ps_mode st = c_mode"

text \<open>Access to the remote being defined; None when the pointer is NULL.\<close>

definition the_rem :: "parse_state \<Rightarrow> ir_remote option" where
  "the_rem st = map_option (\<lambda>i. ps_store st ! i) (ps_rem st)"

definition set_rem :: "ir_remote \<Rightarrow> parse_state \<Rightarrow> parse_state" where
  "set_rem r st = (case ps_rem st of
     None \<Rightarrow> st | Some i \<Rightarrow> st\<lparr>ps_store := (ps_store st)[i := r]\<rparr>)"

section \<open>Sections\<close>

definition begin_codes :: "parse_state \<Rightarrow> parse_state option" where
  "begin_codes st =
     (if \<not> checkMode ID_remote st then Some (fail st)
      else case the_rem st of
        None \<Rightarrow> None
      | Some rem \<Rightarrow>
          if r_codes rem \<noteq> None then Some (fail st)
          else Some (st\<lparr>ps_codes := init_void_array zero_ncode 30, ps_mode := ID_codes\<rparr>))"

definition begin_raw_codes :: "parse_state \<Rightarrow> parse_state option" where
  "begin_raw_codes st =
     (if \<not> checkMode ID_remote st then Some (fail st)
      else case the_rem st of
        None \<Rightarrow> None
      | Some rem \<Rightarrow>
          if r_codes rem \<noteq> None then Some (fail st)
          else Some ((set_rem (set_protocol rem RAW_CODES) st)
                 \<lparr>ps_raw_code := (ps_raw_code st)\<lparr>nc_code := 0\<rparr>,
                  ps_raw_codes := init_void_array zero_ncode 30, ps_mode := ID_raw_codes\<rparr>))"

definition begin_remote :: "parse_state \<Rightarrow> parse_state option" where
  "begin_remote st =
     (if \<not> checkMode ID_none st then Some (fail st)
      else let i = length (ps_store st)
           in Some (st\<lparr>ps_mode := ID_remote, ps_store := ps_store st @ [(zero_remote [])\<lparr>r_freq := DEFAULT_FREQ\<rparr>],
                       ps_rem := Some i, ps_top := ps_top st @ [i]\<rparr>))"

text \<open>A button of the section \<open>codes\<close>: its name, its code and the further codes of the line.\<close>

definition code_line :: "bool \<Rightarrow> string \<Rightarrow> string \<Rightarrow> string option \<Rightarrow> string \<Rightarrow> parse_state \<Rightarrow> parse_state option" where
  "code_line check key val val2 rest st =
     (case defineCode key val of (code, err) \<Rightarrow>
      case define_nodes code (ps_err st \<or> err) val2 rest of (code, err) \<Rightarrow>
        let code = code\<lparr>nc_current := None\<rparr>;
            st' = st\<lparr>ps_err := err, ps_codes := add_void_array zero_ncode (ps_codes st) code\<rparr>
        in if check then map_option (\<lambda>_. st') (check_ncode_dups (ps_codes st) code) else Some st')"

text \<open>The raw code that is complete goes into the array; its length must be odd.\<close>

definition close_raw_code :: "parse_state \<Rightarrow> parse_state" where
  "close_raw_code st =
     (let raw_code = (ps_raw_code st)\<lparr>nc_signals := Some (get_void_array (ps_signals st)),
            nc_length := int (va_nr_items (ps_signals st))\<rparr>
      in st\<lparr>ps_raw_code := raw_code, ps_err := ps_err st \<or> nc_length raw_code mod 2 = 0,
            ps_raw_codes := add_void_array zero_ncode (ps_raw_codes st) raw_code\<rparr>)"

definition end_codes :: "parse_state \<Rightarrow> parse_state option" where
  "end_codes st =
     (if \<not> checkMode ID_codes st then Some (fail st)
      else case the_rem st of
        None \<Rightarrow> None
      | Some rem \<Rightarrow> Some ((set_rem (rem\<lparr>r_codes := Some (get_void_array (ps_codes st))\<rparr>) st)\<lparr>ps_mode := ID_remote\<rparr>))"

definition end_raw_codes :: "parse_state \<Rightarrow> parse_state option" where
  "end_raw_codes st =
     (let st = (if ps_mode st = ID_raw_name then (close_raw_code st)\<lparr>ps_mode := ID_raw_codes\<rparr> else st)
      in if \<not> checkMode ID_raw_codes st then Some (fail st)
         else case the_rem st of
           None \<Rightarrow> None
         | Some rem \<Rightarrow>
             Some ((set_rem (rem\<lparr>r_codes := Some (get_void_array (ps_raw_codes st))\<rparr>) st)\<lparr>ps_mode := ID_remote\<rparr>))"

text \<open>\<open>rem->next = NULL\<close> cuts off what was linked behind the remote meanwhile.\<close>

definition cut_after :: "nat \<Rightarrow> nat list \<Rightarrow> nat list" where
  "cut_after i xs = (if i \<in> set xs then takeWhile (\<lambda>x. x \<noteq> i) xs @ [i] else xs)"

definition end_remote :: "bool \<Rightarrow> parse_state \<Rightarrow> parse_state option" where
  "end_remote dynamic_codes st =
     (if \<not> checkMode ID_remote st then Some (fail st)
      else case ps_rem st of
        None \<Rightarrow> None
      | Some i \<Rightarrow>
          case sanityChecks (ps_store st ! i) of
            None \<Rightarrow> None
          | Some (ok, rem) \<Rightarrow>
              if \<not> ok then Some (fail (set_rem rem st))
              else
                let rem = (if dynamic_codes
                           then (let nm = (if r_dyncodes_name rem = [] then ''unknown'' else r_dyncodes_name rem)
                                 in rem\<lparr>r_dyncodes_name := nm, r_dyncodes := map (\<lambda>c. c\<lparr>nc_name := nm\<rparr>) (r_dyncodes rem)\<rparr>)
                           else rem);
                    rem = rem\<lparr>r_last_code := None\<rparr>
                in Some ((set_rem rem st)\<lparr>ps_top := cut_after i (ps_top st), ps_mode := ID_none\<rparr>))"

section \<open>Lines\<close>

text \<open>All the numbers of a line of raw signals, up to the first that is none.\<close>

function add_signals :: "lirc_t void_array \<Rightarrow> string \<Rightarrow> lirc_t void_array \<times> bool" where
  "add_signals signals rest = (case strtok whitespace rest of
     None \<Rightarrow> (signals, False)
   | Some (val, rest') \<Rightarrow>
       (case addSignal signals val of (signals, err) \<Rightarrow>
          if err then (signals, True) else add_signals signals rest'))"
  by pat_completeness auto

termination add_signals
  by (relation "measure (\<lambda>(signals, rest). length rest)") (auto dest: strtok_nonempty)

declare add_signals.simps [simp del]

definition signal_line :: "string \<Rightarrow> string \<Rightarrow> string option \<Rightarrow> string \<Rightarrow> lirc_t void_array \<Rightarrow> lirc_t void_array \<times> bool" where
  "signal_line key val val2 rest signals =
     (case addSignal signals key of (signals, err) \<Rightarrow>
      if err then (signals, True)
      else case addSignal signals val of (signals, err) \<Rightarrow>
      if err then (signals, True)
      else case val2 of
        None \<Rightarrow> add_signals signals rest
      | Some v2 \<Rightarrow> (case addSignal signals v2 of (signals, err) \<Rightarrow>
          if err then (signals, True) else add_signals signals rest))"

text \<open>A line inside \<open>raw_codes\<close>: the name of the next button, or signals.\<close>

definition raw_line :: "string \<Rightarrow> string \<Rightarrow> string option \<Rightarrow> string \<Rightarrow> parse_state \<Rightarrow> parse_state" where
  "raw_line key val val2 rest st =
     (if strcasecmp_eq ''name'' key then
        let st = (if ps_mode st = ID_raw_name then close_raw_code st else st);
            raw_code = ps_raw_code st
        in st\<lparr>ps_raw_code := raw_code\<lparr>nc_name := val, nc_code := nc_code raw_code + 1\<rparr>,
              ps_signals := init_void_array 0 50, ps_mode := ID_raw_name\<rparr>
      else if ps_mode st = ID_raw_codes then fail st
      else case signal_line key val val2 rest (ps_signals st) of (signals, err) \<Rightarrow>
        st\<lparr>ps_signals := signals, ps_err := ps_err st \<or> err\<rparr>)"

definition remote_line :: "bool \<Rightarrow> string \<Rightarrow> string \<Rightarrow> string option \<Rightarrow> parse_state \<Rightarrow> parse_state option" where
  "remote_line dynamic_codes key val val2 st = (case the_rem st of
     None \<Rightarrow> None
   | Some rem \<Rightarrow> (case defineRemote dynamic_codes key val val2 rem of (rem, argc, err) \<Rightarrow>
       Some ((set_rem rem st)\<lparr>ps_err := ps_err st \<or> err\<rparr>)))"

definition mode_line :: "bool \<Rightarrow> string \<Rightarrow> string \<Rightarrow> string option \<Rightarrow> string \<Rightarrow> parse_state \<Rightarrow> parse_state option" where
  "mode_line dynamic_codes key val val2 rest st = (case ps_mode st of
     ID_none \<Rightarrow> Some st
   | ID_remote \<Rightarrow> remote_line dynamic_codes key val val2 st
   | ID_codes \<Rightarrow> code_line True key val val2 rest st
   | _ \<Rightarrow> Some (raw_line key val val2 rest st))"

definition begin_line :: "string \<Rightarrow> string \<Rightarrow> string option \<Rightarrow> string \<Rightarrow> parse_state \<Rightarrow> parse_state option" where
  "begin_line key val val2 rest st =
     (if strcasecmp_eq ''codes'' val then begin_codes st
      else if strcasecmp_eq ''raw_codes'' val then begin_raw_codes st
      else if strcasecmp_eq ''remote'' val then begin_remote st
      else if ps_mode st = ID_codes then code_line True key val val2 rest st
      else Some (fail st))"

definition end_line :: "bool \<Rightarrow> string \<Rightarrow> string \<Rightarrow> string option \<Rightarrow> string \<Rightarrow> parse_state \<Rightarrow> parse_state option" where
  "end_line dynamic_codes key val val2 rest st =
     (if strcasecmp_eq ''codes'' val then end_codes st
      else if strcasecmp_eq ''raw_codes'' val then end_raw_codes st
      else if strcasecmp_eq ''remote'' val then end_remote dynamic_codes st
      else if ps_mode st = ID_codes then code_line False key val val2 rest st
      else Some (fail st))"

section \<open>Included files\<close>

definition lirc_parse_include :: "string \<Rightarrow> string option" where
  "lirc_parse_include s =
     (let t = rev (dropWhile (\<lambda>c. c \<in> set whitespace) (rev s))
      in if length s < 2 \<or> length t \<le> 1 then None
         else if hd t \<noteq> CHR 0x22 \<and> hd t \<noteq> CHR ''<'' then None
         else if hd t = CHR 0x22 \<and> last t \<noteq> CHR 0x22 then None
         else if hd t = CHR ''<'' \<and> last t \<noteq> CHR ''>'' then None
         else Some (butlast (tl t)))"

text \<open>\<open>dirname\<close>: the path without its last component.\<close>

definition strip_slashes :: "string \<Rightarrow> string" where
  "strip_slashes s = rev (dropWhile (\<lambda>c. c = CHR ''/'') (rev s))"

definition dirname :: "string \<Rightarrow> string" where
  "dirname p =
     (let t = strip_slashes p; d = rev (dropWhile (\<lambda>c. c \<noteq> CHR ''/'') (rev t))
      in if p = [] then ''.''
         else if t = [] then ''/''
         else if d = [] then ''.''
         else if strip_slashes d = [] then ''/'' else strip_slashes d)"

text \<open>
  What \<open>lirc_parse_relative\<close> leaves in the buffer \<open>dst\<close>, which is empty before, and what it returns.
\<close>

definition lirc_parse_relative :: "nat \<Rightarrow> string \<Rightarrow> string option \<Rightarrow> string option \<times> string" where
  "lirc_parse_relative dst_size child current = (case current of
     None \<Rightarrow> (Some child, [])
   | Some current \<Rightarrow>
       if child \<noteq> [] \<and> hd child = CHR ''/'' then (Some child, [])
       else if length current \<ge> dst_size then (None, [])
       else let dir = dirname current
            in if length dir + 1 + length child + 1 > dst_size then (None, dir)
               else (Some (dir @ ''/'' @ child), dir @ ''/'' @ child))"

text \<open>
  A parser of whole files, as \<open>read_included\<close> calls it: from the text and the name of a file, the
  remotes allocated and the transmitter's buffer to the remotes, the buffer, the value of
  \<open>parse_error\<close> and the list, which is None for a failure.
\<close>

type_synonym file_parser =
  "string \<Rightarrow> string \<Rightarrow> ir_remote list \<Rightarrow> sbuf \<Rightarrow> (ir_remote list \<times> sbuf \<times> bool \<times> nat list option) option"

definition ir_remotes_append :: "nat list \<Rightarrow> nat list option \<Rightarrow> nat list" where
  "ir_remotes_append root what = (case what of None \<Rightarrow> root | Some xs \<Rightarrow> root @ xs)"

definition read_included :: "config_env \<Rightarrow> file_parser \<Rightarrow> nat \<Rightarrow> string \<Rightarrow> parse_state \<Rightarrow> parse_state option" where
  "read_included env child depth val st =
     (if depth > MAX_INCLUDES then Some st
      else case lirc_parse_include val of
        None \<Rightarrow> Some st
      | Some childName \<Rightarrow>
          (case ce_files env childName of
             None \<Rightarrow> Some (st\<lparr>ps_top := []\<rparr>)
           | Some content \<Rightarrow>
               (case child content childName (ps_store st) (ps_sbuf st) of
                  None \<Rightarrow> None
                | Some (store, sb, err, rems) \<Rightarrow>
                    Some (st\<lparr>ps_store := store, ps_sbuf := sb, ps_err := err,
                             ps_top := ir_remotes_append (ps_top st) rems\<rparr>))))"

primrec read_each :: "config_env \<Rightarrow> file_parser \<Rightarrow> nat \<Rightarrow> string list \<Rightarrow> parse_state \<Rightarrow> parse_state option" where
  "read_each env child depth [] st = Some st"
| "read_each env child depth (p # ps) st =
     (case read_included env child depth (take 255 ([CHR 0x22] @ p @ [CHR 0x22])) st of
        None \<Rightarrow> None | Some st \<Rightarrow> read_each env child depth ps st)"

text \<open>The quotes are cut off without a look; the pattern is what is in the buffer.\<close>

definition read_all_included ::
    "config_env \<Rightarrow> file_parser \<Rightarrow> nat \<Rightarrow> string option \<Rightarrow> string \<Rightarrow> parse_state \<Rightarrow> parse_state option" where
  "read_all_included env child depth name val st =
     (case lirc_parse_relative 256 (butlast (tl val)) name of (_, buff) \<Rightarrow>
        read_each env child depth (ce_glob env buff) st)"

section \<open>A file\<close>

text \<open>The end of the line and the carriage return before it are cut off.\<close>

definition chop :: "string \<Rightarrow> string" where
  "chop buf =
     (let buf1 = (if buf \<noteq> [] \<and> last buf = newline then butlast buf else buf);
          len = length buf - 1
      in if 0 < len \<and> buf ! (len - 1) = carriage_return then take (len - 1) buf1 else buf1)"

definition parse_tokens ::
    "config_env \<Rightarrow> file_parser \<Rightarrow> nat \<Rightarrow> string option \<Rightarrow> string \<Rightarrow> string \<Rightarrow> parse_state \<Rightarrow> parse_state option" where
  "parse_tokens env child depth name key rest st =
     (case strtok whitespace rest of
        None \<Rightarrow>
          if ps_mode st = ID_raw_name
          then (case addSignal (ps_signals st) key of (signals, err) \<Rightarrow>
                  Some (st\<lparr>ps_signals := signals, ps_err := ps_err st \<or> err\<rparr>))
          else Some (fail st)
      | Some (val, rest) \<Rightarrow>
          (case (case strtok whitespace rest of None \<Rightarrow> (None, rest) | Some (v2, r) \<Rightarrow> (Some v2, r)) of
             (val2, rest) \<Rightarrow>
               if strcasecmp_eq ''include'' key then read_all_included env child depth name val st
               else if strcasecmp_eq ''begin'' key then begin_line key val val2 rest st
               else if strcasecmp_eq ''end'' key then end_line (ce_dynamic_codes env) key val val2 rest st
               else mode_line (ce_dynamic_codes env) key val val2 rest st))"

definition parse_line ::
    "config_env \<Rightarrow> file_parser \<Rightarrow> nat \<Rightarrow> string option \<Rightarrow> string \<Rightarrow> parse_state \<Rightarrow> parse_state option" where
  "parse_line env child depth name buf st =
     (if length buf = LINE_LEN \<and> last buf \<noteq> newline then Some (fail st)
      else let buf = chop buf in
        if buf \<noteq> [] \<and> hd buf = CHR ''#'' then Some st
        else case strtok whitespace buf of
          None \<Rightarrow> Some st
        | Some (key, rest) \<Rightarrow> parse_tokens env child depth name key rest st)"

function parse_lines ::
    "config_env \<Rightarrow> file_parser \<Rightarrow> nat \<Rightarrow> string option \<Rightarrow> string \<Rightarrow> parse_state \<Rightarrow> parse_state option" where
  "parse_lines env child depth name content st =
     (case fgets LINE_LEN content of
        None \<Rightarrow> Some st
      | Some (buf, rest) \<Rightarrow>
          (case parse_line env child depth name buf st of
             None \<Rightarrow> None
           | Some st \<Rightarrow> if ps_err st then Some st else parse_lines env child depth name rest st))"
  by pat_completeness auto

termination parse_lines
  by (relation "measure (\<lambda>(env, child, depth, name, content, st). length content)")
    (auto simp: LINE_LEN_def dest: fgets_progress [rotated])

declare parse_lines.simps [simp del]

definition start_state :: "ir_remote list \<Rightarrow> sbuf \<Rightarrow> parse_state" where
  "start_state store sb = \<lparr>ps_err = False, ps_mode = ID_none, ps_store = store, ps_top = [],
     ps_rem = None, ps_codes = init_void_array zero_ncode 30, ps_raw_codes = init_void_array zero_ncode 30,
     ps_signals = init_void_array 0 50, ps_raw_code = zero_ncode, ps_sbuf = sb\<rparr>"

text \<open>The last loop of \<open>read_config_recursive\<close>, over the remotes of the list.\<close>

primrec finish_remotes :: "nat list \<Rightarrow> ir_remote list \<Rightarrow> sbuf \<Rightarrow> (ir_remote list \<times> sbuf) option" where
  "finish_remotes [] store sb = Some (store, sb)"
| "finish_remotes (i # is) store sb = (case finish_remote sb (store ! i) of
     None \<Rightarrow> None
   | Some (sb, rem) \<Rightarrow> finish_remotes is (store[i := rem]) sb)"

definition read_file :: "config_env \<Rightarrow> file_parser \<Rightarrow> nat \<Rightarrow> string \<Rightarrow> string option \<Rightarrow> ir_remote list \<Rightarrow> sbuf
    \<Rightarrow> (ir_remote list \<times> sbuf \<times> bool \<times> nat list option) option" where
  "read_file env child depth content name store sb =
     (case parse_lines env child depth name content (start_state store sb) of
        None \<Rightarrow> None
      | Some st \<Rightarrow>
          if ps_err st \<or> ps_mode st \<noteq> ID_none then Some (ps_store st, ps_sbuf st, True, None)
          else case finish_remotes (ps_top st) (ps_store st) (ps_sbuf st) of
            None \<Rightarrow> None
          | Some (store, sb) \<Rightarrow> Some (store, sb, False, Some (ps_top st)))"

text \<open>
  \<open>read_config_recursive\<close> at depth \<open>MAX_INCLUDES + 1 - n\<close>: at the last depth \<open>read_included\<close> opens
  no file any more, so its parser is never called.
\<close>

primrec read_config_recursive :: "config_env \<Rightarrow> nat \<Rightarrow> string \<Rightarrow> string option \<Rightarrow> ir_remote list \<Rightarrow> sbuf
    \<Rightarrow> (ir_remote list \<times> sbuf \<times> bool \<times> nat list option) option" where
  "read_config_recursive env 0 = read_file env (\<lambda>content name store sb. None) (MAX_INCLUDES + 1)"
| "read_config_recursive env (Suc n) =
     read_file env (\<lambda>content name. read_config_recursive env n content (Some name)) (MAX_INCLUDES - n)"

text \<open>
  \<open>read_config\<close>: the sorted remotes. \<open>sort_by_bit_count\<close> makes NULL, the empty list, of the pointer -1
  that stands for a file with errors.
\<close>

definition read_config :: "config_env \<Rightarrow> string \<Rightarrow> string option \<Rightarrow> sbuf \<Rightarrow> (ir_remote list \<times> sbuf) option" where
  "read_config env content name sb =
     (case read_config_recursive env (MAX_INCLUDES + 1) content name [] sb of
        None \<Rightarrow> None
      | Some (store, sb, _, None) \<Rightarrow> Some ([], sb)
      | Some (store, sb, _, Some rems) \<Rightarrow> Some (sort_by_bit_count (map (\<lambda>i. store ! i) rems), sb))"

end
