(* ===== verification/Config_Spec.thy ===== *)
theory Config_Spec
  imports Config_Parse Samples "HOL-Library.Multiset"
begin

text \<open>Properties of the parts of the parser: arrays, comparisons, sorting, signal lengths, options.\<close>

section \<open>Growing arrays\<close>

lemma va_init: "0 < chunk \<Longrightarrow> va_ok zero (init_void_array zero chunk) \<and> get_void_array (init_void_array zero chunk) = []"
  by (simp add: va_ok_def init_void_array_def get_void_array_def)

lemma chunk_bound: "0 < c \<Longrightarrow> n < (n div c + 1) * (c :: nat)"
  by (metis add.commute dividend_less_times_div mult.commute mult_Suc_right plus_1_eq_Suc)

lemma chunk_step:
  "0 < (c :: nat) \<Longrightarrow> n mod c = c - 1 \<Longrightarrow> ((n + 1) div c + 1) * c = n + c + 1"
  "0 < c \<Longrightarrow> n mod c \<noteq> c - 1 \<Longrightarrow> (n + 1) div c = n div c \<and> n + 1 < (n div c + 1) * c"
proof -
  show "((n + 1) div c + 1) * c = n + c + 1" if "0 < c" "n mod c = c - 1"
  proof -
    have "n + 1 = (n div c + 1) * c" using that div_mult_mod_eq [of n c] by (simp add: algebra_simps)
    then have "(n + 1) div c = n div c + 1" "(n + 1) div c * c = n + 1" using that(1) by simp_all
    then show ?thesis by (simp add: algebra_simps)
  qed
  show "(n + 1) div c = n div c \<and> n + 1 < (n div c + 1) * c" if "0 < c" "n mod c \<noteq> c - 1"
  proof -
    have "n mod c + 1 < c" using that mod_less_divisor [of c n] by linarith
    moreover have "n + 1 = n mod c + 1 + n div c * c" using div_mult_mod_eq [of n c] by linarith
    ultimately show ?thesis using that(1) by (metis add.commute add_less_mono1 div_mult_self3 div_less
        less_nat_zero_code mult.commute mult_Suc plus_1_eq_Suc add_0)
  qed
qed

lemma length_realloc [simp]: "length (realloc zero n xs) = n"
  by (auto simp: realloc_def min_def)

lemma take_realloc: "k \<le> n \<Longrightarrow> k \<le> length xs \<Longrightarrow> take k (realloc zero n xs) = take k xs"
  by (simp add: realloc_def min_def)

lemma va_add:
  assumes "va_ok zero ar"
  shows "va_ok zero (add_void_array zero ar x)"
    and "get_void_array (add_void_array zero ar x) = get_void_array ar @ [x]"
    and "va_nr_items ar + 1 < length (va_ptr (add_void_array zero ar x))"
    and "va_chunk_size (add_void_array zero ar x) = va_chunk_size ar"
proof -
  let ?n = "va_nr_items ar" and ?c = "va_chunk_size ar"
  define ptr where "ptr = (if ?n mod ?c = ?c - 1 then realloc zero (?n + ?c + 1) (va_ptr ar) else va_ptr ar)"
  have c: "0 < ?c" and len: "(?n div ?c + 1) * ?c \<le> length (va_ptr ar)" using assms by (simp_all add: va_ok_def)
  have n: "?n < length (va_ptr ar)" using chunk_bound [OF c, of ?n] len by linarith
  have add: "add_void_array zero ar x = ar\<lparr>va_ptr := ptr[?n := x, ?n + 1 := zero], va_nr_items := ?n + 1\<rparr>"
    by (simp add: add_void_array_def Let_def ptr_def)
  have room: "((?n + 1) div ?c + 1) * ?c \<le> length ptr \<and> ?n + 1 < length ptr \<and> take ?n ptr = take ?n (va_ptr ar)"
  proof (cases "?n mod ?c = ?c - 1")
    case True
    then show ?thesis using chunk_step(1) [OF c True] n c by (simp add: take_realloc ptr_def)
  next
    case False
    then show ?thesis using chunk_step(2) [OF c False] len by (simp add: ptr_def)
  qed
  show "va_ok zero (add_void_array zero ar x)" using room c unfolding add va_ok_def by simp
  show "get_void_array (add_void_array zero ar x) = get_void_array ar @ [x]"
    using room n unfolding add get_void_array_def by (simp add: take_Suc_conv_app_nth)
  show "?n + 1 < length (va_ptr (add_void_array zero ar x))" using room unfolding add by simp
  show "va_chunk_size (add_void_array zero ar x) = ?c" unfolding add by simp
qed

text \<open>
  The growing arrays of the parser are safe: however many elements are added to a new array,
  \<open>get_void_array\<close> returns them in order, the element behind them is zero - the end mark the
  loops over codes look for -, and both writes of the next \<open>add_void_array\<close> stay inside the memory
  it has allocated.
\<close>

theorem void_array_holds_items:
  assumes "0 < chunk"
  shows "let ar = foldl (add_void_array zero) (init_void_array zero chunk) xs
    in get_void_array ar = xs \<and> va_ptr ar ! va_nr_items ar = zero
     \<and> va_nr_items ar + 1 < length (va_ptr (add_void_array zero ar x))"
proof -
  have "va_ok zero (foldl (add_void_array zero) (init_void_array zero chunk) xs)
      \<and> get_void_array (foldl (add_void_array zero) (init_void_array zero chunk) xs) = xs"
    by (induction xs rule: rev_induct) (simp_all add: va_init assms va_add)
  then show ?thesis using va_add(3) [of zero "foldl (add_void_array zero) (init_void_array zero chunk) xs" x]
    unfolding Let_def va_ok_def by blast
qed

theorem void_array_holds_items_witness:
  "let ar = foldl (add_void_array 0) (init_void_array (0 :: lirc_t) 2) [560, 1690, 560]
    in get_void_array ar = [560, 1690, 560] \<and> va_ptr ar ! va_nr_items ar = 0
     \<and> va_nr_items ar + 1 < length (va_ptr (add_void_array 0 ar 560))"
  by (rule void_array_holds_items) simp

section \<open>Comparing codes\<close>

lemma code_equals_loop_None:
  assumes "nc_next c1 \<noteq> []" and "ir_code_node_equals (nc_next c1) (nc_next c2)"
  shows "code_equals_loop c1 c2 (nc_next c1) (nc_next c2) = None"
proof -
  have "n1 = nc_next c1 \<longrightarrow> n2 = nc_next c2 \<longrightarrow> a = c1 \<longrightarrow> b = c2 \<longrightarrow> False"
    if "code_equals_loop a b n1 n2 = Some y" for a b n1 n2 y
  proof (induct a b n1 n2 y rule: code_equals_loop.raw_induct)
    case (1 f a b n1 n2 y)
    then show ?case using assms by (auto split: if_splits) blast
  qed (rule that)
  from this [of c1 c2 "nc_next c1" "nc_next c2"] show ?thesis
    by (cases "code_equals_loop c1 c2 (nc_next c1) (nc_next c2)") simp_all
qed

text \<open>
  C34: \<open>array_guest_code_equals\<close> does not return when two buttons have sequences with the same first
  and second code: the loop over the further codes never advances. In all other cases its answer
  looks at the first two codes only.
\<close>

theorem code_equals_hangs:
  "array_guest_code_equals c1 c2 =
     (if nc_code c1 \<noteq> nc_code c2 then Some False
      else case (nc_next c1, nc_next c2) of
        ([], _) \<Rightarrow> Some True
      | (x # xs, []) \<Rightarrow> Some False
      | (x # xs, y # ys) \<Rightarrow> if x = y then None else Some False)"
proof (cases "nc_code c1 = nc_code c2 \<and> nc_next c1 \<noteq> [] \<and> ir_code_node_equals (nc_next c1) (nc_next c2)")
  case True
  then show ?thesis using code_equals_loop_None [of c1 c2]
    by (auto simp: array_guest_code_equals_def ir_code_node_equals_def split: list.splits)
next
  case False
  then show ?thesis
    by (subst array_guest_code_equals_def, subst code_equals_loop.simps)
      (auto simp: ir_code_node_equals_def split: list.splits)
qed

section \<open>Sorting\<close>

text \<open>
  What the sorting compares: raw remotes are slower than all others, then the number of codes or of
  bits counts. The type is ordered lexicographically.
\<close>

datatype decode_cost = Cost bool int

instantiation decode_cost :: linorder
begin

definition less_eq_decode_cost :: "decode_cost \<Rightarrow> decode_cost \<Rightarrow> bool" where
  "less_eq_decode_cost a b = (case (a, b) of (Cost r n, Cost r' n') \<Rightarrow> r < r' \<or> (r = r' \<and> n \<le> n'))"

definition less_decode_cost :: "decode_cost \<Rightarrow> decode_cost \<Rightarrow> bool" where
  "less_decode_cost a b = (case (a, b) of (Cost r n, Cost r' n') \<Rightarrow> r < r' \<or> (r = r' \<and> n < n'))"

instance
  by standard (auto simp: less_eq_decode_cost_def less_decode_cost_def split: decode_cost.splits)

end

definition decode_cost :: "ir_remote \<Rightarrow> decode_cost" where
  "decode_cost r = Cost (is_raw r) (if is_raw r then int (length (codes_of r)) else bit_count r)"

lemma remote_bits_cmp_cost: "remote_bits_cmp r1 r2 \<le> 0 \<longleftrightarrow> decode_cost r1 \<le> decode_cost r2"
  by (auto simp: remote_bits_cmp_def decode_cost_def less_eq_decode_cost_def Let_def)

lemma insert_remote_props:
  assumes "sorted (map decode_cost xs)"
  shows "sorted (map decode_cost (insert_remote r xs))"
    and "mset (insert_remote r xs) = add_mset r (mset xs)"
    and "filter (\<lambda>x. k = decode_cost x) (insert_remote r xs)
      = filter (\<lambda>x. k = decode_cost x) xs @ filter (\<lambda>x. k = decode_cost x) [r]"
proof -
  have set: "set (insert_remote r xs) = insert r (set xs)" for xs
    by (induction xs) auto
  show "sorted (map decode_cost (insert_remote r xs))"
    using assms by (induction xs) (auto simp: remote_bits_cmp_cost set)
  show "mset (insert_remote r xs) = add_mset r (mset xs)" by (induction xs) auto
  have "filter (\<lambda>x. k = decode_cost x) xs = []" if "decode_cost r = k" "\<not> decode_cost x \<le> decode_cost r" "\<forall>y\<in>set xs. decode_cost x \<le> decode_cost y" for x xs
    using that by (fastforce simp: filter_empty_conv)
  then show "filter (\<lambda>x. k = decode_cost x) (insert_remote r xs)
      = filter (\<lambda>x. k = decode_cost x) xs @ filter (\<lambda>x. k = decode_cost x) [r]"
    using assms by (induction xs) (auto simp: remote_bits_cmp_cost)
qed

text \<open>
  C20: The list of remotes is sorted by the cost of decoding them - the library's stable \<open>sort_key\<close>:
  remotes that are equally fast keep the order of the file -, unless some remote asks for manual
  sorting, and then it is left alone.
\<close>

theorem remotes_sorted_by_cost:
  "sort_by_bit_count rs =
     (if \<exists>r\<in>set rs. r_manual_sort r \<noteq> 0 then rs else sort_key decode_cost rs)"
proof -
  let ?s = "foldl (\<lambda>sorted rem. insert_remote rem sorted) [] rs"
  have "sorted (map decode_cost ?s) \<and> mset ?s = mset rs
      \<and> (\<forall>k. filter (\<lambda>x. k = decode_cost x) ?s = filter (\<lambda>x. k = decode_cost x) rs)"
    by (induction rs rule: rev_induct) (simp_all add: insert_remote_props)
  then have "sort_key decode_cost rs = ?s" by (intro properties_for_sort_key) auto
  then show ?thesis by (simp add: sort_by_bit_count_def)
qed

section \<open>Signal lengths\<close>

text \<open>The lengths of the signals that can be sent, in the order of the simulation.\<close>

primrec sim_sums :: "ir_remote \<Rightarrow> (ir_ncode \<times> bool) list \<Rightarrow> sbuf \<Rightarrow> (lirc_t list \<times> sbuf) option" where
  "sim_sums remote [] sb = Some ([], sb)"
| "sim_sums remote (j # js) sb =
     (case init_sim (snd j) \<lparr>ss_buf = sb, ss_remote = remote, ss_code = fst j\<rparr> of
        None \<Rightarrow> None
      | Some (ok, st) \<Rightarrow> map_option (\<lambda>(xs, sb').
          ((if ok \<and> send_buffer_sum (ss_buf st) \<noteq> 0 then [send_buffer_sum (ss_buf st)] else []) @ xs, sb'))
          (sim_sums remote js (ss_buf st)))"

definition collected :: "lirc_t list \<Rightarrow> lengths \<Rightarrow> bool" where
  "collected xs sl \<longleftrightarrow> (sl_first sl \<longleftrightarrow> xs = [])
     \<and> (xs \<noteq> [] \<longrightarrow> sl_min sl = Min (set xs) \<and> sl_max sl = Max (set xs))"

lemma collected_snoc:
  assumes "collected xs sl" and "sl_first sl' = False"
    and "sl_min sl' = (if sl_first sl \<or> s < sl_min sl then s else sl_min sl)"
    and "sl_max sl' = (if sl_first sl \<or> s > sl_max sl then s else sl_max sl)"
  shows "collected (xs @ [s]) sl'"
proof (cases "xs = []")
  case True
  then show ?thesis using assms by (simp add: collected_def)
next
  case False
  have m: "(if s < m then s else m) = min s m" "(if s > m then s else m) = max s m" for m :: int by auto
  have "Min (set (xs @ [s])) = min s (Min (set xs))" "Max (set (xs @ [s])) = max s (Max (set xs))"
    using False by simp_all
  moreover have "sl_min sl' = min s (Min (set xs))" "sl_max sl' = max s (Max (set xs))"
    using assms(1,3,4) False unfolding collected_def m [symmetric] by simp_all
  ultimately show ?thesis using assms(2) by (simp add: collected_def)
qed

lemma simulate_all_sums:
  "collected xs sl \<Longrightarrow>
   (case simulate_all remote js sl of
      None \<Rightarrow> sim_sums remote js (sl_buf sl) = None
    | Some sl' \<Rightarrow> (\<exists>ys. sim_sums remote js (sl_buf sl) = Some (ys, sl_buf sl') \<and> collected (xs @ ys) sl'))"
proof (induction js arbitrary: xs sl)
  case (Cons j js)
  show ?case
  proof (cases "init_sim (snd j) \<lparr>ss_buf = sl_buf sl, ss_remote = remote, ss_code = fst j\<rparr>")
    case None
    then show ?thesis by (simp add: simulate_code_def)
  next
    case (Some r)
    obtain ok st where r: "r = (ok, st)" by (cases r)
    define s where "s = (if ok \<and> send_buffer_sum (ss_buf st) \<noteq> 0 then [send_buffer_sum (ss_buf st)] else [])"
    have "\<exists>sl1. simulate_code remote (fst j) sl (snd j) = Some sl1 \<and> sl_buf sl1 = ss_buf st \<and> collected (xs @ s) sl1"
    proof -
      consider "\<not> ok" | "ok" "send_buffer_sum (ss_buf st) = 0" | "ok" "send_buffer_sum (ss_buf st) \<noteq> 0" by blast
      then show ?thesis
      proof cases
        case 1
        then show ?thesis using Cons.prems by (simp add: simulate_code_def s_def Some r collected_def)
      next
        case 2
        then show ?thesis using Cons.prems by (simp add: simulate_code_def s_def Some r collected_def Let_def)
      next
        case 3
        then show ?thesis
          by (simp add: simulate_code_def s_def Some r Let_def) (intro conjI impI; rule collected_snoc [OF Cons.prems]; simp)
      qed
    qed
    then obtain sl1 where sl1: "simulate_code remote (fst j) sl (snd j) = Some sl1"
      and buf: "sl_buf sl1 = ss_buf st" and coll: "collected (xs @ s) sl1" by blast
    show ?thesis
      using Cons.IH [OF coll] by (auto simp: Some r sl1 buf s_def [symmetric] split: option.splits)
  qed
qed simp

lemma init_sim_returns: "init_sim rp st \<noteq> None"
proof -
  have "init_send_loop True rp st \<noteq> None" for st
    by (subst init_send_loop.simps) (simp add: Let_def del: not_None_eq split: option.split)
  then show ?thesis by (simp add: init_sim_def init_send_or_sim_def Let_def del: not_None_eq)
qed

lemma simulate_all_returns: "simulate_all remote js sl \<noteq> None"
  by (induction js arbitrary: sl)
    (auto simp: simulate_code_def Let_def init_sim_returns split: option.split prod.split)

text \<open>
  C32: The signal lengths of a remote come from the shortest and the longest of its simulated
  signals. With a constant total length the gap lengths are what the signals leave of the gap, at
  least 0; otherwise the total lengths are signal plus gap; without any signal everything is the
  gap. All other fields stay, \<open>max_pulse_length\<close> and \<open>max_space_length\<close> among them: the longest pulse
  and space are computed and thrown away.
\<close>

theorem signal_lengths_cover:
  assumes "r_codes r = Some codes"
  shows "\<exists>sb' r' xs. calculate_signal_lengths sb r = Some (sb', r')
    \<and> map_option fst (sim_sums (calc_start r) (sim_jobs codes) sb) = Some xs
    \<and> (if xs = [] then r_min_total_signal_length r' = min_gap r \<and> r_max_total_signal_length r' = max_gap r
          \<and> r_min_gap_length r' = min_gap r \<and> r_max_gap_length r' = max_gap r
       else if is_const r then r_min_total_signal_length r' = min_gap r \<and> r_max_total_signal_length r' = max_gap r
          \<and> r_min_gap_length r' = max 0 (min_gap r - Max (set xs)) \<and> r_max_gap_length r' = max 0 (max_gap r - Min (set xs))
       else r_min_gap_length r' = min_gap r \<and> r_max_gap_length r' = max_gap r
          \<and> r_min_total_signal_length r' = Min (set xs) + min_gap r
          \<and> r_max_total_signal_length r' = Max (set xs) + max_gap r)
    \<and> r_max_pulse_length r' = r_max_pulse_length r \<and> r_max_space_length r' = r_max_space_length r"
proof -
  have fields: "r_codes (calc_start r) = r_codes r" "is_const (calc_start r) = is_const r"
    "min_gap (calc_start r) = min_gap r" "max_gap (calc_start r) = max_gap r"
    by (simp_all add: calc_start_def is_const_def min_gap_def max_gap_def has_flag_def)
  obtain sl where sim: "simulate_all (calc_start r) (sim_jobs codes) (lengths_init sb) = Some sl"
    using simulate_all_returns by blast
  define r' where r': "r' = store_lengths (calc_start r) sl"
  have calc: "calculate_signal_lengths sb r = Some (sl_buf sl, r')"
    using assms sim by (simp add: calculate_signal_lengths_def fields r')
  have "collected [] (lengths_init sb)" by (simp add: collected_def lengths_init_def)
  from simulate_all_sums [OF this, of "calc_start r" "sim_jobs codes"] sim
  obtain xs where xs: "sim_sums (calc_start r) (sim_jobs codes) sb = Some (xs, sl_buf sl)" "collected xs sl"
    by (auto simp: lengths_init_def)
  have keep: "r_max_pulse_length r' = r_max_pulse_length r" "r_max_space_length r' = r_max_space_length r"
    by (simp_all add: r' store_lengths_def calc_start_def)
  have m: "(if a > b then a - b else 0) = max 0 (a - b)" for a b :: int by auto
  show ?thesis
  proof (cases "sl_first sl")
    case True
    then have "xs = []" using xs(2) by (simp add: collected_def)
    then show ?thesis using xs(1) keep True calc by (simp add: r' store_lengths_def fields)
  next
    case False
    then have "xs \<noteq> []" "Min (set xs) = sl_min sl" "Max (set xs) = sl_max sl"
      using xs(2) by (simp_all add: collected_def)
    then show ?thesis
      using xs(1) keep False calc
      by (cases "is_const r") (simp_all add: r' store_lengths_def fields m, simp_all add: calc_start_def)
  qed
qed

theorem signal_lengths_cover_witness:
  "\<exists>sb' r' xs. calculate_signal_lengths send_buffer_init sample_nec = Some (sb', r')
    \<and> map_option fst (sim_sums (calc_start sample_nec) (sim_jobs sample_codes) send_buffer_init) = Some xs
    \<and> r_max_pulse_length r' = r_max_pulse_length sample_nec"
proof -
  have "r_codes sample_nec = Some sample_codes" by (simp add: sample_nec_def)
  from signal_lengths_cover [OF this, of send_buffer_init] show ?thesis by blast
qed

end
