(* ===== verification/Config_Inv.thy ===== *)
theory Config_Inv
  imports Config_Spec
begin

text \<open>
  The invariant of the reader of \<open>lircd.conf\<close>: the remote being defined exists, the list of
  remotes has no cycle, the arrays are well formed, and a file only touches its own remotes.
\<close>

section \<open>The invariant\<close>

text \<open>
  \<open>base\<close> are the remotes that were there before the file: they stay as they are.
\<close>

definition parse_inv :: "ir_remote list \<Rightarrow> parse_state \<Rightarrow> bool" where
  "parse_inv base st \<longleftrightarrow>
     length base \<le> length (ps_store st) \<and> take (length base) (ps_store st) = base
   \<and> distinct (ps_top st) \<and> set (ps_top st) \<subseteq> {length base..<length (ps_store st)}
   \<and> (\<forall>i. ps_rem st = Some i \<longrightarrow> i \<in> {length base..<length (ps_store st)})
   \<and> (ps_mode st \<noteq> ID_none \<longrightarrow> ps_rem st \<noteq> None)
   \<and> va_ok zero_ncode (ps_codes st) \<and> va_ok zero_ncode (ps_raw_codes st) \<and> va_ok 0 (ps_signals st)"

text \<open>What the parser of an included file keeps.\<close>

definition file_result_ok :: "ir_remote list \<Rightarrow> ir_remote list \<times> sbuf \<times> bool \<times> nat list option \<Rightarrow> bool" where
  "file_result_ok store = (\<lambda>(store', sb, err, rems).
     length store \<le> length store' \<and> take (length store) store' = store
   \<and> (\<forall>xs. rems = Some xs \<longrightarrow> distinct xs \<and> set xs \<subseteq> {length store..<length store'}))"

definition child_ok :: "file_parser \<Rightarrow> bool" where
  "child_ok child \<longleftrightarrow> (\<forall>content name store sb res.
     child content name store sb = Some res \<longrightarrow> file_result_ok store res)"

lemma child_okI:
  assumes "\<And>content name store sb res. child content name store sb = Some res \<Longrightarrow> file_result_ok store res"
  shows "child_ok child"
  unfolding child_ok_def by (intro allI impI) (rule assms)

lemma child_okD: "child_ok child \<Longrightarrow> child content name store sb = Some res \<Longrightarrow> file_result_ok store res"
  unfolding child_ok_def by blast

named_theorems keeps "operations that keep the invariant of the parser"

lemma inv_start: "parse_inv base (start_state base sb)"
  by (simp add: parse_inv_def start_state_def va_init)

lemma inv_the_rem: "parse_inv base st \<Longrightarrow> ps_mode st \<noteq> ID_none \<Longrightarrow> \<exists>rem. the_rem st = Some rem"
  by (auto simp: parse_inv_def the_rem_def)

lemma inv_fail [keeps]: "parse_inv base st \<Longrightarrow> parse_inv base (fail st)"
  by (simp add: parse_inv_def fail_def)

lemma inv_set_rem [keeps]: "parse_inv base st \<Longrightarrow> parse_inv base (set_rem r st)"
  by (auto simp: parse_inv_def set_rem_def split: option.split)

lemma inv_updates [keeps]:
  assumes "parse_inv base st"
  shows "parse_inv base (st\<lparr>ps_err := e\<rparr>)" "parse_inv base (st\<lparr>ps_raw_code := c\<rparr>)" "parse_inv base (st\<lparr>ps_sbuf := sb\<rparr>)"
    and "va_ok zero_ncode ar \<Longrightarrow> parse_inv base (st\<lparr>ps_codes := ar\<rparr>)"
    and "va_ok zero_ncode ar \<Longrightarrow> parse_inv base (st\<lparr>ps_raw_codes := ar\<rparr>)"
    and "va_ok 0 sig \<Longrightarrow> parse_inv base (st\<lparr>ps_signals := sig\<rparr>)"
    and "m = ID_none \<or> ps_mode st \<noteq> ID_none \<Longrightarrow> parse_inv base (st\<lparr>ps_mode := m\<rparr>)"
  using assms by (auto simp: parse_inv_def)

lemma inv_arrays:
  assumes "parse_inv base st"
  shows "va_ok zero_ncode (ps_codes st)" "va_ok zero_ncode (ps_raw_codes st)" "va_ok 0 (ps_signals st)"
  using assms by (simp_all add: parse_inv_def)

lemma inv_alloc:
  assumes "parse_inv base st"
  shows "parse_inv base (st\<lparr>ps_mode := ID_remote, ps_store := ps_store st @ [r], ps_rem := Some (length (ps_store st)),
           ps_top := ps_top st @ [length (ps_store st)]\<rparr>)"
  using assms by (auto simp: parse_inv_def)

lemma set_cut_after: "set (cut_after i xs) \<subseteq> set xs"
  by (auto simp: cut_after_def dest: set_takeWhileD)

lemma distinct_cut_after: "distinct xs \<Longrightarrow> distinct (cut_after i xs)"
  by (auto simp: cut_after_def dest: set_takeWhileD)

lemma inv_cut: "parse_inv base st \<Longrightarrow> parse_inv base (st\<lparr>ps_top := cut_after i (ps_top st), ps_mode := ID_none\<rparr>)"
  using set_cut_after [of i "ps_top st"] by (auto simp: parse_inv_def distinct_cut_after)

lemma mode_set_rem [simp]: "ps_mode (set_rem r st) = ps_mode st" "ps_top (set_rem r st) = ps_top st"
  "ps_raw_code (set_rem r st) = ps_raw_code st" "ps_codes (set_rem r st) = ps_codes st"
  by (simp_all add: set_rem_def split: option.split)

section \<open>Sections and lines\<close>

lemma inv_begin_codes: "parse_inv base st \<Longrightarrow> begin_codes st = Some st' \<Longrightarrow> parse_inv base st'"
  by (auto simp: begin_codes_def checkMode_def va_init keeps parse_inv_def fail_def split: if_splits option.splits)

lemma inv_begin_raw_codes:
  assumes "parse_inv base st" "begin_raw_codes st = Some st'"
  shows "parse_inv base st'"
proof -
  have "parse_inv base ((set_rem r st)\<lparr>ps_raw_code := c, ps_raw_codes := init_void_array zero_ncode 30, ps_mode := ID_raw_codes\<rparr>)"
    if "ps_mode st = ID_remote" for r c
    using inv_set_rem [OF assms(1), of r] that by (simp add: parse_inv_def va_init)
  then show ?thesis using assms
    by (auto simp: begin_raw_codes_def checkMode_def keeps split: if_splits option.splits)
qed

lemma inv_begin_remote: "parse_inv base st \<Longrightarrow> begin_remote st = Some st' \<Longrightarrow> parse_inv base st'"
  by (auto simp: begin_remote_def checkMode_def Let_def keeps inv_alloc split: if_splits)

lemma inv_code_line:
  assumes "parse_inv base st" "code_line check key val val2 rest st = Some st'"
  shows "parse_inv base st'"
proof -
  obtain code err where d: "defineCode key val = (code, err)"
    by (cases "defineCode key val")
  obtain code' err' where n: "define_nodes code (ps_err st \<or> err) val2 rest = (code', err')"
    by (cases "define_nodes code (ps_err st \<or> err) val2 rest")
  have "st' = st\<lparr>ps_err := err', ps_codes := add_void_array zero_ncode (ps_codes st) (code'\<lparr>nc_current := None\<rparr>)\<rparr>"
    using assms(2) by (auto simp: code_line_def Let_def d n split: if_splits)
  then show ?thesis using assms(1) va_add [OF inv_arrays(1) [OF assms(1)]] by (simp add: parse_inv_def)
qed

lemma inv_close_raw_code: "parse_inv base st \<Longrightarrow> parse_inv base (close_raw_code st)"
  by (auto simp: close_raw_code_def Let_def parse_inv_def va_add)

lemma mode_close_raw_code [simp]: "ps_mode (close_raw_code st) = ps_mode st" "ps_rem (close_raw_code st) = ps_rem st"
  by (simp_all add: close_raw_code_def Let_def)

lemma inv_close_section:
  assumes "parse_inv base st" "ps_mode st \<noteq> ID_none"
  shows "parse_inv base ((set_rem r st)\<lparr>ps_mode := m\<rparr>)"
  by (rule inv_updates(7) [OF inv_set_rem [OF assms(1)]]) (simp add: assms(2))

lemma inv_end_codes: "parse_inv base st \<Longrightarrow> end_codes st = Some st' \<Longrightarrow> parse_inv base st'"
  by (auto simp: end_codes_def checkMode_def keeps intro: inv_close_section split: if_splits option.splits)

lemma inv_end_raw_codes:
  assumes "parse_inv base st" "end_raw_codes st = Some st'"
  shows "parse_inv base st'"
proof -
  define st1 where "st1 = (if ps_mode st = ID_raw_name then (close_raw_code st)\<lparr>ps_mode := ID_raw_codes\<rparr> else st)"
  have i: "parse_inv base st1"
    using inv_updates(7) [OF inv_close_raw_code [OF assms(1)], of ID_raw_codes] assms(1) by (simp add: st1_def)
  show ?thesis using assms(2) i unfolding end_raw_codes_def Let_def st1_def [symmetric]
    by (auto simp: checkMode_def keeps intro: inv_close_section split: if_splits option.splits)
qed

lemma inv_end_remote: "parse_inv base st \<Longrightarrow> end_remote d st = Some st' \<Longrightarrow> parse_inv base st'"
  using inv_cut [OF inv_set_rem]
  by (fastforce simp: end_remote_def checkMode_def Let_def keeps split: if_splits option.splits prod.splits)

lemma va_addSignal: "va_ok 0 sig \<Longrightarrow> va_ok 0 (fst (addSignal sig val))"
  by (auto simp: addSignal_def va_add split: prod.split)

lemma va_add_signals: "va_ok 0 sig \<Longrightarrow> va_ok 0 (fst (add_signals sig rest))"
proof (induction sig rest rule: add_signals.induct)
  case (1 sig rest)
  show ?case
  proof (cases "strtok whitespace rest")
    case None
    then show ?thesis using "1.prems" by (simp add: add_signals.simps)
  next
    case (Some p)
    obtain val rest' where p: "p = (val, rest')" by (cases p)
    obtain s1 e1 where a: "addSignal sig val = (s1, e1)" by (cases "addSignal sig val")
    have ok: "va_ok 0 s1" using va_addSignal [OF "1.prems", of val] by (simp add: a)
    have "\<not> e1 \<Longrightarrow> va_ok 0 (fst (add_signals s1 rest'))"
      using "1.IH" [OF Some p [symmetric] a [symmetric]] ok by simp
    then show ?thesis using ok by (subst add_signals.simps) (simp add: Some p a)
  qed
qed

lemma va_signal_line: "va_ok 0 sig \<Longrightarrow> va_ok 0 (fst (signal_line key val val2 rest sig))"
proof -
  assume ok: "va_ok 0 sig"
  obtain s1 e1 where 1: "addSignal sig key = (s1, e1)" by (cases "addSignal sig key")
  obtain s2 e2 where 2: "addSignal s1 val = (s2, e2)" by (cases "addSignal s1 val")
  have ok1: "va_ok 0 s1" using va_addSignal [OF ok, of key] by (simp add: 1)
  have ok2: "va_ok 0 s2" using va_addSignal [OF ok1, of val] by (simp add: 2)
  show ?thesis
  proof (cases val2)
    case None
    then show ?thesis using ok1 ok2 by (simp add: signal_line_def 1 2 va_add_signals)
  next
    case (Some v)
    obtain s3 e3 where 3: "addSignal s2 v = (s3, e3)" by (cases "addSignal s2 v")
    have "va_ok 0 s3" using va_addSignal [OF ok2, of v] by (simp add: 3)
    then show ?thesis using ok1 ok2 by (simp add: signal_line_def 1 2 3 Some va_add_signals)
  qed
qed

lemma inv_name_line:
  assumes "parse_inv base st" "ps_mode st \<noteq> ID_none"
  shows "parse_inv base (st\<lparr>ps_raw_code := c, ps_signals := init_void_array 0 50, ps_mode := ID_raw_name\<rparr>)"
  using assms by (simp add: parse_inv_def va_init)

lemma inv_raw_line:
  assumes i: "parse_inv base st" and m: "ps_mode st \<noteq> ID_none"
  shows "parse_inv base (raw_line key val val2 rest st)"
proof -
  define st1 where "st1 = (if ps_mode st = ID_raw_name then close_raw_code st else st)"
  have "parse_inv base st1" "ps_mode st1 \<noteq> ID_none"
    using m by (simp_all add: st1_def i inv_close_raw_code)
  note inv_name_line [OF this]
  then have name: "strcasecmp_eq ''name'' key \<Longrightarrow> ?thesis"
    unfolding raw_line_def Let_def st1_def [symmetric] by simp
  obtain sig e where s: "signal_line key val val2 rest (ps_signals st) = (sig, e)"
    by (cases "signal_line key val val2 rest (ps_signals st)")
  have "va_ok 0 sig" using va_signal_line [OF inv_arrays(3) [OF i], of key val val2 rest] by (simp add: s)
  then have "parse_inv base (st\<lparr>ps_signals := sig, ps_err := ps_err st \<or> e\<rparr>)"
    using i by (simp add: parse_inv_def)
  then show ?thesis using name i by (cases "strcasecmp_eq ''name'' key") (simp_all add: raw_line_def s keeps)
qed

lemma inv_remote_line: "parse_inv base st \<Longrightarrow> remote_line d key val val2 st = Some st' \<Longrightarrow> parse_inv base st'"
  by (auto simp: remote_line_def keeps split: option.splits prod.splits)

lemma inv_mode_line: "parse_inv base st \<Longrightarrow> mode_line d key val val2 rest st = Some st' \<Longrightarrow> parse_inv base st'"
  by (auto simp: mode_line_def split: directive.splits intro: inv_remote_line inv_code_line inv_raw_line)

lemma inv_begin_line: "parse_inv base st \<Longrightarrow> begin_line key val val2 rest st = Some st' \<Longrightarrow> parse_inv base st'"
  by (auto simp: begin_line_def keeps split: if_splits intro: inv_begin_codes inv_begin_raw_codes inv_begin_remote inv_code_line)

lemma inv_end_line: "parse_inv base st \<Longrightarrow> end_line d key val val2 rest st = Some st' \<Longrightarrow> parse_inv base st'"
  by (auto simp: end_line_def keeps split: if_splits intro: inv_end_codes inv_end_raw_codes inv_end_remote inv_code_line)

section \<open>Included files and whole files\<close>

lemma inv_child:
  assumes "parse_inv base st" "length (ps_store st) \<le> length store" "take (length (ps_store st)) store = ps_store st"
    and "distinct xs" "set xs \<subseteq> {length (ps_store st)..<length store}"
  shows "parse_inv base (st\<lparr>ps_store := store, ps_sbuf := sb, ps_err := e, ps_top := ps_top st @ xs\<rparr>)"
proof -
  have "take (length base) store = take (length base) (take (length (ps_store st)) store)"
    using assms(1) by (simp add: parse_inv_def min_def)
  then show ?thesis using assms by (force simp: parse_inv_def)
qed

lemma inv_drop_top: "parse_inv base st \<Longrightarrow> parse_inv base (st\<lparr>ps_top := []\<rparr>)"
  by (simp add: parse_inv_def)

lemma inv_read_included:
  assumes i: "parse_inv base st" and c: "child_ok child" and r: "read_included env child depth val st = Some st'"
  shows "parse_inv base st'"
proof (cases "depth > MAX_INCLUDES \<or> lirc_parse_include val = None")
  case True
  then show ?thesis using i r by (auto simp: read_included_def split: if_splits)
next
  case False
  then obtain name where n: "\<not> depth > MAX_INCLUDES" "lirc_parse_include val = Some name" by auto
  show ?thesis
  proof (cases "ce_files env name")
    case None
    then show ?thesis using r n inv_drop_top [OF i] by (auto simp: read_included_def)
  next
    case (Some content)
    then obtain store sb err rems where ch: "child content name (ps_store st) (ps_sbuf st) = Some (store, sb, err, rems)"
        and st': "st' = st\<lparr>ps_store := store, ps_sbuf := sb, ps_err := err, ps_top := ir_remotes_append (ps_top st) rems\<rparr>"
      using r n by (auto simp: read_included_def split: option.splits)
    have "ir_remotes_append (ps_top st) rems = ps_top st @ (case rems of None \<Rightarrow> [] | Some xs \<Rightarrow> xs)"
      by (simp add: ir_remotes_append_def split: option.split)
    moreover have "distinct (case rems of None \<Rightarrow> [] | Some xs \<Rightarrow> xs)"
      "set (case rems of None \<Rightarrow> [] | Some xs \<Rightarrow> xs) \<subseteq> {length (ps_store st)..<length store}"
      using child_okD [OF c ch] by (cases rems; simp add: file_result_ok_def)+
    ultimately show ?thesis using inv_child [OF i, of store] child_okD [OF c ch]
      by (simp add: st' file_result_ok_def)
  qed
qed

lemma inv_read_each:
  "parse_inv base st \<Longrightarrow> child_ok child \<Longrightarrow> read_each env child depth ps st = Some st' \<Longrightarrow> parse_inv base st'"
  by (induction ps arbitrary: st) (auto split: option.splits dest: inv_read_included)

lemma inv_parse_tokens:
  assumes "parse_inv base st" "child_ok child" "parse_tokens env child depth name key rest st = Some st'"
  shows "parse_inv base st'"
proof (cases "strtok whitespace rest")
  case None
  then show ?thesis using assms(1,3) inv_fail [OF assms(1)] va_addSignal [OF inv_arrays(3) [OF assms(1)], of key]
    by (auto simp: parse_tokens_def parse_inv_def split: if_splits prod.splits)
next
  case (Some p)
  obtain val r where p: "p = (val, r)" by (cases p)
  obtain val2 r2 where v: "(case strtok whitespace r of None \<Rightarrow> (None, r) | Some (v2, r) \<Rightarrow> (Some v2, r)) = (val2, r2)"
    by (cases "case strtok whitespace r of None \<Rightarrow> (None, r) | Some (v2, r) \<Rightarrow> (Some v2, r)")
  have "read_all_included env child depth name val st = Some st' \<Longrightarrow> ?thesis"
    by (auto simp: read_all_included_def split: prod.splits dest: inv_read_each [OF assms(1,2)])
  then show ?thesis using assms(3)
    inv_begin_line [OF assms(1), of key val val2 r2] inv_end_line [OF assms(1), of "ce_dynamic_codes env" key val val2 r2]
    inv_mode_line [OF assms(1), of "ce_dynamic_codes env" key val val2 r2]
    by (simp add: parse_tokens_def Some p v split: if_splits)
qed

lemma inv_parse_line:
  assumes "parse_inv base st" "child_ok child" "parse_line env child depth name buf st = Some st'"
  shows "parse_inv base st'"
proof (cases "length buf = LINE_LEN \<and> last buf \<noteq> newline")
  case True
  then show ?thesis using assms(3) inv_fail [OF assms(1)] by (simp add: parse_line_def)
next
  case False
  then show ?thesis using assms(1,3) inv_parse_tokens [OF assms(1,2)]
    by (auto simp: parse_line_def Let_def split: if_splits option.splits)
qed

lemma inv_parse_lines:
  "parse_inv base st \<Longrightarrow> child_ok child \<Longrightarrow> parse_lines env child depth name content st = Some st'
   \<Longrightarrow> parse_inv base st'"
proof (induction env child depth name content st rule: parse_lines.induct)
  case (1 env child depth name content st)
  show ?case
  proof (cases "fgets LINE_LEN content")
    case None
    then show ?thesis using "1.prems" by (simp add: parse_lines.simps [of _ _ _ _ content])
  next
    case (Some p)
    obtain buf rest where p: "p = (buf, rest)" by (cases p)
    obtain st1 where l: "parse_line env child depth name buf st = Some st1"
      and r: "(if ps_err st1 then Some st1 else parse_lines env child depth name rest st1) = Some st'"
      using "1.prems"(3) by (subst (asm) parse_lines.simps) (auto simp: Some p split: option.splits)
    have i: "parse_inv base st1" by (rule inv_parse_line [OF "1.prems"(1,2) l])
    show ?thesis using r i "1.IH" [OF Some p [symmetric] l _ i "1.prems"(2)] by (simp split: if_splits)
  qed
qed

lemma finish_remotes_store:
  "finish_remotes xs store sb = Some (store', sb') \<Longrightarrow>
     length store' = length store \<and> (\<forall>i. i \<notin> set xs \<longrightarrow> store' ! i = store ! i)"
  by (induction xs arbitrary: store sb) (fastforce split: option.splits prod.splits)+

lemma finish_remotes_take:
  assumes "finish_remotes xs store sb = Some (store', sb')" "set xs \<subseteq> {n..<length store}" "n \<le> length store"
  shows "length store' = length store" "take n store' = take n store"
proof -
  have l: "length store' = length store" and s: "\<And>i. i \<notin> set xs \<Longrightarrow> store' ! i = store ! i"
    using finish_remotes_store [OF assms(1)] by blast+
  show "length store' = length store" by (rule l)
  have "i < n \<Longrightarrow> i \<notin> set xs" for i using assms(2) by auto
  then show "take n store' = take n store"
    using assms(3) by (intro nth_equalityI) (simp_all add: l s)
qed

lemma read_file_ok:
  assumes c: "child_ok child" and r: "read_file env child depth content name store sb = Some res"
  shows "file_result_ok store res"
proof -
  obtain st where st: "parse_lines env child depth name content (start_state store sb) = Some st"
    using r by (auto simp: read_file_def split: option.splits)
  note i = inv_parse_lines [OF inv_start c st]
  show ?thesis
  proof (cases "ps_err st \<or> ps_mode st \<noteq> ID_none")
    case True
    then show ?thesis using r i by (auto simp: read_file_def st file_result_ok_def parse_inv_def)
  next
    case False
    then obtain store' sb' where f: "finish_remotes (ps_top st) (ps_store st) (ps_sbuf st) = Some (store', sb')"
      and res: "res = (store', sb', False, Some (ps_top st))"
      using r by (auto simp: read_file_def st split: option.splits)
    show ?thesis using finish_remotes_take [OF f, of "length store"] i by (simp add: res file_result_ok_def parse_inv_def)
  qed
qed

lemma read_config_result_ok: "read_config_recursive env n content name store sb = Some res \<Longrightarrow> file_result_ok store res"
proof (induction n arbitrary: content name store sb res)
  case 0
  show ?case by (rule read_file_ok [OF child_okI]) (use 0 in auto)
next
  case (Suc n)
  show ?case by (rule read_file_ok [OF child_okI [OF Suc.IH]]) (use Suc.prems in auto)
qed


end
