(* ===== verification/Config_Reader_Spec.thy ===== *)
theory Config_Reader_Spec
  imports Config_Inv
begin

text \<open>
  What a whole \<open>lircd.conf\<close> leads to: the list of remotes the reader returns, and the three ways
  in which it does not return at all.
\<close>

section \<open>Lines of a file\<close>

lemma parse_lines_Nil [simp]: "parse_lines env child depth name [] st = Some st"
  by (subst parse_lines.simps) simp

lemma parse_lines_Cons:
  assumes "newline \<notin> set l" "length l + 1 < LINE_LEN"
  shows "parse_lines env child depth name (l @ newline # rest) st =
    (case parse_line env child depth name (l @ [newline]) st of
       None \<Rightarrow> None
     | Some st \<Rightarrow> if ps_err st then Some st else parse_lines env child depth name rest st)"
  by (subst parse_lines.simps) (simp add: fgets_line [OF assms])

definition file_of :: "string list \<Rightarrow> string" where
  "file_of ls = concat (map (\<lambda>l. l @ [newline]) ls)"

lemma file_of_simps [simp]: "file_of [] = []" "file_of (l # ls) = l @ newline # file_of ls"
  by (simp_all add: file_of_def)

lemma chop_line [simp]: "carriage_return \<notin> set l \<Longrightarrow> chop (l @ [newline]) = l"
  by (auto simp: chop_def Let_def nth_append dest: nth_mem)

lemma parse_line_tokens:
  assumes "newline \<notin> set l" "carriage_return \<notin> set l" "length l + 1 < LINE_LEN" "hd (l @ [newline]) \<noteq> CHR ''#''"
    and "strtok whitespace l = Some (key, rest)"
  shows "parse_line env child depth name (l @ [newline]) st = parse_tokens env child depth name key rest st"
proof -
  have "l \<noteq> []" using assms(5) by (auto simp: strtok_def)
  then have "hd l \<noteq> CHR ''#''" using assms(4) by simp
  then show ?thesis using assms(3,5) chop_line [OF assms(2)] by (simp add: parse_line_def Let_def)
qed

section \<open>When the reader does not return\<close>

lemma code_line_None:
  "code_line check key val val2 rest st = None \<Longrightarrow> check \<and> (\<exists>code. check_ncode_dups (ps_codes st) code = None)"
  by (auto simp: code_line_def Let_def split: if_splits prod.splits)

definition child_returns :: "file_parser \<Rightarrow> bool" where
  "child_returns child \<longleftrightarrow> (\<forall>content name store sb. child content name store sb \<noteq> None)"

lemma read_included_None:
  assumes "child_returns child"
  shows "read_included env child depth val st \<noteq> None"
proof -
  have "child c n (ps_store st) (ps_sbuf st) \<noteq> None" for c n
    using assms unfolding child_returns_def by blast
  then show ?thesis by (auto simp del: not_None_eq simp: read_included_def split: option.split)
qed

lemma read_each_None: "child_returns child \<Longrightarrow> read_each env child depth ps st \<noteq> None"
proof (induction ps arbitrary: st)
  case (Cons p ps)
  obtain st' where "read_included env child depth (take 255 ([CHR 0x22] @ p @ [CHR 0x22])) st = Some st'"
    using read_included_None [OF Cons.prems] by blast
  then show ?case using Cons.IH [OF Cons.prems, of st'] by simp
qed simp

definition no_codes :: "parse_state \<Rightarrow> bool" where
  "no_codes st \<longleftrightarrow> (case the_rem st of None \<Rightarrow> False | Some rem \<Rightarrow> r_codes rem = None \<and> \<not> is_raw rem \<and> r_name rem \<noteq> [])"

lemma the_rem_NoneD: "parse_inv base st \<Longrightarrow> the_rem st = None \<Longrightarrow> ps_mode st = ID_none"
  using inv_the_rem by fastforce

lemma begin_line_None:
  assumes "parse_inv base st" "begin_line key val val2 rest st = None"
  shows "ps_mode st = ID_codes \<and> (\<exists>code. check_ncode_dups (ps_codes st) code = None)"
  using assms(2) the_rem_NoneD [OF assms(1)] code_line_None [of True key val val2 rest st]
  by (auto simp: begin_line_def begin_codes_def begin_raw_codes_def begin_remote_def checkMode_def Let_def
      split: if_splits option.splits)

lemma end_line_None:
  assumes "parse_inv base st" "end_line d key val val2 rest st = None"
  shows "ps_mode st = ID_remote \<and> no_codes st"
proof -
  have "end_codes st \<noteq> None" "end_raw_codes st \<noteq> None"
    using inv_the_rem [OF assms(1)] inv_the_rem [OF inv_close_raw_code [OF assms(1)]]
    by (auto simp: end_codes_def end_raw_codes_def checkMode_def Let_def the_rem_def split: option.split)
  moreover have "code_line False key val val2 rest st \<noteq> None"
    using code_line_None by blast
  ultimately have "end_remote d st = None"
    using assms(2) by (auto simp: end_line_def split: if_splits)
  then show ?thesis using assms(1)
    by (auto simp: end_remote_def checkMode_def no_codes_def the_rem_def sanityChecks_def Let_def parse_inv_def
        split: if_splits option.splits prod.splits)
qed

lemma mode_line_None:
  assumes "parse_inv base st" "mode_line d key val val2 rest st = None"
  shows "ps_mode st = ID_codes \<and> (\<exists>code. check_ncode_dups (ps_codes st) code = None)"
  using assms(2) the_rem_NoneD [OF assms(1)] code_line_None [of True key val val2 rest st]
  by (auto simp: mode_line_def remote_line_def split: directive.splits option.splits prod.splits)

lemma parse_tokens_None:
  assumes "parse_inv base st" "child_returns child" "parse_tokens env child depth name key rest st = None"
  shows "(ps_mode st = ID_codes \<and> (\<exists>code. check_ncode_dups (ps_codes st) code = None)) \<or> (ps_mode st = ID_remote \<and> no_codes st)"
proof (cases "strtok whitespace rest")
  case None
  then show ?thesis using assms(3) by (auto simp: parse_tokens_def split: if_splits prod.splits)
next
  case (Some p)
  obtain val r where p: "p = (val, r)" by (cases p)
  obtain val2 r2 where v: "(case strtok whitespace r of None \<Rightarrow> (None, r) | Some (v2, r) \<Rightarrow> (Some v2, r)) = (val2, r2)"
    by (cases "case strtok whitespace r of None \<Rightarrow> (None, r) | Some (v2, r) \<Rightarrow> (Some v2, r)")
  have "read_all_included env child depth name val st \<noteq> None"
    using read_each_None [OF assms(2)] by (simp add: read_all_included_def split: prod.split del: not_None_eq)
  then show ?thesis using assms(3) begin_line_None [OF assms(1), of key val val2 r2]
    end_line_None [OF assms(1), of "ce_dynamic_codes env" key val val2 r2]
    mode_line_None [OF assms(1), of "ce_dynamic_codes env" key val val2 r2]
    by (simp add: parse_tokens_def Some p v split: if_splits)
qed

lemma run_line:
  assumes "newline \<notin> set l" "length l + 1 < LINE_LEN"
    and "parse_line env child depth name (l @ [newline]) st = Some st1" "\<not> ps_err st1"
  shows "parse_lines env child depth name (file_of (l # ls)) st = parse_lines env child depth name (file_of ls) st1"
  using assms by (simp add: parse_lines_Cons)

definition sample_lines :: "string list" where
  "sample_lines = [''begin remote'', ''name r'', ''begin codes'', ''end codes'', ''end remote'']"

definition sample_env :: config_env where
  "sample_env = \<lparr>ce_files = (\<lambda>_. None), ce_glob = (\<lambda>_. []), ce_dynamic_codes = False\<rparr>"

lemmas line_simps = parse_line_def parse_tokens_def strtok_def whitespace_def strcasecmp_eq_def c_tolower_def

lemma sample_begin:
  "parse_line sample_env child depth name (''begin remote'' @ [newline]) (start_state store sb) =
     Some ((start_state store sb)\<lparr>ps_mode := ID_remote, ps_store := store @ [(zero_remote [])\<lparr>r_freq := DEFAULT_FREQ\<rparr>],
       ps_rem := Some (length store), ps_top := [length store]\<rparr>)"
  by (subst parse_line_tokens [where key = "''begin''" and rest = "''remote''"])
    (simp_all add: line_simps LINE_LEN_def begin_line_def begin_remote_def checkMode_def start_state_def Let_def)

lemma sample_name:
  assumes "ps_mode st = ID_remote" "the_rem st = Some r"
  shows "parse_line sample_env child depth name (''name r'' @ [newline]) st =
     Some ((set_rem (r\<lparr>r_name := ''r''\<rparr>) st)\<lparr>ps_err := ps_err st\<rparr>)"
  by (subst parse_line_tokens [where key = "''name''" and rest = "''r''"])
    (simp_all add: line_simps LINE_LEN_def mode_line_def remote_line_def defineRemote_def assms)

lemma sample_end:
  assumes "ps_mode st = ID_remote" "ps_rem st = Some i"
  shows "parse_line sample_env child depth name (''end remote'' @ [newline]) st = end_remote False st"
  by (subst parse_line_tokens [where key = "''end''" and rest = "''remote''"])
    (simp_all add: line_simps LINE_LEN_def end_line_def assms sample_env_def)

lemma sample_begin_codes:
  assumes "ps_mode st = ID_remote" "the_rem st = Some r" "r_codes r = None"
  shows "parse_line sample_env child depth name (''begin codes'' @ [newline]) st =
     Some (st\<lparr>ps_codes := init_void_array zero_ncode 30, ps_mode := ID_codes\<rparr>)"
  by (subst parse_line_tokens [where key = "''begin''" and rest = "''codes''"])
    (simp_all add: line_simps LINE_LEN_def begin_line_def begin_codes_def checkMode_def assms)

lemma sample_end_codes:
  assumes "ps_mode st = ID_codes" "the_rem st = Some r"
  shows "parse_line sample_env child depth name (''end codes'' @ [newline]) st =
     Some ((set_rem (r\<lparr>r_codes := Some (get_void_array (ps_codes st))\<rparr>) st)\<lparr>ps_mode := ID_remote\<rparr>)"
  by (subst parse_line_tokens [where key = "''end''" and rest = "''codes''"])
    (simp_all add: line_simps LINE_LEN_def end_line_def end_codes_def checkMode_def assms)

text \<open>A remote without a section \<open>codes\<close>, before its last line.\<close>

definition sample_open :: parse_state where
  "sample_open = (start_state [] send_buffer_init)\<lparr>ps_mode := ID_remote, ps_store := [(zero_remote ''r'')\<lparr>r_freq := DEFAULT_FREQ\<rparr>],
     ps_rem := Some 0, ps_top := [0]\<rparr>"

text \<open>
  C19: The reader of a line does not return in two cases only, whatever the line is, as long as the
  parser of included files returns: a button is added to a section \<open>codes\<close> and the search for
  equal codes never ends, or a remote with a name ends that has no codes and is not raw - the loop
  over its codes follows NULL. In particular the pointer to the current remote is never NULL when
  it is used.
\<close>

theorem reader_stops_only:
  assumes "parse_inv base st" "child_returns child" "parse_line env child depth name buf st = None"
  shows "(ps_mode st = ID_codes \<and> (\<exists>code. check_ncode_dups (ps_codes st) code = None))
    \<or> (ps_mode st = ID_remote \<and> no_codes st)"
  using assms parse_tokens_None [OF assms(1,2)]
  by (auto simp: parse_line_def Let_def split: if_splits option.splits)

theorem reader_stops_only_witness:
  "parse_line sample_env (\<lambda>_ _ store sb. Some (store, sb, False, None)) 0 None (''end remote'' @ [newline]) sample_open = None
   \<and> ps_mode sample_open = ID_remote \<and> no_codes sample_open"
proof -
  have inv: "parse_inv [] sample_open"
    by (simp add: parse_inv_def sample_open_def start_state_def va_init)
  have none: "parse_line sample_env (\<lambda>_ _ store sb. Some (store, sb, False, None)) 0 None (''end remote'' @ [newline]) sample_open = None"
    by (subst sample_end [of _ 0])
      (simp_all add: sample_open_def start_state_def end_remote_def checkMode_def sanityChecks_def zero_remote_def has_flag_def
        is_raw_def RAW_CODES_def IR_PROTOCOL_MASK_def)
  have ret: "child_returns (\<lambda>_ _ store sb. Some (store, sb, False, None))"
    by (simp add: child_returns_def)
  show ?thesis using none reader_stops_only [OF inv ret none] by (auto simp: sample_open_def start_state_def)
qed

lemma sample_run:
  "parse_lines sample_env child depth None (file_of sample_lines) (start_state olds sb) =
     Some ((start_state olds sb)\<lparr>ps_rem := Some (length olds), ps_top := [length olds],
       ps_store := olds @ [(zero_remote ''r'')\<lparr>r_freq := DEFAULT_FREQ, r_codes := Some []\<rparr>]\<rparr>)"
    (is "?run sample_lines (start_state olds sb) = _")
proof -
  let ?r = "\<lambda>nm c. (zero_remote nm)\<lparr>r_freq := DEFAULT_FREQ, r_codes := c\<rparr>"
  let ?st = "\<lambda>m nm c. (start_state olds sb)\<lparr>ps_rem := Some (length olds), ps_top := [length olds], ps_mode := m, ps_store := olds @ [?r nm c]\<rparr>"
  note defs = the_rem_def set_rem_def LINE_LEN_def start_state_def zero_remote_def
  let ?l3 = "[''end codes'', ''end remote'']"
  let ?l2 = "''begin codes'' # ?l3"
  let ?l1 = "''name r'' # ?l2"
  have 1: "?run sample_lines (start_state olds sb) = ?run ?l1 (?st ID_remote [] None)"
    unfolding sample_lines_def by (subst run_line [OF _ _ sample_begin]) (simp_all add: defs del: file_of_simps)
  have 2: "?run ?l1 (?st ID_remote [] None) = ?run ?l2 (?st ID_remote ''r'' None)"
    by (subst run_line [OF _ _ sample_name [where r = "?r [] None"]]) (simp_all add: defs del: file_of_simps)
  have 3: "?run ?l2 (?st ID_remote ''r'' None) = ?run ?l3 (?st ID_codes ''r'' None)"
    by (subst run_line [OF _ _ sample_begin_codes [where r = "?r ''r'' None"]]) (simp_all add: defs del: file_of_simps)
  have 4: "?run ?l3 (?st ID_codes ''r'' None) = ?run [''end remote''] (?st ID_remote ''r'' (Some []))"
    by (subst run_line [OF _ _ sample_end_codes [where r = "?r ''r'' None"]]) (simp_all add: defs va_init del: file_of_simps)
  have san: "sanityChecks (?r ''r'' (Some [])) = Some (True, ?r ''r'' (Some []))"
    by (simp add: sanityChecks_def zero_remote_def)
  have 5: "?run [''end remote''] (?st ID_remote ''r'' (Some [])) = Some (?st ID_none ''r'' (Some []))"
    by (subst run_line [OF _ _ sample_end [THEN trans]])
      (simp_all add: end_remote_def checkMode_def san, simp_all add: defs cut_after_def)
  show ?thesis unfolding 1 2 3 4 5 by (simp add: start_state_def)
qed

lemma sample_finish:
  "\<exists>sb' r'. finish_remote send_buffer_init ((zero_remote ''r'')\<lparr>r_freq := DEFAULT_FREQ, r_codes := Some []\<rparr>) = Some (sb', r')
     \<and> r_name r' = ''r'' \<and> r_codes r' = Some []"
proof -
  let ?r = "(zero_remote ''r'')\<lparr>r_freq := DEFAULT_FREQ, r_codes := Some []\<rparr>"
  have "kick_reverse ?r = Some ?r"
    by (simp add: kick_reverse_def has_flag_def zero_remote_def)
  moreover have "kick_toggle ?r = ?r"
    by (simp add: kick_toggle_def Let_def has_flag_def has_toggle_bit_mask_def zero_remote_def)
  moreover have "kick_serial ?r = ?r" "kick_repeat ?r = ?r"
    by (simp_all add: kick_serial_def kick_repeat_def is_serial_def zero_remote_def IR_PROTOCOL_MASK_def SERIAL_def)
  moreover have "\<exists>sb' r'. calculate_signal_lengths send_buffer_init ?r = Some (sb', r') \<and> r_name r' = ''r'' \<and> r_codes r' = Some []"
    by (simp add: calculate_signal_lengths_def Let_def calc_start_def sim_jobs_def store_lengths_def lengths_init_def zero_remote_def)
  ultimately show ?thesis
    by (simp add: finish_remote_def)
qed

lemma sample_file:
  "\<exists>store' sb' err. read_config_recursive sample_env 0 (file_of sample_lines) None [zero_remote ''old''] send_buffer_init
       = Some (store', sb', err, Some [1]) \<and> r_name (store' ! 1) = ''r'' \<and> r_codes (store' ! 1) = Some []"
  using sample_finish
  unfolding read_config_recursive.simps read_file_def sample_run by (auto simp: start_state_def nth_append)

text \<open>
  C13: What a file leads to. If the reader returns a list, the remotes of the list are pairwise
  different, were all allocated while this file and what it includes were read, and the remotes
  that existed before are untouched - also when it fails.
\<close>

theorem reader_result:
  assumes "read_config_recursive env n content name store sb = Some (store', sb', err, rems)"
  shows "take (length store) store' = store \<and> length store \<le> length store'
    \<and> (\<forall>xs. rems = Some xs \<longrightarrow> distinct xs \<and> set xs \<subseteq> {length store..<length store'})"
  using read_config_result_ok [OF assms] by (simp add: file_result_ok_def)

theorem reader_result_witness:
  "\<exists>store' sb' err. read_config_recursive sample_env 0 (file_of sample_lines) None [zero_remote ''old''] send_buffer_init
       = Some (store', sb', err, Some [1])
     \<and> take 1 store' = [zero_remote ''old''] \<and> r_name (store' ! 1) = ''r'' \<and> r_codes (store' ! 1) = Some []"
proof -
  obtain store' sb' err where run: "read_config_recursive sample_env 0 (file_of sample_lines) None [zero_remote ''old''] send_buffer_init
       = Some (store', sb', err, Some [1])" and r: "r_name (store' ! 1) = ''r''" "r_codes (store' ! 1) = Some []"
    using sample_file by blast
  show ?thesis using reader_result [OF run] run r by auto
qed

section \<open>Includes\<close>

text \<open>An absolute path is never read: the buffer that \<open>glob\<close> gets stays empty.\<close>

lemma absolute_include_ignored:
  "read_all_included env child depth (Some current) (q # (CHR ''/'' # path) @ [q']) st = read_each env child depth (ce_glob env []) st"
  by (simp add: read_all_included_def lirc_parse_relative_def)

text \<open>An included file that cannot be opened drops the remotes read so far.\<close>

lemma missing_include_drops:
  assumes "ce_files env path = None" "path \<noteq> []" "depth \<le> MAX_INCLUDES"
  shows "read_included env child depth ([CHR 0x22] @ path @ [CHR 0x22]) st = Some (st\<lparr>ps_top := []\<rparr>)"
proof -
  have "lirc_parse_include ([CHR 0x22] @ path @ [CHR 0x22]) = Some path"
    using assms(2) by (simp add: lirc_parse_include_def whitespace_def Let_def)
  then show ?thesis using assms by (simp add: read_included_def)
qed

text \<open>With the option \<open>lircd:dynamic-codes\<close> every other parameter of a remote is an error.\<close>

lemma dynamic_codes_rejects:
  "snd (snd (defineRemote True key val val2 rem)) \<longleftrightarrow> \<not> strcasecmp_eq ''name'' key \<and> \<not> strcasecmp_eq ''dyncodes_name'' key"
  by (simp add: defineRemote_def)

end
