(* ===== verification/Floats.thy ===== *)
theory Floats
  imports Prelude "HOL-Library.Log_Nat"
begin

text \<open>
  The floating point arithmetic of the application: a number is the rational it stands for, and
  every operation rounds its exact result to the nearest number with 24 (\<open>float\<close>) or 53
  (\<open>double\<close>) binary digits, ties to even. The numbers of the program stay far from the limits of
  the exponents, so overflow and subnormal numbers are left out.
\<close>

section \<open>Rounding\<close>

definition round_half_even :: "rat \<Rightarrow> int" where
  "round_half_even y =
     (let k = \<lfloor>y\<rfloor>; d = y - of_int k
      in if d < 1 / 2 \<or> (d = 1 / 2 \<and> even k) then k else k + 1)"

definition pow2 :: "int \<Rightarrow> rat" where
  "pow2 k = (if 0 \<le> k then 2 ^ nat k else 1 / 2 ^ nat (- k))"

text \<open>The scale at which \<open>x\<close> has \<open>p\<close> digits before the point.\<close>

definition scale :: "nat \<Rightarrow> rat \<Rightarrow> int" where
  "scale p x = (case quotient_of \<bar>x\<bar> of (n, d) \<Rightarrow>
     let k = int p - (bitlen n - bitlen d)
     in if 2 ^ p \<le> \<bar>x\<bar> * pow2 k then k - 1 else k)"

definition fl :: "nat \<Rightarrow> rat \<Rightarrow> rat" where
  "fl p x = (if x = 0 then 0
     else let e = scale p x in of_int (round_half_even (x * pow2 e)) * pow2 (- e))"

abbreviation single :: "rat \<Rightarrow> rat" where "single \<equiv> fl 24"
abbreviation double :: "rat \<Rightarrow> rat" where "double \<equiv> fl 53"

text \<open>The conversion to an integer type truncates.\<close>

definition trunc :: "rat \<Rightarrow> int" where
  "trunc x = (if 0 \<le> x then \<lfloor>x\<rfloor> else \<lceil>x\<rceil>)"

section \<open>Laws\<close>

lemma pow2_pos [simp]: "0 < pow2 k"
  by (simp add: pow2_def)

lemma pow2_nonzero [simp]: "pow2 k \<noteq> 0"
  by (simp add: pow2_def)

lemma pow2_powi: "pow2 k = 2 powi k"
  by (simp add: pow2_def power_int_def power_one_over)

lemma pow2_add: "pow2 (a + b) = pow2 a * pow2 b"
  by (simp add: pow2_powi power_int_add)

lemma pow2_0 [simp]: "pow2 0 = 1"
  by (simp add: pow2_def)

lemma pow2_minus [simp]: "pow2 (- k) * pow2 k = 1" "pow2 k * pow2 (- k) = 1"
  by (simp_all flip: pow2_add)

lemma pow2_cancel [simp]: "a * pow2 k * pow2 (- k) = a"
  by (simp add: mult.assoc)

lemma pow2_nat [simp]: "pow2 (int n) = 2 ^ n"
  by (simp add: pow2_def)

lemma pow2_mono: "a \<le> b \<Longrightarrow> pow2 a \<le> pow2 b"
proof -
  assume "a \<le> b"
  then have "pow2 b = pow2 a * 2 ^ nat (b - a)"
    using pow2_add [of a "b - a"] by (simp add: pow2_def)
  then show ?thesis by simp
qed

lemma round_half_even_floor:
  obtains "round_half_even y = \<lfloor>y\<rfloor>" "y - of_int \<lfloor>y\<rfloor> \<le> 1 / 2"
  | "round_half_even y = \<lfloor>y\<rfloor> + 1" "1 / 2 \<le> y - of_int \<lfloor>y\<rfloor>"
proof (cases "y - of_int \<lfloor>y\<rfloor> < 1 / 2 \<or> (y - of_int \<lfloor>y\<rfloor> = 1 / 2 \<and> even \<lfloor>y\<rfloor>)")
  case True
  then show ?thesis using that(1) by (auto simp: round_half_even_def Let_def)
next
  case False
  then have "1 / 2 \<le> y - of_int \<lfloor>y\<rfloor>" by linarith
  then show ?thesis using that(2) False unfolding round_half_even_def Let_def by simp
qed

lemma floor_bounds: "(of_int \<lfloor>y\<rfloor> :: rat) \<le> y" "y < of_int \<lfloor>y\<rfloor> + 1"
  using floor_correct [of y] by simp_all

lemma rel_below: "k \<le> y \<Longrightarrow> y - k \<le> 1 / 2 \<Longrightarrow> \<bar>k - y\<bar> \<le> 1 / 2" for k y :: rat
  by linarith

lemma rel_above: "y < k + 1 \<Longrightarrow> 1 / 2 \<le> y - k \<Longrightarrow> \<bar>k + 1 - y\<bar> \<le> 1 / 2" for k y :: rat
  by linarith

lemma round_half_even_near: "\<bar>of_int (round_half_even y) - y\<bar> \<le> 1 / 2"
proof (rule round_half_even_floor [of y])
  assume r: "round_half_even y = \<lfloor>y\<rfloor>" "y - of_int \<lfloor>y\<rfloor> \<le> 1 / 2"
  show ?thesis unfolding r(1) by (rule rel_below [OF floor_bounds(1) r(2)])
next
  assume r: "round_half_even y = \<lfloor>y\<rfloor> + 1" "1 / 2 \<le> y - of_int \<lfloor>y\<rfloor>"
  show ?thesis unfolding r(1) of_int_add of_int_1 by (rule rel_above [OF floor_bounds(2) r(2)])
qed

lemma round_half_even_ge:
  assumes "of_int n \<le> y"
  shows "n \<le> round_half_even y"
proof -
  have "y - 1 / 2 \<le> of_int (round_half_even y)"
    using round_half_even_near [of y] by linarith
  then have "(of_int n :: rat) < of_int (round_half_even y + 1)"
    unfolding of_int_add of_int_1 using assms by linarith
  then show ?thesis unfolding of_int_less_iff by simp
qed

lemma round_half_even_le:
  assumes "y \<le> of_int n"
  shows "round_half_even y \<le> n"
proof -
  have "of_int (round_half_even y) \<le> y + 1 / 2"
    using round_half_even_near [of y] by linarith
  then have "(of_int (round_half_even y) :: rat) < of_int (n + 1)"
    unfolding of_int_add of_int_1 using assms by linarith
  then show ?thesis unfolding of_int_less_iff by simp
qed

lemma bitlen_pow2_bounds:
  assumes "0 < n"
  shows "pow2 (bitlen n) / 2 \<le> of_int n" "of_int n < pow2 (bitlen n)"
proof -
  have "0 < bitlen n" using assms by (simp add: bitlen_eq_zero_iff less_le bitlen_nonneg)
  then obtain k where k: "bitlen n = int k + 1" by (metis zless_iff_Suc_zadd add.commute of_nat_Suc add_0)
  have "2 ^ k \<le> n" "n < 2 ^ Suc k" using bitlen_bounds [OF assms] by (simp_all add: k nat_add_distrib)
  then have "(of_int (2 ^ k) :: rat) \<le> of_int n" "(of_int n :: rat) < of_int (2 ^ Suc k)"
    unfolding of_int_le_iff of_int_less_iff by simp_all
  then show "pow2 (bitlen n) / 2 \<le> of_int n" "of_int n < pow2 (bitlen n)"
    using pow2_nat [of "Suc k"] by (simp_all add: k add.commute)
qed

lemma scale_bounds:
  assumes "x \<noteq> 0"
  shows "2 ^ p / 2 \<le> \<bar>x\<bar> * pow2 (scale p x)" "\<bar>x\<bar> * pow2 (scale p x) < 2 ^ p"
proof -
  obtain n d where q: "quotient_of \<bar>x\<bar> = (n, d)" by (cases "quotient_of \<bar>x\<bar>")
  have d: "0 < d" using quotient_of_denom_pos [OF q] .
  have x: "\<bar>x\<bar> = of_int n / of_int d" using quotient_of_div [OF q] .
  have "0 < of_int n / (of_int d :: rat)" unfolding x [symmetric] using assms by simp
  then have n: "0 < n" using d by (simp add: zero_less_divide_iff)
  define k where "k = int p - (bitlen n - bitlen d)"
  have k: "pow2 k = 2 ^ p * pow2 (bitlen d) / pow2 (bitlen n)"
    using pow2_add [of "k" "bitlen n"] pow2_add [of "int p" "bitlen d"]
    by (simp add: k_def eq_divide_eq ac_simps)
  let ?N = "of_int n :: rat" and ?D = "of_int d :: rat" and ?A = "pow2 (bitlen n)" and ?B = "pow2 (bitlen d)"
  have b: "?A / 2 \<le> ?N" "?N < ?A" "?B / 2 \<le> ?D" "?D < ?B" "0 < ?N" "0 < ?D" "0 < ?A"
    using bitlen_pow2_bounds [OF n] bitlen_pow2_bounds [OF d] n d by simp_all
  have v: "\<bar>x\<bar> * pow2 k = 2 ^ p * ((?N / ?A) * (?B / ?D))" by (simp add: x k ac_simps)
  have u: "1 / 2 \<le> ?N / ?A" "?N / ?A < 1" "1 < ?B / ?D" "?B / ?D \<le> 2"
    using b by (simp_all add: field_simps)
  have lo: "1 / 2 \<le> (?N / ?A) * (?B / ?D)" using mult_mono [OF u(1) less_imp_le [OF u(3)]] u by simp
  have "(?N / ?A) * (?B / ?D) < 1 * (?B / ?D)"
    by (rule mult_strict_right_mono [OF u(2)]) (rule less_trans [OF zero_less_one u(3)])
  then have hi: "(?N / ?A) * (?B / ?D) < 2" using u(4) by linarith
  have w: "2 ^ p / 2 \<le> \<bar>x\<bar> * pow2 k" "\<bar>x\<bar> * pow2 k < 2 ^ p * 2"
    unfolding v using mult_left_mono [OF lo, of "2 ^ p"] mult_strict_left_mono [OF hi, of "2 ^ p"] by simp_all
  have sc: "scale p x = (if 2 ^ p \<le> \<bar>x\<bar> * pow2 k then k - 1 else k)"
    by (simp add: scale_def q k_def)
  have h: "pow2 (k - 1) = pow2 k / 2" using pow2_add [of "k - 1" 1] by (simp add: pow2_def)
  show "2 ^ p / 2 \<le> \<bar>x\<bar> * pow2 (scale p x)" "\<bar>x\<bar> * pow2 (scale p x) < 2 ^ p"
    using w by (auto simp: sc h)
qed

text \<open>The error of a rounding is relative.\<close>

lemma fl_near: "\<bar>fl p x - x\<bar> \<le> \<bar>x\<bar> / 2 ^ p"
proof (cases "x = 0")
  case False
  define e where "e = scale p x"
  define r where "r = (of_int (round_half_even (x * pow2 e)) :: rat)"
  have n: "\<bar>r - x * pow2 e\<bar> \<le> 1 / 2" unfolding r_def by (rule round_half_even_near)
  have b: "2 ^ p / 2 \<le> \<bar>x\<bar> * pow2 e" unfolding e_def by (rule scale_bounds [OF False])
  have f: "fl p x = r * pow2 (- e)" by (simp add: fl_def False r_def e_def Let_def)
  have "fl p x - x = (r - x * pow2 e) * pow2 (- e)" by (simp add: f algebra_simps)
  then have "\<bar>fl p x - x\<bar> = \<bar>r - x * pow2 e\<bar> * pow2 (- e)" by (simp add: abs_mult abs_of_pos)
  also have "\<dots> \<le> 1 / 2 * pow2 (- e)" by (rule mult_right_mono [OF n]) (simp add: less_imp_le)
  also have "\<dots> \<le> \<bar>x\<bar> / 2 ^ p"
  proof -
    have "1 / 2 * pow2 (- e) * 2 ^ p \<le> \<bar>x\<bar> * pow2 e * pow2 (- e)"
      using mult_right_mono [OF b, of "pow2 (- e)"] by (simp add: less_imp_le ac_simps)
    then show ?thesis unfolding pow2_cancel by (simp add: pos_le_divide_eq)
  qed
  finally show ?thesis .
qed (simp add: fl_def)

lemma fl_bounds: "0 \<le> x \<Longrightarrow> x - x / 2 ^ p \<le> fl p x" "0 \<le> x \<Longrightarrow> fl p x \<le> x + x / 2 ^ p"
  using fl_near [of p x] by (simp_all add: abs_le_iff)

text \<open>Whole numbers are not stepped over.\<close>

lemma scale_nonneg: "x \<noteq> 0 \<Longrightarrow> \<bar>x\<bar> < 2 ^ p \<Longrightarrow> 0 \<le> scale p x"
proof (rule ccontr)
  assume x: "x \<noteq> 0" "\<bar>x\<bar> < 2 ^ p" and "\<not> 0 \<le> scale p x"
  then have "pow2 (scale p x) \<le> pow2 (- 1)" by (intro pow2_mono) simp
  then have "\<bar>x\<bar> * pow2 (scale p x) \<le> \<bar>x\<bar> * (1 / 2)"
    by (intro mult_left_mono) (simp_all add: pow2_def [of "- 1"])
  then show False using scale_bounds(1) [OF x(1), of p] x(2) by simp
qed

lemma fl_ge_int:
  assumes "\<bar>x\<bar> < 2 ^ p" "of_int n \<le> x"
  shows "of_int n \<le> fl p x"
proof (cases "x = 0")
  case False
  define e where "e = scale p x"
  have "0 \<le> e" unfolding e_def by (rule scale_nonneg [OF False assms(1)])
  then have w: "of_int (n * 2 ^ nat e) = of_int n * pow2 e" by (simp add: pow2_def)
  have "of_int (n * 2 ^ nat e) \<le> x * pow2 e" unfolding w by (rule mult_right_mono [OF assms(2)]) (simp add: less_imp_le)
  then have "n * 2 ^ nat e \<le> round_half_even (x * pow2 e)" by (rule round_half_even_ge)
  then have "of_int n * pow2 e \<le> of_int (round_half_even (x * pow2 e))" unfolding w [symmetric] of_int_le_iff .
  then have "of_int n * pow2 e * pow2 (- e) \<le> of_int (round_half_even (x * pow2 e)) * pow2 (- e)"
    by (rule mult_right_mono) (simp add: less_imp_le)
  then show ?thesis unfolding pow2_cancel by (simp add: fl_def False e_def [symmetric] Let_def)
qed (use assms in \<open>simp add: fl_def\<close>)

lemma fl_le_int:
  assumes "\<bar>x\<bar> < 2 ^ p" "x \<le> of_int n"
  shows "fl p x \<le> of_int n"
proof (cases "x = 0")
  case False
  define e where "e = scale p x"
  have "0 \<le> e" unfolding e_def by (rule scale_nonneg [OF False assms(1)])
  then have w: "of_int (n * 2 ^ nat e) = of_int n * pow2 e" by (simp add: pow2_def)
  have "x * pow2 e \<le> of_int (n * 2 ^ nat e)" unfolding w by (rule mult_right_mono [OF assms(2)]) (simp add: less_imp_le)
  then have "round_half_even (x * pow2 e) \<le> n * 2 ^ nat e" by (rule round_half_even_le)
  then have "of_int (round_half_even (x * pow2 e)) \<le> of_int n * pow2 e" unfolding w [symmetric] of_int_le_iff .
  then have "of_int (round_half_even (x * pow2 e)) * pow2 (- e) \<le> of_int n * pow2 e * pow2 (- e)"
    by (rule mult_right_mono) (simp add: less_imp_le)
  then show ?thesis unfolding pow2_cancel by (simp add: fl_def False e_def [symmetric] Let_def)
qed (use assms in \<open>simp add: fl_def\<close>)

lemma fl_int: "\<bar>of_int n\<bar> < (2 :: rat) ^ p \<Longrightarrow> fl p (of_int n) = of_int n"
  by (intro order_antisym fl_ge_int fl_le_int) simp_all

lemma trunc_int [simp]: "trunc (of_int n) = n"
  by (simp add: trunc_def)

lemma trunc_minus: "trunc (- x) = - trunc x"
  by (simp add: trunc_def ceiling_minus floor_minus)

lemma trunc_near: "\<bar>of_int (trunc x) - x\<bar> < 1"
proof (cases "0 \<le> x")
  case True
  then show ?thesis using floor_correct [of x] by (simp add: trunc_def abs_less_iff)
next
  case False
  then show ?thesis using ceiling_correct [of x] by (simp add: trunc_def abs_less_iff)
qed

section \<open>Relative errors\<close>

definition rel_near :: "rat \<Rightarrow> rat \<Rightarrow> rat \<Rightarrow> bool" where
  "rel_near \<delta> x y \<longleftrightarrow> \<bar>x - y\<bar> \<le> \<delta> * \<bar>y\<bar>"

lemma rel_refl: "rel_near 0 x x"
  by (simp add: rel_near_def)

lemma rel_mono: "rel_near a x y \<Longrightarrow> a \<le> b \<Longrightarrow> rel_near b x y"
  unfolding rel_near_def by (meson abs_ge_zero mult_right_mono order_trans)

lemma rel_abs: "rel_near a x y \<Longrightarrow> \<bar>x\<bar> \<le> (1 + a) * \<bar>y\<bar>"
  unfolding rel_near_def using abs_triangle_ineq2 [of x y] by (simp add: algebra_simps)

lemma rel_fl:
  assumes "rel_near a x y"
  shows "rel_near (a + (1 + a) / 2 ^ p) (fl p x) y"
proof -
  have "\<bar>fl p x - y\<bar> \<le> \<bar>fl p x - x\<bar> + \<bar>x - y\<bar>" using abs_triangle_ineq [of "fl p x - x" "x - y"] by simp
  also have "\<dots> \<le> (1 + a) * \<bar>y\<bar> / 2 ^ p + a * \<bar>y\<bar>"
    using fl_near [of p x] divide_right_mono [OF rel_abs [OF assms], of "2 ^ p"] assms by (simp add: rel_near_def)
  also have "\<dots> = (a + (1 + a) / 2 ^ p) * \<bar>y\<bar>" by (simp add: algebra_simps)
  finally show ?thesis by (simp add: rel_near_def)
qed

lemma rel_mult:
  assumes "rel_near a x y" "rel_near b u v" "0 \<le> a"
  shows "rel_near (a + b + a * b) (x * u) (y * v)"
proof -
  have "x * u - y * v = (x - y) * u + y * (u - v)" by (simp add: algebra_simps)
  then have "\<bar>x * u - y * v\<bar> \<le> \<bar>x - y\<bar> * \<bar>u\<bar> + \<bar>y\<bar> * \<bar>u - v\<bar>"
    using abs_triangle_ineq [of "(x - y) * u" "y * (u - v)"] by (simp add: abs_mult)
  also have "\<dots> \<le> (a * \<bar>y\<bar>) * ((1 + b) * \<bar>v\<bar>) + \<bar>y\<bar> * (b * \<bar>v\<bar>)"
    using assms rel_abs [OF assms(2)] unfolding rel_near_def
    by (intro add_mono mult_mono mult_left_mono) simp_all
  also have "\<dots> = (a + b + a * b) * \<bar>y * v\<bar>" by (simp add: algebra_simps abs_mult)
  finally show ?thesis by (simp add: rel_near_def)
qed

lemma rel_div:
  assumes "rel_near a x y" "rel_near b u v" "0 \<le> a" "0 \<le> b" "b < 1" "v \<noteq> 0"
  shows "rel_near ((a + b) / (1 - b)) (x / u) (y / v)"
proof -
  have "\<bar>v\<bar> - \<bar>u\<bar> \<le> b * \<bar>v\<bar>" using assms(2) abs_triangle_ineq2 [of v u] by (simp add: rel_near_def abs_minus_commute)
  then have u: "(1 - b) * \<bar>v\<bar> \<le> \<bar>u\<bar>" by (simp add: algebra_simps)
  moreover have p: "0 < (1 - b) * \<bar>v\<bar>" using assms by simp
  ultimately have u0: "0 < \<bar>u\<bar>" by linarith
  have "x * v - y * u = (x - y) * v + y * (v - u)" by (simp add: algebra_simps)
  then have "\<bar>x * v - y * u\<bar> \<le> \<bar>x - y\<bar> * \<bar>v\<bar> + \<bar>y\<bar> * \<bar>v - u\<bar>"
    using abs_triangle_ineq [of "(x - y) * v" "y * (v - u)"] by (simp add: abs_mult)
  also have "\<dots> \<le> (a * \<bar>y\<bar>) * \<bar>v\<bar> + \<bar>y\<bar> * (b * \<bar>v\<bar>)"
    using assms unfolding rel_near_def by (intro add_mono mult_right_mono mult_left_mono) (simp_all add: abs_minus_commute)
  finally have n: "\<bar>x * v - y * u\<bar> \<le> (a + b) * \<bar>y\<bar> * \<bar>v\<bar>" by (simp add: algebra_simps)
  have "\<bar>x / u - y / v\<bar> = \<bar>x * v - y * u\<bar> / (\<bar>u\<bar> * \<bar>v\<bar>)"
    using u0 assms(6) by (simp add: diff_frac_eq abs_mult abs_divide)
  also have "\<dots> \<le> ((a + b) * \<bar>y\<bar> * \<bar>v\<bar>) / ((1 - b) * \<bar>v\<bar> * \<bar>v\<bar>)"
    using n u p u0 assms by (intro frac_le mult_right_mono mult_pos_pos mult_nonneg_nonneg) simp_all
  also have "\<dots> = (a + b) / (1 - b) * \<bar>y / v\<bar>"
  proof -
    have "(c * z * w) / ((1 - b) * w * w) = c / (1 - b) * (z / w)" if "w \<noteq> 0" for c z w :: rat
      using that by simp
    from this [of "\<bar>v\<bar>"] show ?thesis using assms(6) by (simp add: abs_divide)
  qed
  finally show ?thesis by (simp add: rel_near_def)
qed

end
