(* ===== verification/Host_Data.thy ===== *)
theory Host_Data
  imports Floats C_Text "HOL-Library.Monad_Syntax"
begin

text \<open>
  \<open>Toolbox.cpp\<close>: the commands the orbiter receives from its host. A message has fields at fixed
  positions; \<open>std::string::substr\<close> and \<open>std::stoi\<close> throw exceptions, which are the value None and
  are all caught. The power of ten in the loudness is the mathematical one; the sums of the speed
  and of the angle are rounded as the code rounds them.
\<close>

section \<open>Data\<close>

record host_data =
  hd_direction :: nat
  hd_speed :: rat
  hd_angularDistance :: rat
  hd_stimulus_nr :: nat
  hd_stimulusDuration :: int
  hd_loudness :: real
  hd_toBeTriggerd :: bool
  hd_mov_queued :: bool
  hd_stim_queued :: bool

definition MAX_STIMULUS_NUMBER :: int where "MAX_STIMULUS_NUMBER = 3"
definition MAX_SPEAKER_NUMBER :: int where "MAX_SPEAKER_NUMBER = 2"

definition vSetHostDataToZero :: host_data where
  "vSetHostDataToZero = \<lparr>hd_direction = 0, hd_speed = 0, hd_angularDistance = 0, hd_stimulus_nr = 0,
     hd_stimulusDuration = 0, hd_loudness = 0, hd_toBeTriggerd = False, hd_mov_queued = False, hd_stim_queued = False\<rparr>"

section \<open>The standard library\<close>

definition substr :: "string \<Rightarrow> nat \<Rightarrow> nat \<Rightarrow> string option" where
  "substr s pos n = (if length s < pos then None else Some (take n (drop pos s)))"

definition stoi :: "string \<Rightarrow> int option" where
  "stoi s = (case scan_number 10 s of
     (None, _) \<Rightarrow> None
   | (Some (neg, v), _) \<Rightarrow>
       let x = (if neg then - int v else int v) in if in_s32 x then Some x else None)"

definition field :: "string \<Rightarrow> nat \<Rightarrow> nat \<Rightarrow> int option" where
  "field msg pos n = Option.bind (substr msg pos n) stoi"

section \<open>Decoding\<close>

definition bCheckForValidity :: "string \<Rightarrow> nat \<Rightarrow> int \<Rightarrow> int \<Rightarrow> int \<Rightarrow> int \<Rightarrow> bool" where
  "bCheckForValidity strHostData speakerID iRealSpeakerID iStimulusNumber iStimulusDuration iAngularDistance \<longleftrightarrow>
     \<not> (length strHostData < (speakerID + 1) * 27 \<or> MAX_SPEAKER_NUMBER < iRealSpeakerID \<or> iRealSpeakerID < 0
       \<or> MAX_STIMULUS_NUMBER < iStimulusNumber \<or> iStimulusNumber \<le> 0
       \<or> (iStimulusDuration = 0 \<and> iAngularDistance = 0))"

text \<open>A number with two decimals: \<open>(1.0f * whole) + (0.01f * hundredths)\<close>.\<close>

definition with_decimals :: "int \<Rightarrow> int \<Rightarrow> rat" where
  "with_decimals whole hundredths =
     single (single (of_int whole) + single (single (1 / 100) * single (of_int hundredths)))"

definition loudness_of :: "int \<Rightarrow> real" where
  "loudness_of vol = 10 powr (of_int (vol - 90) / 20)"

definition decodeHostData :: "string \<Rightarrow> nat \<Rightarrow> host_data" where
  "decodeHostData hostData speakerID =
     (let startIdx = speakerID * 27 in
      case do {
        realSpeakerID \<leftarrow> field hostData (startIdx + 0) 2;
        motorDirection \<leftarrow> field hostData (startIdx + 2) 1;
        speed \<leftarrow> field hostData (startIdx + 3) 3;
        speedDiv100 \<leftarrow> field hostData (startIdx + 7) 2;
        angularDistance \<leftarrow> field hostData (startIdx + 9) 3;
        angularDistanceDiv100 \<leftarrow> field hostData (startIdx + 13) 2;
        queued_mov_nr \<leftarrow> field hostData (startIdx + 15) 1;
        stim_nr \<leftarrow> field hostData (startIdx + 16) 2;
        stim_dur \<leftarrow> field hostData (startIdx + 18) 6;
        stim_vol \<leftarrow> field hostData (startIdx + 24) 2;
        stim_tbt \<leftarrow> field hostData (startIdx + 26) 1;
        queued_stim_nr \<leftarrow> field hostData (startIdx + 27) 1;
        Some (if bCheckForValidity hostData speakerID realSpeakerID stim_nr stim_dur angularDistance
              then \<lparr>hd_direction = nat (motorDirection mod 256), hd_speed = with_decimals speed speedDiv100,
                    hd_angularDistance = with_decimals angularDistance angularDistanceDiv100,
                    hd_stimulus_nr = nat (stim_nr mod 256), hd_stimulusDuration = u32 stim_dur,
                    hd_loudness = loudness_of stim_vol, hd_toBeTriggerd = (stim_tbt \<noteq> 0),
                    hd_mov_queued = (queued_mov_nr = 0), hd_stim_queued = (queued_stim_nr = 0)\<rparr>
              else vSetHostDataToZero)
      } of None \<Rightarrow> vSetHostDataToZero | Some d \<Rightarrow> d)"

section \<open>Messages\<close>

text \<open>The decimal digits of a number, with leading zeros.\<close>

primrec dec :: "nat \<Rightarrow> nat \<Rightarrow> string" where
  "dec 0 n = []"
| "dec (Suc w) n = dec w (n div 10) @ [digit_char (n mod 10)]"

record host_msg =
  m_speaker :: nat
  m_direction :: nat
  m_speed :: nat
  m_speed_dec :: nat
  m_angle :: nat
  m_angle_dec :: nat
  m_mov_flag :: nat
  m_stim :: nat
  m_duration :: nat
  m_volume :: nat
  m_trigger :: nat
  m_stim_flag :: nat

definition host_text :: "host_msg \<Rightarrow> string" where
  "host_text m = dec 2 (m_speaker m) @ dec 1 (m_direction m) @ dec 3 (m_speed m) @ ''.'' @ dec 2 (m_speed_dec m)
     @ dec 3 (m_angle m) @ ''.'' @ dec 2 (m_angle_dec m) @ dec 1 (m_mov_flag m) @ dec 2 (m_stim m)
     @ dec 6 (m_duration m) @ dec 2 (m_volume m) @ dec 1 (m_trigger m) @ dec 1 (m_stim_flag m)"

definition host_msg_ok :: "host_msg \<Rightarrow> bool" where
  "host_msg_ok m \<longleftrightarrow> m_speaker m \<le> 2 \<and> m_direction m \<le> 9 \<and> m_speed m \<le> 999 \<and> m_speed_dec m \<le> 99
     \<and> m_angle m \<le> 999 \<and> m_angle_dec m \<le> 99 \<and> m_mov_flag m \<le> 9 \<and> m_stim m \<in> {1..3}
     \<and> m_duration m \<le> 999999 \<and> m_volume m \<le> 99 \<and> m_trigger m \<le> 9 \<and> m_stim_flag m \<le> 9
     \<and> (m_duration m \<noteq> 0 \<or> m_angle m \<noteq> 0)"

definition host_msg_data :: "host_msg \<Rightarrow> host_data" where
  "host_msg_data m = \<lparr>hd_direction = m_direction m, hd_speed = with_decimals (int (m_speed m)) (int (m_speed_dec m)),
     hd_angularDistance = with_decimals (int (m_angle m)) (int (m_angle_dec m)),
     hd_stimulus_nr = m_stim m, hd_stimulusDuration = int (m_duration m), hd_loudness = loudness_of (int (m_volume m)),
     hd_toBeTriggerd = (m_trigger m \<noteq> 0), hd_mov_queued = (m_mov_flag m = 0), hd_stim_queued = (m_stim_flag m = 0)\<rparr>"

section \<open>Lemmas\<close>

lemma length_dec [simp]: "length (dec w n) = w"
  by (induction w arbitrary: n) simp_all

lemma dec_digits: "c \<in> set (dec w n) \<Longrightarrow> is_digit_of 10 c"
  by (induction w arbitrary: n) (auto simp: is_digit_digit_char)

lemma digits_value_dec: "n < 10 ^ w \<Longrightarrow> digits_value 10 (dec w n) = n"
proof (induction w arbitrary: n)
  case (Suc w)
  then have "n div 10 < 10 ^ w" by (simp add: div_less_iff_less_mult mult.commute)
  with Suc.IH show ?case by (simp add: digits_value_def c_digit_digit_char)
qed (simp add: digits_value_def)

lemma stoi_dec:
  assumes "0 < w" "w \<le> 9" "n < 10 ^ w"
  shows "stoi (dec w n) = Some (int n)"
proof -
  obtain c r where c: "dec w n = c # r" using assms(1) by (cases "dec w n") (auto dest: arg_cong [where f = length])
  have d: "is_digit_of 10 x" if "x \<in> set (c # r)" for x using dec_digits [of x w n] that by (simp add: c)
  have sk: "skip_space (dec w n) = dec w n" using is_digit_chars(1) [OF d [of c]] by (simp add: skip_space_def c)
  have sg: "scan_sign (dec w n) = (False, dec w n)"
    using is_digit_chars(2,3) [OF d [of c]] by (simp add: scan_sign_def c)
  have tk: "takeWhile (is_digit_of 10) (dec w n) = dec w n" "dropWhile (is_digit_of 10) (dec w n) = []"
    using d by (simp_all add: c takeWhile_eq_all_conv dropWhile_eq_Nil_conv)
  have "scan_number 10 (dec w n) = (Some (False, n), [])"
    using arg_cong [OF c, of "\<lambda>s. s = []"]
    by (simp add: scan_number_def sk sg scan_base_def Let_def tk digits_value_dec [OF assms(3)])
  moreover have "n < 10 ^ 9" using assms(2,3) power_increasing [of w 9 "10 :: nat"] by linarith
  ultimately show ?thesis by (simp add: stoi_def in_s32_def)
qed

lemma host_fields:
  assumes "host_msg_ok m"
  shows "field (host_text m @ rest) 0 2 = Some (int (m_speaker m))" "field (host_text m @ rest) 2 1 = Some (int (m_direction m))"
    "field (host_text m @ rest) 3 3 = Some (int (m_speed m))" "field (host_text m @ rest) 7 2 = Some (int (m_speed_dec m))"
    "field (host_text m @ rest) 9 3 = Some (int (m_angle m))" "field (host_text m @ rest) 13 2 = Some (int (m_angle_dec m))"
    "field (host_text m @ rest) 15 1 = Some (int (m_mov_flag m))" "field (host_text m @ rest) 16 2 = Some (int (m_stim m))"
    "field (host_text m @ rest) 18 6 = Some (int (m_duration m))" "field (host_text m @ rest) 24 2 = Some (int (m_volume m))"
    "field (host_text m @ rest) 26 1 = Some (int (m_trigger m))" "field (host_text m @ rest) 27 1 = Some (int (m_stim_flag m))"
  using assms(1) by (simp_all add: host_text_def host_msg_ok_def field_def substr_def stoi_dec del: dec.simps)

lemma length_host_text [simp]: "length (host_text m) = 28"
  by (simp add: host_text_def del: dec.simps)

section \<open>What a message means\<close>

lemma decode_message:
  assumes "host_msg_ok m"
  shows "decodeHostData (host_text m @ rest) 0 = host_msg_data m"
proof -
  have "bCheckForValidity (host_text m @ rest) 0 (int (m_speaker m)) (int (m_stim m)) (int (m_duration m)) (int (m_angle m))"
    using assms by (simp add: bCheckForValidity_def host_msg_ok_def MAX_SPEAKER_NUMBER_def MAX_STIMULUS_NUMBER_def)
  then show ?thesis using assms unfolding decodeHostData_def Let_def mult_0 add_0
    by (simp add: host_fields [OF assms] host_msg_data_def del: One_nat_def) (simp add: host_msg_ok_def u32_def)
qed

text \<open>
  C23: A well-formed message is read as it was written, whatever follows it in the buffer: all twelve
  fields come back, a movement or a stimulus is queued when its flag is 0 and replaces what is
  waiting otherwise.
\<close>

theorem decode_round_trip:
  assumes "host_msg_ok m"
  shows "decodeHostData (host_text m @ rest) 0 = host_msg_data m"
  by (rule decode_message [OF assms])

definition sample_msg :: host_msg where
  "sample_msg = \<lparr>m_speaker = 0, m_direction = 2, m_speed = 12, m_speed_dec = 50, m_angle = 90, m_angle_dec = 75,
     m_mov_flag = 1, m_stim = 3, m_duration = 1500, m_volume = 60, m_trigger = 1, m_stim_flag = 0\<rparr>"

lemma sample_msg_text: "host_text sample_msg = ''002012.50090.7510300150060''  @ ''10''"
  by code_simp

theorem decode_round_trip_witness:
  "hd_stimulusDuration (decodeHostData (''002012.50090.7510300150060'' @ ''10'' @ [newline]) 0) = 1500
   \<and> \<not> hd_mov_queued (decodeHostData (''002012.50090.7510300150060'' @ ''10'' @ [newline]) 0)"
proof -
  have "host_msg_ok sample_msg" by (simp add: host_msg_ok_def sample_msg_def)
  from decode_round_trip [OF this, of "[newline]"] show ?thesis
    by (simp add: sample_msg_text host_msg_data_def) (simp add: sample_msg_def)
qed

section \<open>What is not a command\<close>

lemma field_length:
  assumes "field msg pos n = Some v"
  shows "pos < length msg"
proof (rule ccontr)
  assume "\<not> pos < length msg"
  then have "field msg pos n \<in> {None, stoi []}" by (auto simp: field_def substr_def)
  moreover have "stoi [] = None" by (simp add: stoi_def scan_number_def skip_space_def scan_sign_def scan_base_def)
  ultimately show False using assms by simp
qed

definition valid_data :: "host_data \<Rightarrow> bool" where
  "valid_data d \<longleftrightarrow> d = vSetHostDataToZero \<or> hd_stimulus_nr d \<in> {1..3}"

lemma decode_valid:
  "decodeHostData msg k = vSetHostDataToZero
   \<or> (k * 27 + 27 < length msg \<and> hd_stimulus_nr (decodeHostData msg k) \<in> {1..3})"
proof (cases "field msg (k * 27 + 27) 1")
  case None
  then show ?thesis by (auto simp: decodeHostData_def Let_def simp del: One_nat_def split: option.split bind_split)
next
  case (Some v)
  note l = field_length [OF Some]
  show ?thesis
    using l by (auto simp: decodeHostData_def Let_def bCheckForValidity_def MAX_STIMULUS_NUMBER_def MAX_SPEAKER_NUMBER_def
      simp del: One_nat_def split: option.split bind_split)
qed

section \<open>Degrees\<close>

lemma hundredths_bound:
  assumes "0 \<le> q" "q \<le> 99"
  defines "y \<equiv> single (single (1 / 100) * single (of_int q))"
  shows "0 \<le> y" "y \<le> 9901 / 10000"
proof -
  have s: "0 \<le> single (1 / 100)" "single (1 / 100) \<le> 100001 / 10000000"
    using fl_bounds [of "1 / 100" 24] by simp_all
  have qs: "single (of_int q) = of_int q" using assms(1,2) by (intro fl_int) simp
  have q: "0 \<le> (of_int q :: rat)" "(of_int q :: rat) \<le> 99" using assms(1,2) by simp_all
  define z where "z = single (1 / 100) * of_int q"
  have z: "0 \<le> z" "z \<le> 100001 / 10000000 * 99"
    unfolding z_def using s q mult_mono [OF s(2) q(2)] by simp_all
  have y: "y = single z" by (simp add: y_def qs z_def)
  have "single z \<le> z + z / 2 ^ 24" by (rule fl_bounds(2) [OF z(1)])
  then show "y \<le> 9901 / 10000" using z(2) unfolding y by simp
  have "of_int 0 \<le> single z" using z by (intro fl_ge_int) simp_all
  then show "0 \<le> y" by (simp add: y)
qed

lemma with_decimals_bounds:
  assumes "0 \<le> a" "a \<le> 999" "0 \<le> q" "q \<le> 99"
  shows "of_int a \<le> with_decimals a q" "with_decimals a q < of_int a + 1"
proof -
  define y where "y = single (single (1 / 100) * single (of_int q))"
  have y: "0 \<le> y" "y \<le> 9901 / 10000" unfolding y_def by (rule hundredths_bound [OF assms(3,4)])+
  have a: "0 \<le> (of_int a :: rat)" "(of_int a :: rat) \<le> 999" using assms(1,2) by simp_all
  have "single (of_int a) = of_int a" using assms(1,2) by (intro fl_int) simp
  then have w: "with_decimals a q = single (of_int a + y)" by (simp add: with_decimals_def y_def)
  show "of_int a \<le> with_decimals a q" unfolding w using y a by (intro fl_ge_int) simp_all
  have "single (of_int a + y) \<le> (of_int a + y) + (of_int a + y) / 2 ^ 24"
    using y a by (intro fl_bounds(2)) simp
  then show "with_decimals a q < of_int a + 1" unfolding w using y a by (simp add: field_simps)
qed

lemma with_decimals_trunc:
  assumes "0 \<le> a" "a \<le> 999" "0 \<le> q" "q \<le> 99"
  shows "trunc (with_decimals a q) = a"
proof -
  have "0 \<le> with_decimals a q" using with_decimals_bounds(1) [OF assms] assms(1) order_trans by fastforce
  then show ?thesis using with_decimals_bounds [OF assms] by (simp add: trunc_def floor_eq_iff)
qed

end
