(* ===== verification/Motor.thy ===== *)
theory Motor
  imports Floats
begin

text \<open>
  \<open>cmaxonmotor.cpp\<close>: the motor behind the EPOS2 library of maxon. The library is not part of the
  repository: it is a parameter that answers every call from the history of all calls - whether
  the call succeeds, the flag, the number and the error code it returns. A motor is its handle, its last error code and
  that history. Texts on the console are left out.
\<close>

section \<open>The EPOS library\<close>

datatype epos_call =
    VCS_OpenDevice | VCS_SetProtocolStackSettings int int | VCS_CloseDevice | VCS_CloseAllDevices
  | VCS_GetFaultState | VCS_ClearFault | VCS_GetEnableState | VCS_SetEnableState | VCS_SetDisableState
  | VCS_ResetPositionMarkerCounter | VCS_GetMovementState
  | VCS_ActivateProfilePositionMode | VCS_GetPositionIs | VCS_MoveToPosition int bool bool
  | VCS_HaltPositionMovement | VCS_GetNbOfDeviceError
  | VCS_SetMaxFollowingError int | VCS_GetPositionProfile | VCS_SetPositionProfile int int int
  | VCS_GetDcMotorParameter | VCS_SetDcMotorParameter int int int
  | VCS_GetCurrentIs | VCS_GetAnalogInput int

text \<open>The last call of a history is the one that is answered.\<close>

record epos =
  ep_ok :: "epos_call list \<Rightarrow> bool"
  ep_flag :: "epos_call list \<Rightarrow> bool"
  ep_value :: "epos_call list \<Rightarrow> int"
  ep_profile :: "epos_call list \<Rightarrow> int \<times> int \<times> int"
  ep_code :: "epos_call list \<Rightarrow> int"

record motor =
  mo_handle :: bool
  mo_ErrorCode :: int
  mo_calls :: "epos_call list"

definition do_call :: "epos_call \<Rightarrow> motor \<Rightarrow> motor" where
  "do_call c m = m\<lparr>mo_calls := mo_calls m @ [c]\<rparr>"

text \<open>Calls that get the address of the member \<open>ErrorCode\<close>.\<close>

definition call_code :: "epos \<Rightarrow> epos_call \<Rightarrow> motor \<Rightarrow> motor" where
  "call_code ep c m = (let m = do_call c m in m\<lparr>mo_ErrorCode := ep_code ep (mo_calls m)\<rparr>)"

definition okay :: "epos \<Rightarrow> motor \<Rightarrow> bool" where "okay ep m = ep_ok ep (mo_calls m)"
definition flagged :: "epos \<Rightarrow> motor \<Rightarrow> bool" where "flagged ep m = ep_flag ep (mo_calls m)"

section \<open>Enabling and disabling\<close>

definition EnableDevice :: "epos \<Rightarrow> motor \<Rightarrow> motor" where
  "EnableDevice ep m =
     (let m = do_call VCS_GetFaultState m in
      if \<not> okay ep m then m
      else let IsInFault = flagged ep m;
               m = (if IsInFault then do_call VCS_ClearFault m else m)
           in if IsInFault \<and> \<not> okay ep m then m
              else let m = do_call VCS_GetEnableState m
                   in if okay ep m \<and> \<not> flagged ep m then do_call VCS_SetEnableState m else m)"

definition DisableDevice :: "epos \<Rightarrow> motor \<Rightarrow> motor" where
  "DisableDevice ep m =
     (let m = do_call VCS_GetFaultState m in
      if \<not> okay ep m then m
      else let IsInFault = flagged ep m;
               m = (if IsInFault then do_call VCS_ClearFault m else m)
           in if IsInFault \<and> \<not> okay ep m then m
              else let m = do_call VCS_GetEnableState m
                   in if okay ep m \<and> flagged ep m then do_call VCS_SetDisableState m else m)"

definition closeDevice :: "epos \<Rightarrow> motor \<Rightarrow> motor" where
  "closeDevice ep m =
     (let m = DisableDevice ep m;
          m = (if mo_handle m then do_call VCS_CloseDevice m else m)
      in do_call VCS_CloseAllDevices m)"

definition activate_device :: "epos \<Rightarrow> motor \<Rightarrow> motor" where
  "activate_device ep m =
     (let m = do_call VCS_OpenDevice m;
          m = m\<lparr>mo_handle := okay ep m\<rparr>;
          m = do_call (VCS_SetProtocolStackSettings 1000000 500) m;
          m = (if \<not> okay ep m then closeDevice ep m else m)
      in do_call VCS_ResetPositionMarkerCounter (EnableDevice ep m))"

definition SetPosModeParameter :: "epos \<Rightarrow> motor \<Rightarrow> motor" where
  "SetPosModeParameter ep m =
     (let m = call_code ep (VCS_SetMaxFollowingError 20000) m;
          m = call_code ep VCS_GetPositionProfile m;
          m = call_code ep (VCS_SetPositionProfile 10000 1000 2000) m;
          m = call_code ep VCS_GetDcMotorParameter m
      in call_code ep (VCS_SetDcMotorParameter 1800 2000 40) m)"

definition initializeDevice :: "epos \<Rightarrow> motor \<Rightarrow> motor" where
  "initializeDevice ep m = SetPosModeParameter ep (activate_device ep (closeDevice ep m))"

section \<open>Movements\<close>

definition reachedTarget :: "epos \<Rightarrow> motor \<Rightarrow> bool \<times> motor" where
  "reachedTarget ep m = (let m = do_call VCS_GetMovementState m in (flagged ep m, m))"

text \<open>A relative movement that starts at once.\<close>

definition Move :: "epos \<Rightarrow> int \<Rightarrow> motor \<Rightarrow> motor" where
  "Move ep TargetPosition m =
     (let m = do_call VCS_ActivateProfilePositionMode m;
          m = (if okay ep m
               then do_call (VCS_MoveToPosition TargetPosition False True) (do_call VCS_GetPositionIs m)
               else m)
      in do_call VCS_GetPositionIs m)"

definition getCurrentPosition :: "epos \<Rightarrow> motor \<Rightarrow> int \<times> motor" where
  "getCurrentPosition ep m = (let m = do_call VCS_GetPositionIs m in (ep_value ep (mo_calls m), m))"

definition Halt :: "motor \<Rightarrow> motor" where
  "Halt m = do_call VCS_HaltPositionMovement m"

definition ErrorNbr :: "epos \<Rightarrow> motor \<Rightarrow> int \<times> motor" where
  "ErrorNbr ep m = (let m = do_call VCS_GetNbOfDeviceError m in (ep_value ep (mo_calls m), m))"

text \<open>The velocity is a float that becomes an unsigned number; the other two come from the device.\<close>

definition setSpeed :: "epos \<Rightarrow> rat \<Rightarrow> motor \<Rightarrow> motor" where
  "setSpeed ep speed m =
     (let m = call_code ep VCS_GetPositionProfile m;
          (_, acc, dec) = ep_profile ep (mo_calls m);
          m = call_code ep (VCS_SetPositionProfile (u32 (trunc (single (200 * speed)))) acc dec) m
      in do_call VCS_ActivateProfilePositionMode m)"

definition GetSupply :: "epos \<Rightarrow> motor \<Rightarrow> int \<times> motor" where
  "GetSupply ep m =
     (let m = call_code ep VCS_GetCurrentIs m; m = call_code ep (VCS_GetAnalogInput 1) m
      in (ep_value ep (mo_calls m), m))"

section \<open>What a motor is told\<close>

text \<open>The movements among the calls.\<close>

definition moves_of :: "epos_call list \<Rightarrow> int list" where
  "moves_of cs = List.map_filter (\<lambda>c. case c of VCS_MoveToPosition p _ _ \<Rightarrow> Some p | _ \<Rightarrow> None) cs"

lemma moves_of_simps [simp]: "moves_of [] = []" "moves_of (cs @ ds) = moves_of cs @ moves_of ds"
  "moves_of (c # cs) = (case c of VCS_MoveToPosition p _ _ \<Rightarrow> p # moves_of cs | _ \<Rightarrow> moves_of cs)"
  by (simp_all add: moves_of_def map_filter_def split: epos_call.split)

lemma calls_do_call [simp]: "mo_calls (do_call c m) = mo_calls m @ [c]" "mo_calls (call_code ep c m) = mo_calls m @ [c]"
  "mo_handle (do_call c m) = mo_handle m" "mo_handle (call_code ep c m) = mo_handle m"
  by (simp_all add: do_call_def call_code_def Let_def)

text \<open>
  A device that reports a fault is enabled only after the fault has been cleared: whenever
  \<open>EnableDevice\<close> asks for the enabled state, the fault state was read successfully just before, and
  either there was no fault or \<open>VCS_ClearFault\<close> has succeeded. It is asked for only when the device
  says that it is not enabled yet, and the handle of the motor is left alone.
\<close>

theorem enable_clears_fault:
  assumes "VCS_SetEnableState \<in> set (drop (length (mo_calls m)) (mo_calls (EnableDevice ep m)))"
  shows "let h = mo_calls m @ [VCS_GetFaultState];
             h' = (if ep_flag ep h then h @ [VCS_ClearFault] else h)
         in ep_ok ep h \<and> ep_ok ep h' \<and> ep_ok ep (h' @ [VCS_GetEnableState]) \<and> \<not> ep_flag ep (h' @ [VCS_GetEnableState])
            \<and> mo_calls (EnableDevice ep m) = h' @ [VCS_GetEnableState, VCS_SetEnableState]
            \<and> mo_handle (EnableDevice ep m) = mo_handle m"
  using assms unfolding EnableDevice_def Let_def
  by (auto simp: okay_def flagged_def split: if_splits)

definition faulty_epos :: epos where
  "faulty_epos = \<lparr>ep_ok = (\<lambda>_. True), ep_flag = (\<lambda>h. last h = VCS_GetFaultState), ep_value = (\<lambda>_. 0),
     ep_profile = (\<lambda>_. (0, 0, 0)), ep_code = (\<lambda>_. 0)\<rparr>"

theorem enable_clears_fault_witness:
  "mo_calls (EnableDevice faulty_epos \<lparr>mo_handle = True, mo_ErrorCode = 0, mo_calls = []\<rparr>)
     = [VCS_GetFaultState, VCS_ClearFault, VCS_GetEnableState, VCS_SetEnableState]"
proof -
  let ?m = "\<lparr>mo_handle = True, mo_ErrorCode = 0, mo_calls = []\<rparr> :: motor"
  have "VCS_SetEnableState \<in> set (drop (length (mo_calls ?m)) (mo_calls (EnableDevice faulty_epos ?m)))"
    by (simp add: EnableDevice_def Let_def okay_def flagged_def faulty_epos_def)
  from enable_clears_fault [OF this] show ?thesis by (simp add: Let_def faulty_epos_def)
qed

end
