(* ===== verification/Stimuli.thy ===== *)
theory Stimuli
  imports Host_Data Motor
begin

text \<open>
  \<open>StimuliLibrary.cpp\<close> and \<open>MusicScale.cpp\<close>: the sounds of the orbiter. FMOD is not part of the
  repository: of its answers the code uses the lengths of a sound file, which are a parameter, and
  everything it is told is recorded. A shared pointer is the data it points to: the one field that
  is written through it, \<open>toBeTriggerd\<close>, is read from the hijacked protocol only. \<open>None\<close> stands for
  undefined behaviour: an index outside of a table, or the end of a function without return.
\<close>

section \<open>The scale\<close>

definition note_names :: "string list" where
  "note_names = [''A'', ''A#'', ''B'', ''C'', ''C#'', ''D'', ''D#'', ''E'', ''F'', ''F#'', ''G'', ''G#'']"

definition pitches :: "rat list" where
  "pitches = map single [1, 10594630943592953 / 10 ^ 16, 1122462048309373 / 10 ^ 15, 1189207115002721 / 10 ^ 15,
     12599210498948732 / 10 ^ 16, 13348398541700344 / 10 ^ 16, 14142135623730951 / 10 ^ 16,
     14983070768766815 / 10 ^ 16, 15874010519681994 / 10 ^ 16, 1681792830507429 / 10 ^ 15,
     17817974362806785 / 10 ^ 16, 18877486253633868 / 10 ^ 16]"

definition A_freqs :: "rat list" where
  "A_freqs = [225 / 10, 55, 110, 220, 440, 880, 1760, 3520, 7040]"

definition array_at :: "'a list \<Rightarrow> int \<Rightarrow> 'a option" where
  "array_at xs i = (if 0 \<le> i \<and> i < int (length xs) then Some (xs ! nat i) else None)"

definition getPitch :: "int \<Rightarrow> int \<Rightarrow> rat option" where
  "getPitch octave note =
     (if note < 12
      then do { p \<leftarrow> array_at pitches note; a \<leftarrow> array_at A_freqs octave; Some (single (p * a)) }
      else do { p \<leftarrow> array_at pitches (note mod 12); a \<leftarrow> array_at A_freqs (octave + note div 12); Some (single (p * a)) })"

primrec pitch_of_name :: "int \<Rightarrow> string \<Rightarrow> (string \<times> rat) list \<Rightarrow> rat option" where
  "pitch_of_name octave note [] = Some 0"
| "pitch_of_name octave note (np # nps) =
     (if fst np = note then do { a \<leftarrow> array_at A_freqs octave; Some (single (snd np * a)) }
      else pitch_of_name octave note nps)"

definition getPitch_name :: "int \<Rightarrow> string \<Rightarrow> rat option" where
  "getPitch_name octave note = pitch_of_name octave note (zip note_names pitches)"

section \<open>State\<close>

datatype sound_call =
    SetBypass bool | OscillatorRate rat | PlayDSP | CreateSound nat | SetChannelGroup | PlaySound nat
  | SetVolume real | SetLoopCount int | SetModeNormal | SetModeOff | SetPaused bool | StopChannel | ReleaseSystem
  | CreateSystem | SetDelay int | UpdateSystem

text \<open>The lengths of the sound files, in milliseconds and in samples.\<close>

record sounds =
  so_ms :: "nat \<Rightarrow> int"
  so_samples :: "nat \<Rightarrow> int"

record stimuli =
  sti_queue :: "host_data list"
  sti_hijacked :: "host_data option"
  sti_audio :: nat
  sti_fileLength :: int
  sti_desired :: int
  sti_fraction :: rat
  sti_early_stop :: bool
  sti_calls :: "sound_call list"

definition PLAY_STIMULUS_AS_LONG_AS_MOVEMENT_PENDING :: int where
  "PLAY_STIMULUS_AS_LONG_AS_MOVEMENT_PENDING = 991111"

definition tell :: "sound_call list \<Rightarrow> stimuli \<Rightarrow> stimuli" where
  "tell cs s = s\<lparr>sti_calls := sti_calls s @ cs\<rparr>"

definition updateFSystem :: "stimuli \<Rightarrow> stimuli" where
  "updateFSystem = tell [UpdateSystem]"

definition bGetIsThereAFractionLeftToPlay :: "stimuli \<Rightarrow> bool" where
  "bGetIsThereAFractionLeftToPlay s \<longleftrightarrow> sti_fraction s > double (1 / 10000)"

definition stopStimuli :: "stimuli \<Rightarrow> stimuli" where
  "stopStimuli s = tell [SetModeOff, SetModeOff, SetPaused True, StopChannel, ReleaseSystem, CreateSystem]
     (s\<lparr>sti_early_stop := True\<rparr>)"

section \<open>Loading and playing\<close>

definition bLoadStimuli :: "sounds \<Rightarrow> nat \<Rightarrow> real \<Rightarrow> int \<Rightarrow> stimuli \<Rightarrow> (bool \<times> stimuli) option" where
  "bLoadStimuli so nr volume duration s =
     (let s = tell [SetBypass True] (s\<lparr>sti_desired := duration, sti_fraction := 0\<rparr>) in
      case (if 2 \<le> nr \<and> nr \<le> 60
            then do { pitch \<leftarrow> getPitch 4 (int nr); Some (tell [OscillatorRate pitch, PlayDSP] s) }
            else Some s) of
        None \<Rightarrow> None
      | Some s \<Rightarrow>
          if nr \<in> {1, 2, 3}
          then Some (True, tell [CreateSound nr, SetChannelGroup, PlaySound nr, SetVolume volume] (s\<lparr>sti_audio := nr, sti_fileLength := so_ms so nr\<rparr>))
          else Some (False, tell [SetVolume volume] s))"

definition playStimuli :: "sounds \<Rightarrow> stimuli \<Rightarrow> stimuli" where
  "playStimuli so s =
     (let len = sti_fileLength s; want = sti_desired s;
          s = (if len = 0 then stopStimuli s
               else if len < want then
                 let isLongerFactor = double (of_int want / of_int len);
                     intMultiple = trunc isLongerFactor;
                     isLongerFraction = double (isLongerFactor - of_int intMultiple)
                 in tell [SetLoopCount (intMultiple - 1), SetModeNormal, SetPaused False]
                      (s\<lparr>sti_fraction := isLongerFraction,
                         sti_desired := u32 (trunc (double (isLongerFraction * of_int len)))\<rparr>)
               else if want < len then
                 let perMs = double (of_int (so_samples so (sti_audio s)) / of_int len);
                     samples = trunc (double (perMs * of_int want))
                 in (tell [PlaySound (sti_audio s), SetDelay samples, SetPaused False] s)\<lparr>sti_fraction := 0\<rparr>
               else tell [SetPaused False] s)
      in tell [SetPaused False] s)"

definition vPlayStimulusIfToBeTriggered :: "sounds \<Rightarrow> stimuli \<Rightarrow> stimuli option" where
  "vPlayStimulusIfToBeTriggered so s =
     (case sti_queue s of
        [] \<Rightarrow> None
      | d # rest \<Rightarrow>
          let s = s\<lparr>sti_queue := rest\<rparr> in
          if hd_toBeTriggerd d then
            (case bLoadStimuli so (hd_stimulus_nr d) (hd_loudness d) (hd_stimulusDuration d) s of
               None \<Rightarrow> None
             | Some (valid, s) \<Rightarrow> Some (if valid then playStimuli so s else s))
          else Some s)"

section \<open>Hijacked protocols\<close>

text \<open>
  A stimulus with the duration 991111 plays as long as movements are pending. The first branch has
  no return when the stimulus cannot be loaded.
\<close>

definition bIsStimulusToPlayAsLongAsMovementsPending :: "sounds \<Rightarrow> stimuli \<Rightarrow> (bool \<times> stimuli) option" where
  "bIsStimulusToPlayAsLongAsMovementsPending so s =
     (case sti_hijacked s of
        Some d \<Rightarrow>
          (case bLoadStimuli so (hd_stimulus_nr d) (hd_loudness d) (hd_stimulusDuration d) s of
             None \<Rightarrow> None
           | Some (valid, s) \<Rightarrow>
               if valid then Some (sti_desired s = PLAY_STIMULUS_AS_LONG_AS_MOVEMENT_PENDING, s) else None)
      | None \<Rightarrow>
          (case sti_queue s of
             [] \<Rightarrow> Some (False, s)
           | d # _ \<Rightarrow>
               (case bLoadStimuli so (hd_stimulus_nr d) (hd_loudness d) (hd_stimulusDuration d) s of
                  None \<Rightarrow> None
                | Some (_, s) \<Rightarrow> Some (sti_desired s = PLAY_STIMULUS_AS_LONG_AS_MOVEMENT_PENDING, s))))"

text \<open>The infinite loop is started once; it ends when no movement is left and the target is reached.\<close>

definition hijack_play :: "epos \<Rightarrow> bool \<Rightarrow> motor \<Rightarrow> host_data \<Rightarrow> stimuli \<Rightarrow> stimuli \<times> motor" where
  "hijack_play ep pending m d s =
     (let start = (if hd_toBeTriggerd d
                   then tell [SetModeNormal, SetLoopCount (- 1), SetPaused False] (s\<lparr>sti_hijacked := Some (d\<lparr>hd_toBeTriggerd := False\<rparr>)\<rparr>)
                   else s)
      in if pending then (start, m)
         else case reachedTarget ep m of (reached, m) \<Rightarrow>
           if \<not> reached then (start, m)
           else case reachedTarget ep m of (reached, m) \<Rightarrow>
             if reached then (stopStimuli (s\<lparr>sti_hijacked := None\<rparr>), m) else (s, m))"

definition bAdaptStimulusParametersDueToHijacking ::
    "epos \<Rightarrow> sounds \<Rightarrow> bool \<Rightarrow> motor \<Rightarrow> stimuli \<Rightarrow> (bool \<times> stimuli \<times> motor) option" where
  "bAdaptStimulusParametersDueToHijacking ep so pending m s =
     (case bIsStimulusToPlayAsLongAsMovementsPending so s of
        None \<Rightarrow> None
      | Some (False, s) \<Rightarrow> Some (False, s, m)
      | Some (True, s) \<Rightarrow>
          (case sti_hijacked s of
             Some d \<Rightarrow> Some (True, hijack_play ep pending m d s)
           | None \<Rightarrow>
               (case sti_queue s of
                  [] \<Rightarrow> None
                | d # rest \<Rightarrow>
                    (case bLoadStimuli so (hd_stimulus_nr d) (hd_loudness d) (hd_stimulusDuration d)
                            (s\<lparr>sti_hijacked := Some d, sti_queue := rest\<rparr>) of
                       None \<Rightarrow> None
                     | Some (_, s) \<Rightarrow> Some (True, hijack_play ep pending m d s)))))"

end
