(* ===== verification/Orbiter.thy ===== *)
theory Orbiter
  imports Stimuli State_System
begin

text \<open>
  \<open>main.cpp\<close>: the main loop of the orbiter. Two threads append infrared codes and messages of the
  host to queues; \<open>TimerFunc\<close> takes them, moves the motor and plays the stimuli. The queues are
  handed over atomically. \<open>None\<close> stands for undefined behaviour, except for the writes behind the
  end of \<open>cNumb\<close>, which the flag \<open>ob_overrun\<close> records. Integers are unbounded.
\<close>

section \<open>State\<close>

datatype key = NO_KEY | KEY_1 | KEY_2 | KEY_3 | KEY_4 | KEY_5 | KEY_6 | KEY_7 | KEY_8 | KEY_9 | KEY_0
  | PLAY | STOP | NEXT | PREV | SUB_10 | KEY_VOLUMEUP | KEY_VOLUMEDOWN | KEY_FORWARD | KEY_BACKWARD | CHECK

record orbiter =
  ob_movement_queue :: "host_data list"
  ob_ir_queue :: "string list"
  ob_tcp_queue :: "string list"
  ob_stimuli :: stimuli
  ob_motor :: motor
  ob_iTargetPosition :: int
  ob_iCurrentPosition :: int
  ob_iNumbOffs :: nat
  ob_iAngle :: int
  ob_cNumb :: "nat list"
  ob_cErrorNbr :: int
  ob_cTaste :: key
  ob_old_cTaste :: key
  ob_movement_skip :: bool
  ob_stimuli_skip :: bool
  ob_bIsFirstCall :: bool
  ob_overrun :: bool

record env =
  en_epos :: epos
  en_sounds :: sounds

section \<open>Positions\<close>

definition WHEELPERI :: rat where
  "WHEELPERI = single (double (double (29 / 1000) * double (31415 / 10000)))"

definition RAILPERI :: rat where
  "RAILPERI = single (double (double (22 / 10) * double (31415 / 10000)))"

definition target_position :: "int \<Rightarrow> int" where
  "target_position iAngle =
     trunc (double (double (double (single (65536 * single (of_int iAngle)) / 360) * RAILPERI) / WHEELPERI))"

definition calcTargetPosition :: "orbiter \<Rightarrow> orbiter" where
  "calcTargetPosition st = st\<lparr>ob_iTargetPosition := target_position (ob_iAngle st),
     ob_iNumbOffs := (if ob_iNumbOffs st < 2 then ob_iNumbOffs st + 1 else 0)\<rparr>"

section \<open>Movements\<close>

definition vProcessMovement :: "env \<Rightarrow> orbiter \<Rightarrow> orbiter option" where
  "vProcessMovement en st = (case ob_movement_queue st of
     [] \<Rightarrow> None
   | d # rest \<Rightarrow>
       let st = st\<lparr>ob_movement_queue := rest\<rparr>;
           st = (if hd_direction d = 1 then st\<lparr>ob_iAngle := trunc (hd_angularDistance d)\<rparr> else st);
           st = (if hd_direction d = 2 then st\<lparr>ob_iAngle := trunc (- hd_angularDistance d)\<rparr> else st)
       in if hd_direction d \<noteq> 0
          then let st = calcTargetPosition st
               in Some (st\<lparr>ob_motor := Move (en_epos en) (ob_iTargetPosition st) (setSpeed (en_epos en) (hd_speed d) (ob_motor st))\<rparr>)
          else Some st)"

definition process_movements :: "env \<Rightarrow> orbiter \<Rightarrow> orbiter option" where
  "process_movements en st =
     (if ob_movement_queue st = [] then Some st
      else case reachedTarget (en_epos en) (ob_motor st) of (reached, m) \<Rightarrow>
        let st = st\<lparr>ob_motor := m\<rparr> in
        if reached \<or> ob_movement_skip st then vProcessMovement en st
        else if ob_bIsFirstCall st then vProcessMovement en (st\<lparr>ob_bIsFirstCall := False\<rparr>)
        else Some st)"

section \<open>Messages\<close>

text \<open>Of the messages that have arrived the last one is used; flags say whether it waits or replaces.\<close>

definition process_message :: "string \<Rightarrow> orbiter \<Rightarrow> orbiter" where
  "process_message msg st =
     (if msg = [] then st
      else
        let d = decodeHostData msg 0;
            sti = ob_stimuli st;
            st = (if hd_mov_queued d
                  then st\<lparr>ob_movement_queue := ob_movement_queue st @ [d], ob_movement_skip := False\<rparr>
                  else st\<lparr>ob_movement_queue := [d], ob_movement_skip := True\<rparr>)
        in if hd_stim_queued d
           then st\<lparr>ob_stimuli := sti\<lparr>sti_queue := sti_queue sti @ [d]\<rparr>, ob_stimuli_skip := False\<rparr>
           else st\<lparr>ob_stimuli := sti\<lparr>sti_queue := [d]\<rparr>, ob_stimuli_skip := True\<rparr>)"

definition last_or :: "'a \<Rightarrow> 'a list \<Rightarrow> 'a" where
  "last_or x xs = (if xs = [] then x else last xs)"

section \<open>Stimuli\<close>

definition process_stimuli :: "env \<Rightarrow> orbiter \<Rightarrow> orbiter option" where
  "process_stimuli en st =
     (let s = updateFSystem (ob_stimuli st) in
      case bAdaptStimulusParametersDueToHijacking (en_epos en) (en_sounds en) (ob_movement_queue st \<noteq> []) (ob_motor st) s of
        None \<Rightarrow> None
      | Some (hijacked, s, m) \<Rightarrow>
          let st = st\<lparr>ob_stimuli := s, ob_motor := m\<rparr> in
          if hijacked then Some st
          else if bGetIsThereAFractionLeftToPlay s then Some (st\<lparr>ob_stimuli := playStimuli (en_sounds en) s\<rparr>)
          else if sti_queue s \<noteq> []
               then map_option (\<lambda>s. st\<lparr>ob_stimuli := s\<rparr>) (vPlayStimulusIfToBeTriggered (en_sounds en) s)
               else Some st)"

section \<open>Infrared\<close>

definition contains :: "string \<Rightarrow> string \<Rightarrow> bool" where
  "contains s pat \<longleftrightarrow> list_ex (\<lambda>i. take (length pat) (drop i s) = pat) [0..<length s + 1]"

definition key_table :: "(string \<times> key) list" where
  "key_table = [(''KEY_PLAY'', PLAY), (''check'', CHECK), (''KEY_STOP'', STOP), (''KEY_PREVIOUS'', PREV),
     (''KEY_NEXT'', NEXT), (''KEY_1'', KEY_1), (''KEY_2'', KEY_2), (''KEY_3'', KEY_3), (''KEY_4'', KEY_4),
     (''KEY_5'', KEY_5), (''KEY_6'', KEY_6), (''KEY_7'', KEY_7), (''KEY_8'', KEY_8), (''KEY_9'', KEY_9),
     (''KEY_0'', KEY_0), (''>10'', SUB_10), (''KEY_VOLUMEUP'', KEY_VOLUMEUP), (''KEY_VOLUMEDOWN'', KEY_VOLUMEDOWN),
     (''KEY_BACK'', KEY_BACKWARD), (''KEY_FORWARD'', KEY_FORWARD), (''xx'', NO_KEY)]"

text \<open>The tests follow one another: the last name that occurs wins, and without any the key stays.\<close>

definition key_of :: "string \<Rightarrow> key \<Rightarrow> key" where
  "key_of s old = foldl (\<lambda>k (pat, k'). if contains s pat then k' else k) old key_table"

definition number_key :: "key \<Rightarrow> nat option" where
  "number_key k = map_of [(KEY_1, 1), (KEY_2, 2), (KEY_3, 3), (KEY_4, 4), (KEY_5, 5), (KEY_6, 6), (KEY_7, 7),
     (KEY_8, 8), (KEY_9, 9), (KEY_0, 0)] k"

text \<open>\<open>for (int iii = 0; iii <= 3; iii++) cNumb[iii] = 0\<close>: the array has three elements.\<close>

definition write_cNumb :: "nat \<Rightarrow> nat \<Rightarrow> orbiter \<Rightarrow> orbiter" where
  "write_cNumb i v st =
     (if i < length (ob_cNumb st) then st\<lparr>ob_cNumb := (ob_cNumb st)[i := v]\<rparr> else st\<lparr>ob_overrun := True\<rparr>)"

definition clear_cNumb :: "orbiter \<Rightarrow> orbiter" where
  "clear_cNumb st = fold (\<lambda>i. write_cNumb i 0) [0..<4] st"

definition press_key :: "env \<Rightarrow> key \<Rightarrow> orbiter \<Rightarrow> orbiter" where
  "press_key en k st =
     (case number_key k of
        Some n \<Rightarrow> calcTargetPosition (write_cNumb (ob_iNumbOffs st) n st)
      | None \<Rightarrow>
          if k = PLAY then (clear_cNumb (st\<lparr>ob_motor := Move (en_epos en) (ob_iTargetPosition st) (ob_motor st)\<rparr>))\<lparr>ob_iNumbOffs := 0\<rparr>
          else if k = STOP then clear_cNumb (st\<lparr>ob_motor := Halt (ob_motor st)\<rparr>)
          else if k = PREV then calcTargetPosition (st\<lparr>ob_iAngle := ob_iAngle st - 15\<rparr>)
          else if k = NEXT then calcTargetPosition (st\<lparr>ob_iAngle := ob_iAngle st + 15\<rparr>)
          else if k = SUB_10 then st\<lparr>ob_iTargetPosition := ob_iTargetPosition st + 100000\<rparr>
          else st)"

text \<open>A key acts when it differs from the one before.\<close>

definition process_ir :: "env \<Rightarrow> string \<Rightarrow> orbiter \<Rightarrow> orbiter" where
  "process_ir en s st =
     (let k = key_of s (ob_cTaste st); st = st\<lparr>ob_cTaste := k\<rparr>
      in if ob_old_cTaste st \<noteq> k then (press_key en k st)\<lparr>ob_old_cTaste := k\<rparr> else st)"

section \<open>The main loop\<close>

definition TimerFunc :: "env \<Rightarrow> orbiter \<Rightarrow> orbiter option" where
  "TimerFunc en st =
     (let s = last_or ''xx'' (ob_ir_queue st);
          host_data_raw = last_or [] (ob_tcp_queue st);
          st = process_message host_data_raw (st\<lparr>ob_ir_queue := [], ob_tcp_queue := []\<rparr>)
      in case process_movements en st of
           None \<Rightarrow> None
         | Some st \<Rightarrow> map_option (process_ir en s) (process_stimuli en st))"

definition DisplayFunc :: "env \<Rightarrow> orbiter \<Rightarrow> orbiter" where
  "DisplayFunc en st = st\<lparr>ob_motor := snd (GetSupply (en_epos en) (ob_motor st))\<rparr>"

definition IdleFunc :: "env \<Rightarrow> orbiter \<Rightarrow> orbiter" where
  "IdleFunc en st =
     (case getCurrentPosition (en_epos en) (ob_motor st) of (pos, m) \<Rightarrow>
      case ErrorNbr (en_epos en) m of (nbr, m) \<Rightarrow>
        let m = (if mo_ErrorCode m = 0x34000007 then initializeDevice (en_epos en) m else m);
            m = (if nbr \<noteq> 0 then initializeDevice (en_epos en) m else m)
        in st\<lparr>ob_iCurrentPosition := pos, ob_cErrorNbr := nbr, ob_motor := m\<rparr>)"

definition loop_body :: "env \<Rightarrow> orbiter \<Rightarrow> orbiter option" where
  "loop_body en st = map_option (\<lambda>st. IdleFunc en (DisplayFunc en st)) (TimerFunc en st)"

definition init_stimuli :: stimuli where
  "init_stimuli = \<lparr>sti_queue = [], sti_hijacked = None, sti_audio = 0, sti_fileLength = 0, sti_desired = 0,
     sti_fraction = 0, sti_early_stop = False, sti_calls = []\<rparr>"

definition init_orbiter :: "env \<Rightarrow> orbiter" where
  "init_orbiter en = \<lparr>ob_movement_queue = [], ob_ir_queue = [], ob_tcp_queue = [], ob_stimuli = init_stimuli,
     ob_motor = initializeDevice (en_epos en) \<lparr>mo_handle = False, mo_ErrorCode = 0, mo_calls = []\<rparr>,
     ob_iTargetPosition = 0, ob_iCurrentPosition = 0, ob_iNumbOffs = 0, ob_iAngle = 0, ob_cNumb = [0, 0, 0],
     ob_cErrorNbr = 0, ob_cTaste = NO_KEY, ob_old_cTaste = NO_KEY, ob_movement_skip = False,
     ob_stimuli_skip = False, ob_bIsFirstCall = True, ob_overrun = False\<rparr>"

text \<open>The threads: the receivers append, the main loop runs its body.\<close>

datatype event = Infrared string | Host string | Loop

inductive orbiter_step :: "env \<Rightarrow> orbiter \<Rightarrow> event \<Rightarrow> orbiter \<Rightarrow> bool" for en where
  infrared: "orbiter_step en st (Infrared s) (st\<lparr>ob_ir_queue := ob_ir_queue st @ [s]\<rparr>)"
| host: "orbiter_step en st (Host s) (st\<lparr>ob_tcp_queue := ob_tcp_queue st @ [s]\<rparr>)"
| loop: "loop_body en st = Some st' \<Longrightarrow> orbiter_step en st Loop st'"

abbreviation orbiter_reach :: "env \<Rightarrow> orbiter \<Rightarrow> bool" where
  "orbiter_reach en \<equiv> reaches (init_orbiter en) (orbiter_step en)"

inductive_cases orbiter_stepE: "orbiter_step en st e st'"

end
