(* ===== verification/Orbiter_Spec.thy ===== *)
theory Orbiter_Spec
  imports Orbiter
begin

text \<open>
  What the main loop of the orbiter guarantees: it stays inside of its tables and functions, movements
  run in the order of the host, and positions are exact up to a few increments.
\<close>

section \<open>The invariant\<close>

definition valid_stimulus :: "host_data \<Rightarrow> bool" where
  "valid_stimulus d \<longleftrightarrow> hd_stimulus_nr d \<in> {1, 2, 3}"

definition stimuli_inv :: "stimuli \<Rightarrow> bool" where
  "stimuli_inv s \<longleftrightarrow> (\<forall>d\<in>set (sti_queue s). valid_data d) \<and> (\<forall>d. sti_hijacked s = Some d \<longrightarrow> valid_stimulus d)"

definition orbiter_inv :: "orbiter \<Rightarrow> bool" where
  "orbiter_inv st \<longleftrightarrow> ob_iNumbOffs st \<le> 2 \<and> length (ob_cNumb st) = 3
     \<and> (\<forall>d\<in>set (ob_movement_queue st). valid_data d) \<and> stimuli_inv (ob_stimuli st)"

lemma valid_data_nr: "valid_data d \<Longrightarrow> hd_stimulus_nr d \<le> 3"
  by (auto simp: valid_data_def vSetHostDataToZero_def)

lemma valid_stimulus_data: "valid_stimulus d \<longleftrightarrow> valid_data d \<and> hd_stimulus_nr d \<noteq> 0"
  by (auto simp: valid_stimulus_def valid_data_def vSetHostDataToZero_def)

lemma decode_valid_data: "valid_data (decodeHostData msg k)"
  using decode_valid [of msg k] by (auto simp: valid_data_def)

text \<open>What telling FMOD something does not change.\<close>

lemma tell_simps [simp]:
  "sti_queue (tell cs s) = sti_queue s" "sti_hijacked (tell cs s) = sti_hijacked s" "sti_desired (tell cs s) = sti_desired s"
  "sti_fraction (tell cs s) = sti_fraction s"
  by (simp_all add: tell_def)

lemma stop_simps [simp]: "sti_queue (stopStimuli s) = sti_queue s" "sti_hijacked (stopStimuli s) = sti_hijacked s"
  by (simp_all add: stopStimuli_def)

lemma play_simps [simp]: "sti_queue (playStimuli so s) = sti_queue s" "sti_hijacked (playStimuli so s) = sti_hijacked s"
  by (simp_all add: playStimuli_def Let_def)

lemma getPitch_small: "nr \<le> 3 \<Longrightarrow> 2 \<le> nr \<Longrightarrow> \<exists>p. getPitch 4 (int nr) = Some p"
  by (auto simp: getPitch_def array_at_def pitches_def A_freqs_def)

lemma load_small:
  assumes "nr \<le> 3"
  shows "\<exists>s'. bLoadStimuli so nr volume duration s = Some (nr \<in> {1, 2, 3}, s')
    \<and> sti_queue s' = sti_queue s \<and> sti_hijacked s' = sti_hijacked s \<and> sti_desired s' = duration"
proof -
  have "nr = 0 \<or> nr = 1 \<or> nr = 2 \<or> nr = 3" using assms by linarith
  then show ?thesis using getPitch_small [of nr] by (auto simp: bLoadStimuli_def Let_def)
qed

lemma stimuli_invI: "(\<forall>d\<in>set (sti_queue s). valid_data d) \<Longrightarrow> (\<And>d. sti_hijacked s = Some d \<Longrightarrow> valid_stimulus d) \<Longrightarrow> stimuli_inv s"
  by (simp add: stimuli_inv_def)

lemma stimuli_invD: "stimuli_inv s \<Longrightarrow> d \<in> set (sti_queue s) \<Longrightarrow> hd_stimulus_nr d \<le> 3"
  "stimuli_inv s \<Longrightarrow> sti_hijacked s = Some d \<Longrightarrow> valid_stimulus d"
  by (auto simp: stimuli_inv_def valid_data_nr)

lemma stimuli_inv_same:
  "stimuli_inv s \<Longrightarrow> sti_queue s' = sti_queue s \<Longrightarrow> sti_hijacked s' = sti_hijacked s \<Longrightarrow> stimuli_inv s'"
  by (simp add: stimuli_inv_def)

section \<open>Stimuli\<close>

lemma trigger_returns:
  assumes "stimuli_inv s" "sti_queue s \<noteq> []"
  shows "\<exists>s'. vPlayStimulusIfToBeTriggered so s = Some s' \<and> stimuli_inv s'"
proof -
  obtain d rest where q: "sti_queue s = d # rest" using assms(2) by (cases "sti_queue s") auto
  define s1 where "s1 = s\<lparr>sti_queue := rest\<rparr>"
  have i: "stimuli_inv s1" using assms(1) by (simp add: s1_def stimuli_inv_def q)
  obtain s2 where l: "bLoadStimuli so (hd_stimulus_nr d) (hd_loudness d) (hd_stimulusDuration d) s1
      = Some (hd_stimulus_nr d \<in> {1, 2, 3}, s2)" "sti_queue s2 = sti_queue s1" "sti_hijacked s2 = sti_hijacked s1"
    using load_small [OF stimuli_invD(1) [OF assms(1), of d], of so "hd_loudness d" "hd_stimulusDuration d" s1]
    unfolding q by (meson list.set_intros(1))
  show ?thesis
    using i stimuli_inv_same [OF i l(2,3)] stimuli_inv_same [OF i, of "playStimuli so s2"] l(2,3)
    by (simp add: vPlayStimulusIfToBeTriggered_def q Let_def s1_def [symmetric] l(1))
qed

lemma pending_returns:
  assumes "stimuli_inv s"
  shows "\<exists>b s'. bIsStimulusToPlayAsLongAsMovementsPending so s = Some (b, s') \<and> sti_queue s' = sti_queue s
    \<and> sti_hijacked s' = sti_hijacked s
    \<and> (b \<longrightarrow> sti_hijacked s \<noteq> None \<or> (\<exists>d rest. sti_queue s = d # rest \<and> hd_stimulusDuration d = 991111))"
proof (cases "sti_hijacked s")
  case (Some d)
  have v: "valid_stimulus d" by (rule stimuli_invD(2) [OF assms Some])
  then show ?thesis
    using load_small [of "hd_stimulus_nr d" so "hd_loudness d" "hd_stimulusDuration d" s]
    by (auto simp: bIsStimulusToPlayAsLongAsMovementsPending_def Some valid_stimulus_def)
next
  case None
  show ?thesis
  proof (cases "sti_queue s")
    case Nil
    then show ?thesis by (auto simp: bIsStimulusToPlayAsLongAsMovementsPending_def None)
  next
    case (Cons d rest)
    obtain s' where "bLoadStimuli so (hd_stimulus_nr d) (hd_loudness d) (hd_stimulusDuration d) s
        = Some (hd_stimulus_nr d \<in> {1, 2, 3}, s')" "sti_queue s' = sti_queue s" "sti_hijacked s' = sti_hijacked s"
        "sti_desired s' = hd_stimulusDuration d"
      using load_small [OF stimuli_invD(1) [OF assms, of d], of so "hd_loudness d" "hd_stimulusDuration d" s]
      unfolding Cons by (meson list.set_intros(1))
    then show ?thesis
      by (simp add: bIsStimulusToPlayAsLongAsMovementsPending_def None Cons PLAY_STIMULUS_AS_LONG_AS_MOVEMENT_PENDING_def)
  qed
qed

lemma hijack_play_inv:
  assumes "stimuli_inv s" "valid_stimulus d"
  shows "stimuli_inv (fst (hijack_play ep pending m d s))"
  using assms by (auto simp: hijack_play_def stimuli_inv_def Let_def reachedTarget_def valid_stimulus_def)

lemma adapt_returns:
  assumes "stimuli_inv s"
  shows "\<exists>b s' m'. bAdaptStimulusParametersDueToHijacking ep so pending m s = Some (b, s', m') \<and> stimuli_inv s'"
proof -
  obtain b s1 where p: "bIsStimulusToPlayAsLongAsMovementsPending so s = Some (b, s1)" "sti_queue s1 = sti_queue s"
      "sti_hijacked s1 = sti_hijacked s"
      "b \<longrightarrow> sti_hijacked s \<noteq> None \<or> (\<exists>d rest. sti_queue s = d # rest \<and> hd_stimulusDuration d = 991111)"
    using pending_returns [OF assms] by blast
  have i: "stimuli_inv s1" by (rule stimuli_inv_same [OF assms p(2,3)])
  show ?thesis
  proof (cases b)
    case False
    then show ?thesis using i by (auto simp: bAdaptStimulusParametersDueToHijacking_def p(1))
  next
    case True
    show ?thesis
    proof (cases "sti_hijacked s1")
      case (Some d)
      obtain s2 m2 where h: "hijack_play ep pending m d s1 = (s2, m2)" by (cases "hijack_play ep pending m d s1")
      have "stimuli_inv s2" using hijack_play_inv [OF i stimuli_invD(2) [OF i Some], of ep pending m] by (simp add: h)
      then show ?thesis using True by (auto simp: bAdaptStimulusParametersDueToHijacking_def p(1) Some h)
    next
      case None
      then obtain d rest where q: "sti_queue s1 = d # rest" and dur: "hd_stimulusDuration d = 991111"
        using p True by auto
      have v: "valid_stimulus d"
        using i dur by (auto simp: stimuli_inv_def q valid_stimulus_data vSetHostDataToZero_def valid_data_def)
      define s2 where "s2 = s1\<lparr>sti_hijacked := Some d, sti_queue := rest\<rparr>"
      have i2: "stimuli_inv s2" using i v by (simp add: stimuli_inv_def s2_def q)
      obtain s3 where l: "bLoadStimuli so (hd_stimulus_nr d) (hd_loudness d) (hd_stimulusDuration d) s2
          = Some (hd_stimulus_nr d \<in> {1, 2, 3}, s3)" "sti_queue s3 = sti_queue s2" "sti_hijacked s3 = sti_hijacked s2"
        using load_small [OF stimuli_invD(1) [OF i, of d], of so "hd_loudness d" "hd_stimulusDuration d" s2]
        unfolding q by (meson list.set_intros(1))
      obtain s4 m4 where h: "hijack_play ep pending m d s3 = (s4, m4)" by (cases "hijack_play ep pending m d s3")
      have "stimuli_inv s4" using hijack_play_inv [OF stimuli_inv_same [OF i2 l(2,3)] v, of ep pending m] by (simp add: h)
      then show ?thesis using True None
        by (auto simp: bAdaptStimulusParametersDueToHijacking_def p(1) q s2_def [symmetric] l(1) h)
    qed
  qed
qed

section \<open>The main loop\<close>

lemma stimuli_step:
  assumes "orbiter_inv st"
  shows "\<exists>st'. process_stimuli en st = Some st' \<and> orbiter_inv st' \<and> ob_movement_queue st' = ob_movement_queue st
    \<and> ob_old_cTaste st' = ob_old_cTaste st \<and> ob_cTaste st' = ob_cTaste st \<and> ob_tcp_queue st' = ob_tcp_queue st
    \<and> ob_ir_queue st' = ob_ir_queue st \<and> ob_overrun st' = ob_overrun st"
proof -
  define s where "s = updateFSystem (ob_stimuli st)"
  have i: "stimuli_inv s" using assms by (simp add: s_def updateFSystem_def orbiter_inv_def stimuli_inv_def)
  obtain b s1 m1 where a: "bAdaptStimulusParametersDueToHijacking (en_epos en) (en_sounds en) (ob_movement_queue st \<noteq> []) (ob_motor st) s
      = Some (b, s1, m1)" and i1: "stimuli_inv s1"
    using adapt_returns [OF i] by blast
  have "\<exists>s2. (if b then Some s1 else if bGetIsThereAFractionLeftToPlay s1 then Some (playStimuli (en_sounds en) s1)
      else if sti_queue s1 \<noteq> [] then vPlayStimulusIfToBeTriggered (en_sounds en) s1 else Some s1) = Some s2 \<and> stimuli_inv s2"
    using i1 trigger_returns [OF i1, of "en_sounds en"] stimuli_inv_same [OF i1 play_simps] by auto
  then show ?thesis using assms
    by (auto simp: process_stimuli_def Let_def s_def [symmetric] a orbiter_inv_def split: if_splits)
qed

text \<open>The angle a movement stands for.\<close>

definition angle_of :: "int \<Rightarrow> host_data \<Rightarrow> int" where
  "angle_of old d = (if hd_direction d = 1 then trunc (hd_angularDistance d)
     else if hd_direction d = 2 then trunc (- hd_angularDistance d) else old)"

lemma process_front:
  assumes "ob_movement_queue st = d # rest"
  shows "vProcessMovement en st = Some (let st = st\<lparr>ob_movement_queue := rest\<rparr> in
    if hd_direction d = 0 then st
    else let st = calcTargetPosition (st\<lparr>ob_iAngle := angle_of (ob_iAngle st) d\<rparr>)
         in st\<lparr>ob_motor := Move (en_epos en) (ob_iTargetPosition st) (setSpeed (en_epos en) (hd_speed d) (ob_motor st))\<rparr>)"
  using assms by (simp add: vProcessMovement_def angle_of_def Let_def calcTargetPosition_def)

lemma movement_step:
  assumes "orbiter_inv st"
  shows "\<exists>st'. process_movements en st = Some st' \<and> orbiter_inv st' \<and> ob_stimuli st' = ob_stimuli st
    \<and> ob_old_cTaste st' = ob_old_cTaste st \<and> ob_cTaste st' = ob_cTaste st \<and> ob_tcp_queue st' = ob_tcp_queue st
    \<and> ob_ir_queue st' = ob_ir_queue st \<and> ob_overrun st' = ob_overrun st"
proof (cases "ob_movement_queue st")
  case Nil
  then show ?thesis using assms by (simp add: process_movements_def)
next
  case (Cons d rest)
  obtain reached m where r: "reachedTarget (en_epos en) (ob_motor st) = (reached, m)"
    by (cases "reachedTarget (en_epos en) (ob_motor st)")
  have front: "\<exists>st2. vProcessMovement en st1 = Some st2 \<and> orbiter_inv st2 \<and> ob_stimuli st2 = ob_stimuli st
      \<and> ob_old_cTaste st2 = ob_old_cTaste st \<and> ob_cTaste st2 = ob_cTaste st \<and> ob_tcp_queue st2 = ob_tcp_queue st
      \<and> ob_ir_queue st2 = ob_ir_queue st \<and> ob_overrun st2 = ob_overrun st"
    if "st1 = st\<lparr>ob_motor := m\<rparr> \<or> st1 = st\<lparr>ob_motor := m, ob_bIsFirstCall := False\<rparr>" for st1
    using that assms Cons by (auto simp: process_front [of _ d rest] Let_def calcTargetPosition_def orbiter_inv_def)
  have "orbiter_inv (st\<lparr>ob_motor := m\<rparr>)" using assms by (simp add: orbiter_inv_def)
  then show ?thesis using front [of "st\<lparr>ob_motor := m\<rparr>"] front [of "st\<lparr>ob_motor := m, ob_bIsFirstCall := False\<rparr>"]
    by (auto simp: process_movements_def Cons r Let_def)
qed

lemma message_inv: "orbiter_inv st \<Longrightarrow> orbiter_inv (process_message msg st)"
  by (auto simp: process_message_def orbiter_inv_def stimuli_inv_def Let_def decode_valid_data)

lemma calc_inv: "orbiter_inv st \<Longrightarrow> orbiter_inv (calcTargetPosition st)"
  by (simp add: calcTargetPosition_def orbiter_inv_def)

lemma write_inv: "orbiter_inv st \<Longrightarrow> orbiter_inv (write_cNumb i v st)"
  by (simp add: write_cNumb_def orbiter_inv_def)

lemma clear_inv: "orbiter_inv st \<Longrightarrow> orbiter_inv (clear_cNumb st)"
  by (simp add: clear_cNumb_def write_inv eval_nat_numeral)

lemma motor_inv: "orbiter_inv st \<Longrightarrow> orbiter_inv (st\<lparr>ob_motor := m\<rparr>)"
  by (simp add: orbiter_inv_def)

lemma press_inv: "orbiter_inv st \<Longrightarrow> orbiter_inv (press_key en k st)"
proof -
  assume i: "orbiter_inv st"
  have n: "orbiter_inv (x\<lparr>ob_iNumbOffs := 0\<rparr>)" "orbiter_inv (x\<lparr>ob_iAngle := a\<rparr>)" "orbiter_inv (x\<lparr>ob_iTargetPosition := a\<rparr>)"
    if "orbiter_inv x" for x a using that by (simp_all add: orbiter_inv_def)
  show ?thesis unfolding press_key_def
    by (auto simp: i n calc_inv write_inv clear_inv motor_inv split: option.split)
qed

lemma ir_inv: "orbiter_inv st \<Longrightarrow> orbiter_inv (process_ir en s st)"
proof -
  assume i: "orbiter_inv st"
  define k where "k = key_of s (ob_cTaste st)"
  have "orbiter_inv (st\<lparr>ob_cTaste := k\<rparr>)" using i by (simp add: orbiter_inv_def)
  from this press_inv [OF this, of en k] show ?thesis
    by (simp add: process_ir_def Let_def k_def [symmetric]) (simp add: orbiter_inv_def)
qed

lemma timer_inv:
  assumes "orbiter_inv st"
  shows "\<exists>st'. TimerFunc en st = Some st' \<and> orbiter_inv st'"
proof -
  define st0 where "st0 = process_message (last_or [] (ob_tcp_queue st)) (st\<lparr>ob_ir_queue := [], ob_tcp_queue := []\<rparr>)"
  have "orbiter_inv (st\<lparr>ob_ir_queue := [], ob_tcp_queue := []\<rparr>)" using assms by (simp add: orbiter_inv_def)
  then have "orbiter_inv st0" unfolding st0_def by (rule message_inv)
  then obtain st1 where 1: "process_movements en st0 = Some st1" "orbiter_inv st1" using movement_step by blast
  then obtain st2 where 2: "process_stimuli en st1 = Some st2" "orbiter_inv st2" using stimuli_step by blast
  show ?thesis using ir_inv [OF 2(2)] by (simp add: TimerFunc_def Let_def st0_def [symmetric] 1(1) 2(1))
qed

lemma loop_inv:
  assumes "orbiter_inv st"
  shows "\<exists>st'. loop_body en st = Some st' \<and> orbiter_inv st'"
proof -
  obtain st1 where 1: "TimerFunc en st = Some st1" "orbiter_inv st1" using timer_inv [OF assms] by blast
  have "orbiter_inv (IdleFunc en (DisplayFunc en st1))"
    using 1(2) by (simp add: IdleFunc_def DisplayFunc_def orbiter_inv_def Let_def split: prod.split)
  then show ?thesis by (simp add: loop_body_def 1(1))
qed

lemma init_inv: "orbiter_inv (init_orbiter en)"
  by (simp add: orbiter_inv_def init_orbiter_def init_stimuli_def stimuli_inv_def)

lemma step_inv: "orbiter_inv st \<Longrightarrow> orbiter_step en st e st' \<Longrightarrow> orbiter_inv st'"
  using loop_inv [of st en] by (auto elim!: orbiter_stepE simp: orbiter_inv_def)

interpretation orb: invariant_system "init_orbiter en" "orbiter_step en" orbiter_inv for en
  by unfold_locales (rule init_inv, rule step_inv)


definition sample_epos :: epos where
  "sample_epos = \<lparr>ep_ok = (\<lambda>_. True), ep_flag = (\<lambda>_. True), ep_value = (\<lambda>_. 0), ep_profile = (\<lambda>_. (0, 0, 0)), ep_code = (\<lambda>_. 0)\<rparr>"

definition sample_en :: env where
  "sample_en = \<lparr>en_epos = sample_epos, en_sounds = \<lparr>so_ms = (\<lambda>_. 1000), so_samples = (\<lambda>_. 48000)\<rparr>\<rparr>"


lemma number_key_simps [simp]: "number_key PLAY = None" "number_key STOP = None" "number_key NO_KEY = None"
  by (simp_all add: number_key_def)

lemma overrun_simps [simp]: "ob_overrun (calcTargetPosition st) = ob_overrun st"
  by (simp add: calcTargetPosition_def)

lemma clear_overrun: "length (ob_cNumb st) = 3 \<Longrightarrow> ob_overrun (clear_cNumb st)"
  by (simp add: clear_cNumb_def write_cNumb_def eval_nat_numeral)

lemma press_overrun:
  assumes "orbiter_inv st"
  shows "ob_overrun (press_key en k st) \<longleftrightarrow> ob_overrun st \<or> k \<in> {PLAY, STOP}"
proof (cases "number_key k")
  case None
  then show ?thesis using assms by (auto simp: press_key_def clear_overrun orbiter_inv_def)
next
  case (Some n)
  then have "k \<noteq> PLAY" "k \<noteq> STOP" by auto
  moreover have "ob_iNumbOffs st < length (ob_cNumb st)" using assms by (auto simp: orbiter_inv_def)
  ultimately show ?thesis by (simp add: press_key_def Some write_cNumb_def)
qed

text \<open>
  The array \<open>cNumb\<close> has three elements, and the loops that clear it write a fourth: memory behind
  the array is overwritten exactly when one of the keys PLAY and STOP is pressed anew. Digits stay
  inside in every reachable state.
\<close>

theorem play_and_stop_overrun:
  assumes "orbiter_reach en st"
  shows "ob_overrun (process_ir en s st) \<longleftrightarrow> ob_overrun st
    \<or> (key_of s (ob_cTaste st) \<noteq> ob_old_cTaste st \<and> key_of s (ob_cTaste st) \<in> {PLAY, STOP})"
proof -
  define k where "k = key_of s (ob_cTaste st)"
  have "orbiter_inv (st\<lparr>ob_cTaste := k\<rparr>)" using orb.reaches_inv [OF assms] by (simp add: orbiter_inv_def)
  from press_overrun [OF this, of en k] show ?thesis
    by (simp add: process_ir_def Let_def k_def [symmetric])
qed

lemma sample_keys: "key_of ''0000000000f40bf0 00 KEY_STOP RM-D420'' NO_KEY = STOP"
  by code_simp

theorem play_and_stop_overrun_witness:
  "ob_overrun (process_ir sample_en ''0000000000f40bf0 00 KEY_STOP RM-D420'' (init_orbiter sample_en))"
  using play_and_stop_overrun [OF reaches.start, of sample_en "''0000000000f40bf0 00 KEY_STOP RM-D420''"] sample_keys
  by (simp add: init_orbiter_def)

section \<open>Movements in order\<close>

lemma moves_simps [simp]:
  "moves_of (mo_calls (snd (reachedTarget ep m))) = moves_of (mo_calls m)"
  "moves_of (mo_calls (snd (GetSupply ep m))) = moves_of (mo_calls m)"
  "moves_of (mo_calls (setSpeed ep v m)) = moves_of (mo_calls m)"
  "moves_of (mo_calls (snd (getCurrentPosition ep m))) = moves_of (mo_calls m)"
  "moves_of (mo_calls (snd (ErrorNbr ep m))) = moves_of (mo_calls m)"
  by (simp_all add: reachedTarget_def GetSupply_def setSpeed_def getCurrentPosition_def ErrorNbr_def Let_def split: prod.split)

lemma moves_disable [simp]: "moves_of (mo_calls (DisableDevice ep m)) = moves_of (mo_calls m)"
  "moves_of (mo_calls (EnableDevice ep m)) = moves_of (mo_calls m)"
  by (simp_all add: DisableDevice_def EnableDevice_def Let_def)

lemma moves_close [simp]: "moves_of (mo_calls (closeDevice ep m)) = moves_of (mo_calls m)"
  by (simp add: closeDevice_def Let_def)

lemma moves_initialize [simp]: "moves_of (mo_calls (initializeDevice ep m)) = moves_of (mo_calls m)"
  by (simp add: initializeDevice_def activate_device_def SetPosModeParameter_def Let_def)

lemma moves_move: "ep_ok ep (mo_calls m @ [VCS_ActivateProfilePositionMode])
   \<Longrightarrow> moves_of (mo_calls (Move ep p m)) = moves_of (mo_calls m) @ [p]"
  by (simp add: Move_def Let_def okay_def)

lemma moves_hijack [simp]: "moves_of (mo_calls (snd (hijack_play ep pending m d s))) = moves_of (mo_calls m)"
  by (simp add: hijack_play_def Let_def reachedTarget_def)

lemma moves_adapt:
  "bAdaptStimulusParametersDueToHijacking ep so pending m s = Some (b, s', m') \<Longrightarrow> moves_of (mo_calls m') = moves_of (mo_calls m)"
  using moves_hijack
  by (fastforce simp: bAdaptStimulusParametersDueToHijacking_def split: option.splits bool.splits list.splits prod.splits
      dest: arg_cong [where f = snd])

lemma moves_idle [simp]: "moves_of (mo_calls (ob_motor (IdleFunc en (DisplayFunc en st)))) = moves_of (mo_calls (ob_motor st))"
  "ob_movement_queue (IdleFunc en (DisplayFunc en st)) = ob_movement_queue st"
  by (simp_all add: IdleFunc_def DisplayFunc_def getCurrentPosition_def ErrorNbr_def Let_def)

lemma stimuli_moves: "process_stimuli en st = Some st' \<Longrightarrow> moves_of (mo_calls (ob_motor st')) = moves_of (mo_calls (ob_motor st))"
  by (auto simp: process_stimuli_def Let_def dest: moves_adapt split: option.splits prod.splits if_splits)

lemma no_key: "key_of ''xx'' old = NO_KEY"
  by (simp add: key_of_def key_table_def contains_def upt_rec)

lemma ir_silent: "process_ir en ''xx'' st = st\<lparr>ob_cTaste := NO_KEY, ob_old_cTaste := NO_KEY\<rparr>"
  by (simp add: process_ir_def Let_def no_key press_key_def)

definition motor_follows :: "epos \<Rightarrow> bool" where
  "motor_follows ep \<longleftrightarrow> (\<forall>h. ep_flag ep (h @ [VCS_GetMovementState]) \<and> ep_ok ep (h @ [VCS_ActivateProfilePositionMode]))"

lemma round_moves:
  assumes "orbiter_inv st" "ob_tcp_queue st = []" "ob_ir_queue st = []" "motor_follows (en_epos en)"
    and "ob_movement_queue st = d # rest" "hd_direction d \<in> {1, 2}"
  shows "\<exists>st'. loop_body en st = Some st' \<and> orbiter_inv st' \<and> ob_movement_queue st' = rest \<and> ob_tcp_queue st' = []
    \<and> ob_ir_queue st' = [] \<and> moves_of (mo_calls (ob_motor st')) = moves_of (mo_calls (ob_motor st)) @ [target_position (angle_of 0 d)]"
proof -
  obtain m where r: "reachedTarget (en_epos en) (ob_motor st) = (True, m)" and m: "moves_of (mo_calls m) = moves_of (mo_calls (ob_motor st))"
    using assms(4) by (simp add: reachedTarget_def Let_def flagged_def motor_follows_def)
  have a: "angle_of x d = angle_of 0 d" for x using assms(6) by (auto simp: angle_of_def)
  have ok: "ep_ok (en_epos en) (h @ [VCS_ActivateProfilePositionMode])" for h
    using assms(4) by (simp add: motor_follows_def)
  obtain st1 where 1: "process_movements en st = Some st1" "ob_movement_queue st1 = rest"
      "moves_of (mo_calls (ob_motor st1)) = moves_of (mo_calls (ob_motor st)) @ [target_position (angle_of 0 d)]"
    using assms(5,6) m by (auto simp: process_movements_def r Let_def process_front [of _ d rest] moves_move ok a [of "ob_iAngle st"] calcTargetPosition_def)
  have i1: "orbiter_inv st1" "ob_tcp_queue st1 = []" "ob_ir_queue st1 = []"
    using movement_step [OF assms(1), of en] assms(2,3) 1(1) by auto
  obtain st2 where 2: "process_stimuli en st1 = Some st2" "orbiter_inv st2" "ob_movement_queue st2 = rest"
      "ob_tcp_queue st2 = []" "ob_ir_queue st2 = []"
    using stimuli_step [OF i1(1), of en] i1 1(2) by auto
  have st: "st\<lparr>ob_ir_queue := [], ob_tcp_queue := []\<rparr> = st" using assms(2,3) by simp
  have t: "TimerFunc en st = Some (st2\<lparr>ob_cTaste := NO_KEY, ob_old_cTaste := NO_KEY\<rparr>)"
    by (simp add: TimerFunc_def Let_def assms(2,3) last_or_def process_message_def st 1(1) 2(1) ir_silent)
  let ?st3 = "st2\<lparr>ob_cTaste := NO_KEY, ob_old_cTaste := NO_KEY\<rparr>"
  have "orbiter_inv (IdleFunc en (DisplayFunc en ?st3))" "ob_tcp_queue (IdleFunc en (DisplayFunc en ?st3)) = []"
    "ob_ir_queue (IdleFunc en (DisplayFunc en ?st3)) = []"
    using 2 by (simp_all add: IdleFunc_def DisplayFunc_def orbiter_inv_def Let_def split: prod.split)
  then show ?thesis using 2(3) 1(3) stimuli_moves [OF 2(1)] by (simp add: loop_body_def t)
qed

primrec rounds :: "env \<Rightarrow> nat \<Rightarrow> orbiter \<Rightarrow> orbiter option" where
  "rounds en 0 st = Some st"
| "rounds en (Suc n) st = Option.bind (loop_body en st) (rounds en n)"

text \<open>
  C18: Movements run in the order in which they were queued. When no new input arrives and the motor
  reaches its targets, every round of the main loop starts exactly the next movement: after as
  many rounds as movements are queued all of them have been given to the motor, in order, each with the position
  of its angle, and the queue is empty.
\<close>

theorem movements_in_order:
  assumes "orbiter_inv st" "ob_tcp_queue st = []" "ob_ir_queue st = []" "motor_follows (en_epos en)"
    and "\<forall>d\<in>set (ob_movement_queue st). hd_direction d \<in> {1, 2}"
  shows "\<exists>st'. rounds en (length (ob_movement_queue st)) st = Some st' \<and> ob_movement_queue st' = []
    \<and> moves_of (mo_calls (ob_motor st')) = moves_of (mo_calls (ob_motor st))
        @ map (\<lambda>d. target_position (if hd_direction d = 1 then trunc (hd_angularDistance d) else trunc (- hd_angularDistance d)))
            (ob_movement_queue st)"
proof -
  have "\<exists>st'. rounds en (length ds) st = Some st' \<and> ob_movement_queue st' = []
      \<and> moves_of (mo_calls (ob_motor st')) = moves_of (mo_calls (ob_motor st)) @ map (\<lambda>d. target_position (angle_of 0 d)) ds"
    if "orbiter_inv st" "ob_tcp_queue st = []" "ob_ir_queue st = []" "ob_movement_queue st = ds"
      "\<forall>d\<in>set ds. hd_direction d \<in> {1, 2}" for ds st
    using that
  proof (induction ds arbitrary: st)
    case (Cons d rest)
    obtain st1 where 1: "loop_body en st = Some st1" "orbiter_inv st1" "ob_movement_queue st1 = rest" "ob_tcp_queue st1 = []"
        "ob_ir_queue st1 = []" "moves_of (mo_calls (ob_motor st1)) = moves_of (mo_calls (ob_motor st)) @ [target_position (angle_of 0 d)]"
      using round_moves [OF Cons.prems(1-3) assms(4) Cons.prems(4)] Cons.prems(5) by auto
    show ?case using Cons.IH [OF 1(2,4,5,3)] Cons.prems(5) by (simp add: 1(1,6))
  qed simp
  from this [OF assms(1-3) refl assms(5)] show ?thesis
    using assms(5) by (auto simp: angle_of_def cong: map_cong)
qed

definition sample_waiting :: orbiter where
  "sample_waiting = (init_orbiter sample_en)\<lparr>ob_movement_queue :=
     [host_msg_data sample_msg, host_msg_data (sample_msg\<lparr>m_direction := 1, m_angle := 15\<rparr>)]\<rparr>"

lemma sample_angles: "trunc (with_decimals 90 75) = 90" "trunc (with_decimals 15 75) = 15"
  by (rule with_decimals_trunc; simp)+

theorem movements_in_order_witness:
  "\<exists>st'. rounds sample_en 2 sample_waiting = Some st' \<and> ob_movement_queue st' = []
     \<and> moves_of (mo_calls (ob_motor st')) = [target_position (- 90), target_position 15]"
proof -
  have v: "host_msg_ok sample_msg" "host_msg_ok (sample_msg\<lparr>m_direction := 1, m_angle := 15\<rparr>)"
    by (simp_all add: host_msg_ok_def sample_msg_def)
  have "orbiter_inv sample_waiting"
    using init_inv [of sample_en]
    by (simp add: sample_waiting_def orbiter_inv_def valid_data_def host_msg_data_def) (simp add: sample_msg_def)
  moreover have "ob_tcp_queue sample_waiting = []" "ob_ir_queue sample_waiting = []" "motor_follows (en_epos sample_en)"
    "\<forall>d\<in>set (ob_movement_queue sample_waiting). hd_direction d \<in> {1, 2}"
    by (simp_all add: sample_waiting_def init_orbiter_def motor_follows_def sample_en_def sample_epos_def host_msg_data_def sample_msg_def)
  moreover have "moves_of (mo_calls (ob_motor sample_waiting)) = []"
    by (simp add: sample_waiting_def init_orbiter_def)
  ultimately show ?thesis
    using movements_in_order [of sample_waiting sample_en]
    by (simp add: sample_waiting_def host_msg_data_def trunc_minus) (simp add: sample_msg_def sample_angles trunc_minus numeral_2_eq_2)
qed

section \<open>Messages that are none\<close>

text \<open>
  C40: A text from the host that is no command is not ignored: it is decoded to a record of zeros, whose
  flags ask for an immediate change. All movements that wait are thrown away, and so are the
  messages that came with it; the motor itself is neither moved nor stopped.
\<close>

theorem invalid_message_discards:
  assumes "orbiter_inv st" "ob_tcp_queue st = msgs @ [msg]" "ob_ir_queue st = []" "msg \<noteq> []"
    and "decodeHostData msg 0 = vSetHostDataToZero"
  shows "\<exists>st'. loop_body en st = Some st' \<and> ob_movement_queue st' = []
    \<and> moves_of (mo_calls (ob_motor st')) = moves_of (mo_calls (ob_motor st))"
proof -
  define st0 where "st0 = process_message msg (st\<lparr>ob_ir_queue := [], ob_tcp_queue := []\<rparr>)"
  have 0: "orbiter_inv st0" "ob_movement_queue st0 = [vSetHostDataToZero]" "ob_movement_skip st0" "ob_motor st0 = ob_motor st"
    using message_inv [of "st\<lparr>ob_ir_queue := [], ob_tcp_queue := []\<rparr>" msg] assms(1,4,5)
    by (simp_all add: st0_def process_message_def Let_def orbiter_inv_def) (simp_all add: vSetHostDataToZero_def)
  obtain reached m where r: "reachedTarget (en_epos en) (ob_motor st) = (reached, m)" by (cases "reachedTarget (en_epos en) (ob_motor st)")
  have m: "moves_of (mo_calls m) = moves_of (mo_calls (ob_motor st))"
    using moves_simps(1) [of "en_epos en" "ob_motor st"] by (simp add: r)
  have 1: "process_movements en st0 = Some (st0\<lparr>ob_motor := m, ob_movement_queue := []\<rparr>)"
    by (simp add: process_movements_def 0 r Let_def process_front [of _ vSetHostDataToZero "[]"])
      (simp add: vSetHostDataToZero_def)
  have i: "orbiter_inv (st0\<lparr>ob_motor := m, ob_movement_queue := []\<rparr>)" using 0(1) by (simp add: orbiter_inv_def)
  obtain st2 where 2: "process_stimuli en (st0\<lparr>ob_motor := m, ob_movement_queue := []\<rparr>) = Some st2" "ob_movement_queue st2 = []"
    using stimuli_step [OF i, of en] by auto
  have "moves_of (mo_calls (ob_motor st2)) = moves_of (mo_calls (ob_motor st))"
    using stimuli_moves [OF 2(1)] m by simp
  then show ?thesis
    by (simp add: loop_body_def TimerFunc_def Let_def assms(2,3) last_or_def st0_def [symmetric] 1 2 ir_silent)
qed

lemma short_message_zero: "length msg < 28 \<Longrightarrow> decodeHostData msg 0 = vSetHostDataToZero"
  using decode_valid [of msg 0] by auto

theorem invalid_message_discards_witness:
  "\<exists>st'. loop_body sample_en (sample_waiting\<lparr>ob_tcp_queue := [''001100.00100.00'']\<rparr>) = Some st' \<and> ob_movement_queue st' = []
     \<and> moves_of (mo_calls (ob_motor st')) = []"
proof -
  let ?st = "sample_waiting\<lparr>ob_tcp_queue := [''001100.00100.00'']\<rparr>"
  have "orbiter_inv ?st"
    using init_inv [of sample_en]
    by (simp add: sample_waiting_def orbiter_inv_def valid_data_def host_msg_data_def) (simp add: sample_msg_def)
  moreover have "ob_ir_queue ?st = []" "ob_tcp_queue ?st = [] @ [''001100.00100.00'']" "moves_of (mo_calls (ob_motor ?st)) = []"
    by (simp_all add: sample_waiting_def init_orbiter_def)
  moreover have "decodeHostData ''001100.00100.00'' 0 = vSetHostDataToZero" by (rule short_message_zero) simp
  ultimately show ?thesis using invalid_message_discards [of ?st "[]" "''001100.00100.00''" sample_en] by simp
qed

section \<open>Positions\<close>

text \<open>The number of increments that an angle stands for: the rail and the wheel have the given diameters.\<close>

definition exact_position :: "int \<Rightarrow> rat" where
  "exact_position a = 65536 * of_int a / 360 * (22 / 10 * (31415 / 10000)) / (29 / 1000 * (31415 / 10000))"

lemma near_target:
  assumes "\<bar>a\<bar> < 2 ^ 24"
  shows "rel_near (1 / 2 ^ 22)
    (double (double (double (single (65536 * single (of_int a)) / 360) * RAILPERI) / WHEELPERI)) (exact_position a)"
proof -
  have "\<bar>of_int a :: rat\<bar> < 2 ^ 24" using assms by (simp flip: of_int_abs)
  then have a: "single (of_int a) = of_int a" by (rule fl_int)
  have pi: "rel_near (1 / 2 ^ 53) (double (31415 / 10000)) (31415 / 10000)"
    by (rule rel_mono [OF rel_fl [OF rel_refl]]) simp
  have d: "rel_near (1 / 2 ^ 53) (double x) x" for x
    by (rule rel_mono [OF rel_fl [OF rel_refl]]) simp
  have rail: "rel_near (17 / 2 ^ 28) RAILPERI (22 / 10 * (31415 / 10000))"
    unfolding RAILPERI_def by (rule rel_mono [OF rel_fl [OF rel_fl [OF rel_mult [OF d d]]]]) simp_all
  have wheel: "rel_near (17 / 2 ^ 28) WHEELPERI (29 / 1000 * (31415 / 10000))"
    unfolding WHEELPERI_def by (rule rel_mono [OF rel_fl [OF rel_fl [OF rel_mult [OF d d]]]]) simp_all
  have x: "rel_near (1 / 2 ^ 24) (single (65536 * single (of_int a))) (65536 * of_int a)"
    unfolding a by (rule rel_mono [OF rel_fl [OF rel_refl]]) simp
  have "rel_near (5 / 2 ^ 26) (double (single (65536 * single (of_int a)) / 360)) (65536 * of_int a / 360)"
    by (rule rel_mono [OF rel_fl [OF rel_div [OF x rel_refl]]]) simp_all
  from rel_fl [OF rel_mult [OF this rail]]
  have "rel_near (19 / 2 ^ 27) (double (double (single (65536 * single (of_int a)) / 360) * RAILPERI))
      (65536 * of_int a / 360 * (22 / 10 * (31415 / 10000)))"
    by (rule rel_mono) simp_all
  from rel_fl [OF rel_div [OF this wheel]] show ?thesis
    unfolding exact_position_def by (rule rel_mono) simp_all
qed

text \<open>
  C21: A command moves by whole degrees, and these are kept to a few increments. The hundredths of the
  angle are lost when \<open>iAngle\<close> is set; from there the five roundings of the float arithmetic change
  the position by less than 5 of the 13810 increments of a degree, for all angles of the protocol and
  both directions, and the position fits into an int.
\<close>

theorem target_accuracy:
  assumes "host_msg_ok m" "m_direction m = 1 \<or> m_direction m = 2"
    and "vProcessMovement en (st\<lparr>ob_movement_queue := decodeHostData (host_text m @ rest) 0 # ds\<rparr>) = Some st'"
  shows "ob_iAngle st' = (if m_direction m = 1 then int (m_angle m) else - int (m_angle m))
    \<and> \<bar>of_int (ob_iTargetPosition st') - exact_position (ob_iAngle st')\<bar> < 5
    \<and> in_s32 (ob_iTargetPosition st')"
proof -
  have r: "m_angle m \<le> 999" "m_angle_dec m \<le> 99" using assms(1) by (simp_all add: host_msg_ok_def)
  define a where "a = (if m_direction m = 1 then int (m_angle m) else - int (m_angle m))"
  have t: "trunc (with_decimals (int (m_angle m)) (int (m_angle_dec m))) = int (m_angle m)"
    using r by (intro with_decimals_trunc) simp_all
  have ang: "angle_of (ob_iAngle st) (decodeHostData (host_text m @ rest) 0) = a"
    unfolding decode_message [OF assms(1)]
    using assms(2) by (auto simp: angle_of_def host_msg_data_def trunc_minus t a_def)
  have st': "ob_iAngle st' = a" "ob_iTargetPosition st' = target_position a"
    using assms(2,3) ang
    by (auto simp: process_front [of _ "decodeHostData (host_text m @ rest) 0" ds] decode_message [OF assms(1)]
        host_msg_data_def Let_def calcTargetPosition_def)
  have b: "\<bar>a\<bar> \<le> 999" using r by (simp add: a_def)
  let ?t = "double (double (double (single (65536 * single (of_int a)) / 360) * RAILPERI) / WHEELPERI)"
  have ab: "\<bar>of_int a :: rat\<bar> \<le> 999" using b by (simp flip: of_int_abs)
  have "exact_position a = of_int a * (14417920 / 1044)" by (simp add: exact_position_def)
  then have e: "\<bar>exact_position a\<bar> \<le> 13797000" using ab by (simp add: abs_mult)
  have "\<bar>?t - exact_position a\<bar> \<le> 1 / 2 ^ 22 * \<bar>exact_position a\<bar>"
    using near_target [of a] b by (simp add: rel_near_def)
  then have n: "\<bar>?t - exact_position a\<bar> \<le> 4" using e by simp
  have "\<bar>of_int (target_position a) - ?t\<bar> < 1" unfolding target_position_def by (rule trunc_near)
  with n have p: "\<bar>of_int (target_position a) - exact_position a\<bar> < 5" by linarith
  then have "\<bar>of_int (target_position a) :: rat\<bar> < of_int 14000000" using e by simp
  then have "\<bar>target_position a\<bar> < 14000000" unfolding of_int_abs [symmetric] of_int_less_iff .
  then have "in_s32 (target_position a)" by (auto simp: in_s32_def abs_less_iff)
  with p show ?thesis unfolding st' a_def [symmetric] by simp
qed

theorem target_accuracy_witness:
  "\<exists>st'. vProcessMovement sample_en (sample_waiting\<lparr>ob_movement_queue := [decodeHostData (host_text sample_msg @ []) 0]\<rparr>) = Some st'
    \<and> ob_iAngle st' = - 90 \<and> \<bar>of_int (ob_iTargetPosition st') - exact_position (- 90)\<bar> < 5"
proof -
  have ok: "host_msg_ok sample_msg" by (simp add: host_msg_ok_def sample_msg_def)
  obtain st' where st': "vProcessMovement sample_en (sample_waiting\<lparr>ob_movement_queue := decodeHostData (host_text sample_msg @ []) 0 # []\<rparr>) = Some st'"
    by (simp add: process_front [of _ "decodeHostData (host_text sample_msg) 0" "[]"])
  have d: "m_direction sample_msg = 1 \<or> m_direction sample_msg = 2" by (simp add: sample_msg_def)
  have "m_direction sample_msg \<noteq> 1" "m_angle sample_msg = 90" by (simp_all add: sample_msg_def)
  then show ?thesis using target_accuracy [OF ok d st'] st' by auto
qed

end
