(* ===== verification/Client_Input.thy ===== *)
theory Client_Input
  imports C_Text
begin

text \<open>
  What a client reads from its socket (\<open>lirc_client.c\<close>): \<open>lirc_nextcode\<close>, which cuts the stream of the
  daemon into lines, and \<open>lirc_command_run\<close>, which follows the reply to a command packet. Buffers are
  lists of bytes with a NUL where the code writes one; a pointer into a buffer is an index.
\<close>

section \<open>Sockets and buffers\<close>

definition PACKET_SIZE_nat :: nat where "PACKET_SIZE_nat = 256"

text \<open>
  What the calls of \<open>read\<close> answer, in order; a \<open>read\<close> takes as much of a packet as it has room for.
  After the last packet the socket is closed: \<open>read\<close> returns 0. \<open>Again\<close> is a timeout.
\<close>

datatype read_result = Bytes string | Again | Failed int

fun sock_read :: "nat \<Rightarrow> read_result list \<Rightarrow> read_result \<times> read_result list" where
  "sock_read n [] = (Bytes [], [])"
| "sock_read n (Bytes d # s) = (if length d \<le> n then (Bytes d, s) else (Bytes (take n d), Bytes (drop n d) # s))"
| "sock_read n (x # s) = (x, s)"

abbreviation nul :: char where "nul \<equiv> CHR 0x00"

definition c_str :: "string \<Rightarrow> string" where
  "c_str m = takeWhile (\<lambda>c. c \<noteq> nul) m"

definition poke :: "nat \<Rightarrow> string \<Rightarrow> string \<Rightarrow> string" where
  "poke i xs m = take i m @ xs @ drop (i + length xs) m"

text \<open>\<open>strchr (s, '\n')\<close>, as an index.\<close>

definition line_end :: "string \<Rightarrow> nat option" where
  "line_end m = (if newline \<in> set (c_str m) then Some (length (takeWhile (\<lambda>c. c \<noteq> newline) m)) else None)"

section \<open>The lines of the daemon\<close>

text \<open>
  The static variables of \<open>lirc_nextcode\<close> and \<open>lirc_buffer\<close>. \<open>malloc\<close> and \<open>realloc\<close> give memory with
  arbitrary contents, \<open>junk\<close>.
\<close>

record code_input =
  ci_buffer :: "string option"
  ci_packet_size :: nat
  ci_end_len :: nat

definition code_input_init :: code_input where
  "code_input_init = \<lparr>ci_buffer = None, ci_packet_size = PACKET_SIZE_nat, ci_end_len = 0\<rparr>"

text \<open>\<open>lirc_deinit\<close> releases the buffer; the counters keep their values.\<close>

definition lirc_deinit :: "code_input \<Rightarrow> code_input" where
  "lirc_deinit ci = ci\<lparr>ci_buffer := None\<rparr>"

definition the_buffer :: "(nat \<Rightarrow> string) \<Rightarrow> code_input \<Rightarrow> string" where
  "the_buffer junk ci = (case ci_buffer ci of
     None \<Rightarrow> poke 0 [nul] (junk (ci_packet_size ci + 1))
   | Some m \<Rightarrow> m)"

text \<open>The first line is handed out, and the characters behind it move to the start.\<close>

definition take_code :: "nat \<Rightarrow> string \<Rightarrow> code_input \<Rightarrow> string \<times> code_input" where
  "take_code i m ci = (let rest = c_str (drop (i + 1) m) in
     (take (i + 1) m, ci\<lparr>ci_buffer := Some (poke 0 (rest @ [nul]) m), ci_end_len := length rest\<rparr>))"

text \<open>The buffer grows when it is full.\<close>

definition code_room :: "(nat \<Rightarrow> string) \<Rightarrow> string \<Rightarrow> code_input \<Rightarrow> code_input" where
  "code_room junk m ci =
     (if ci_end_len ci \<ge> ci_packet_size ci
      then ci\<lparr>ci_packet_size := ci_packet_size ci + PACKET_SIZE_nat, ci_buffer := Some (m @ junk PACKET_SIZE_nat)\<rparr>
      else ci\<lparr>ci_buffer := Some m\<rparr>)"

text \<open>
  The result is the return code with the code (None is NULL). The loop runs at most once: after a
  \<open>read\<close> there is a line, or the function returns.
\<close>

definition lirc_nextcode :: "(nat \<Rightarrow> string) \<Rightarrow> code_input \<Rightarrow> read_result list \<Rightarrow> (int \<times> string option) \<times> code_input \<times> read_result list" where
  "lirc_nextcode junk ci sock =
     (let m = the_buffer junk ci in
      case line_end m of
        Some i \<Rightarrow> (case take_code i m ci of (code, ci) \<Rightarrow> ((0, Some code), ci, sock))
      | None \<Rightarrow>
          let ci = code_room junk m ci
          in case sock_read (ci_packet_size ci - ci_end_len ci) sock of
               (Again, sock) \<Rightarrow> ((0, None), ci, sock)
             | (Failed e, sock) \<Rightarrow> ((-1, None), ci, sock)
             | (Bytes d, sock) \<Rightarrow>
                 if d = [] then ((-1, None), ci, sock)
                 else
                   let m = poke (ci_end_len ci) (d @ [nul]) (the_buffer junk ci);
                       ci = ci\<lparr>ci_buffer := Some m, ci_end_len := ci_end_len ci + length d\<rparr>
                   in case line_end m of
                        None \<Rightarrow> ((0, None), ci, sock)
                      | Some i \<Rightarrow> (case take_code i m ci of (code, ci) \<Rightarrow> ((0, Some code), ci, sock)))"

section \<open>Command packets\<close>

datatype packet_state = P_BEGIN | P_MESSAGE | P_STATUS | P_DATA | P_N | P_DATA_N | P_END

record cmd_ctx =
  cc_packet :: string
  cc_buffer :: string
  cc_reply :: string
  cc_head :: nat
  cc_reply_to_stdout :: bool
  cc_next :: "nat option"

definition EIO :: int where "EIO = 5"
definition EAGAIN :: int where "EAGAIN = 11"
definition EPROTO :: int where "EPROTO = 71"
definition EMSGSIZE :: int where "EMSGSIZE = 90"

text \<open>\<open>text\<close> is what the format gives.\<close>

definition lirc_command_init :: "string \<Rightarrow> int \<times> cmd_ctx" where
  "lirc_command_init str =
     (if length str \<ge> PACKET_SIZE_nat then EMSGSIZE else 0,
      \<lparr>cc_packet = take (PACKET_SIZE_nat - 1) str, cc_buffer = replicate (PACKET_SIZE_nat + 1) nul,
       cc_reply = replicate (PACKET_SIZE_nat + 1) nul, cc_head = 0, cc_reply_to_stdout = False, cc_next = None\<rparr>)"

definition lirc_command_reply_to_stdout :: "cmd_ctx \<Rightarrow> cmd_ctx" where
  "lirc_command_reply_to_stdout ctx = ctx\<lparr>cc_reply_to_stdout := True\<rparr>"

definition fill_string :: "cmd_ctx \<Rightarrow> read_result list \<Rightarrow> int \<times> cmd_ctx \<times> read_result list" where
  "fill_string cmd sock = (case sock_read (PACKET_SIZE_nat - cc_head cmd) sock of
     (Again, sock) \<Rightarrow> (EAGAIN, cmd, sock)
   | (Failed e, sock) \<Rightarrow> (e, cmd\<lparr>cc_head := 0\<rparr>, sock)
   | (Bytes d, sock) \<Rightarrow>
       (0, cmd\<lparr>cc_buffer := poke (cc_head cmd) d (cc_buffer cmd), cc_head := cc_head cmd + length d\<rparr>, sock))"

text \<open>
  The rest of the buffer moves to its start; None when \<open>next\<close> is behind \<open>head\<close> and \<open>memmove\<close> is asked
  for a negative number of bytes.
\<close>

definition shift_buffer :: "cmd_ctx \<Rightarrow> cmd_ctx option" where
  "shift_buffer cmd = (case cc_next cmd of
     None \<Rightarrow> Some cmd
   | Some skip \<Rightarrow>
       if skip = 0 then Some cmd
       else if skip > cc_head cmd then None
       else Some (cmd\<lparr>cc_buffer := poke 0 (take (cc_head cmd - skip) (drop skip (cc_buffer cmd)) @ [nul]) (cc_buffer cmd),
             cc_head := cc_head cmd - skip, cc_next := Some 0\<rparr>))"

definition split_line :: "cmd_ctx \<Rightarrow> cmd_ctx" where
  "split_line cmd = (case line_end (cc_buffer cmd) of
     None \<Rightarrow> cmd\<lparr>cc_next := None\<rparr>
   | Some i \<Rightarrow> cmd\<lparr>cc_buffer := poke i [nul] (cc_buffer cmd), cc_next := Some (i + 1)\<rparr>)"

text \<open>On success the string is the one at the start of the buffer.\<close>

definition read_string :: "cmd_ctx \<Rightarrow> read_result list \<Rightarrow> (int \<times> cmd_ctx \<times> read_result list) option" where
  "read_string cmd sock = (case shift_buffer cmd of
     None \<Rightarrow> None
   | Some cmd \<Rightarrow>
       if cc_next cmd = None \<or> line_end (cc_buffer cmd) = None
       then (case fill_string cmd sock of (r, cmd, sock) \<Rightarrow>
              Some (if r > 0 then (r, cmd, sock) else (0, split_line cmd, sock)))
       else Some (0, split_line cmd, sock))"

section \<open>The reply\<close>

record reply_state =
  rs_ctx :: cmd_ctx
  rs_sock :: "read_result list"
  rs_string :: bool
  rs_state :: packet_state
  rs_status :: int
  rs_n :: int
  rs_data_n :: int
  rs_stdout :: string

datatype reply_outcome = Going reply_state | Returned int reply_state | Crashed

definition until_newline :: "string \<Rightarrow> string" where
  "until_newline s = takeWhile (\<lambda>c. c \<noteq> newline) s"

text \<open>\<open>strncasecmp\<close> on as many characters as the string has, and the lengths of the lines.\<close>

definition echoes :: "string \<Rightarrow> string \<Rightarrow> bool" where
  "echoes str packet \<longleftrightarrow> strcasecmp_eq str (take (length str) packet)
     \<and> length (until_newline str) = length (until_newline packet)"

text \<open>\<open>strncpy\<close> with the room behind the reply that is there already, but to its start.\<close>

definition store_reply :: "string \<Rightarrow> string \<Rightarrow> string" where
  "store_reply str reply = (let k = PACKET_SIZE_nat - length (c_str reply)
     in poke 0 (take k (str @ replicate k nul)) reply)"

definition data_line :: "string \<Rightarrow> reply_state \<Rightarrow> reply_state" where
  "data_line str st =
     (let ctx = rs_ctx st in
      (if cc_reply_to_stdout ctx
       then st\<lparr>rs_stdout := rs_stdout st @ (if rs_n st = 0 then [newline] else []) @ str @ [newline]\<rparr>
       else st\<lparr>rs_ctx := ctx\<lparr>cc_reply := store_reply str
              (if rs_n st = 0 then poke 0 [nul] (cc_reply ctx) else cc_reply ctx)\<rparr>\<rparr>)
       \<lparr>rs_n := rs_n st + 1, rs_state := (if u32 (rs_n st + 1) = rs_data_n st then P_END else P_DATA_N)\<rparr>)"

definition reply_line :: "string \<Rightarrow> reply_state \<Rightarrow> reply_outcome" where
  "reply_line str st = (case rs_state st of
     P_BEGIN \<Rightarrow> Going (if strcasecmp_eq str ''BEGIN'' then st\<lparr>rs_state := P_MESSAGE\<rparr> else st)
   | P_MESSAGE \<Rightarrow> Going (if echoes str (cc_packet (rs_ctx st)) then st\<lparr>rs_state := P_STATUS\<rparr>
                          else st\<lparr>rs_state := P_BEGIN\<rparr>)
   | P_STATUS \<Rightarrow>
       if strcasecmp_eq str ''SUCCESS'' then Going (st\<lparr>rs_status := 0, rs_state := P_DATA\<rparr>)
       else if strcasecmp_eq str ''END'' then Returned 0 st
       else if strcasecmp_eq str ''ERROR'' then Going (st\<lparr>rs_status := EIO, rs_state := P_DATA\<rparr>)
       else Returned EPROTO st
   | P_DATA \<Rightarrow>
       if strcasecmp_eq str ''END'' then Returned (rs_status st) st
       else if strcasecmp_eq str ''DATA'' then Going (st\<lparr>rs_state := P_N\<rparr>)
       else Returned EPROTO st
   | P_N \<Rightarrow> (case strtoul 0 str of (v, _, endptr) \<Rightarrow>
       if str = [] \<or> endptr \<noteq> [] then Returned EPROTO (st\<lparr>rs_data_n := v\<rparr>)
       else Going (st\<lparr>rs_data_n := v, rs_state := (if v = 0 then P_END else P_DATA_N)\<rparr>))
   | P_DATA_N \<Rightarrow> Going (data_line str st)
   | P_END \<Rightarrow> if strcasecmp_eq str ''END'' then Returned (rs_status st) st else Returned EPROTO st)"

text \<open>
  One call of \<open>read_string\<close> with what follows. After an error of \<open>read\<close> the string of the round before
  is looked at again.
\<close>

definition reply_step :: "reply_state \<Rightarrow> reply_outcome" where
  "reply_step st = (case read_string (rs_ctx st) (rs_sock st) of
     None \<Rightarrow> Crashed
   | Some (r, ctx, sock) \<Rightarrow>
       let st = st\<lparr>rs_ctx := ctx, rs_sock := sock, rs_string := (rs_string st \<or> r = 0)\<rparr>
       in if r = EAGAIN then Going st
          else if \<not> rs_string st \<or> c_str (cc_buffer ctx) = [] then Returned EPROTO st
          else reply_line (c_str (cc_buffer ctx)) st)"

text \<open>The loop, for at most \<open>n\<close> rounds; it need not end.\<close>

primrec reply_loop :: "nat \<Rightarrow> reply_state \<Rightarrow> reply_outcome" where
  "reply_loop 0 st = Going st"
| "reply_loop (Suc n) st = (case reply_step st of Going st \<Rightarrow> reply_loop n st | x \<Rightarrow> x)"

definition start_reply :: "cmd_ctx \<Rightarrow> read_result list \<Rightarrow> reply_state" where
  "start_reply ctx sock = \<lparr>rs_ctx = ctx, rs_sock = sock, rs_string = False, rs_state = P_BEGIN, rs_status = 0,
     rs_n = 0, rs_data_n = 0, rs_stdout = []\<rparr>"

definition lirc_command_run :: "nat \<Rightarrow> cmd_ctx \<Rightarrow> read_result list \<Rightarrow> reply_outcome" where
  "lirc_command_run n ctx sock = reply_loop n (start_reply ctx sock)"

end
