(* ===== verification/Client_Code.thy ===== *)
theory Client_Code
  imports Client_Input
begin

text \<open>
  The button-to-action machine of the client library (\<open>lirc_client.c\<close>): what the entries of a
  \<open>.lircrc\<close> do with the buttons that \<open>lircd\<close> reports - sequences of buttons, repeats and delays, modes,
  and the strings an entry hands out in turn. The connection to a shared daemon (\<open>sockfd\<close> other than
  -1) is left out.

  A pointer into a list of an entry is an index, NULL is None. \<open>None\<close> as a result stands for an
  execution that follows an invalid pointer: \<open>LIRC_ALL\<close> is the address -1.
\<close>

section \<open>Data\<close>

text \<open>A remote or button \<open>LIRC_ALL\<close> is None.\<close>

record lirc_code =
  lc_remote :: "string option"
  lc_button :: "string option"

record lirc_config_entry =
  le_prog :: "string option"
  le_code :: "lirc_code list"
  le_rep_delay :: int
  le_ign_first_events :: int
  le_rep :: int
  le_config :: "string list"
  le_change_mode :: "string option"
  le_flags :: "32 word"
  le_mode :: "string option"
  le_next_config :: "nat option"
  le_next_code :: "nat option"

record lirc_config =
  lcf_lircrc_class :: "string option"
  lcf_current_mode :: "string option"
  lcf_next :: "nat option"
  lcf_entries :: "lirc_config_entry list"

definition none :: "32 word" where "none = 0x00"
definition once :: "32 word" where "once = 0x01"
definition quit :: "32 word" where "quit = 0x02"
definition mode :: "32 word" where "mode = 0x04"
definition ecno :: "32 word" where "ecno = 0x08"
definition startup_mode :: "32 word" where "startup_mode = 0x10"
definition toggle_reset :: "32 word" where "toggle_reset = 0x20"

definition flag_set :: "lirc_config_entry \<Rightarrow> 32 word \<Rightarrow> bool" where
  "flag_set e f \<longleftrightarrow> le_flags e AND f \<noteq> 0"

section \<open>Repeats\<close>

definition rep_filter :: "lirc_config_entry \<Rightarrow> int \<Rightarrow> bool" where
  "rep_filter scan rep =
     (let rep_delay = s32 (if le_ign_first_events scan \<noteq> 0 then le_ign_first_events scan else le_rep_delay scan);
          delay_start = (if le_ign_first_events scan \<noteq> 0 then 0 else 1)
      in if rep < delay_start then True
         else if le_rep scan = 0 \<and> rep_delay > 0 \<and> rep = rep_delay + delay_start then True
         else if le_rep scan > 0 \<and> rep \<ge> rep_delay + delay_start
              then u32 (rep - (rep_delay + delay_start)) mod le_rep scan = 0
         else False)"

section \<open>Sequences of buttons\<close>

definition names_match :: "string option \<Rightarrow> string \<Rightarrow> bool" where
  "names_match pat s \<longleftrightarrow> (case pat of None \<Rightarrow> True | Some p \<Rightarrow> strcasecmp_eq p s)"

definition code_matches :: "lirc_code \<Rightarrow> string \<Rightarrow> string \<Rightarrow> bool" where
  "code_matches c remote button \<longleftrightarrow> names_match (lc_remote c) remote \<and> names_match (lc_button c) button"

text \<open>Comparing two codes of the entry follows the second name: None when it is \<open>LIRC_ALL\<close>.\<close>

definition same_name :: "string option \<Rightarrow> string option \<Rightarrow> bool option" where
  "same_name prev nxt = (case prev of
     None \<Rightarrow> Some True
   | Some p \<Rightarrow> (case nxt of None \<Rightarrow> None | Some n \<Rightarrow> Some (strcasecmp_eq p n)))"

definition same_code :: "lirc_code \<Rightarrow> lirc_code \<Rightarrow> bool option" where
  "same_code prev nxt = (case same_name (lc_remote prev) (lc_remote nxt) of
     None \<Rightarrow> None
   | Some False \<Rightarrow> Some False
   | Some True \<Rightarrow> same_name (lc_button prev) (lc_button nxt))"

text \<open>The inner loop: do the codes from \<open>next\<close> on, up to \<open>next_code\<close>, start the sequence again?\<close>

primrec starts_again :: "lirc_code list \<Rightarrow> nat \<Rightarrow> nat \<Rightarrow> nat \<Rightarrow> bool option" where
  "starts_again code prev nxt 0 = Some True"
| "starts_again code prev nxt (Suc n) = (case same_code (code ! prev) (code ! nxt) of
     None \<Rightarrow> None
   | Some False \<Rightarrow> Some False
   | Some True \<Rightarrow> starts_again code (Suc prev) (Suc nxt) n)"

text \<open>The outer loop from \<open>codes\<close> to \<open>next_code\<close>, of which \<open>n\<close> rounds are left; the new \<open>next_code\<close>.\<close>

primrec rebase :: "lirc_code list \<Rightarrow> nat \<Rightarrow> string \<Rightarrow> string \<Rightarrow> nat \<Rightarrow> nat option" where
  "rebase code k remote button 0 = Some 0"
| "rebase code k remote button (Suc n) = (case starts_again code 0 (k - n) n of
     None \<Rightarrow> None
   | Some flag \<Rightarrow>
       if flag \<and> code_matches (code ! n) remote button then Some (n + 1)
       else rebase code k remote button n)"

definition lirc_iscode :: "lirc_config_entry \<Rightarrow> string \<Rightarrow> string \<Rightarrow> int \<Rightarrow> (int \<times> lirc_config_entry) option" where
  "lirc_iscode scan remote button rep =
     (if le_code scan = [] then Some (if rep_filter scan rep then 1 else 0, scan)
      else case le_next_code scan of
        None \<Rightarrow> None
      | Some k \<Rightarrow>
          let seq = (1 < length (le_code scan)) in
          if code_matches (le_code scan ! k) remote button then
            let advance = (\<not> seq \<or> rep = 0);
                nxt = (if advance then (if k + 1 < length (le_code scan) then Some (k + 1) else None) else Some k);
                iscode = (if advance \<and> seq then 1 else 0)
            in if nxt = None
               then Some (if seq \<or> rep_filter scan rep then 2 else iscode, scan\<lparr>le_next_code := Some 0\<rparr>)
               else Some (iscode, scan\<lparr>le_next_code := nxt\<rparr>)
          else if rep \<noteq> 0 then Some (0, scan)
          else
            let scan = (if flag_set scan toggle_reset
                        then scan\<lparr>le_next_config := (if le_config scan = [] then None else Some 0)\<rparr> else scan)
            in if k = 0 then Some (0, scan)
               else map_option (\<lambda>j. (0, scan\<lparr>le_next_code := Some j\<rparr>)) (rebase (le_code scan) k remote button k))"

section \<open>Actions\<close>

definition lirc_clearmode :: "lirc_config \<Rightarrow> lirc_config" where
  "lirc_clearmode config = (case lcf_current_mode config of
     None \<Rightarrow> config
   | Some m \<Rightarrow> config\<lparr>lcf_entries := map (\<lambda>e. case le_change_mode e of
         None \<Rightarrow> e
       | Some cm \<Rightarrow> if strcasecmp_eq cm m then e\<lparr>le_flags := le_flags e AND NOT ecno\<rparr> else e) (lcf_entries config),
       lcf_current_mode := None\<rparr>)"

definition set_entry :: "nat \<Rightarrow> lirc_config_entry \<Rightarrow> lirc_config \<Rightarrow> lirc_config" where
  "set_entry i e config = config\<lparr>lcf_entries := (lcf_entries config)[i := e]\<rparr>"

text \<open>\<open>prog\<close> is the name the client has given to \<open>lirc_init\<close>.\<close>

definition lirc_execute :: "string option \<Rightarrow> lirc_config \<Rightarrow> nat \<Rightarrow> string option \<times> lirc_config" where
  "lirc_execute prog config i =
     (let config = (if flag_set (lcf_entries config ! i) mode then lirc_clearmode config else config);
          scan = lcf_entries config ! i;
          do_once = \<not> (le_change_mode scan \<noteq> None \<and> flag_set scan once \<and> flag_set scan ecno);
          config = (case le_change_mode scan of
              None \<Rightarrow> config
            | Some cm \<Rightarrow> config\<lparr>lcf_current_mode := Some cm\<rparr>);
          scan = (if le_change_mode scan \<noteq> None \<and> flag_set scan once then scan\<lparr>le_flags := le_flags scan OR ecno\<rparr> else scan)
      in case le_next_config scan of
           None \<Rightarrow> (None, set_entry i scan config)
         | Some k \<Rightarrow>
             if (case le_prog scan of None \<Rightarrow> False
                 | Some p \<Rightarrow> (case prog of None \<Rightarrow> True | Some q \<Rightarrow> strcasecmp_eq p q)) \<and> do_once
             then (Some (le_config scan ! k),
                   set_entry i (scan\<lparr>le_next_config := (if k + 1 < length (le_config scan) then Some (k + 1) else Some 0)\<rparr>) config)
             else (None, set_entry i scan config))"

text \<open>Does the entry count in the current mode?\<close>

definition mode_matches :: "lirc_config \<Rightarrow> lirc_config_entry \<Rightarrow> bool" where
  "mode_matches config scan \<longleftrightarrow> (case le_mode scan of
     None \<Rightarrow> True
   | Some m \<Rightarrow> (case lcf_current_mode config of None \<Rightarrow> False | Some c \<Rightarrow> strcasecmp_eq m c))"

text \<open>
  The loop over the entries from \<open>i\<close> on, of which \<open>n\<close> are left. The result is the string with the
  program of its entry.
\<close>

primrec scan_entries :: "string option \<Rightarrow> string \<Rightarrow> string \<Rightarrow> int \<Rightarrow> bool \<Rightarrow> (string \<times> string option) option \<Rightarrow> nat \<Rightarrow> nat
    \<Rightarrow> lirc_config \<Rightarrow> ((string \<times> string option) option \<times> lirc_config) option" where
  "scan_entries prog remote button rep quit_happened s 0 i config = Some (s, config)"
| "scan_entries prog remote button rep quit_happened s (Suc n) i config =
     (case lirc_iscode (lcf_entries config ! i) remote button rep of
        None \<Rightarrow> None
      | Some (exec_level, scan) \<Rightarrow>
          let config = set_entry i scan config in
          if exec_level > 0 \<and> mode_matches config scan \<and> \<not> quit_happened then
            (case (if exec_level > 1 then lirc_execute prog config i else (None, config)) of
               (r, config) \<Rightarrow>
                 let s = map_option (\<lambda>x. (x, le_prog scan)) r in
                 if flag_set (lcf_entries config ! i) quit
                 then scan_entries prog remote button rep True s n (i + 1) (config\<lparr>lcf_next := None\<rparr>)
                 else if s \<noteq> None
                 then Some (s, config\<lparr>lcf_next := (if i + 1 < length (lcf_entries config) then Some (i + 1) else None)\<rparr>)
                 else scan_entries prog remote button rep quit_happened s n (i + 1) config)
          else scan_entries prog remote button rep quit_happened s n (i + 1) config)"

text \<open>
  \<open>sscanf (code, "%*x %x ...", &rep)\<close> and the tokens of the line: repeat counter, button and remote.
\<close>

definition scan_rep :: "string \<Rightarrow> int option" where
  "scan_rep code = (case scan_number 16 code of
     (None, _) \<Rightarrow> None
   | (Some _, rest) \<Rightarrow> (case scan_number 16 rest of
       (None, _) \<Rightarrow> None
     | (Some (neg, v), _) \<Rightarrow> Some (s32 (if neg then - int v else int v))))"

definition code_tokens :: "string \<Rightarrow> (string \<times> string) option" where
  "code_tokens code = (case strtok '' '' code of
     None \<Rightarrow> None
   | Some (_, r1) \<Rightarrow> (case strtok '' '' r1 of
       None \<Rightarrow> None
     | Some (_, r2) \<Rightarrow> (case strtok '' '' r2 of
         None \<Rightarrow> None
       | Some (button, r3) \<Rightarrow> (case strtok [newline] r3 of
           None \<Rightarrow> None
         | Some (remote, _) \<Rightarrow> Some (button, remote)))))"

definition restart :: "lirc_config \<Rightarrow> lirc_config" where
  "restart config = config\<lparr>lcf_next := (if lcf_entries config = [] then None else Some 0)\<rparr>"

definition lirc_code2char_internal :: "string option \<Rightarrow> lirc_config \<Rightarrow> string
    \<Rightarrow> ((string \<times> string option) option \<times> lirc_config) option" where
  "lirc_code2char_internal prog config code = (case scan_rep code of
     None \<Rightarrow> Some (None, restart config)
   | Some rep \<Rightarrow> (case code_tokens code of
       None \<Rightarrow> Some (None, config)
     | Some (button, remote) \<Rightarrow>
         (case (case lcf_next config of
                  None \<Rightarrow> Some (None, config)
                | Some i \<Rightarrow> scan_entries prog remote button rep False None (length (lcf_entries config) - i) i config) of
            None \<Rightarrow> None
          | Some (None, config) \<Rightarrow> Some (None, restart config)
          | Some (s, config) \<Rightarrow> Some (s, config))))"

text \<open>
  The public functions; the result is the return code with the string. A line too long for a packet
  is refused before the configuration is looked at.
\<close>

definition cut_newline :: "string \<Rightarrow> string" where
  "cut_newline code = (if newline \<in> set code
     then rev (drop 1 (dropWhile (\<lambda>c. c \<noteq> newline) (rev code))) else code)"

definition lirc_code2char :: "string \<Rightarrow> lirc_config \<Rightarrow> string \<Rightarrow> (int \<times> string option \<times> lirc_config) option" where
  "lirc_code2char prog config code =
     (if fst (lirc_command_init (''CODE '' @ cut_newline code @ [newline])) \<noteq> 0 then Some (-1, None, config)
      else map_option (\<lambda>(s, config). (0, map_option fst s, config)) (lirc_code2char_internal (Some prog) config code))"

definition lirc_code2charprog :: "lirc_config \<Rightarrow> string
    \<Rightarrow> (int \<times> (string \<times> string option) option \<times> lirc_config) option" where
  "lirc_code2charprog config code =
     map_option (\<lambda>(s, config). (0, s, config)) (lirc_code2char_internal None config code)"

definition lirc_getmode :: "lirc_config \<Rightarrow> string option" where
  "lirc_getmode config = lcf_current_mode config"

definition lirc_setmode :: "lirc_config \<Rightarrow> string option \<Rightarrow> string option \<times> lirc_config" where
  "lirc_setmode config m = (m, config\<lparr>lcf_current_mode := m\<rparr>)"

end
