(* ===== verification/Client_Sequence.thy ===== *)
theory Client_Sequence
  imports Client_Code "HOL-Library.Sublist"
begin

text \<open>
  Sequences of buttons: \<open>lirc_iscode\<close> with its rebasing is an incremental matcher, which always keeps
  the longest start of the sequence that the presses so far end with. The first part is about lists,
  the second ties the loops of the code to it.
\<close>

section \<open>The longest start of a pattern that a text ends with\<close>

definition longest_start :: "'a list \<Rightarrow> 'a list \<Rightarrow> nat \<Rightarrow> bool" where
  "longest_start p h k \<longleftrightarrow> k < length p \<and> suffix (take k p) h
     \<and> (\<forall>j. k < j \<and> j < length p \<longrightarrow> \<not> suffix (take j p) h)"

lemma longest_start_Nil: "p \<noteq> [] \<Longrightarrow> longest_start p [] 0"
  by (auto simp: longest_start_def simp del: suffix_snoc)

lemma suffix_take_Suc:
  "j < length p \<Longrightarrow> suffix (take (Suc j) p) (h @ [x]) \<longleftrightarrow> suffix (take j p) h \<and> p ! j = x"
  by (auto simp: take_Suc_conv_app_nth suffix_def)

lemma suffix_eq_drop: "suffix xs ys \<Longrightarrow> xs = drop (length ys - length xs) ys"
  by (auto simp: suffix_def)

lemma suffix_border:
  assumes "suffix (take k p) h" and "j \<le> k" and "k \<le> length p"
  shows "suffix (take j p) h \<longleftrightarrow> take j p = take j (drop (k - j) p)"
proof -
  have "suffix (take j p) h \<longleftrightarrow> suffix (take j p) (take k p)"
    using assms by (auto intro: suffix_order.trans suffix_length_suffix)
  also have "\<dots> \<longleftrightarrow> take j p = drop (k - j) (take k p)"
  proof
    assume "suffix (take j p) (take k p)"
    from suffix_eq_drop [OF this] show "take j p = drop (k - j) (take k p)" using assms(2,3) by (simp add: min_def)
  qed (metis suffix_drop)
  also have "drop (k - j) (take k p) = take j (drop (k - j) p)"
    using assms(2) by (simp add: drop_take)
  finally show ?thesis .
qed

text \<open>The candidates for the fall back, from which the greatest is taken.\<close>

definition restarts :: "'a list \<Rightarrow> nat \<Rightarrow> 'a \<Rightarrow> nat \<Rightarrow> bool" where
  "restarts p k x j \<longleftrightarrow> take j p = take j (drop (k - j) p) \<and> p ! j = x"

definition fall_back :: "'a list \<Rightarrow> nat \<Rightarrow> 'a \<Rightarrow> nat \<Rightarrow> nat \<Rightarrow> bool" where
  "fall_back p k x n m \<longleftrightarrow> m = 0 \<and> (\<forall>j<n. \<not> restarts p k x j)
     \<or> (\<exists>i<n. m = Suc i \<and> restarts p k x i \<and> (\<forall>j. i < j \<and> j < n \<longrightarrow> \<not> restarts p k x j))"

text \<open>What follows a press: the pattern is complete, or the longest start grows or falls back.\<close>

lemma longest_start_full:
  assumes "longest_start p h k"
  shows "suffix p (h @ [x]) \<longleftrightarrow> Suc k = length p \<and> p ! k = x"
proof -
  obtain m where m: "length p = Suc m" using assms by (cases p) (auto simp: longest_start_def)
  then have "suffix p (h @ [x]) \<longleftrightarrow> suffix (take m p) h \<and> p ! m = x"
    using suffix_take_Suc [of m p h x] by simp
  moreover have "suffix (take m p) h \<longleftrightarrow> k = m"
    using assms m by (auto simp: longest_start_def less_Suc_eq)
  ultimately show ?thesis using m by auto
qed

lemma longest_start_grow:
  assumes "longest_start p h k" and "Suc k < length p" and "p ! k = x"
  shows "longest_start p (h @ [x]) (Suc k)"
proof -
  have "\<not> suffix (take j p) (h @ [x])" if "Suc k < j" "j < length p" for j
  proof (cases j)
    case (Suc i)
    then show ?thesis using that assms(1) suffix_take_Suc [of i p h x] by (simp add: longest_start_def)
  qed (use that in simp)
  then show ?thesis using assms by (simp add: longest_start_def suffix_take_Suc del: suffix_snoc)
qed

lemma longest_start_back:
  assumes "longest_start p h k" and "p ! k \<noteq> x"
    and "fall_back p k x k m"
  shows "longest_start p (h @ [x]) m"
proof -
  have k: "k < length p" "suffix (take k p) h" "\<And>j. k < j \<Longrightarrow> j < length p \<Longrightarrow> \<not> suffix (take j p) h"
    using assms(1) by (auto simp: longest_start_def simp del: suffix_snoc)
  have fb: "suffix (take (Suc j) p) (h @ [x]) \<longleftrightarrow> j < k \<and> restarts p k x j"
    if "j < length p" for j
  proof (cases "j < k")
    case True
    then show ?thesis using suffix_border [OF k(2), of j] k(1) by (simp add: suffix_take_Suc that restarts_def del: suffix_snoc)
  next
    case False
    then show ?thesis using k assms(2) that by (cases "j = k") (simp_all add: suffix_take_Suc del: suffix_snoc)
  qed
  have none: "\<not> suffix (take j p) (h @ [x])" if "m < j" "j < length p" for j
    using that assms(3) fb [of "j - 1"] by (cases j) (auto simp: fall_back_def simp del: suffix_snoc)
  show ?thesis
  proof (cases m)
    case 0
    then show ?thesis using none k(1) by (auto simp: longest_start_def simp del: suffix_snoc)
  next
    case (Suc i)
    then have "i < k" "restarts p k x i" using assms(3) by (auto simp: fall_back_def)
    then show ?thesis using fb [of i] none Suc k(1) by (auto simp: longest_start_def simp del: suffix_snoc)
  qed
qed

section \<open>The names of the code\<close>

text \<open>Names count up to case; a pattern without \<open>LIRC_ALL\<close> is a list of pairs of names.\<close>

definition named :: "lirc_code list \<Rightarrow> bool" where
  "named cs \<longleftrightarrow> list_all (\<lambda>c. lc_remote c \<noteq> None \<and> lc_button c \<noteq> None) cs"

definition key_pressed :: "string \<Rightarrow> string \<Rightarrow> string \<times> string" where
  "key_pressed remote button = (map c_tolower remote, map c_tolower button)"

definition pattern_of :: "lirc_code list \<Rightarrow> (string \<times> string) list" where
  "pattern_of cs = map (\<lambda>c. key_pressed (the (lc_remote c)) (the (lc_button c))) cs"

lemma length_pattern [simp]: "length (pattern_of cs) = length cs"
  by (simp add: pattern_of_def)

lemma code_matches_named:
  "named cs \<Longrightarrow> k < length cs \<Longrightarrow> code_matches (cs ! k) remote button \<longleftrightarrow> pattern_of cs ! k = key_pressed remote button"
  by (auto simp: named_def list_all_length code_matches_def names_match_def strcasecmp_eq_def pattern_of_def key_pressed_def)

lemma same_name_Some: "a \<noteq> None \<Longrightarrow> b \<noteq> None \<Longrightarrow> same_name a b = Some (map c_tolower (the a) = map c_tolower (the b))"
  by (auto simp: same_name_def strcasecmp_eq_def)

lemma same_code_named:
  "named cs \<Longrightarrow> i < length cs \<Longrightarrow> j < length cs \<Longrightarrow> same_code (cs ! i) (cs ! j) = Some (pattern_of cs ! i = pattern_of cs ! j)"
  by (simp add: named_def list_all_length same_code_def same_name_Some pattern_of_def key_pressed_def del: not_None_eq
      split: bool.split)

lemma take_drop_Suc: "a < length p \<Longrightarrow> take (Suc n) (drop a p) = p ! a # take n (drop (Suc a) p)"
  by (simp add: Cons_nth_drop_Suc [symmetric])

lemma starts_again_named:
  "named cs \<Longrightarrow> a + n \<le> length cs \<Longrightarrow> b + n \<le> length cs \<Longrightarrow>
   starts_again cs a b n = Some (take n (drop a (pattern_of cs)) = take n (drop b (pattern_of cs)))"
proof (induction n arbitrary: a b)
  case (Suc n)
  then show ?case by (auto simp: same_code_named take_drop_Suc simp del: take_Suc split: bool.split)
qed simp

lemma rebase_named:
  assumes "named cs" and "k < length cs" and "n \<le> k"
  shows "\<exists>m. rebase cs k remote button n = Some m \<and> fall_back (pattern_of cs) k (key_pressed remote button) n m"
  using assms(3)
proof (induction n)
  case (Suc n)
  have "starts_again cs 0 (k - n) n = Some (take n (pattern_of cs) = take n (drop (k - n) (pattern_of cs)))"
    using assms(1,2) Suc.prems starts_again_named [of cs 0 n "k - n"] by simp
  moreover have "code_matches (cs ! n) remote button \<longleftrightarrow> pattern_of cs ! n = key_pressed remote button"
    using assms(1,2) Suc.prems by (simp add: code_matches_named)
  ultimately have r: "rebase cs k remote button (Suc n)
      = (if restarts (pattern_of cs) k (key_pressed remote button) n then Some (n + 1) else rebase cs k remote button n)"
    by (simp add: restarts_def)
  show ?case
  proof (cases "restarts (pattern_of cs) k (key_pressed remote button) n")
    case True
    then show ?thesis using r by (auto simp: fall_back_def)
  next
    case False
    moreover obtain m where m: "rebase cs k remote button n = Some m"
      "fall_back (pattern_of cs) k (key_pressed remote button) n m"
      using Suc by auto
    ultimately have "fall_back (pattern_of cs) k (key_pressed remote button) (Suc n) m"
      by (auto simp: fall_back_def less_Suc_eq)
    then show ?thesis using r False m(1) by simp
  qed
qed (simp add: fall_back_def)

end
