(* ===== verification/Client_Config.thy ===== *)
theory Client_Config
  imports Client_Code
begin

text \<open>
  The reader of \<open>.lircrc\<close> files (\<open>lirc_client.c\<close>): finding and opening files, lines, escape
  sequences, the entries, included files on a stack, and the startup mode. The environment says which
  files can be opened and what they hold; paths are shorter than \<open>MAXPATHLEN\<close> and memory does not run
  out. \<open>None\<close> stands for an execution that follows a NULL pointer.
\<close>

section \<open>Files\<close>

datatype fopen_result = Opened string | No_Entry | Not_Readable

record client_env =
  cl_fopen :: "string \<Rightarrow> fopen_result"
  cl_home :: "string option"
  cl_xdg_config_home :: "string option"
  cl_root_file :: string
  cl_old_root_file :: string

definition client_MAX_INCLUDES :: nat where "client_MAX_INCLUDES = 10"
definition LIRC_READ :: nat where "LIRC_READ = 255"
definition CFG_LIRCRC :: string where "CFG_LIRCRC = ''lircrc''"

text \<open>An empty \<open>HOME\<close> makes the code read in front of the buffer.\<close>

definition get_homepath :: "client_env \<Rightarrow> string option" where
  "get_homepath en =
     (let home = (case cl_home en of None \<Rightarrow> ''/'' | Some h \<Rightarrow> h)
      in if home = [] then None
         else Some (if last home = CHR ''/'' then butlast home else home))"

definition get_freedesktop_path :: "client_env \<Rightarrow> string option" where
  "get_freedesktop_path en =
     (case (case cl_xdg_config_home en of
              Some x \<Rightarrow> Some (x @ ''/'' @ CFG_LIRCRC)
            | None \<Rightarrow> map_option (\<lambda>h. h @ ''/.config/lircrc'') (get_homepath en)) of
        None \<Rightarrow> None
      | Some path \<Rightarrow> Some (case cl_fopen en path of Opened _ \<Rightarrow> path | _ \<Rightarrow> []))"

definition lirc_getfilename :: "client_env \<Rightarrow> string option \<Rightarrow> string option \<Rightarrow> string option" where
  "lirc_getfilename en file current_file = (case file of
     None \<Rightarrow> (case get_freedesktop_path en of
         None \<Rightarrow> None
       | Some p \<Rightarrow> if p = [] then map_option (\<lambda>h. h @ ''/.'' @ CFG_LIRCRC) (get_homepath en) else Some p)
   | Some f \<Rightarrow>
       if take 2 f = ''~/'' then map_option (\<lambda>h. h @ drop 1 f) (get_homepath en)
       else (case current_file of
           None \<Rightarrow> Some f
         | Some cur \<Rightarrow> if take 1 f = ''/'' then Some f
             else Some (rev (dropWhile (\<lambda>c. c \<noteq> CHR ''/'') (rev cur)) @ f)))"

text \<open>The full name and the text of the file; the inner None when no file could be opened.\<close>

definition lirc_open :: "client_env \<Rightarrow> string option \<Rightarrow> string option \<Rightarrow> (string \<times> string) option option" where
  "lirc_open en file current_file = (case lirc_getfilename en file current_file of
     None \<Rightarrow> None
   | Some filename \<Rightarrow> Some (case cl_fopen en filename of
       Opened s \<Rightarrow> Some (filename, s)
     | Not_Readable \<Rightarrow> None
     | No_Entry \<Rightarrow>
         if file \<noteq> None then None
         else (case cl_fopen en (cl_root_file en) of
             Opened s \<Rightarrow> Some (cl_root_file en, s)
           | Not_Readable \<Rightarrow> None
           | No_Entry \<Rightarrow> (case cl_fopen en (cl_old_root_file en) of
               Opened s \<Rightarrow> Some (cl_old_root_file en, s)
             | _ \<Rightarrow> None))))"

section \<open>Lines\<close>

text \<open>A line grows by what \<open>fgets\<close> adds until it ends with a newline; None at the end of the file.\<close>

function readline_loop :: "string \<Rightarrow> string \<Rightarrow> (string \<times> string) option" where
  "readline_loop line f = (case fgets (LIRC_READ + 1) f of
     None \<Rightarrow> (if line \<noteq> [] then Some (line, f) else None)
   | Some (chunk, rest) \<Rightarrow>
       let line = line @ chunk in
       if last line = newline then Some (butlast line, rest) else readline_loop line rest)"
  by pat_completeness auto
termination
  by (relation "measure (\<lambda>(line, f). length f)") (auto simp: LIRC_READ_def dest!: fgets_progress [rotated])

declare readline_loop.simps [simp del]

definition lirc_readline :: "string \<Rightarrow> (string \<times> string) option" where
  "lirc_readline f = readline_loop [] f"

definition blank_char :: "char \<Rightarrow> bool" where
  "blank_char c \<longleftrightarrow> c = CHR '' '' \<or> c = CHR 0x09"

definition lirc_trim :: "string \<Rightarrow> string" where
  "lirc_trim s = rev (dropWhile blank_char (rev (dropWhile blank_char s)))"

section \<open>Escape sequences\<close>

definition char_at :: "string \<Rightarrow> char" where
  "char_at s = (case s of [] \<Rightarrow> CHR 0x00 | c # _ \<Rightarrow> c)"

text \<open>The octal digits after the first one, of which \<open>n\<close> may follow.\<close>

primrec octal_digits :: "nat \<Rightarrow> int \<Rightarrow> string \<Rightarrow> int \<times> string" where
  "octal_digits 0 i s = (i, s)"
| "octal_digits (Suc n) i s =
     (if is_digit_of 8 (char_at s) then octal_digits n (i * 8 + int (the (c_digit (char_at s)))) (drop 1 s)
      else (i, s))"

primrec hex_digits :: "int \<Rightarrow> string \<Rightarrow> int \<times> string" where
  "hex_digits i [] = (i, [])"
| "hex_digits i (c # s) =
     (if is_digit_of 16 c then hex_digits (u32 (i * 16 + int (the (c_digit c)))) s else (i, c # s))"

definition byte_char :: "int \<Rightarrow> char" where
  "byte_char i = char_of (nat (i mod 256))"

text \<open>The character of an escape sequence behind the backslash, and the rest of the text.\<close>

definition lirc_parse_escape :: "string \<Rightarrow> char \<times> string" where
  "lirc_parse_escape s = (case s of
     [] \<Rightarrow> (CHR 0x00, [])
   | c # r \<Rightarrow>
       if c = CHR ''a'' then (CHR 0x07, r)
       else if c = CHR ''b'' then (CHR 0x08, r)
       else if c = CHR ''e'' then (CHR 0x1B, r)
       else if c = CHR ''f'' then (CHR 0x0C, r)
       else if c = CHR ''n'' then (CHR 0x0A, r)
       else if c = CHR ''r'' then (CHR 0x0D, r)
       else if c = CHR ''t'' then (CHR 0x09, r)
       else if c = CHR ''v'' then (CHR 0x0B, r)
       else if c = newline then (CHR 0x00, r)
       else if is_digit_of 8 c
            then (case octal_digits 2 (int (the (c_digit c))) r of (i, t) \<Rightarrow> (byte_char i, t))
       else if c = CHR ''x'' then (case hex_digits 0 r of (i, t) \<Rightarrow> (byte_char i, t))
       else if 64 \<le> char_code c \<and> char_code c \<le> 90 then (char_of (char_code c - 64), r)
       else (c, r))"

lemma octal_digits_length: "length (snd (octal_digits n i s)) \<le> length s"
proof (induction n arbitrary: i s)
  case (Suc n)
  have "length (snd (octal_digits n j (drop 1 s))) \<le> length s" for j
    by (rule order_trans [OF Suc.IH]) simp
  then show ?case by simp
qed simp

lemma hex_digits_length: "length (snd (hex_digits i s)) \<le> length s"
  by (induction s arbitrary: i) (auto intro: le_SucI)

lemma parse_escape_length: "length (snd (lirc_parse_escape s)) \<le> length s"
proof (cases s)
  case (Cons c r)
  have "length (snd (octal_digits 2 i r)) \<le> length s" "length (snd (hex_digits i r)) \<le> length s" for i
    using octal_digits_length [of 2 i r] hex_digits_length [of i r] Cons by simp_all
  then show ?thesis by (simp add: lirc_parse_escape_def Cons split_beta)
qed (simp add: lirc_parse_escape_def)

text \<open>
  The characters written over the text, with the NUL of \<open>\@\<close> and of a backslash at the end; the
  string of the entry ends at the first of them.
\<close>

function parse_string_loop :: "string \<Rightarrow> string" where
  "parse_string_loop [] = []"
| "parse_string_loop (c # s) =
     (if c = CHR 0x5C then (case lirc_parse_escape s of (d, r) \<Rightarrow> d # parse_string_loop r)
      else c # parse_string_loop s)"
  by pat_completeness auto
termination
  by (relation "measure length") (auto, metis less_Suc_eq_le parse_escape_length snd_conv)

definition lirc_parse_string :: "string \<Rightarrow> string" where
  "lirc_parse_string s = takeWhile (\<lambda>c. c \<noteq> CHR 0x00) (parse_string_loop s)"

definition lirc_parse_include_client :: "string \<Rightarrow> string" where
  "lirc_parse_include_client s =
     (if length s < 2 then s
      else if hd s = CHR 0x22 \<and> last s = CHR 0x22 \<or> hd s = CHR ''<'' \<and> last s = CHR ''>''
           then butlast (tl s)
      else s)"

section \<open>Flags\<close>

definition flag_of :: "string \<Rightarrow> 32 word" where
  "flag_of s =
     (if strcasecmp_eq s ''once'' then once
      else if strcasecmp_eq s ''quit'' then quit
      else if strcasecmp_eq s ''mode'' then mode
      else if strcasecmp_eq s ''startup_mode'' then startup_mode
      else if strcasecmp_eq s ''toggle_reset'' then toggle_reset
      else 0)"

text \<open>The delimiters are those of the first call of \<open>strtok\<close> only for the first token.\<close>

function flags_loop :: "string \<Rightarrow> string \<Rightarrow> 32 word \<Rightarrow> 32 word" where
  "flags_loop delims s flags = (case strtok delims s of
     None \<Rightarrow> flags
   | Some (t, r) \<Rightarrow> flags_loop ('' '' @ [CHR 0x09]) r (flags OR flag_of t))"
  by pat_completeness auto
termination
  by (relation "measure (\<lambda>(d, s, f). length s)") (auto dest: strtok_nonempty)

declare flags_loop.simps [simp del]

definition lirc_flags :: "string \<Rightarrow> 32 word" where
  "lirc_flags string = flags_loop ('' '' @ [CHR 0x09] @ ''|'') string none"

section \<open>Entries\<close>

text \<open>
  The variables of the reader. \<open>rd_stack\<close> is the stack of open files with the text that is left of
  each; \<open>open_files\<close> is its length. \<open>rd_entries\<close> is the list from \<open>first\<close> to \<open>last\<close>.
\<close>

record reader =
  rd_stack :: "(string \<times> string) list"
  rd_class :: string
  rd_new :: "lirc_config_entry option"
  rd_entries :: "lirc_config_entry list"
  rd_mode :: "string option"
  rd_remote :: "string option"
  rd_firstline :: bool
  rd_save_name :: "string option"

definition new_config_entry :: lirc_config_entry where
  "new_config_entry = \<lparr>le_prog = None, le_code = [], le_rep_delay = 0, le_ign_first_events = 0, le_rep = 0,
     le_config = [], le_change_mode = None, le_flags = none, le_mode = None, le_next_config = None, le_next_code = None\<rparr>"

definition first_index :: "'a list \<Rightarrow> nat option" where
  "first_index xs = (if xs = [] then None else Some 0)"

text \<open>Does \<open>check\<close> refuse a string of the entry? It is asked only when the program is the client's.\<close>

definition check_refuses :: "string option \<Rightarrow> (string \<Rightarrow> int) option \<Rightarrow> lirc_config_entry \<Rightarrow> bool option" where
  "check_refuses prog check e = (case check of
     None \<Rightarrow> Some False
   | Some f \<Rightarrow> (case le_prog e of
       None \<Rightarrow> Some False
     | Some p \<Rightarrow> (case prog of
         None \<Rightarrow> None
       | Some q \<Rightarrow> Some (strcasecmp_eq p q \<and> list_ex (\<lambda>s. f s = -1) (le_config e)))))"

definition default_delay :: "lirc_config_entry \<Rightarrow> lirc_config_entry" where
  "default_delay e = (if le_rep_delay e = 0 \<and> le_rep e > 0 then e\<lparr>le_rep_delay := le_rep e - 1\<rparr> else e)"

definition end_entry :: "string option \<Rightarrow> (string \<Rightarrow> int) option \<Rightarrow> lirc_config_entry \<Rightarrow> reader \<Rightarrow> (int \<times> reader) option" where
  "end_entry prog check e st =
     (let e = e\<lparr>le_next_code := first_index (le_code e), le_next_config := first_index (le_config e)\<rparr>;
          e = (if rd_mode st \<noteq> None then e\<lparr>le_mode := rd_mode st\<rparr> else e)
      in case check_refuses prog check e of
           None \<Rightarrow> None
         | Some True \<Rightarrow> Some (-1, st\<lparr>rd_new := None, rd_entries := rd_entries st @ [e]\<rparr>)
         | Some False \<Rightarrow> Some (0, st\<lparr>rd_new := None, rd_entries := rd_entries st @ [default_delay e]\<rparr>))"

definition lirc_mode :: "string option \<Rightarrow> (string \<Rightarrow> int) option \<Rightarrow> string \<Rightarrow> string option \<Rightarrow> reader \<Rightarrow> (int \<times> reader) option" where
  "lirc_mode prog check token token2 st =
     (if strcasecmp_eq token ''begin'' then
        (case token2 of
           None \<Rightarrow> Some (if rd_new st = None then (0, st\<lparr>rd_new := Some new_config_entry\<rparr>) else (-1, st))
         | Some t \<Rightarrow> Some (if rd_new st = None \<and> rd_mode st = None then (0, st\<lparr>rd_mode := Some t\<rparr>) else (-1, st)))
      else if strcasecmp_eq token ''end'' then
        (case token2 of
           None \<Rightarrow> (case rd_new st of None \<Rightarrow> Some (-1, st) | Some e \<Rightarrow> end_entry prog check e st)
         | Some t \<Rightarrow> (case rd_mode st of
             None \<Rightarrow> Some (-1, st)
           | Some m \<Rightarrow> Some (if rd_new st \<noteq> None then (-1, st)
               else if strcasecmp_eq m t then (0, st\<lparr>rd_mode := None\<rparr>) else (-1, st))))
      else Some (0, st))"

section \<open>Lines of a file\<close>

definition wildcard :: "string \<Rightarrow> string option" where
  "wildcard s = (if strcasecmp_eq ''*'' s then None else Some s)"

definition upd_entry :: "(lirc_config_entry \<Rightarrow> lirc_config_entry) \<Rightarrow> reader \<Rightarrow> reader" where
  "upd_entry f st = st\<lparr>rd_new := map_option f (rd_new st)\<rparr>"

text \<open>While an entry is read, \<open>next_code\<close> and \<open>next_config\<close> point to the last item of their lists.\<close>

definition add_code :: "lirc_code \<Rightarrow> lirc_config_entry \<Rightarrow> lirc_config_entry" where
  "add_code c e = e\<lparr>le_code := le_code e @ [c], le_next_code := Some (length (le_code e))\<rparr>"

definition add_string :: "string \<Rightarrow> lirc_config_entry \<Rightarrow> lirc_config_entry" where
  "add_string s e = e\<lparr>le_config := le_config e @ [s], le_next_config := Some (length (le_config e))\<rparr>"

definition set_item :: "string \<Rightarrow> string \<Rightarrow> reader \<Rightarrow> reader" where
  "set_item token v st =
     (if strcasecmp_eq token ''prog'' then upd_entry (\<lambda>e. e\<lparr>le_prog := Some v\<rparr>) st
      else if strcasecmp_eq token ''remote'' then st\<lparr>rd_remote := wildcard v\<rparr>
      else if strcasecmp_eq token ''button''
           then upd_entry (add_code \<lparr>lc_remote = rd_remote st, lc_button = wildcard v\<rparr>) st
      else if strcasecmp_eq token ''delay'' then upd_entry (\<lambda>e. e\<lparr>le_rep_delay := fst (strtoul 0 v)\<rparr>) st
      else if strcasecmp_eq token ''ignore_first_events''
           then upd_entry (\<lambda>e. e\<lparr>le_ign_first_events := fst (strtoul 0 v)\<rparr>) st
      else if strcasecmp_eq token ''repeat'' then upd_entry (\<lambda>e. e\<lparr>le_rep := fst (strtoul 0 v)\<rparr>) st
      else if strcasecmp_eq token ''config'' then upd_entry (add_string (lirc_parse_string v)) st
      else if strcasecmp_eq token ''mode'' then upd_entry (\<lambda>e. e\<lparr>le_change_mode := Some v\<rparr>) st
      else if strcasecmp_eq token ''flags'' then upd_entry (\<lambda>e. e\<lparr>le_flags := lirc_flags v\<rparr>) st
      else st)"

text \<open>POSIX \<open>basename\<close>, and the name of the class in the first line.\<close>

definition c_basename :: "string \<Rightarrow> string" where
  "c_basename p = (let q = rev (dropWhile (\<lambda>c. c = CHR ''/'') (rev p)) in
     if p = [] then ''.''
     else if q = [] then ''/''
     else rev (takeWhile (\<lambda>c. c \<noteq> CHR ''/'') (rev q)))"

definition parse_shebang :: "string \<Rightarrow> nat \<Rightarrow> string option \<Rightarrow> string option" where
  "parse_shebang line depth path = (if depth > 1 then Some []
     else case strtok ''#! '' line of
       None \<Rightarrow> None
     | Some (token, _) \<Rightarrow>
         if token = ''lircrc'' then map_option (\<lambda>p. take 127 (c_basename (take 127 p))) path else Some [])"

definition blanks :: string where "blanks = '' '' @ [CHR 0x09]"

definition read_include :: "client_env \<Rightarrow> string \<Rightarrow> reader \<Rightarrow> (int \<times> reader) option" where
  "read_include en rest st =
     (if length (rd_stack st) \<ge> client_MAX_INCLUDES then Some (-1, st)
      else case strtok [] rest of
        None \<Rightarrow> None
      | Some (t, _) \<Rightarrow>
          (case lirc_open en (Some (lirc_parse_include_client (lirc_trim t))) (Some (fst (hd (rd_stack st)))) of
             None \<Rightarrow> None
           | Some None \<Rightarrow> Some (-1, st)
           | Some (Some file) \<Rightarrow> Some (0, st\<lparr>rd_stack := file # rd_stack st\<rparr>)))"

definition read_directive :: "string option \<Rightarrow> (string \<Rightarrow> int) option \<Rightarrow> string \<Rightarrow> string \<Rightarrow> reader \<Rightarrow> (int \<times> reader) option" where
  "read_directive prog check token rest st =
     (let (token2, more) = (case strtok blanks rest of None \<Rightarrow> (None, False)
            | Some (t, r) \<Rightarrow> (Some t, strtok blanks r \<noteq> None))
      in if more then Some (0, st)
         else case lirc_mode prog check token token2 st of
           None \<Rightarrow> None
         | Some (ret, st) \<Rightarrow>
             if ret = 0 then Some (0, st\<lparr>rd_remote := None\<rparr>)
             else Some (ret, st\<lparr>rd_mode := None, rd_new := None\<rparr>))"

definition read_plain_line :: "client_env \<Rightarrow> string option \<Rightarrow> (string \<Rightarrow> int) option \<Rightarrow> string \<Rightarrow> reader \<Rightarrow> (int \<times> reader) option" where
  "read_plain_line en prog check s st = (case strtok blanks s of
     None \<Rightarrow> Some (0, st)
   | Some (token, rest) \<Rightarrow>
       if hd token = CHR ''#'' then Some (0, st)
       else if strcasecmp_eq token ''lircrc_class'' then
         (case strtok [] rest of
            None \<Rightarrow> None
          | Some (t, _) \<Rightarrow> Some (0, if lirc_trim t \<noteq> [] \<and> length (rd_stack st) = 1
                then st\<lparr>rd_class := take 127 (lirc_trim t)\<rparr> else st))
       else if strcasecmp_eq token ''include'' then read_include en rest st
       else read_directive prog check token rest st)"

definition read_item_line :: "string \<Rightarrow> string \<Rightarrow> reader \<Rightarrow> int \<times> reader" where
  "read_item_line left right st =
     (let token = lirc_trim left in
      if take 1 token = ''#'' then (0, st)
      else if rd_new st = None then (-1, st)
      else (0, set_item token (lirc_trim right) st))"

text \<open>
  A line: \<open>strchr (string, '=')\<close> tells the two kinds apart. \<open>path\<close> is the argument of the reader. A line
  with the class is a comment to what follows, whether \<open>strtok\<close> has cut it behind its first word or not.
\<close>

definition read_line :: "client_env \<Rightarrow> string option \<Rightarrow> (string \<Rightarrow> int) option \<Rightarrow> string option \<Rightarrow> string \<Rightarrow> reader
    \<Rightarrow> (int \<times> reader) option" where
  "read_line en prog check path s st =
     (case (if rd_firstline st \<and> take 2 s = ''#!''
            then map_option (\<lambda>c. st\<lparr>rd_class := c\<rparr>) (parse_shebang s (length (rd_stack st)) path)
            else Some st) of
        None \<Rightarrow> None
      | Some st \<Rightarrow>
          let st = st\<lparr>rd_firstline := False\<rparr>
          in if CHR ''='' \<notin> set s then read_plain_line en prog check s st
             else Some (read_item_line (takeWhile (\<lambda>c. c \<noteq> CHR ''='') s) (drop 1 (dropWhile (\<lambda>c. c \<noteq> CHR ''='') s)) st))"

section \<open>The reader\<close>

text \<open>
  The startup mode: the mode of the first entry with the flag, which loses it; else the name of the
  program when an entry counts in the mode of that name. Entries that enter the mode once have done so.
\<close>

definition flagged_mode :: "lirc_config_entry list \<Rightarrow> string option \<times> lirc_config_entry list" where
  "flagged_mode es = (let flagged = (\<lambda>e. flag_set e startup_mode \<and> le_change_mode e \<noteq> None) in
     case dropWhile (\<lambda>e. \<not> flagged e) es of
       [] \<Rightarrow> (None, es)
     | e # rest \<Rightarrow> (le_change_mode e, takeWhile (\<lambda>e. \<not> flagged e) es @ e\<lparr>le_change_mode := None\<rparr> # rest))"

definition program_mode :: "string option \<Rightarrow> lirc_config_entry list \<Rightarrow> string option option" where
  "program_mode prog es =
     (if list_all (\<lambda>e. le_mode e = None) es then Some None
      else case prog of
        None \<Rightarrow> None
      | Some p \<Rightarrow> Some (if list_ex (\<lambda>e. case le_mode e of None \<Rightarrow> False | Some m \<Rightarrow> strcasecmp_eq p m) es
          then Some p else None))"

definition mark_once :: "string \<Rightarrow> lirc_config_entry \<Rightarrow> lirc_config_entry" where
  "mark_once startupmode e = (case le_change_mode e of
     None \<Rightarrow> e
   | Some c \<Rightarrow> if flag_set e once \<and> strcasecmp_eq startupmode c then e\<lparr>le_flags := le_flags e OR ecno\<rparr> else e)"

definition lirc_startupmode :: "string option \<Rightarrow> lirc_config_entry list \<Rightarrow> (string option \<times> lirc_config_entry list) option" where
  "lirc_startupmode prog es = (case flagged_mode es of (startupmode, es) \<Rightarrow>
     case (if startupmode \<noteq> None then Some startupmode else program_mode prog es) of
       None \<Rightarrow> None
     | Some None \<Rightarrow> Some (None, es)
     | Some (Some m) \<Rightarrow> Some (Some m, map (mark_once m) es))"

text \<open>
  The measure of the loop: the lengths of the texts from the bottom of the stack, compared in
  lexicographic order. A line shortens its text, whatever it pushes.
\<close>

definition reader_rank :: "reader \<Rightarrow> nat list" where
  "reader_rank st = (let l = map (\<lambda>(n, t). Suc (length t)) (rev (rd_stack st))
     in l @ replicate (client_MAX_INCLUDES - length l) 0)"

lemma readline_progress: "readline_loop l f = Some (line, left) \<Longrightarrow> f \<noteq> [] \<Longrightarrow> length left < length f"
proof (induction l f rule: readline_loop.induct)
  case (1 l f)
  obtain chunk rest where c: "fgets (LIRC_READ + 1) f = Some (chunk, rest)"
    using 1(3) by (cases "fgets (LIRC_READ + 1) f") (auto simp: fgets_def Let_def split: if_splits)
  then have less: "length rest < length f" using fgets_progress [OF _ c] by (simp add: LIRC_READ_def)
  show ?case
  proof (cases "last (l @ chunk) = newline")
    case True
    then show ?thesis using 1(2) c less by (subst (asm) readline_loop.simps) (simp add: Let_def)
  next
    case False
    then have r: "readline_loop (l @ chunk) rest = Some (line, left)"
      using 1(2) c by (subst (asm) readline_loop.simps) (simp add: Let_def)
    show ?thesis
    proof (cases "rest = []")
      case True
      then have "left = []" using r by (subst (asm) readline_loop.simps) (auto split: if_splits)
      then show ?thesis using less by auto
    next
      case ne: False
      have "length left < length rest"
        using 1(1) [OF c refl refl False r ne] .
      then show ?thesis using less by simp
    qed
  qed
qed

lemma lirc_readline_progress: "lirc_readline f = Some (line, left) \<Longrightarrow> length left < length f"
  using readline_progress [of "[]" f line left]
  by (cases "f = []") (simp_all add: lirc_readline_def readline_loop.simps)

lemma upd_entry_stack [simp]: "rd_stack (upd_entry f st) = rd_stack st"
  by (simp add: upd_entry_def)

lemma set_item_stack [simp]: "rd_stack (set_item t v st) = rd_stack st"
  by (simp add: set_item_def)

lemma end_entry_stack: "end_entry prog check e st = Some (ret, st') \<Longrightarrow> rd_stack st' = rd_stack st"
  by (auto simp: end_entry_def Let_def split: option.splits bool.splits)

lemma lirc_mode_stack: "lirc_mode prog check t t2 st = Some (ret, st') \<Longrightarrow> rd_stack st' = rd_stack st"
  by (auto simp: lirc_mode_def dest: end_entry_stack split: if_splits option.splits)

lemma read_directive_stack: "read_directive prog check t r st = Some (ret, st') \<Longrightarrow> rd_stack st' = rd_stack st"
  by (auto simp: read_directive_def dest: lirc_mode_stack split: if_splits option.splits prod.splits)

text \<open>The stack after a line: as before, or with one more file while there is room.\<close>

definition grown :: "reader \<Rightarrow> reader \<Rightarrow> bool" where
  "grown st st' \<longleftrightarrow> rd_stack st' = rd_stack st
     \<or> (\<exists>f. rd_stack st' = f # rd_stack st \<and> length (rd_stack st) < client_MAX_INCLUDES)"

lemma grown_same: "rd_stack st' = rd_stack st \<Longrightarrow> grown st st'"
  by (simp add: grown_def)

lemma read_include_stack: "read_include en r st = Some (ret, st') \<Longrightarrow> grown st st'"
  by (auto simp: read_include_def grown_def split: if_splits option.splits)

lemma read_plain_line_stack: "read_plain_line en prog check s st = Some (ret, st') \<Longrightarrow> grown st st'"
  unfolding read_plain_line_def
  by (auto simp: grown_same intro: read_include_stack grown_same [OF read_directive_stack] split: if_splits option.splits)

lemma read_line_stack: "read_line en prog check path s st = Some (ret, st') \<Longrightarrow> grown st st'"
  unfolding read_line_def
  by (auto simp: Let_def read_item_line_def grown_def dest!: read_plain_line_stack split: if_splits option.splits)

lemma lenlex_pad:
  "b < a \<Longrightarrow> length xs < m \<Longrightarrow>
   (xs @ b # ys @ replicate (m - (Suc (length xs) + length ys)) 0, xs @ a # replicate (m - Suc (length xs)) (0 :: nat)) \<in> lenlex less_than"
  if "Suc (length xs) + length ys \<le> m"
  using that by (auto simp: lenlex_conv intro!: lex_append_leftI)

lemma rank_pop: "rd_stack st = f # rest \<Longrightarrow> rd_stack st' = rest \<Longrightarrow> (reader_rank st', reader_rank st) \<in> lenlex less_than"
proof -
  assume s: "rd_stack st = f # rest" "rd_stack st' = rest"
  define l where "l = map (\<lambda>(n, t). Suc (length t)) (rev rest)"
  have 1: "reader_rank st = l @ Suc (length (snd f)) # replicate (client_MAX_INCLUDES - Suc (length l)) 0"
    by (simp add: reader_rank_def s l_def split_beta)
  have 2: "reader_rank st' = l @ replicate (client_MAX_INCLUDES - length l) 0"
    by (simp add: reader_rank_def l_def s)
  show ?thesis
  proof (cases "length l < client_MAX_INCLUDES")
    case True
    then have "replicate (client_MAX_INCLUDES - length l) (0 :: nat) = 0 # [] @ replicate (client_MAX_INCLUDES - (Suc (length l) + length ([] :: nat list))) 0"
      by (simp add: Suc_diff_Suc flip: replicate_Suc)
    then show ?thesis using lenlex_pad [of l "[]" client_MAX_INCLUDES 0 "Suc (length (snd f))"] True by (simp add: 1 2)
  next
    case False
    then show ?thesis by (simp add: 1 2 lenlex_conv)
  qed
qed

lemma rank_line:
  assumes "rd_stack st = (n, t) # rest" and "length left < length t"
    and "rd_stack st' = (n, left) # rest \<or> (\<exists>f. rd_stack st' = f # (n, left) # rest \<and> Suc (length rest) < client_MAX_INCLUDES)"
  shows "(reader_rank st', reader_rank st) \<in> lenlex less_than"
proof -
  define l where "l = map (\<lambda>(n, t). Suc (length t)) (rev rest)"
  have 1: "reader_rank st = l @ Suc (length t) # replicate (client_MAX_INCLUDES - Suc (length l)) 0"
    by (simp add: reader_rank_def assms l_def)
  from assms(3) consider "rd_stack st' = (n, left) # rest"
    | f where "rd_stack st' = f # (n, left) # rest" "Suc (length rest) < client_MAX_INCLUDES" by blast
  then show ?thesis
  proof cases
    case a: 1
    have "reader_rank st' = l @ Suc (length left) # replicate (client_MAX_INCLUDES - Suc (length l)) 0"
      by (simp add: reader_rank_def a l_def)
    then show ?thesis using assms(2) by (auto simp: 1 lenlex_conv intro!: lex_append_leftI)
  next
    case b: 2
    have "reader_rank st' = l @ Suc (length left) # [Suc (length (snd f))] @ replicate (client_MAX_INCLUDES - (Suc (length l) + 1)) 0"
      by (simp add: reader_rank_def b l_def split_beta)
    then show ?thesis using assms(2) b(2) lenlex_pad [of l "[Suc (length (snd f))]" client_MAX_INCLUDES "Suc (length left)" "Suc (length t)"]
      by (simp add: 1 l_def)
  qed
qed

lemma rank_read:
  assumes "rd_stack st = f # rest" and "lirc_readline (snd f) = Some (line, left)"
    and "read_line en prog check path line (st\<lparr>rd_stack := (fst f, left) # rest\<rparr>) = Some (ret, st')"
  shows "(reader_rank st', reader_rank st) \<in> lenlex less_than"
  using rank_line [of st "fst f" "snd f" rest left st'] read_line_stack [OF assms(3)]
    lirc_readline_progress [OF assms(2)] assms(1)
  by (auto simp: grown_def)

function reader_loop :: "client_env \<Rightarrow> string option \<Rightarrow> (string \<Rightarrow> int) option \<Rightarrow> string option \<Rightarrow> reader \<Rightarrow> (int \<times> reader) option" where
  "reader_loop en prog check path st = (case rd_stack st of
     [] \<Rightarrow> Some (0, st)
   | f # rest \<Rightarrow> (case lirc_readline (snd f) of
       None \<Rightarrow> reader_loop en prog check path
         (st\<lparr>rd_stack := rest, rd_save_name := (if rest = [] then Some (fst f) else rd_save_name st)\<rparr>)
     | Some (line, left) \<Rightarrow>
         (case read_line en prog check path line (st\<lparr>rd_stack := (fst f, left) # rest\<rparr>) of
            None \<Rightarrow> None
          | Some (ret, st) \<Rightarrow> if ret = -1 then Some (-1, st) else reader_loop en prog check path st)))"
  by pat_completeness auto
termination
proof (relation "inv_image (lenlex less_than) (\<lambda>(en, prog, check, path, st). reader_rank st)", goal_cases)
  case 1
  show ?case by (simp add: wf_lenlex)
next
  case 2
  then show ?case by (auto intro!: rank_pop)
next
  case 3
  then show ?case by (simp only: in_inv_image prod.case) (metis rank_read prod.collapse)
qed

declare reader_loop.simps [simp del]

text \<open>
  The result is the return code, the configuration (None is NULL) and the full name of the file.
\<close>

definition finish_reader :: "string option \<Rightarrow> (string \<Rightarrow> int) option \<Rightarrow> int \<times> reader \<Rightarrow> (int \<times> reader) option" where
  "finish_reader prog check r = (case r of (ret, st) \<Rightarrow>
     if rd_new st = None then Some (ret, st)
     else if ret = 0 then lirc_mode prog check ''end'' None st
     else Some (ret, st\<lparr>rd_new := None\<rparr>))"

definition make_config :: "string option \<Rightarrow> reader \<Rightarrow> lirc_config option" where
  "make_config prog st = (case lirc_startupmode prog (rd_entries st) of
     None \<Rightarrow> None
   | Some (startupmode, es) \<Rightarrow> Some
       \<lparr>lcf_lircrc_class = (if rd_class st \<noteq> [] then Some (rd_class st) else None),
        lcf_current_mode = startupmode, lcf_next = first_index es, lcf_entries = es\<rparr>)"

definition start_reader :: "string \<times> string \<Rightarrow> reader" where
  "start_reader file = \<lparr>rd_stack = [file], rd_class = [], rd_new = None, rd_entries = [], rd_mode = None,
     rd_remote = None, rd_firstline = True, rd_save_name = None\<rparr>"

definition lirc_readconfig_only_internal :: "client_env \<Rightarrow> string option \<Rightarrow> (string \<Rightarrow> int) option \<Rightarrow> string option
    \<Rightarrow> (int \<times> lirc_config option \<times> string option) option" where
  "lirc_readconfig_only_internal en prog check file = (case lirc_open en file None of
     None \<Rightarrow> None
   | Some None \<Rightarrow> Some (-1, None, None)
   | Some (Some f) \<Rightarrow> (case reader_loop en prog check file (start_reader f) of
       None \<Rightarrow> None
     | Some r \<Rightarrow> (case finish_reader prog check r of
         None \<Rightarrow> None
       | Some (ret, st) \<Rightarrow>
           if ret = 0 then map_option (\<lambda>c. (0, Some c, rd_save_name st)) (make_config prog st)
           else Some (ret, None, None))))"

definition lirc_readconfig_only :: "client_env \<Rightarrow> string option \<Rightarrow> (string \<Rightarrow> int) option \<Rightarrow> string option
    \<Rightarrow> (int \<times> lirc_config option) option" where
  "lirc_readconfig_only en prog check file =
     map_option (\<lambda>(ret, config, name). (ret, config)) (lirc_readconfig_only_internal en prog check file)"

end
