(* ===== verification/Client_Spec.thy ===== *)
theory Client_Spec
  imports Client_Sequence Client_Config State_System
begin

text \<open>
  What the client library promises: which presses complete a sequence, that no press of a well-formed
  configuration makes it follow an invalid pointer, and what it does with the strings and the flags
  of an entry.
\<close>

section \<open>Sequences\<close>

lemma iscode_press:
  assumes "named (le_code e)" and "2 \<le> length (le_code e)" and "le_next_code e = Some k"
    and "longest_start (pattern_of (le_code e)) h k"
  shows "\<exists>l e'. lirc_iscode e remote button 0 = Some (l, e') \<and> le_code e' = le_code e
    \<and> (if suffix (pattern_of (le_code e)) (h @ [key_pressed remote button])
       then l = 2 \<and> le_next_code e' = Some 0
       else l \<noteq> 2 \<and> (\<exists>k'. le_next_code e' = Some k'
              \<and> longest_start (pattern_of (le_code e)) (h @ [key_pressed remote button]) k'))"
proof -
  define p x where "p = pattern_of (le_code e)" and "x = key_pressed remote button"
  have k: "k < length (le_code e)" using assms(4) by (simp add: longest_start_def)
  have ne: "le_code e \<noteq> []" "le_code e \<noteq> [c]" for c using assms(2) by auto
  have m: "code_matches (le_code e ! k) remote button \<longleftrightarrow> p ! k = x"
    using assms(1) k by (simp add: code_matches_named p_def x_def)
  have full: "suffix p (h @ [x]) \<longleftrightarrow> Suc k = length p \<and> p ! k = x"
    using longest_start_full [OF assms(4)] by (simp add: p_def)
  show ?thesis
  proof (cases "p ! k = x")
    case True
    then show ?thesis
      using assms(2,3) k ne m full longest_start_grow [OF assms(4), of x]
      by (auto simp: lirc_iscode_def Let_def p_def [symmetric] x_def [symmetric] simp del: suffix_snoc) (auto simp: p_def)
  next
    case False
    then obtain j where j: "rebase (le_code e) k remote button k = Some j" "fall_back p k x k j"
      using rebase_named [OF assms(1) k order_refl] by (auto simp: p_def x_def)
    have fb: "longest_start p (h @ [x]) j"
      using longest_start_back [OF assms(4), of x j] False j(2) by (simp add: p_def)
    have "k = 0 \<Longrightarrow> j = 0" using j(2) by (simp add: fall_back_def)
    then show ?thesis
      using False assms(3) k ne m full j(1) fb
      by (auto simp: lirc_iscode_def Let_def p_def [symmetric] x_def [symmetric] simp del: suffix_snoc)
  qed
qed

lemma iscode_repeat:
  assumes "2 \<le> length (le_code e)" and "le_next_code e = Some k" and "rep \<noteq> 0"
  shows "\<exists>l e'. lirc_iscode e remote button rep = Some (l, e') \<and> l \<noteq> 2 \<and> le_code e' = le_code e \<and> le_next_code e' = Some k"
  using assms by (auto simp: lirc_iscode_def Let_def)

text \<open>The entry meets a history of presses: which of them complete the sequence?\<close>

primrec completions :: "lirc_config_entry \<Rightarrow> (string \<times> string \<times> int) list \<Rightarrow> bool list option" where
  "completions e [] = Some []"
| "completions e (x # xs) = (case x of (remote, button, rep) \<Rightarrow>
     (case lirc_iscode e remote button rep of
        None \<Rightarrow> None
      | Some (l, e') \<Rightarrow> map_option (Cons (l = 2)) (completions e' xs)))"

text \<open>
  The reference: a press that is not a repetition is appended to the presses since the last
  completion; it completes the sequence when they end with it.
\<close>

definition ends_with :: "'a list \<Rightarrow> 'a list \<Rightarrow> bool" where
  "ends_with p h \<longleftrightarrow> length p \<le> length h \<and> drop (length h - length p) h = p"

primrec expected :: "(string \<times> string) list \<Rightarrow> (string \<times> string) list \<Rightarrow> (string \<times> string \<times> int) list \<Rightarrow> bool list" where
  "expected p h [] = []"
| "expected p h (x # xs) = (case x of (remote, button, rep) \<Rightarrow>
     if rep \<noteq> 0 then False # expected p h xs
     else if ends_with p (h @ [key_pressed remote button]) then True # expected p [] xs
     else False # expected p (h @ [key_pressed remote button]) xs)"

lemma ends_with_suffix: "ends_with p h \<longleftrightarrow> suffix p h"
  by (auto simp: ends_with_def dest: suffix_length_le suffix_eq_drop [symmetric]) (metis suffix_drop)

lemma completions_expected:
  assumes "named (le_code e)" and "2 \<le> length (le_code e)" and "le_next_code e = Some k"
    and "longest_start (pattern_of (le_code e)) h k"
  shows "completions e xs = Some (expected (pattern_of (le_code e)) h xs)"
  using assms
proof (induction xs arbitrary: e k h)
  case (Cons x xs)
  obtain remote button rep where x: "x = (remote, button, rep)" by (cases x)
  show ?case
  proof (cases "rep = 0")
    case False
    then show ?thesis
      using iscode_repeat [OF Cons.prems(2,3) False, of remote button] Cons.IH Cons.prems by (auto simp: x)
  next
    case True
    obtain l e' where l: "lirc_iscode e remote button 0 = Some (l, e')" "le_code e' = le_code e"
      and step: "if suffix (pattern_of (le_code e)) (h @ [key_pressed remote button])
       then l = 2 \<and> le_next_code e' = Some 0
       else l \<noteq> 2 \<and> (\<exists>k'. le_next_code e' = Some k'
              \<and> longest_start (pattern_of (le_code e)) (h @ [key_pressed remote button]) k')"
      using iscode_press [OF Cons.prems, of remote button] by blast
    have start: "longest_start (pattern_of (le_code e)) [] 0"
      using Cons.prems(2) by (intro longest_start_Nil) (auto simp flip: length_greater_0_conv)
    show ?thesis
    proof (cases "suffix (pattern_of (le_code e)) (h @ [key_pressed remote button])")
      case suf: True
      then have "l = 2" "le_next_code e' = Some 0" using step by simp_all
      then show ?thesis
        using Cons.IH [of e' 0 "[]"] Cons.prems(1,2) l start suf True
        by (simp add: x ends_with_suffix del: suffix_snoc)
    next
      case suf: False
      then obtain k' where "l \<noteq> 2" "le_next_code e' = Some k'"
        "longest_start (pattern_of (le_code e)) (h @ [key_pressed remote button]) k'"
        using step by (auto simp del: suffix_snoc)
      then show ?thesis
        using Cons.IH [of e' k' "h @ [key_pressed remote button]"] Cons.prems(1,2) l suf True
        by (simp add: x ends_with_suffix del: suffix_snoc)
    qed
  qed
qed simp

text \<open>
  C2: A sequence of at least two named buttons is completed exactly by the presses that end with it:
  whatever the history - wrong buttons, overlapping beginnings, repetitions - \<open>lirc_iscode\<close> with its
  rebasing reports the completion after the same presses as the comparison of the last presses since
  the last completion with the whole sequence.
\<close>

theorem sequence_completions:
  assumes "named (le_code e)" and "2 \<le> length (le_code e)" and "le_next_code e = Some 0"
  shows "completions e xs = Some (expected (pattern_of (le_code e)) [] xs)"
proof (rule completions_expected [OF assms])
  show "longest_start (pattern_of (le_code e)) [] 0"
    using assms(2) by (intro longest_start_Nil) (auto simp flip: length_greater_0_conv)
qed

definition sample_sequence :: lirc_config_entry where
  "sample_sequence = new_config_entry\<lparr>le_code := map (\<lambda>b. \<lparr>lc_remote = Some ''tv'', lc_button = Some b\<rparr>) [''1'', ''1'', ''2''],
     le_next_code := Some 0\<rparr>"

theorem sequence_completions_witness:
  "completions sample_sequence (map (\<lambda>b. (''TV'', b, 0)) [''1'', ''1'', ''1'', ''2'', ''2''])
     = Some [False, False, False, True, False]"
proof -
  have "named (le_code sample_sequence)" "2 \<le> length (le_code sample_sequence)" "le_next_code sample_sequence = Some 0"
    by code_simp+
  from sequence_completions [OF this, of "map (\<lambda>b. (''TV'', b, 0)) [''1'', ''1'', ''1'', ''2'', ''2'']"]
  show ?thesis by (rule trans) code_simp
qed

section \<open>Well-formed configurations\<close>

text \<open>
  The pointers of an entry point into its lists, and either all or none of its codes leave the remote
  open, and the same for the button.
\<close>

definition uniform :: "('a \<Rightarrow> 'b option) \<Rightarrow> 'a list \<Rightarrow> bool" where
  "uniform f xs \<longleftrightarrow> list_all (\<lambda>x. f x = None) xs \<or> list_all (\<lambda>x. f x \<noteq> None) xs"

definition uniform_entry :: "lirc_config_entry \<Rightarrow> bool" where
  "uniform_entry e \<longleftrightarrow> uniform lc_remote (le_code e) \<and> uniform lc_button (le_code e)"

definition points_into :: "nat option \<Rightarrow> 'a list \<Rightarrow> bool" where
  "points_into i xs \<longleftrightarrow> (case i of None \<Rightarrow> xs = [] | Some k \<Rightarrow> k < length xs)"

definition entry_ok :: "lirc_config_entry \<Rightarrow> bool" where
  "entry_ok e \<longleftrightarrow> uniform_entry e \<and> points_into (le_next_code e) (le_code e) \<and> points_into (le_next_config e) (le_config e)"

definition config_ok :: "lirc_config \<Rightarrow> bool" where
  "config_ok c \<longleftrightarrow> list_all entry_ok (lcf_entries c) \<and> (\<forall>i. lcf_next c = Some i \<longrightarrow> i < length (lcf_entries c))"

lemma points_into_first [simp]: "points_into (first_index xs) xs"
  by (simp add: points_into_def first_index_def)

lemma same_name_uniform:
  "uniform f xs \<Longrightarrow> i < length xs \<Longrightarrow> j < length xs \<Longrightarrow> same_name (f (xs ! i)) (f (xs ! j)) \<noteq> None"
  by (auto simp: uniform_def list_all_length same_name_def split: option.splits)

lemma starts_again_uniform:
  "uniform lc_remote cs \<Longrightarrow> uniform lc_button cs \<Longrightarrow> a + n \<le> length cs \<Longrightarrow> b + n \<le> length cs \<Longrightarrow>
   starts_again cs a b n \<noteq> None"
proof (induction n arbitrary: a b)
  case (Suc n)
  then have "same_code (cs ! a) (cs ! b) \<noteq> None"
    using same_name_uniform [of lc_remote cs a b] same_name_uniform [of lc_button cs a b]
    by (auto simp: same_code_def split: option.split bool.split)
  then show ?case using Suc by (auto split: option.split bool.split)
qed simp

lemma rebase_uniform:
  "uniform lc_remote cs \<Longrightarrow> uniform lc_button cs \<Longrightarrow> k < length cs \<Longrightarrow> n \<le> k \<Longrightarrow>
   \<exists>m. rebase cs k remote button n = Some m \<and> m \<le> n"
proof (induction n)
  case (Suc n)
  have "starts_again cs 0 (k - n) n \<noteq> None" using Suc.prems by (intro starts_again_uniform) simp_all
  moreover obtain m where "rebase cs k remote button n = Some m" "m \<le> n" using Suc by auto
  ultimately show ?case by auto
qed simp

lemma iscode_ok:
  assumes "entry_ok e"
  shows "\<exists>l e'. lirc_iscode e remote button rep = Some (l, e') \<and> entry_ok e'"
proof (cases "le_next_code e")
  case None
  then show ?thesis using assms by (auto simp: lirc_iscode_def entry_ok_def points_into_def)
next
  case (Some k)
  then have k: "k < length (le_code e)" and u: "uniform lc_remote (le_code e)" "uniform lc_button (le_code e)"
    using assms by (auto simp: entry_ok_def points_into_def uniform_entry_def)
  obtain m where m: "rebase (le_code e) k remote button k = Some m" "m \<le> k"
    using rebase_uniform [OF u k order_refl] by blast
  have next_ok: "entry_ok (e\<lparr>le_next_code := Some j\<rparr>)"
    "entry_ok (e\<lparr>le_next_config := if le_config e = [] then None else Some 0, le_next_code := Some j\<rparr>)"
    "entry_ok (e\<lparr>le_next_config := if le_config e = [] then None else Some 0\<rparr>)" if "j < length (le_code e)" for j
    using assms that by (auto simp: entry_ok_def points_into_def uniform_entry_def)
  have "0 < length (le_code e)" using k by auto
  then show ?thesis
    using Some k m assms next_ok by (auto simp: lirc_iscode_def Let_def intro!: next_ok)
qed

lemma entry_ok_upd [simp]:
  "entry_ok (e\<lparr>le_flags := f\<rparr>) = entry_ok e" "entry_ok (e\<lparr>le_change_mode := c\<rparr>) = entry_ok e"
  by (simp_all add: entry_ok_def uniform_entry_def)

lemma entry_ok_next:
  "entry_ok e \<Longrightarrow> points_into i (le_config e) \<Longrightarrow> entry_ok (e\<lparr>le_next_config := i\<rparr>)"
  by (simp add: entry_ok_def uniform_entry_def)

lemma clearmode_entries:
  "list_all entry_ok (lcf_entries c) \<Longrightarrow> list_all entry_ok (lcf_entries (lirc_clearmode c))"
  "length (lcf_entries (lirc_clearmode c)) = length (lcf_entries c)"
  "lcf_next (lirc_clearmode c) = lcf_next c"
  by (auto simp: lirc_clearmode_def list_all_length split: option.split)

lemma set_entry_entries [simp]:
  "lcf_entries (set_entry i e c) = (lcf_entries c)[i := e]" "lcf_next (set_entry i e c) = lcf_next c"
  by (simp_all add: set_entry_def)

lemma list_all_update: "list_all P xs \<Longrightarrow> P x \<Longrightarrow> list_all P (xs[i := x])"
  by (auto simp: list_all_iff dest!: set_update_subset_insert [THEN subsetD])

lemma execute_entries:
  assumes "list_all entry_ok (lcf_entries c)" and "i < length (lcf_entries c)" and "lirc_execute prog c i = (s, c')"
  shows "list_all entry_ok (lcf_entries c') \<and> length (lcf_entries c') = length (lcf_entries c) \<and> lcf_next c' = lcf_next c"
proof -
  define c1 where "c1 = (if flag_set (lcf_entries c ! i) mode then lirc_clearmode c else c)"
  define e where "e = lcf_entries c1 ! i"
  define e1 where "e1 = (if le_change_mode e \<noteq> None \<and> flag_set e once then e\<lparr>le_flags := le_flags e OR ecno\<rparr> else e)"
  have c1: "list_all entry_ok (lcf_entries c1)" "length (lcf_entries c1) = length (lcf_entries c)" "lcf_next c1 = lcf_next c"
    using assms(1) clearmode_entries by (simp_all add: c1_def)
  then have "entry_ok e" using assms(2) by (simp add: e_def list_all_length)
  then have e1': "entry_ok e1" by (simp add: e1_def)
  then have e1: "entry_ok (e1\<lparr>le_next_config := if k + 1 < length (le_config e1) then Some (k + 1) else Some 0\<rparr>)"
    if "le_next_config e1 = Some k" for k
    using that by (intro entry_ok_next) (auto simp: entry_ok_def points_into_def)
  have "lcf_entries (case le_change_mode e of None \<Rightarrow> c1 | Some cm \<Rightarrow> c1\<lparr>lcf_current_mode := Some cm\<rparr>) = lcf_entries c1"
    "lcf_next (case le_change_mode e of None \<Rightarrow> c1 | Some cm \<Rightarrow> c1\<lparr>lcf_current_mode := Some cm\<rparr>) = lcf_next c1"
    by (simp_all split: option.split)
  with assms(3) have "lcf_next c' = lcf_next c1 \<and> (\<exists>e'. lcf_entries c' = (lcf_entries c1)[i := e'] \<and> entry_ok e')"
    unfolding lirc_execute_def Let_def c1_def [symmetric] e_def [symmetric] e1_def [symmetric]
    using e1 e1' by (auto split: option.splits if_splits)
  then show ?thesis using c1 by (auto intro: list_all_update)
qed

lemma scan_entries_ok:
  assumes "list_all entry_ok (lcf_entries c)" and "i + n \<le> length (lcf_entries c)"
    and "\<forall>j. lcf_next c = Some j \<longrightarrow> j < length (lcf_entries c)"
  shows "\<exists>s' c'. scan_entries prog remote button rep q s n i c = Some (s', c') \<and> config_ok c'
    \<and> length (lcf_entries c') = length (lcf_entries c)"
  using assms
proof (induction n arbitrary: i q s c)
  case 0
  then show ?case by (simp add: config_ok_def)
next
  case (Suc n)
  have i: "i < length (lcf_entries c)" using Suc.prems(2) by simp
  then have "entry_ok (lcf_entries c ! i)" using Suc.prems(1) by (simp add: list_all_length)
  then obtain l e where l: "lirc_iscode (lcf_entries c ! i) remote button rep = Some (l, e)" "entry_ok e"
    using iscode_ok by blast
  define c1 where "c1 = set_entry i e c"
  have c1: "list_all entry_ok (lcf_entries c1)" "length (lcf_entries c1) = length (lcf_entries c)" "lcf_next c1 = lcf_next c"
    using Suc.prems(1) l(2) by (simp_all add: c1_def list_all_update)
  obtain r c2 where r: "(if l > 1 then lirc_execute prog c1 i else (None, c1)) = (r, c2)" by fastforce
  then have c2: "list_all entry_ok (lcf_entries c2) \<and> length (lcf_entries c2) = length (lcf_entries c1) \<and> lcf_next c2 = lcf_next c1"
    using c1(1,2) i execute_entries [of c1 i prog r c2] by (auto split: if_splits)
  have IH: "\<exists>s' c'. scan_entries prog remote button rep q' t n (i + 1) d = Some (s', c') \<and> config_ok c'
      \<and> length (lcf_entries c') = length (lcf_entries c)"
    if "list_all entry_ok (lcf_entries d)" "length (lcf_entries d) = length (lcf_entries c)"
      "\<forall>j. lcf_next d = Some j \<longrightarrow> j < length (lcf_entries c)" for q' t d
    using Suc.IH [of d "i + 1" q' t] that Suc.prems(2) by auto
  show ?case
    unfolding scan_entries.simps l option.case prod.case Let_def c1_def [symmetric]
    using IH [of c2] IH [of "c2\<lparr>lcf_next := None\<rparr>"] IH [of c1] c1 c2 Suc.prems(3) i r
    by (auto simp: config_ok_def)
qed

lemma restart_ok: "list_all entry_ok (lcf_entries c) \<Longrightarrow> config_ok (restart c)"
  by (simp add: config_ok_def restart_def)

lemma code2char_internal_ok:
  assumes "config_ok c"
  shows "\<exists>s c'. lirc_code2char_internal prog c code = Some (s, c') \<and> config_ok c'"
proof (cases "scan_rep code")
  case None
  then show ?thesis using assms restart_ok [of c] by (simp add: lirc_code2char_internal_def config_ok_def)
next
  case rep: (Some rep)
  show ?thesis
  proof (cases "code_tokens code")
    case None
    then show ?thesis using assms rep by (simp add: lirc_code2char_internal_def)
  next
    case (Some t)
    obtain button remote where t: "code_tokens code = Some (button, remote)" using Some by (cases t) auto
    obtain s c' where c': "(case lcf_next c of None \<Rightarrow> Some (None, c)
        | Some i \<Rightarrow> scan_entries prog remote button rep False None (length (lcf_entries c) - i) i c) = Some (s, c')" "config_ok c'"
    proof (cases "lcf_next c")
      case None
      then show ?thesis using that assms by simp
    next
      case (Some i)
      then show ?thesis
        using that assms scan_entries_ok [of c i "length (lcf_entries c) - i" prog remote button rep False None]
        by (auto simp: config_ok_def)
    qed
    have "config_ok (restart c')" using c'(2) restart_ok [of c'] by (simp add: config_ok_def)
    then show ?thesis using c' by (cases s) (simp_all add: lirc_code2char_internal_def t rep)
  qed
qed

section \<open>The reader makes well-formed configurations\<close>

definition fresh_entry :: "lirc_config_entry \<Rightarrow> bool" where
  "fresh_entry e \<longleftrightarrow> le_next_code e = first_index (le_code e) \<and> le_next_config e = first_index (le_config e)"

abbreviation entries_fresh :: "reader \<Rightarrow> bool" where
  "entries_fresh st \<equiv> list_all fresh_entry (rd_entries st)"

lemma end_entry_fresh: "end_entry prog check e st = Some (ret, st') \<Longrightarrow> entries_fresh st \<Longrightarrow> entries_fresh st'"
  by (auto simp: end_entry_def Let_def fresh_entry_def default_delay_def split: option.splits bool.splits if_splits)

lemma lirc_mode_fresh: "lirc_mode prog check t t2 st = Some (ret, st') \<Longrightarrow> entries_fresh st \<Longrightarrow> entries_fresh st'"
  by (auto simp: lirc_mode_def intro: end_entry_fresh split: if_splits option.splits)

lemma set_item_entries [simp]: "rd_entries (set_item t v st) = rd_entries st"
  by (simp add: set_item_def upd_entry_def)

lemma read_line_fresh:
  "read_line en prog check path s st = Some (ret, st') \<Longrightarrow> entries_fresh st \<Longrightarrow> entries_fresh st'"
  unfolding read_line_def read_plain_line_def read_item_line_def read_include_def read_directive_def
  by (auto simp: Let_def dest!: lirc_mode_fresh split: if_splits option.splits prod.splits)

lemma reader_loop_fresh:
  "reader_loop en prog check path st = Some (ret, st') \<Longrightarrow> entries_fresh st \<Longrightarrow> entries_fresh st'"
proof (induction en prog check path st rule: reader_loop.induct)
  case (1 en prog check path st)
  show ?case
  proof (cases "rd_stack st")
    case Nil
    then show ?thesis using 1(3,4) by (simp add: reader_loop.simps)
  next
    case (Cons f rest)
    show ?thesis
    proof (cases "lirc_readline (snd f)")
      case None
      then show ?thesis using 1(1) [OF Cons None] 1(3,4) Cons by (subst (asm) (2) reader_loop.simps) simp
    next
      case (Some x)
      obtain line left where x: "x = (line, left)" by (cases x)
      obtain ret1 st1 where l: "read_line en prog check path line (st\<lparr>rd_stack := (fst f, left) # rest\<rparr>) = Some (ret1, st1)"
        using 1(3) Cons Some x by (subst (asm) reader_loop.simps) (auto split: option.splits)
      then have "entries_fresh st1" using read_line_fresh [OF l] 1(4) by simp
      then show ?thesis
        using 1(2) [OF Cons Some x [symmetric] l refl] 1(3) Cons Some x l
        by (subst (asm) (2) reader_loop.simps) (auto split: if_splits)
    qed
  qed
qed

lemma fresh_entry_upd [simp]:
  "fresh_entry (e\<lparr>le_flags := f\<rparr>) = fresh_entry e" "fresh_entry (e\<lparr>le_change_mode := c\<rparr>) = fresh_entry e"
  by (simp_all add: fresh_entry_def)

lemma fresh_mark_once [simp]: "fresh_entry (mark_once m e) = fresh_entry e"
  by (simp add: mark_once_def split: option.split)

lemma flagged_mode_fresh:
  assumes "list_all fresh_entry es"
  shows "list_all fresh_entry (snd (flagged_mode es))"
proof -
  define flagged where "flagged = (\<lambda>e. flag_set e startup_mode \<and> le_change_mode e \<noteq> None)"
  have "list_all fresh_entry (takeWhile (\<lambda>e. \<not> flagged e) es @ dropWhile (\<lambda>e. \<not> flagged e) es)"
    using assms by simp
  then show ?thesis using assms unfolding flagged_mode_def flagged_def [symmetric] Let_def
    by (cases "dropWhile (\<lambda>e. \<not> flagged e) es") (simp_all only: list.case snd_conv list_all_append list.pred_inject fresh_entry_upd)
qed

lemma startupmode_fresh:
  "lirc_startupmode prog es = Some (m, es') \<Longrightarrow> list_all fresh_entry es \<Longrightarrow> list_all fresh_entry es'"
  using flagged_mode_fresh [of es]
  by (auto simp: lirc_startupmode_def list.pred_map comp_def split: prod.splits option.splits if_splits)

definition uniform_config :: "lirc_config \<Rightarrow> bool" where
  "uniform_config c \<longleftrightarrow> list_all uniform_entry (lcf_entries c)"

lemma make_config_ok:
  assumes "make_config prog st = Some c" and "entries_fresh st" and "uniform_config c"
  shows "config_ok c"
proof -
  obtain m es where m: "lirc_startupmode prog (rd_entries st) = Some (m, es)" and c: "lcf_entries c = es" "lcf_next c = first_index es"
    using assms(1) by (auto simp: make_config_def split: option.splits)
  then have "list_all fresh_entry es" using startupmode_fresh assms(2) by blast
  then have "list_all entry_ok es"
    using assms(3) by (auto simp: list_all_iff fresh_entry_def entry_ok_def uniform_config_def c)
  then show ?thesis by (auto simp: config_ok_def c first_index_def split: if_splits)
qed

lemma readconfig_ok:
  assumes "lirc_readconfig_only en prog check file = Some (ret, Some c)" and "uniform_config c"
  shows "config_ok c"
proof -
  obtain f r st where r: "reader_loop en prog check file (start_reader f) = Some r"
    "finish_reader prog check r = Some (0, st)" "make_config prog st = Some c"
    using assms(1) by (auto simp: lirc_readconfig_only_def lirc_readconfig_only_internal_def split: option.splits if_splits)
  have "entries_fresh (snd r)" using reader_loop_fresh [where st = "start_reader f" and ret = "fst r" and st' = "snd r"] r(1)
    by (simp add: start_reader_def)
  then have "entries_fresh st" using r(2) lirc_mode_fresh
    by (auto simp: finish_reader_def split: prod.splits if_splits)
  then show ?thesis using make_config_ok r(3) assms(2) by blast
qed

section \<open>The client as a state machine\<close>

text \<open>The configuration of a client (None is NULL) and what a client does with it.\<close>

datatype client_event =
    Read_Config "(string \<Rightarrow> int) option" "string option"
  | Code2char string
  | Code2charprog string
  | Setmode "string option"
  | Freeconfig

inductive client_step :: "client_env \<Rightarrow> string \<Rightarrow> lirc_config option \<Rightarrow> client_event \<Rightarrow> lirc_config option \<Rightarrow> bool"
  for en prog where
  Read_Config: "lirc_readconfig_only en (Some prog) check file = Some (ret, cf) \<Longrightarrow> \<forall>c. cf = Some c \<longrightarrow> uniform_config c \<Longrightarrow>
    client_step en prog x (Read_Config check file) cf"
| Code2char: "lirc_code2char prog c code = Some (ret, s, c') \<Longrightarrow> client_step en prog (Some c) (Code2char code) (Some c')"
| Code2charprog: "lirc_code2charprog c code = Some (ret, s, c') \<Longrightarrow> client_step en prog (Some c) (Code2charprog code) (Some c')"
| Setmode: "lirc_setmode c m = (s, c') \<Longrightarrow> client_step en prog (Some c) (Setmode m) (Some c')"
| Freeconfig: "client_step en prog (Some c) Freeconfig None"

abbreviation client_reach :: "client_env \<Rightarrow> string \<Rightarrow> lirc_config option \<Rightarrow> bool" where
  "client_reach en prog \<equiv> reaches None (client_step en prog)"

lemma code2char_ok:
  assumes "config_ok c"
  shows "\<exists>ret s c'. lirc_code2char prog c code = Some (ret, s, c') \<and> config_ok c'"
  using code2char_internal_ok [OF assms, of "Some prog" code] assms by (auto simp: lirc_code2char_def)

lemma code2charprog_ok:
  assumes "config_ok c"
  shows "\<exists>ret s c'. lirc_code2charprog c code = Some (ret, s, c') \<and> config_ok c'"
  using code2char_internal_ok [OF assms, of None code] by (auto simp: lirc_code2charprog_def)

lemma setmode_ok: "config_ok c \<Longrightarrow> lirc_setmode c m = (s, c') \<Longrightarrow> config_ok c'"
  by (auto simp: lirc_setmode_def config_ok_def)

interpretation client: invariant_system None "client_step en prog" "\<lambda>x. \<forall>c. x = Some c \<longrightarrow> config_ok c" for en prog
proof unfold_locales
  fix x e x'
  assume inv: "\<forall>c. x = Some c \<longrightarrow> config_ok c" and step: "client_step en prog x e x'"
  from step show "\<forall>c. x' = Some c \<longrightarrow> config_ok c"
  proof (cases rule: client_step.cases)
    case Read_Config
    then show ?thesis using readconfig_ok by blast
  next
    case (Code2char c code ret s c')
    then show ?thesis using inv code2char_ok [of c prog code] by auto
  next
    case (Code2charprog c code ret s c')
    then show ?thesis using inv code2charprog_ok [of c code] by auto
  next
    case Setmode
    then show ?thesis using inv setmode_ok by auto
  qed simp
qed simp

text \<open>
  C9: A client never follows an invalid pointer, whatever \<open>.lircrc\<close> it has read and whatever comes
  from the daemon: \<open>lirc_code2char\<close> and \<open>lirc_code2charprog\<close> return in every reachable state, as long
  as the codes of an entry agree in whether they leave the remote or the button open.
\<close>

theorem client_never_stuck:
  assumes "client_reach en prog (Some c)"
  shows "(\<exists>r. lirc_code2char prog c code = Some r) \<and> (\<exists>r. lirc_code2charprog c code = Some r)"
  using client.reaches_inv [OF assms] code2char_ok [of c prog code] code2charprog_ok [of c code] by blast

definition lines_text :: "string list \<Rightarrow> string" where
  "lines_text ls = concat (map (\<lambda>l. l @ [newline]) ls)"

definition lircrc_env :: "string list \<Rightarrow> client_env" where
  "lircrc_env ls = \<lparr>cl_fopen = (\<lambda>f. if f = ''/rc'' then Opened (lines_text ls) else No_Entry), cl_home = None,
     cl_xdg_config_home = None, cl_root_file = ''/etc/lirc/lircrc'', cl_old_root_file = ''/etc/lircrc''\<rparr>"

definition sample_lircrc :: "string list" where
  "sample_lircrc = [''begin'', ''prog = p'', ''remote = r'', ''button = a'', ''config = x'', ''end'']"

definition sample_config :: lirc_config where
  "sample_config = \<lparr>lcf_lircrc_class = None, lcf_current_mode = None, lcf_next = Some 0,
     lcf_entries = [new_config_entry\<lparr>le_prog := Some ''p'', le_code := [\<lparr>lc_remote = Some ''r'', lc_button = Some ''a''\<rparr>],
       le_config := [''x''], le_next_config := Some 0, le_next_code := Some 0\<rparr>]\<rparr>"

lemma sample_read: "lirc_readconfig_only (lircrc_env sample_lircrc) (Some ''p'') None (Some ''/rc'') = Some (0, Some sample_config)"
  by code_simp

theorem client_never_stuck_witness:
  "(\<exists>r. lirc_code2char ''p'' sample_config ''0 0 a r'' = Some r) \<and> (\<exists>r. lirc_code2charprog sample_config ''0 0 a r'' = Some r)"
proof (rule client_never_stuck)
  have "\<forall>c. Some sample_config = Some c \<longrightarrow> uniform_config c"
    by (simp add: sample_config_def uniform_config_def uniform_entry_def uniform_def)
  from client_step.Read_Config [OF sample_read this]
  show "client_reach (lircrc_env sample_lircrc) ''p'' (Some sample_config)"
    by (rule reaches.further [OF reaches.start])
qed

text \<open>
  Without that agreement a client crashes: when the first code of a sequence names a remote and
  the second leaves it open, any other button pressed third makes \<open>lirc_iscode\<close> compare a name with
  the address -1.
\<close>

theorem wildcard_crash:
  assumes "le_code e = c1 # c2 # c3 # cs" and "le_next_code e = Some 2"
    and "lc_remote c1 = Some r1" and "lc_remote c2 = None" and "\<not> code_matches c3 remote button"
  shows "lirc_iscode e remote button 0 = None"
  using assms by (simp add: lirc_iscode_def Let_def eval_nat_numeral same_code_def same_name_def)

definition crash_lircrc :: "string list" where
  "crash_lircrc = [''begin'', ''remote = r'', ''button = a'', ''remote = *'', ''button = b'', ''button = c'', ''end'']"

definition crash_entry :: "nat \<Rightarrow> lirc_config_entry" where
  "crash_entry k = new_config_entry\<lparr>le_next_code := Some k,
     le_code := [\<lparr>lc_remote = Some ''r'', lc_button = Some ''a''\<rparr>, \<lparr>lc_remote = None, lc_button = Some ''b''\<rparr>,
       \<lparr>lc_remote = None, lc_button = Some ''c''\<rparr>]\<rparr>"

lemma crash_entry_reached:
  "map_option (map_option lcf_entries \<circ> snd) (lirc_readconfig_only (lircrc_env crash_lircrc) (Some ''p'') None (Some ''/rc''))
     = Some (Some [crash_entry 0])"
  "lirc_iscode (crash_entry 0) ''r'' ''a'' 0 = Some (1, crash_entry 1)"
  "lirc_iscode (crash_entry 1) ''r'' ''b'' 0 = Some (1, crash_entry 2)"
  by code_simp+

theorem wildcard_crash_witness:
  "map_option (map_option lcf_entries \<circ> snd) (lirc_readconfig_only (lircrc_env crash_lircrc) (Some ''p'') None (Some ''/rc''))
     = Some (Some [crash_entry 0])
   \<and> lirc_iscode (crash_entry 0) ''r'' ''a'' 0 = Some (1, crash_entry 1)
   \<and> lirc_iscode (crash_entry 1) ''r'' ''b'' 0 = Some (1, crash_entry 2)
   \<and> lirc_iscode (crash_entry 2) ''r'' ''x'' 0 = None"
proof -
  have "\<not> code_matches \<lparr>lc_remote = None, lc_button = Some ''c''\<rparr> ''r'' ''x''" by code_simp
  then have "lirc_iscode (crash_entry 2) ''r'' ''x'' 0 = None"
    by (rule wildcard_crash [where ?r1.0 = "''r''", rotated 4]) (simp add: crash_entry_def)+
  then show ?thesis by (simp only: crash_entry_reached simp_thms)
qed

section \<open>Strings and flags\<close>

text \<open>The strings an entry hands out when it is executed \<open>n\<close> times.\<close>

primrec executions :: "string option \<Rightarrow> nat \<Rightarrow> nat \<Rightarrow> lirc_config \<Rightarrow> string option list" where
  "executions prog i 0 c = []"
| "executions prog i (Suc n) c = (case lirc_execute prog c i of (s, c') \<Rightarrow> s # executions prog i n c')"

lemma execute_next:
  assumes "i < length (lcf_entries c)" and "le_prog (lcf_entries c ! i) = Some p" and "strcasecmp_eq p q"
    and "le_change_mode (lcf_entries c ! i) = None" and "\<not> flag_set (lcf_entries c ! i) mode"
    and "le_next_config (lcf_entries c ! i) = Some k" and "k < length (le_config (lcf_entries c ! i))"
  shows "lirc_execute (Some q) c i = (Some (le_config (lcf_entries c ! i) ! k),
     set_entry i ((lcf_entries c ! i)\<lparr>le_next_config := Some ((k + 1) mod length (le_config (lcf_entries c ! i)))\<rparr>) c)"
proof -
  have "(k + 1) mod n = (if k + 1 < n then k + 1 else 0)" if "k < n" for n :: nat
    using that by (cases "k + 1 = n") auto
  then show ?thesis using assms by (simp add: lirc_execute_def Let_def)
qed

text \<open>
  An entry of the client's program hands out its strings in turn and starts again with the first
  one: the \<open>j\<close>-th execution gives the string \<open>j\<close> places behind the current one, modulo their number.
\<close>

theorem strings_in_turn:
  assumes "i < length (lcf_entries c)" and "le_prog (lcf_entries c ! i) = Some p" and "strcasecmp_eq p q"
    and "le_change_mode (lcf_entries c ! i) = None" and "\<not> flag_set (lcf_entries c ! i) mode"
    and "le_next_config (lcf_entries c ! i) = Some k" and "k < length (le_config (lcf_entries c ! i))"
  shows "executions (Some q) i n c
    = map (\<lambda>j. Some (le_config (lcf_entries c ! i) ! ((k + j) mod length (le_config (lcf_entries c ! i))))) [0..<n]"
  using assms
proof (induction n arbitrary: c k)
  case (Suc n)
  let ?cs = "le_config (lcf_entries c ! i)"
  have map: "map f [0..<Suc n] = f 0 # map (\<lambda>j. f (Suc j)) [0..<n]" for f :: "nat \<Rightarrow> string option"
    by (simp add: upt_conv_Cons map_Suc_upt [symmetric] comp_def del: upt_Suc)
  have pos: "0 < length ?cs" using Suc.prems(7) by (cases ?cs) auto
  define c' where "c' = set_entry i ((lcf_entries c ! i)\<lparr>le_next_config := Some ((k + 1) mod length ?cs)\<rparr>) c"
  have e: "lcf_entries c' ! i = (lcf_entries c ! i)\<lparr>le_next_config := Some ((k + 1) mod length ?cs)\<rparr>"
    using Suc.prems(1) by (simp add: c'_def)
  have "executions (Some q) i n c' = map (\<lambda>j. Some (?cs ! (((k + 1) mod length ?cs + j) mod length ?cs))) [0..<n]"
    using Suc.IH [of c' "(k + 1) mod length ?cs"] Suc.prems pos by (simp add: e flag_set_def) (simp add: c'_def)
  moreover have "lirc_execute (Some q) c i = (Some (?cs ! k), c')"
    using execute_next [OF Suc.prems] by (simp only: c'_def)
  ultimately show ?case
    using Suc.prems(7) by (simp add: map mod_add_left_eq del: upt_Suc)
qed simp

theorem strings_in_turn_witness:
  "executions (Some ''P'') 0 3 (sample_config\<lparr>lcf_entries := [(lcf_entries sample_config ! 0)\<lparr>le_config := [''on'', ''off'']\<rparr>]\<rparr>)
     = [Some ''on'', Some ''off'', Some ''on'']"
  by (subst strings_in_turn [where p = "''p''" and k = 0]; code_simp)

lemma flag_of_separator: "CHR ''|'' \<in> set s \<Longrightarrow> flag_of s = 0"
proof -
  assume s: "CHR ''|'' \<in> set s"
  have "CHR ''|'' \<in> set (map c_tolower s)"
    using imageI [OF s, of c_tolower] by (simp add: c_tolower_def char_code_def)
  then have "\<not> strcasecmp_eq s f" if "CHR ''|'' \<notin> set (map c_tolower f)" for f
    using that unfolding strcasecmp_eq_def by metis
  then show ?thesis by (simp add: flag_of_def c_tolower_def char_code_def)
qed

definition flag_text :: "string \<Rightarrow> bool" where
  "flag_text t \<longleftrightarrow> t \<noteq> [] \<and> set t \<inter> set ('' '' @ [CHR 0x09] @ ''|'') = {}"

text \<open>
  The separator of flags is lost after the first: of flags written \<open>a|b|c\<close> only \<open>a\<close> is set, because
  the later calls of \<open>strtok\<close> take \<open>b|c\<close> for one word. With blanks around the separators, or blanks
  alone, all flags are set.
\<close>

theorem flags_after_first_lost:
  assumes "flag_text a" and "flag_text b" and "flag_text c"
  shows "lirc_flags (a @ ''|'' @ b @ ''|'' @ c) = flag_of a
    \<and> lirc_flags (a @ '' '' @ b @ '' '' @ c) = flag_of a OR flag_of b OR flag_of c"
proof -
  let ?w = "'' '' @ [CHR 0x09]" and ?s = "'' '' @ [CHR 0x09] @ ''|''"
  have step: "flags_loop d s f = flags_loop ?w r (f OR flag_of t)" if "strtok d s = Some (t, r)" for d s f t r
    using that by (subst flags_loop.simps) simp
  have none: "flags_loop ?w [] f = f" for f by (simp add: flags_loop.simps strtok_blank)
  have sep: "strtok ?s (a @ ''|'' @ r) = Some (a, r)" "strtok ?s (a @ '' '' @ r) = Some (a, r)" for r
    using assms(1) strtok_token(1) [of "[]" ?s a _ r] by (simp_all add: flag_text_def)
  have one: "strtok ?w t = Some (t, [])" "strtok ?w (t @ '' '' @ r) = Some (t, r)" if "t \<noteq> []" "set t \<inter> set ?w = {}" for t r
    using that strtok_token(1) [of "[]" ?w t "CHR '' ''" r] strtok_token(2) [of "[]" ?w t "CHR '' ''"] by simp_all
  have bc: "b @ ''|'' @ c \<noteq> []" "set (b @ ''|'' @ c) \<inter> set ?w = {}" "b \<noteq> []" "set b \<inter> set ?w = {}" "c \<noteq> []" "set c \<inter> set ?w = {}"
    using assms(2,3) by (auto simp: flag_text_def)
  have "lirc_flags (a @ ''|'' @ b @ ''|'' @ c) = none OR flag_of a OR flag_of (b @ ''|'' @ c)"
    unfolding lirc_flags_def by (simp only: step [OF sep(1)] step [OF one(1) [OF bc(1,2)]] none or.assoc)
  moreover have "lirc_flags (a @ '' '' @ b @ '' '' @ c) = none OR flag_of a OR flag_of b OR flag_of c"
    unfolding lirc_flags_def
    by (simp only: step [OF sep(2)] step [OF one(2) [OF bc(3,4)]] step [OF one(1) [OF bc(5,6)]] none or.assoc)
  moreover have "flag_of (b @ ''|'' @ c) = 0" by (rule flag_of_separator) simp
  ultimately show ?thesis by (simp add: none_def)
qed

theorem flags_after_first_lost_witness:
  "lirc_flags ''once|quit|mode'' = once" 
  using flags_after_first_lost [of "''once''" "''quit''" "''mode''"]
  by (simp add: flag_text_def flag_of_def strcasecmp_eq_def)

end
