(* ===== verification/Client_Input_Spec.thy ===== *)
theory Client_Input_Spec
  imports Client_Input
begin

text \<open>
  How the client cuts what it reads into lines and replies, and what happens when the daemon's packets
  do not end with a line.
\<close>

section \<open>Codes\<close>

text \<open>The bytes that will arrive, and the state of \<open>lirc_nextcode\<close> while \<open>s\<close> waits in the buffer.\<close>

primrec stream_of :: "read_result list \<Rightarrow> string" where
  "stream_of [] = []"
| "stream_of (x # xs) = (case x of Bytes d \<Rightarrow> d | _ \<Rightarrow> []) @ stream_of xs"

definition holds_code :: "code_input \<Rightarrow> string \<Rightarrow> bool" where
  "holds_code ci s \<longleftrightarrow> ci_end_len ci = length s \<and> nul \<notin> set s
     \<and> (case ci_buffer ci of None \<Rightarrow> s = [] | Some m \<Rightarrow> \<exists>t. m = s @ nul # t)"

lemma takeWhile_text: "x \<notin> set s \<Longrightarrow> takeWhile (\<lambda>c. c \<noteq> x) (s @ x # t) = s"
  by (induction s) auto

lemma c_str_text [simp]: "nul \<notin> set s \<Longrightarrow> c_str (s @ nul # t) = s"
  by (simp add: c_str_def takeWhile_text)

lemma line_end_text:
  "nul \<notin> set s \<Longrightarrow> line_end (s @ nul # t) = (if newline \<in> set s then Some (length (takeWhile (\<lambda>c. c \<noteq> newline) s)) else None)"
  by (auto simp: line_end_def takeWhile_append1)

lemma sock_read_stream:
  "sock_read n sock = (r, sock') \<Longrightarrow> stream_of sock = (case r of Bytes d \<Rightarrow> d | _ \<Rightarrow> []) @ stream_of sock'"
  by (induction n sock rule: sock_read.induct) (auto split: if_splits)

lemma poke_text: "poke (length s) (d @ [nul]) (s @ nul # t) = s @ d @ nul # drop (length d) t"
  by (simp add: poke_def)

lemma poke_start: "length s \<le> length m \<Longrightarrow> \<exists>t. poke 0 (s @ [nul]) m = s @ nul # t"
  by (simp add: poke_def)

lemma line_split:
  assumes "newline \<in> set s"
  obtains l r where "s = l @ newline # r" "newline \<notin> set l" "takeWhile (\<lambda>c. c \<noteq> newline) s = l"
  using split_list_first [OF assms] takeWhile_text that by metis

text \<open>A line is cut off a text that has one.\<close>

definition is_line :: "string \<Rightarrow> bool" where
  "is_line c \<longleftrightarrow> c \<noteq> [] \<and> last c = newline \<and> newline \<notin> set (butlast c)"

lemma take_code_text:
  assumes "nul \<notin> set s" and "line_end (s @ nul # t) = Some i"
  shows "\<exists>c r ci'. take_code i (s @ nul # t) ci = (c, ci') \<and> s = c @ r \<and> is_line c \<and> holds_code ci' r"
proof -
  have "newline \<in> set s" and i: "i = length (takeWhile (\<lambda>c. c \<noteq> newline) s)"
    using assms by (auto simp: line_end_text split: if_splits)
  then obtain l r where s: "s = l @ newline # r" "newline \<notin> set l" "i = length l"
    using line_split by metis
  have "nul \<notin> set r" using assms(1) s by simp
  then show ?thesis
    using s by (auto simp: take_code_def Let_def holds_code_def is_line_def poke_def)
qed

lemma holds_code_buffer:
  "holds_code ci s \<Longrightarrow> ci_end_len ci = length s \<and> nul \<notin> set s \<and> (\<exists>t. the_buffer junk ci = s @ nul # t)"
  by (auto simp: holds_code_def the_buffer_def poke_def split: option.splits)

lemma code_room_holds:
  "ci_end_len ci = length s \<Longrightarrow> nul \<notin> set s \<Longrightarrow> holds_code (code_room junk (s @ nul # t) ci) s"
  by (simp add: code_room_def holds_code_def)

lemma nextcode_step:
  assumes "holds_code ci s" and "nul \<notin> set (stream_of sock)"
    and "lirc_nextcode junk ci sock = ((ret, code), ci', sock')"
  shows "\<exists>s' d. holds_code ci' s' \<and> stream_of sock = d @ stream_of sock' \<and> s @ d = (case code of None \<Rightarrow> [] | Some c \<Rightarrow> c) @ s'
    \<and> (\<forall>c. code = Some c \<longrightarrow> is_line c)"
proof -
  obtain t where m: "the_buffer junk ci = s @ nul # t" and s: "ci_end_len ci = length s" "nul \<notin> set s"
    using holds_code_buffer [OF assms(1)] by blast
  show ?thesis
  proof (cases "line_end (s @ nul # t)")
    case (Some i)
    then show ?thesis
      using take_code_text [OF s(2) Some, of ci] assms(3) by (auto simp: lirc_nextcode_def m)
  next
    case None
    define ci2 where "ci2 = code_room junk (s @ nul # t) ci"
    have ci2: "holds_code ci2 s" using code_room_holds s by (simp add: ci2_def)
    obtain t2 where m2: "the_buffer junk ci2 = s @ nul # t2" and e2: "ci_end_len ci2 = length s"
      using holds_code_buffer [OF ci2] by blast
    obtain x sock2 where x: "sock_read (ci_packet_size ci2 - length s) sock = (x, sock2)" by fastforce
    note code = assms(3) [unfolded lirc_nextcode_def m Let_def None option.case, folded ci2_def, unfolded e2 x m2 prod.case]
    show ?thesis
    proof (cases "\<exists>d. x = Bytes d \<and> d \<noteq> []")
      case False
      then show ?thesis using code sock_read_stream [OF x] ci2 by (auto split: read_result.splits)
    next
      case True
      then obtain d where d: "x = Bytes d" "d \<noteq> []" by blast
      have nul: "nul \<notin> set (s @ d)" using s assms(2) sock_read_stream [OF x] d by simp
      define m3 where "m3 = (s @ d) @ nul # drop (length d) t2"
      define ci3 where "ci3 = ci2\<lparr>ci_buffer := Some m3, ci_end_len := length s + length d\<rparr>"
      have ci3: "holds_code ci3 (s @ d)" using nul by (simp add: ci3_def holds_code_def m3_def)
      have m3: "poke (length s) (d @ [nul]) (s @ nul # t2) = m3" by (simp add: poke_text m3_def)
      note code = code [unfolded d(1) read_result.case prod.case if_not_P [OF d(2)], unfolded m3, folded ci3_def]
      show ?thesis
      proof (cases "line_end m3")
        case None
        then show ?thesis using code d sock_read_stream [OF x] ci3 by auto
      next
        case (Some i)
        then show ?thesis
          using take_code_text [OF nul, of "drop (length d) t2" i ci3, folded m3_def, OF Some]
            code d sock_read_stream [OF x] by auto
      qed
    qed
  qed
qed

text \<open>A client that asks \<open>n\<close> times; the codes it gets.\<close>

primrec next_codes :: "(nat \<Rightarrow> string) \<Rightarrow> nat \<Rightarrow> code_input \<Rightarrow> read_result list
    \<Rightarrow> string list \<times> code_input \<times> read_result list" where
  "next_codes junk 0 ci sock = ([], ci, sock)"
| "next_codes junk (Suc n) ci sock = (case lirc_nextcode junk ci sock of
     ((ret, code), ci, sock) \<Rightarrow> (case next_codes junk n ci sock of
       (codes, ci, sock) \<Rightarrow> ((case code of None \<Rightarrow> codes | Some c \<Rightarrow> c # codes), ci, sock)))"

lemma next_codes_lines:
  assumes "holds_code ci s" and "nul \<notin> set (stream_of sock)"
    and "next_codes junk n ci sock = (codes, ci', sock')"
  shows "\<exists>rest d. holds_code ci' rest \<and> stream_of sock = d @ stream_of sock' \<and> s @ d = concat codes @ rest \<and> list_all is_line codes"
  using assms
proof (induction n arbitrary: ci s sock codes)
  case (Suc n)
  obtain ret code ci1 sock1 where 1: "lirc_nextcode junk ci sock = ((ret, code), ci1, sock1)"
    by (metis prod.collapse)
  obtain cs where 2: "next_codes junk n ci1 sock1 = (cs, ci', sock')" "codes = (case code of None \<Rightarrow> cs | Some c \<Rightarrow> c # cs)"
    using Suc.prems(3) 1 by (auto split: prod.splits)
  obtain s1 d1 where s1: "holds_code ci1 s1" "stream_of sock = d1 @ stream_of sock1"
    "s @ d1 = (case code of None \<Rightarrow> [] | Some c \<Rightarrow> c) @ s1" "\<forall>c. code = Some c \<longrightarrow> is_line c"
    using nextcode_step [OF Suc.prems(1,2) 1] by blast
  moreover have "nul \<notin> set (stream_of sock1)" using Suc.prems(2) s1(2) by simp
  ultimately obtain rest d where r: "holds_code ci' rest" "stream_of sock1 = d @ stream_of sock'"
    "s1 @ d = concat cs @ rest" "list_all is_line cs"
    using Suc.IH [OF _ _ 2(1)] by blast
  have "s @ d1 @ d = concat codes @ rest"
    using s1(3) r(3) by (cases code) (simp_all add: 2(2) flip: append_assoc, simp_all)
  then show ?case using r s1 by (intro exI [of _ rest] exI [of _ "d1 @ d"]) (auto simp: 2(2) split: option.split)
qed (auto intro!: exI)

text \<open>
  C26: \<open>lirc_nextcode\<close> cuts the daemon's stream into lines, however the stream arrives: after any number
  of calls the codes handed out, each a single line, together with what waits in the buffer are the
  bytes read so far - nothing is lost, doubled or reordered.
\<close>

theorem nextcode_lines:
  assumes "nul \<notin> set (stream_of sock)" and "next_codes junk n code_input_init sock = (codes, ci', sock')"
  shows "\<exists>rest. stream_of sock = concat codes @ rest @ stream_of sock' \<and> ci_end_len ci' = length rest
    \<and> list_all is_line codes"
proof -
  have "holds_code code_input_init []" by (simp add: holds_code_def code_input_init_def)
  from next_codes_lines [OF this assms] show ?thesis by (force simp: holds_code_def)
qed

definition two_packets :: "read_result list" where
  "two_packets = [Bytes ''a'', Bytes (''b'' @ [newline] @ ''c'')]"

theorem nextcode_lines_witness:
  "\<exists>rest. ''ab'' @ [newline] @ ''c'' = (''ab'' @ [newline]) @ rest"
proof -
  let ?r = "next_codes (\<lambda>n. replicate n nul) 2 code_input_init two_packets"
  have "nul \<notin> set (stream_of two_packets)" by code_simp
  from nextcode_lines [OF this, of "\<lambda>n. replicate n nul" 2 "fst ?r" "fst (snd ?r)" "snd (snd ?r)"]
  have "\<exists>rest. stream_of two_packets = concat (fst ?r) @ rest @ stream_of (snd (snd ?r))" by auto
  moreover have "stream_of two_packets = ''ab'' @ [newline] @ ''c''" "fst ?r = [''ab'' @ [newline]]" "snd (snd ?r) = []"
    by code_simp+
  ultimately show ?thesis by simp
qed

text \<open>A new buffer starts with NUL, and what is stored behind it does not change that.\<close>

definition blank_buffer :: "string \<Rightarrow> bool" where
  "blank_buffer m \<longleftrightarrow> m \<noteq> [] \<and> hd m = nul"

lemma blank_line_end: "blank_buffer m \<Longrightarrow> line_end m = None"
  by (cases m) (auto simp: blank_buffer_def line_end_def c_str_def)

lemma blank_poke: "0 < k \<Longrightarrow> blank_buffer m \<Longrightarrow> blank_buffer (poke k d m)"
  by (cases m; cases k) (auto simp: blank_buffer_def poke_def)

definition deaf :: "code_input \<Rightarrow> bool" where
  "deaf ci \<longleftrightarrow> 0 < ci_end_len ci \<and> (\<forall>m. ci_buffer ci = Some m \<longrightarrow> blank_buffer m)"

lemma deaf_buffer: "deaf ci \<Longrightarrow> blank_buffer (the_buffer junk ci)"
  by (auto simp: deaf_def the_buffer_def blank_buffer_def poke_def split: option.split)

lemma deaf_room: "deaf ci \<Longrightarrow> blank_buffer m \<Longrightarrow> deaf (code_room junk m ci)"
  by (auto simp: deaf_def code_room_def blank_buffer_def)

lemma deaf_store:
  "deaf ci \<Longrightarrow> blank_buffer m \<Longrightarrow> deaf (ci\<lparr>ci_buffer := Some m, ci_end_len := ci_end_len ci + k\<rparr>)"
  by (simp add: deaf_def)

lemma deaf_step:
  assumes "deaf ci" and "lirc_nextcode junk ci sock = ((ret, code), ci', sock')"
  shows "code = None \<and> deaf ci'"
proof -
  define ci2 where "ci2 = code_room junk (the_buffer junk ci) ci"
  have ci2: "deaf ci2" unfolding ci2_def by (intro deaf_room deaf_buffer assms(1))
  have pk: "blank_buffer (poke (ci_end_len ci2) d (the_buffer junk ci2))" for d
    using ci2 deaf_buffer [OF ci2] by (intro blank_poke) (simp_all add: deaf_def)
  show ?thesis
    using assms(2) ci2 blank_line_end [OF deaf_buffer [OF assms(1)]] blank_line_end [OF pk] deaf_store [OF ci2 pk]
    unfolding lirc_nextcode_def Let_def ci2_def [symmetric]
    by (auto split: prod.splits read_result.splits if_splits)
qed

lemma deaf_codes: "deaf ci \<Longrightarrow> fst (next_codes junk n ci sock) = []"
proof (induction n arbitrary: ci sock)
  case (Suc n)
  obtain ret code ci1 sock1 where 1: "lirc_nextcode junk ci sock = ((ret, code), ci1, sock1)"
    by (metis prod.collapse)
  then show ?case using deaf_step [OF Suc.prems 1] Suc.IH [of ci1 sock1] by (auto split: prod.split)
qed simp

text \<open>
  A client that calls \<open>lirc_deinit\<close> while part of the stream waits in the buffer never gets a code
  again: the static length survives the buffer, so that what arrives after the next \<open>lirc_init\<close> is
  stored behind the NUL at the start of the new buffer.
\<close>

theorem deinit_deaf:
  assumes "0 < ci_end_len ci"
  shows "fst (next_codes junk n (lirc_deinit ci) sock) = []"
  by (rule deaf_codes) (use assms in \<open>simp add: deaf_def lirc_deinit_def\<close>)

theorem deinit_deaf_witness:
  "let (codes, ci, sock) = next_codes (\<lambda>n. replicate n nul) 2 code_input_init two_packets
   in fst (next_codes (\<lambda>n. replicate n nul) 7 (lirc_deinit ci) [Bytes (''ab'' @ [newline])]) = []"
proof -
  have "0 < ci_end_len (fst (snd (next_codes (\<lambda>n. replicate n nul) 2 code_input_init two_packets)))"
    by code_simp
  from deinit_deaf [OF this] show ?thesis by (simp add: split_beta)
qed

section \<open>Replies\<close>

text \<open>
  The reply as lines: the state of the reader without its buffer goes from line to line. The buffer
  holds the lines that are left, ended by newlines.
\<close>

definition line_text :: "string \<Rightarrow> bool" where
  "line_text l \<longleftrightarrow> l \<noteq> [] \<and> newline \<notin> set l \<and> nul \<notin> set l"

definition unlines :: "string list \<Rightarrow> string" where
  "unlines ls = concat (map (\<lambda>l. l @ [newline]) ls)"

text \<open>The buffer is at a line: the lines \<open>ls\<close> are behind \<open>next\<close>.\<close>

definition at_lines :: "cmd_ctx \<Rightarrow> string list \<Rightarrow> bool" where
  "at_lines ctx ls \<longleftrightarrow> (\<exists>k u t. cc_next ctx = Some k \<and> cc_buffer ctx = u @ unlines ls @ nul # t \<and> length u = k
      \<and> cc_head ctx = k + length (unlines ls))"

definition sans_buffer :: "reply_state \<Rightarrow> reply_state" where
  "sans_buffer st = st\<lparr>rs_ctx := (rs_ctx st)\<lparr>cc_buffer := [], cc_head := 0, cc_next := None\<rparr>, rs_string := True\<rparr>"

primrec reply_lines :: "string list \<Rightarrow> reply_state \<Rightarrow> reply_outcome" where
  "reply_lines [] st = Going st"
| "reply_lines (l # ls) st = (case reply_line l st of Going st \<Rightarrow> reply_lines ls st | x \<Rightarrow> x)"

definition outcome_map :: "(reply_state \<Rightarrow> reply_state) \<Rightarrow> reply_outcome \<Rightarrow> reply_outcome" where
  "outcome_map f x = (case x of Going st \<Rightarrow> Going (f st) | Returned r st \<Rightarrow> Returned r (f st) | Crashed \<Rightarrow> Crashed)"

lemma shift_at_lines:
  assumes "at_lines ctx ls"
  shows "\<exists>t. shift_buffer ctx = Some (ctx\<lparr>cc_buffer := unlines ls @ nul # t, cc_head := length (unlines ls), cc_next := Some 0\<rparr>)"
proof -
  obtain k u t where a: "cc_next ctx = Some k" "cc_buffer ctx = u @ unlines ls @ nul # t" "length u = k"
    "cc_head ctx = k + length (unlines ls)"
    using assms by (auto simp: at_lines_def)
  show ?thesis
  proof (cases "k = 0")
    case True
    then have "ctx\<lparr>cc_buffer := unlines ls @ nul # t, cc_head := length (unlines ls), cc_next := Some 0\<rparr> = ctx"
      using a by (cases ctx) simp
    moreover have "shift_buffer ctx = Some ctx" by (simp add: shift_buffer_def a(1) True)
    ultimately show ?thesis by (intro exI [of _ t]) (simp only:)
  next
    case False
    then show ?thesis using a by (auto simp: shift_buffer_def poke_def)
  qed
qed

lemma step_at_lines:
  assumes "at_lines (rs_ctx st) (l # ls)" and "list_all line_text (l # ls)"
  shows "\<exists>ctx. reply_step st = reply_line l (st\<lparr>rs_ctx := ctx, rs_string := True\<rparr>) \<and> at_lines ctx ls
    \<and> sans_buffer (st\<lparr>rs_ctx := ctx\<rparr>) = sans_buffer st"
proof -
  obtain t where t: "shift_buffer (rs_ctx st) = Some ((rs_ctx st)\<lparr>cc_buffer := unlines (l # ls) @ nul # t,
      cc_head := length (unlines (l # ls)), cc_next := Some 0\<rparr>)"
    using shift_at_lines [OF assms(1)] by blast
  have nul: "nul \<notin> set (unlines (l # ls))"
    using assms(2) by (auto simp: unlines_def line_text_def list_all_iff)
  have u: "unlines (l # ls) = l @ newline # unlines ls" by (simp add: unlines_def)
  have "line_end (unlines (l # ls) @ nul # t) = Some (length l)"
    using assms(2) unfolding line_end_text [OF nul] by (simp add: u takeWhile_text line_text_def)
  then have e: "line_end (l @ newline # unlines ls @ nul # t) = Some (length l)" by (simp add: u)
  define ctx where "ctx = (rs_ctx st)\<lparr>cc_buffer := l @ nul # unlines ls @ nul # t,
      cc_head := length (unlines (l # ls)), cc_next := Some (Suc (length l))\<rparr>"
  have "read_string (rs_ctx st) (rs_sock st) = Some (0, ctx, rs_sock st)"
    using e by (simp add: read_string_def t split_line_def ctx_def u poke_def)
  moreover have "c_str (cc_buffer ctx) = l" "l \<noteq> []" using assms(2) by (simp_all add: ctx_def line_text_def)
  ultimately have "reply_step st = reply_line l (st\<lparr>rs_ctx := ctx, rs_string := True\<rparr>)"
    by (simp add: reply_step_def EAGAIN_def)
  moreover have "at_lines ctx ls"
    unfolding at_lines_def ctx_def by (intro exI [of _ "Suc (length l)"] exI [of _ "l @ [nul]"] exI [of _ t]) (simp add: u)
  moreover have "sans_buffer (st\<lparr>rs_ctx := ctx\<rparr>) = sans_buffer st" by (simp add: sans_buffer_def ctx_def)
  ultimately show ?thesis by blast
qed

lemma reply_line_sans:
  "outcome_map sans_buffer (reply_line l (sans_buffer st)) = outcome_map sans_buffer (reply_line l st)"
  by (auto simp: reply_line_def outcome_map_def sans_buffer_def data_line_def Let_def split: packet_state.split prod.split)

lemma reply_line_ctx:
  assumes "reply_line l st = Going st'"
  shows "cc_buffer (rs_ctx st') = cc_buffer (rs_ctx st)" "cc_next (rs_ctx st') = cc_next (rs_ctx st)"
    "cc_head (rs_ctx st') = cc_head (rs_ctx st)" "rs_string st' = rs_string st"
  using assms by (auto simp: reply_line_def data_line_def Let_def split: packet_state.splits prod.splits if_splits)

lemma reply_line_at: "reply_line l st = Going st' \<Longrightarrow> at_lines (rs_ctx st') ls = at_lines (rs_ctx st) ls"
  by (simp add: at_lines_def reply_line_ctx)

lemma reply_lines_sans:
  "outcome_map sans_buffer (reply_lines ls (sans_buffer st)) = outcome_map sans_buffer (reply_lines ls st)"
proof (induction ls arbitrary: st)
  case Nil
  show ?case by (simp add: outcome_map_def sans_buffer_def)
next
  case (Cons l ls)
  note eq = reply_line_sans [of l st]
  have IH: "outcome_map sans_buffer (reply_lines ls x) = outcome_map sans_buffer (reply_lines ls y)"
    if "sans_buffer x = sans_buffer y" for x y
    using Cons.IH [of x] Cons.IH [of y] that by simp
  show ?case
  proof (cases "reply_line l (sans_buffer st)")
    case (Going x)
    then obtain y where "reply_line l st = Going y" "sans_buffer x = sans_buffer y"
      using eq by (cases "reply_line l st") (simp_all add: outcome_map_def)
    then show ?thesis using Going IH [of x y] by simp
  next
    case (Returned r x)
    then obtain y where "reply_line l st = Returned r y" "sans_buffer x = sans_buffer y"
      using eq by (cases "reply_line l st") (simp_all add: outcome_map_def)
    then show ?thesis using Returned by (simp add: outcome_map_def)
  next
    case Crashed
    then have "reply_line l st = Crashed" using eq by (cases "reply_line l st") (simp_all add: outcome_map_def)
    then show ?thesis using Crashed by (simp add: outcome_map_def)
  qed
qed

lemma loop_at_lines:
  assumes "at_lines (rs_ctx st) ls" and "list_all line_text ls"
  shows "outcome_map sans_buffer (reply_loop (length ls) st) = outcome_map sans_buffer (reply_lines ls st)"
  using assms
proof (induction ls arbitrary: st)
  case (Cons l ls)
  obtain ctx where c: "reply_step st = reply_line l (st\<lparr>rs_ctx := ctx, rs_string := True\<rparr>)" "at_lines ctx ls"
    "sans_buffer (st\<lparr>rs_ctx := ctx\<rparr>) = sans_buffer st"
    using step_at_lines [OF Cons.prems] by blast
  have "sans_buffer (st\<lparr>rs_ctx := ctx, rs_string := True\<rparr>) = sans_buffer st"
    using c(3) by (simp add: sans_buffer_def)
  then have same: "outcome_map sans_buffer (reply_lines (l # ls) (st\<lparr>rs_ctx := ctx, rs_string := True\<rparr>))
      = outcome_map sans_buffer (reply_lines (l # ls) st)"
    by (metis reply_lines_sans)
  have "outcome_map sans_buffer (reply_loop (length ls) st') = outcome_map sans_buffer (reply_lines ls st')"
    if "reply_line l (st\<lparr>rs_ctx := ctx, rs_string := True\<rparr>) = Going st'" for st'
    using Cons.IH [of st'] reply_line_at [OF that, of ls] c(2) Cons.prems(2) by simp
  then show ?case
    unfolding same [symmetric] by (auto simp: c(1) split: reply_outcome.split)
qed simp

lemma first_line_step:
  assumes "list_all line_text (l # ls)" and "length (unlines (l # ls)) \<le> PACKET_SIZE_nat"
  shows "\<exists>ctx. reply_step (start_reply (snd (lirc_command_init str)) [Bytes (unlines (l # ls))])
      = reply_line l ((start_reply (snd (lirc_command_init str)) [])\<lparr>rs_ctx := ctx, rs_string := True\<rparr>)
    \<and> at_lines ctx ls \<and> sans_buffer ((start_reply (snd (lirc_command_init str)) [])\<lparr>rs_ctx := ctx\<rparr>)
      = sans_buffer (start_reply (snd (lirc_command_init str)) [])"
proof -
  define c0 where "c0 = snd (lirc_command_init str)"
  define t where "t = replicate (PACKET_SIZE_nat - length (unlines (l # ls))) nul"
  have nul: "nul \<notin> set (unlines (l # ls))"
    using assms(1) by (auto simp: unlines_def line_text_def list_all_iff)
  have u: "unlines (l # ls) = l @ newline # unlines ls" by (simp add: unlines_def)
  have fill: "poke 0 (unlines (l # ls)) (replicate (PACKET_SIZE_nat + 1) nul) = unlines (l # ls) @ nul # t"
    using assms(2) by (simp only: poke_def t_def take_0 append_Nil add_0 drop_replicate) (simp add: Suc_diff_le)
  have "line_end (unlines (l # ls) @ nul # t) = Some (length l)"
    using assms(1) unfolding line_end_text [OF nul] by (simp add: u takeWhile_text line_text_def)
  then have e: "line_end (l @ newline # unlines ls @ nul # t) = Some (length l)" by (simp add: u)
  define ctx where "ctx = c0\<lparr>cc_buffer := l @ nul # unlines ls @ nul # t,
      cc_head := length (unlines (l # ls)), cc_next := Some (Suc (length l))\<rparr>"
  have c0: "cc_next c0 = None" "cc_head c0 = 0" "cc_buffer c0 = replicate (PACKET_SIZE_nat + 1) nul"
    by (simp_all add: c0_def lirc_command_init_def)
  have "read_string c0 [Bytes (unlines (l # ls))] = Some (0, ctx, [])"
    using e assms(2) fill by (simp add: read_string_def shift_buffer_def c0 fill_string_def split_line_def ctx_def u)
      (simp add: poke_def)
  moreover have "c_str (cc_buffer ctx) = l" "l \<noteq> []" using assms(1) by (simp_all add: ctx_def line_text_def)
  ultimately have "reply_step (start_reply c0 [Bytes (unlines (l # ls))]) = reply_line l ((start_reply c0 [])\<lparr>rs_ctx := ctx, rs_string := True\<rparr>)"
    by (simp add: reply_step_def EAGAIN_def start_reply_def)
  moreover have "at_lines ctx ls"
    unfolding at_lines_def ctx_def by (intro exI [of _ "Suc (length l)"] exI [of _ "l @ [nul]"] exI [of _ t]) (simp add: u)
  moreover have "sans_buffer ((start_reply c0 [])\<lparr>rs_ctx := ctx\<rparr>) = sans_buffer (start_reply c0 [])"
    by (simp add: sans_buffer_def ctx_def start_reply_def)
  ultimately show ?thesis unfolding c0_def by blast
qed

text \<open>
  C25: A reply that arrives in one packet is followed line by line: \<open>lirc_command_run\<close> with its buffer,
  its pointers and its rounds of \<open>read_string\<close> gives the outcome of the automaton that takes the lines
  as they are, and needs one round per line.
\<close>

theorem reply_by_lines:
  assumes "list_all line_text ls" and "ls \<noteq> []" and "length (unlines ls) \<le> PACKET_SIZE_nat"
  shows "outcome_map sans_buffer (lirc_command_run (length ls) (snd (lirc_command_init str)) [Bytes (unlines ls)])
    = outcome_map sans_buffer (reply_lines ls (start_reply (snd (lirc_command_init str)) []))"
proof -
  obtain l ls' where ls: "ls = l # ls'" using assms(2) by (cases ls) auto
  define st where "st = start_reply (snd (lirc_command_init str)) []"
  obtain ctx where c: "reply_step (start_reply (snd (lirc_command_init str)) [Bytes (unlines ls)])
      = reply_line l (st\<lparr>rs_ctx := ctx, rs_string := True\<rparr>)" "at_lines ctx ls'"
    "sans_buffer (st\<lparr>rs_ctx := ctx\<rparr>) = sans_buffer st"
    using first_line_step [of l ls' str] assms by (auto simp: ls st_def)
  have "sans_buffer (st\<lparr>rs_ctx := ctx, rs_string := True\<rparr>) = sans_buffer st"
    using c(3) by (simp add: sans_buffer_def)
  then have same: "outcome_map sans_buffer (reply_lines ls (st\<lparr>rs_ctx := ctx, rs_string := True\<rparr>))
      = outcome_map sans_buffer (reply_lines ls st)"
    by (metis reply_lines_sans)
  have "outcome_map sans_buffer (reply_loop (length ls') st') = outcome_map sans_buffer (reply_lines ls' st')"
    if "reply_line l (st\<lparr>rs_ctx := ctx, rs_string := True\<rparr>) = Going st'" for st'
    using loop_at_lines [of st' ls'] reply_line_at [OF that, of ls'] c(2) assms(1) by (simp add: ls)
  then show ?thesis
    unfolding lirc_command_run_def st_def [symmetric] same [symmetric]
    by (auto simp: ls c(1) [unfolded ls] split: reply_outcome.split)
qed

lemma sans_reply: "sans_buffer x = sans_buffer y \<Longrightarrow> cc_reply (rs_ctx x) = cc_reply (rs_ctx y)"
  by (drule arg_cong [where f = "\<lambda>z. cc_reply (rs_ctx z)"]) (simp add: sans_buffer_def)

definition two_line_reply :: "string list" where
  "two_line_reply = [''BEGIN'', ''LIST'', ''SUCCESS'', ''DATA'', ''2'', ''one'', ''two'', ''END'']"

theorem reply_by_lines_witness:
  "case lirc_command_run 8 (snd (lirc_command_init (''LIST'' @ [newline]))) [Bytes (unlines two_line_reply)] of
     Returned r st \<Rightarrow> r = 0 \<and> c_str (cc_reply (rs_ctx st)) = ''two'' | _ \<Rightarrow> False"
proof -
  let ?ctx = "snd (lirc_command_init (''LIST'' @ [newline]))"
  have "list_all line_text two_line_reply" "two_line_reply \<noteq> []" "length (unlines two_line_reply) \<le> PACKET_SIZE_nat"
    by code_simp+
  note run = reply_by_lines [OF this, of "''LIST'' @ [newline]"]
  have len: "length two_line_reply = 8" by code_simp
  have "case reply_lines two_line_reply (start_reply ?ctx []) of
     Returned r st \<Rightarrow> r = 0 \<and> c_str (cc_reply (rs_ctx st)) = ''two'' | _ \<Rightarrow> False"
    by code_simp
  then show ?thesis
    using run unfolding len
    by (auto simp: outcome_map_def dest!: sans_reply split: reply_outcome.splits)
qed

lemma stuck_step:
  assumes "rs_state st = P_BEGIN" and "rs_sock st = []" and "rs_string st" and "cc_next (rs_ctx st) = None"
    and "cc_head (rs_ctx st) = length s" and "cc_buffer (rs_ctx st) = s @ nul # t"
    and "s \<noteq> []" and "nul \<notin> set s" and "newline \<notin> set s" and "\<not> strcasecmp_eq s ''BEGIN''"
  shows "reply_step st = Going st"
proof -
  obtain c where c: "rs_ctx st = c" "cc_next c = None" "cc_head c = length s" "cc_buffer c = s @ nul # t"
    using assms(4-6) by blast
  have same: "c\<lparr>cc_buffer := s @ nul # t\<rparr> = c" "c\<lparr>cc_next := None\<rparr> = c" "c\<lparr>cc_head := length s\<rparr> = c"
    using c(2-4) by (cases c; simp)+
  have line: "line_end (s @ nul # t) = None" using assms(8,9) by (simp add: line_end_text)
  have "fill_string c [] = (0, c, [])" by (simp add: fill_string_def c(3,4) poke_def same)
  moreover have "split_line c = c" by (simp add: split_line_def c(4) line same)
  ultimately have r: "read_string c [] = Some (0, c, [])"
    by (simp add: read_string_def shift_buffer_def c(2))
  have st: "st\<lparr>rs_ctx := c, rs_sock := [], rs_string := True\<rparr> = st"
    using assms(2,3) c(1) by (cases st) simp
  have str: "c_str (cc_buffer c) = s" using assms(8) by (simp add: c(4))
  have "reply_step st = reply_line s st"
    using assms(3,7) by (simp add: reply_step_def c(1) assms(2) r Let_def st str EAGAIN_def)
  then show ?thesis using assms(1,10) by (simp add: reply_line_def)
qed

lemma stuck_loop: "reply_step st = Going st \<Longrightarrow> reply_loop n st = Going st"
  by (induction n) simp_all

text \<open>
  C36: A reply that breaks off within its first line hangs the client: when the daemon closes the
  connection behind an incomplete line, \<open>lirc_command_run\<close> looks at the same text again in every round,
  however many there are, and never returns.
\<close>

theorem broken_reply_hangs:
  assumes "s \<noteq> []" and "nul \<notin> set s" and "newline \<notin> set s" and "\<not> strcasecmp_eq s ''BEGIN''" and "length s \<le> PACKET_SIZE_nat"
  shows "\<exists>st. lirc_command_run n (snd (lirc_command_init str)) [Bytes s] = Going st"
proof (cases n)
  case 0
  then show ?thesis by (simp add: lirc_command_run_def)
next
  case (Suc k)
  define c0 t where "c0 = snd (lirc_command_init str)" and "t = replicate (PACKET_SIZE_nat - length s) nul"
  define c where "c = c0\<lparr>cc_buffer := s @ nul # t, cc_head := length s, cc_next := None\<rparr>"
  define st where "st = (start_reply c0 [])\<lparr>rs_ctx := c, rs_string := True\<rparr>"
  have c0: "cc_next c0 = None" "cc_head c0 = 0" "cc_buffer c0 = replicate (PACKET_SIZE_nat + 1) nul"
    by (simp_all add: c0_def lirc_command_init_def)
  have "poke 0 s (replicate (PACKET_SIZE_nat + 1) nul) = s @ nul # t"
    using assms(5) by (simp only: poke_def t_def take_0 append_Nil add_0 drop_replicate) (simp add: Suc_diff_le)
  moreover have "line_end (s @ nul # t) = None" using assms(2,3) by (simp add: line_end_text)
  ultimately have r: "read_string c0 [Bytes s] = Some (0, c, [])"
    using assms(5) by (simp add: read_string_def shift_buffer_def c0 fill_string_def split_line_def c_def)
  have str: "c_str (cc_buffer c) = s" using assms(2) by (simp add: c_def)
  have "reply_step (start_reply c0 [Bytes s]) = reply_line s st"
    using assms(1) by (simp add: reply_step_def start_reply_def r str st_def EAGAIN_def)
  also have "\<dots> = Going st" using assms(4) by (simp add: reply_line_def st_def start_reply_def)
  finally have first: "reply_step (start_reply c0 [Bytes s]) = Going st" .
  have "reply_step st = Going st"
    by (rule stuck_step [of st s t]) (use assms in \<open>simp_all add: st_def c_def start_reply_def\<close>)
  then show ?thesis by (simp add: lirc_command_run_def Suc c0_def [symmetric] first stuck_loop)
qed

theorem broken_reply_hangs_witness:
  "\<exists>st. lirc_command_run 1000 (snd (lirc_command_init (''LIST'' @ [newline]))) [Bytes ''BEG''] = Going st"
  by (rule broken_reply_hangs) code_simp+

text \<open>
  A reply that arrives in unlucky packets makes the client write outside its buffer: behind the
  bytes it has, the buffer still holds lines moved away before; a packet that ends right in front of
  such an old newline makes \<open>next\<close> point behind \<open>head\<close>, and the next \<open>memmove\<close> gets a negative length.
\<close>

theorem stale_line_crashes:
  "lirc_command_run 6 (snd (lirc_command_init (''LIST'' @ [newline])))
     [Bytes (unlines [''AAA'', ''B'', ''C''] @ ''D''), Bytes ''xxxxxx''] = Crashed"
  by code_simp

end
