(* ===== verification/Record_Data.thy ===== *)
theory Record_Data
  imports Ir_Inline
begin

text \<open>
  The part of \<open>lib/irrecord.c\<close> that rearranges the bits of a recorded remote: the search for
  bits all buttons share (\<open>get_pre_data\<close>, \<open>get_post_data\<close>), its inverse, the exchange of
  ones and zeros, the replacement of a trailing pulse by a bit, and the toggle bit masks.

  A remote whose \<open>codes\<close> is NULL is followed without a test by most of these functions; a
  shift by a negative amount or by 64 and more is undefined. Both are \<open>None\<close>.
\<close>

section \<open>The codes of a remote\<close>

definition button_codes :: "ir_ncode \<Rightarrow> ir_code list" where
  "button_codes c = nc_code c # nc_next c"

definition map_button :: "(ir_code \<Rightarrow> ir_code) \<Rightarrow> ir_ncode \<Rightarrow> ir_ncode" where
  "map_button f c = c\<lparr>nc_code := f (nc_code c), nc_next := map f (nc_next c)\<rparr>"

definition map_buttons :: "(ir_code \<Rightarrow> ir_code) \<Rightarrow> ir_remote \<Rightarrow> ir_remote" where
  "map_buttons f remote = remote\<lparr>r_codes := map_option (map (map_button f)) (r_codes remote)\<rparr>"

definition valid_shift :: "int \<Rightarrow> bool" where
  "valid_shift n \<longleftrightarrow> 0 \<le> n \<and> n < 64"

section \<open>Bits that all codes share\<close>

text \<open>
  \<open>mask &= ~(last ^ code); last = code\<close> for every code behind the first button, with the
  further codes of these buttons; those of the first button are not looked at.
\<close>

definition agree_step :: "ir_code \<Rightarrow> ir_code \<times> ir_code \<Rightarrow> ir_code \<times> ir_code" where
  "agree_step code = (\<lambda>(msk, last). (msk AND NOT (last XOR code), code))"

definition agree_mask :: "ir_ncode list \<Rightarrow> ir_code \<times> ir_code" where
  "agree_mask cs = fold agree_step (concat (map button_codes (tl cs))) (- 1, nc_code (hd cs))"

function leading_ones :: "ir_code \<Rightarrow> nat" where
  "leading_ones msk =
     (if msk AND 0x8000000000000000 \<noteq> 0 then Suc (leading_ones (push_bit 1 msk)) else 0)"
  by pat_completeness auto

function trailing_ones :: "ir_code \<Rightarrow> nat" where
  "trailing_ones msk = (if msk AND 1 \<noteq> 0 then Suc (trailing_ones (drop_bit 1 msk)) else 0)"
  by pat_completeness auto

lemma and_top_bit: "(msk AND 0x8000000000000000 \<noteq> (0 :: ir_code)) \<longleftrightarrow> bit msk 63"
  using test_bit_mask [of msk 63] by (simp add: push_bit_of_1)

lemma bit_push_word:
  "bit (push_bit n w) i \<longleftrightarrow> n \<le> i \<and> i < 64 \<and> bit w (i - n)" for w :: ir_code
  by (simp only: bit_push_bit_iff possible_bit_word) simp

termination leading_ones
proof (relation "measure (\<lambda>m. card {i. bit m i})")
  fix msk :: ir_code
  assume "msk AND 0x8000000000000000 \<noteq> 0"
  then have top: "bit msk 63" by (simp only: and_top_bit)
  have fin: "finite {i. bit m i}" for m :: ir_code
    by (rule finite_subset [of _ "{..<64}"]) (auto dest: bit_imp_le_length)
  have "{i. bit (push_bit 1 msk) i} = Suc ` ({i. bit msk i} - {63})"
  proof (rule set_eqI)
    fix i
    show "i \<in> {i. bit (push_bit 1 msk) i} \<longleftrightarrow> i \<in> Suc ` ({i. bit msk i} - {63})"
      using bit_imp_le_length [of msk "i - 1"]
      by (cases i) (auto simp only: bit_push_word mem_Collect_eq image_iff Diff_iff, auto)
  qed
  then have "card {i. bit (push_bit 1 msk) i} = card ({i. bit msk i} - {63})"
    by (simp add: card_image)
  then show "(push_bit 1 msk, msk) \<in> measure (\<lambda>m. card {i. bit m i})"
    using card_Diff1_less [OF fin, of 63 msk] top by simp
qed simp

termination trailing_ones
proof (relation "measure unat")
  fix msk :: ir_code
  assume "msk AND 1 \<noteq> 0"
  then have "0 < unat msk" by (auto simp: unat_gt_0)
  then show "(drop_bit 1 msk, msk) \<in> measure unat"
    by (simp add: drop_bit_eq_div unat_div_distrib)
qed simp

declare leading_ones.simps [simp del] trailing_ones.simps [simp del]

text \<open>Only multiples of eight are moved, unless a multiple of eight is left.\<close>

definition even_count :: "int \<Rightarrow> int \<Rightarrow> int" where
  "even_count bits count =
     (if count smod 8 \<noteq> 0 \<and> (bits - count) smod 8 \<noteq> 0 then count - count smod 8 else count)"

definition get_pre_data :: "ir_remote \<Rightarrow> ir_remote option" where
  "get_pre_data remote =
     (if r_bits remote = 0 then Some remote
      else
        (case r_codes remote of
           None \<Rightarrow> None
         | Some cs \<Rightarrow>
             if length cs < 2 then Some remote
             else
               (let (msk, last) = agree_mask cs;
                    count = int (leading_ones msk) - (64 - r_bits remote);
                    count = even_count (r_bits remote) count;
                    bits = r_bits remote - count;
                    msk = push_bit (nat bits) (gen_mask count)
                in if count \<le> 0 then Some remote
                   else if \<not> valid_shift bits then None
                   else Some (map_buttons (\<lambda>c. c AND NOT msk)
                     (remote\<lparr>r_bits := bits, r_pre_data_bits := count,
                             r_pre_data := drop_bit (nat bits) (last AND msk)\<rparr>)))))"

definition get_post_data :: "ir_remote \<Rightarrow> ir_remote option" where
  "get_post_data remote =
     (if r_bits remote = 0 then Some remote
      else
        (case r_codes remote of
           None \<Rightarrow> None
         | Some cs \<Rightarrow>
             if length cs < 2 then Some remote
             else
               (let (msk, last) = agree_mask cs;
                    count = even_count (r_bits remote) (int (trailing_ones msk))
                in if count \<le> 0 then Some remote
                   else if \<not> valid_shift count then None
                   else Some (map_buttons (drop_bit (nat count))
                     (remote\<lparr>r_bits := r_bits remote - count, r_post_data_bits := count,
                             r_post_data := last AND gen_mask count\<rparr>)))))"

section \<open>Back into the codes\<close>

definition remove_pre_data :: "ir_remote \<Rightarrow> ir_remote option" where
  "remove_pre_data remote =
     (if r_pre_data_bits remote = 0 \<or> r_pre_p remote \<noteq> 0 \<or> r_pre_s remote \<noteq> 0 then Some remote
      else
        (case r_codes remote of
           None \<Rightarrow> None
         | Some cs \<Rightarrow>
             if cs \<noteq> [] \<and> \<not> valid_shift (r_bits remote) then None
             else Some ((map_buttons
                 (\<lambda>c. c OR push_bit (nat (r_bits remote)) (r_pre_data remote)) remote)
                 \<lparr>r_bits := r_bits remote + r_pre_data_bits remote,
                  r_pre_data := 0, r_pre_data_bits := 0\<rparr>)))"

definition remove_post_data :: "ir_remote \<Rightarrow> ir_remote option" where
  "remove_post_data remote =
     (if r_post_data_bits remote = 0 then Some remote
      else
        (case r_codes remote of
           None \<Rightarrow> None
         | Some cs \<Rightarrow>
             if cs \<noteq> [] \<and> \<not> valid_shift (r_post_data_bits remote) then None
             else Some ((map_buttons
                 (\<lambda>c. push_bit (nat (r_post_data_bits remote)) c OR r_post_data remote) remote)
                 \<lparr>r_bits := r_bits remote + r_post_data_bits remote,
                  r_post_data := 0, r_post_data_bits := 0\<rparr>)))"

section \<open>Ones for zeros, and the trailing pulse\<close>

definition invert_data :: "ir_remote \<Rightarrow> ir_remote option" where
  "invert_data remote =
     (let remote = remote\<lparr>r_pone := r_pzero remote, r_sone := r_szero remote,
                           r_pzero := r_pone remote, r_szero := r_sone remote\<rparr>;
          remote = (if has_pre remote
                    then remote\<lparr>r_pre_data := r_pre_data remote XOR gen_mask (r_pre_data_bits remote)\<rparr>
                    else remote);
          remote = (if has_post remote
                    then remote\<lparr>r_post_data := r_post_data remote XOR gen_mask (r_post_data_bits remote)\<rparr>
                    else remote)
      in if r_bits remote = 0 then Some remote
         else if r_codes remote = None then None
         else Some (map_buttons (\<lambda>c. c XOR gen_mask (r_bits remote)) remote))"

definition remove_trail :: "driver \<Rightarrow> ir_remote \<Rightarrow> ir_remote" where
  "remove_trail drv remote =
     (if \<not> is_space_enc remote \<or> r_ptrail remote = 0
         \<or> expect drv remote (r_pone remote) (r_pzero remote)
         \<or> expect drv remote (r_pzero remote) (r_pone remote)
         \<or> \<not> (expect drv remote (r_sone remote) (r_szero remote)
              \<and> expect drv remote (r_szero remote) (r_sone remote))
      then remote
      else
        (let extra = (if expect drv remote (r_ptrail remote) (r_pone remote) then Some 1
                      else if expect drv remote (r_ptrail remote) (r_pzero remote) then Some 0
                      else None)
         in case extra of
              None \<Rightarrow> remote
            | Some extra_bit \<Rightarrow>
                remote\<lparr>r_post_data_bits := r_post_data_bits remote + 1,
                       r_post_data := push_bit 1 (r_post_data remote) OR extra_bit,
                       r_ptrail := 0\<rparr>))"

definition for_each_remote :: "(ir_remote \<Rightarrow> ir_remote option) \<Rightarrow> ir_remote list \<Rightarrow> ir_remote list option" where
  "for_each_remote func remotes = those (map func remotes)"

section \<open>Toggle bits\<close>

text \<open>The search for \<open>xor\<close> among the single bits from \<open>mask\<close> downwards; 0 when there is none.\<close>

function find_bit :: "ir_code \<Rightarrow> ir_code \<Rightarrow> ir_code" where
  "find_bit xmask msk = (if msk = 0 \<or> msk = xmask then msk else find_bit xmask (drop_bit 1 msk))"
  by pat_completeness auto
termination
proof (relation "measure (\<lambda>(xmask, msk). unat msk)")
  fix xmask msk :: ir_code
  assume "\<not> (msk = 0 \<or> msk = xmask)"
  then have "0 < unat msk" by (simp add: unat_gt_0)
  then show "((xmask, drop_bit 1 msk), xmask, msk) \<in> measure (\<lambda>(xmask, msk). unat msk)"
    by (simp add: drop_bit_eq_div unat_div_distrib)
qed simp

declare find_bit.simps [simp del]

definition set_toggle_bit_mask :: "ir_remote \<Rightarrow> ir_code \<Rightarrow> ir_remote option" where
  "set_toggle_bit_mask remote xmask =
     (case r_codes remote of
        None \<Rightarrow> Some remote
      | Some cs \<Rightarrow>
          (let bits = bit_count remote
           in if \<not> valid_shift (bits - 1) then None
              else if find_bit xmask (push_bit (nat (bits - 1)) 1) \<noteq> 0 then
                Some (remote\<lparr>r_toggle_bit_mask := xmask,
                             r_codes := Some (map (\<lambda>c. c\<lparr>nc_code := nc_code c AND NOT xmask\<rparr>) cs)\<rparr>)
              else if bits = 15 \<and> xmask = 0x3ff then Some (remote\<lparr>r_toggle_mask := xmask\<rparr>)
              else Some (remote\<lparr>r_toggle_bit_mask := xmask\<rparr>)))"

definition needs_toggle_mask :: "ir_remote \<Rightarrow> bool" where
  "needs_toggle_mask remote \<longleftrightarrow>
     is_rc6 remote
     \<and> (case r_codes remote of
           None \<Rightarrow> True
         | Some cs \<Rightarrow> list_all (\<lambda>c. nc_next c = []) cs)"

section \<open>Counting the shared bits\<close>

lemma bit_agree_fold:
  "k < 64 \<Longrightarrow> bit (fst (fold agree_step xs (m, l))) k
     \<longleftrightarrow> bit m k \<and> (\<forall>x\<in>set xs. bit x k = bit l k)"
proof (induction xs arbitrary: m l)
  case (Cons x xs)
  then show ?case by (auto simp: agree_step_def bit_simps)
qed simp

lemma snd_agree_fold: "snd (fold agree_step xs (m, l)) = last (l # xs)"
  by (induction xs arbitrary: m l) (simp_all add: agree_step_def)

text \<open>The mask compares the codes behind the first button with its first code.\<close>

lemma bit_agree_mask:
  "k < 64 \<Longrightarrow> bit (fst (agree_mask cs)) k
    \<longleftrightarrow> (\<forall>x\<in>set (concat (map button_codes (tl cs))). bit x k = bit (nc_code (hd cs)) k)"
  by (simp add: agree_mask_def bit_agree_fold)

text \<open>When the first button has no further codes, these are all codes.\<close>

lemma bit_agree_all:
  assumes "cs \<noteq> []" and "nc_next (hd cs) = []" and "k < 64"
  shows "bit (fst (agree_mask cs)) k
    \<longleftrightarrow> (\<forall>x\<in>set (concat (map button_codes cs)). bit x k = bit (nc_code (hd cs)) k)"
  using assms by (cases cs) (auto simp: bit_agree_mask button_codes_def)

lemma snd_agree_mask:
  assumes "2 \<le> length cs"
  shows "snd (agree_mask cs) \<in> set (concat (map button_codes (tl cs)))"
proof -
  obtain c d ds where cs: "cs = c # d # ds"
    using assms by (cases cs; cases "tl cs") auto
  let ?xs = "concat (map button_codes (d # ds))"
  have ne: "?xs \<noteq> []" by (simp add: button_codes_def)
  have "snd (agree_mask cs) = last (nc_code c # ?xs)"
    unfolding agree_mask_def cs list.sel by (rule snd_agree_fold)
  then have "snd (agree_mask cs) = last ?xs" by (simp only: last_ConsR [OF ne])
  also have "\<dots> \<in> set ?xs" by (rule last_in_set) (simp add: button_codes_def)
  finally show ?thesis by (auto simp: cs)
qed

lemma leading_ones_bits: "k < 64 \<Longrightarrow> 64 \<le> k + leading_ones m \<Longrightarrow> bit m k"
proof (induction m arbitrary: k rule: leading_ones.induct)
  case (1 m)
  show ?case
  proof (cases "bit m 63")
    case True
    then have l: "leading_ones m = Suc (leading_ones (push_bit 1 m))"
      by (subst leading_ones.simps) (simp add: and_top_bit del: push_bit_Suc)
    show ?thesis
    proof (cases "k = 63")
      case False
      then have "bit (push_bit 1 m) (Suc k)"
        using 1 True l by (auto simp: and_top_bit simp del: push_bit_Suc)
      then show ?thesis by (simp only: bit_push_word) simp
    qed (use True in simp)
  qed (use 1 in \<open>simp add: leading_ones.simps [of m] and_top_bit\<close>)
qed

lemma leading_ones_bound: "(\<And>i. bit m i \<Longrightarrow> 64 \<le> i + n) \<Longrightarrow> leading_ones m \<le> n"
proof (induction m arbitrary: n rule: leading_ones.induct)
  case (1 m)
  show ?case
  proof (cases "bit m 63")
    case True
    then obtain n' where n: "n = Suc n'" using 1(2) by (cases n) fastforce+
    have "64 \<le> i + n'" if "bit (push_bit 1 m) i" for i
      using that 1(2) [of "i - 1"] n by (simp only: bit_push_word) simp
    then have "leading_ones (push_bit 1 m) \<le> n'"
      using 1(1) True by (simp only: and_top_bit)
    then show ?thesis
      using True n by (subst leading_ones.simps) (simp add: and_top_bit del: push_bit_Suc)
  qed (simp add: leading_ones.simps [of m] and_top_bit)
qed

lemma leading_ones_le: "leading_ones m \<le> 64"
  by (rule leading_ones_bound) simp

lemma leading_ones_stop: "leading_ones m < 64 \<Longrightarrow> \<not> bit m (63 - leading_ones m)"
proof (induction m rule: leading_ones.induct)
  case (1 m)
  show ?case
  proof (cases "bit m 63")
    case True
    then have l: "leading_ones m = Suc (leading_ones (push_bit 1 m))"
      by (subst leading_ones.simps) (simp add: and_top_bit del: push_bit_Suc)
    then have "\<not> bit (push_bit 1 m) (63 - leading_ones (push_bit 1 m))"
      using 1 True by (simp only: and_top_bit) simp
    then show ?thesis
      using 1(2) l by (simp only: bit_push_word) (auto simp: Suc_diff_Suc diff_diff_eq)
  qed (simp add: leading_ones.simps [of m] and_top_bit)
qed

lemma trailing_ones_bits: "k < trailing_ones m \<Longrightarrow> bit m k"
proof (induction m arbitrary: k rule: trailing_ones.induct)
  case (1 m)
  then show ?case
    by (cases k) (auto simp: trailing_ones.simps [of m] test_bit_1 bit_drop_bit_eq bit_Suc
        split: if_splits)
qed

lemma trailing_ones_stop: "\<not> bit m (trailing_ones m)"
proof (induction m rule: trailing_ones.induct)
  case (1 m)
  then show ?case
    by (auto simp: trailing_ones.simps [of m] test_bit_1 bit_drop_bit_eq)
qed

text \<open>Rounding to a multiple of eight takes bits away at most.\<close>

lemma even_count_le: "even_count b n \<le> max n 0"
proof -
  have "n smod 8 \<ge> 0" if "n \<ge> 0"
    using that by (simp add: signed_modulo_int_def sgn_if)
  moreover have "n smod 8 \<ge> n" if "n < 0"
  proof -
    have "\<bar>n\<bar> mod 8 \<le> \<bar>n\<bar>" by (rule zmod_le_nonneg_dividend) simp
    moreover have "n smod 8 = - (\<bar>n\<bar> mod 8)" using that by (simp only: signed_modulo_int_def) simp
    ultimately show ?thesis using that by linarith
  qed
  ultimately have "n - n smod 8 \<le> max n 0" by linarith
  then show ?thesis by (simp add: even_count_def)
qed

lemma even_count_full [simp]: "even_count n n = n"
  by (simp add: even_count_def signed_modulo_int_def)

end
