(* ===== verification/Record_Data_Spec.thy ===== *)
theory Record_Data_Spec
  imports Record_Data Send_Events Remote_Spec
begin

text \<open>
  What \<open>irrecord\<close> may change in a recorded remote: moving bits between the codes and the pre
  and post data, and exchanging ones and zeros, must leave every signal of the remote as it was.
  The events of a signal are those of \<open>Send_Events\<close>, so this is a statement about what
  \<open>send_code\<close> puts into the sending buffer.
\<close>

section \<open>A signal is its whole code\<close>

definition whole :: "ir_remote \<Rightarrow> ir_code \<Rightarrow> ir_code" where
  "whole r c = join_code (r_pre_data_bits r) (r_pre_data r) (r_bits r) c (r_post_data_bits r) (r_post_data r)"

lemma drop_toggle_data: "drop_bit (Suc 0) (toggle_data r m d) = drop_bit (Suc 0) d"
  by (rule bit_eqI) (auto simp: toggle_data_def Let_def bit_simps dest: bit_imp_le_length)

lemma bit_toggle_data_cong:
  assumes "bit d 0 = bit e 0"
  shows "bit (toggle_data r m d) 0 = bit (toggle_data r m e) 0"
  using assms by (auto simp: toggle_data_def Let_def bit_simps)

lemma bits_events_append:
  "bits_events r (m + n) msk d
     = bits_events r m msk d @ bits_events r n (drop_bit m msk) (drop_bit m d)"
proof (induction m arbitrary: msk d)
  case (Suc m)
  have "drop_bit (Suc m) (toggle_data r msk d) = drop_bit (Suc m) d"
    using arg_cong [OF drop_toggle_data [of r msk d], of "drop_bit m"]
    by (simp only: drop_bit_drop_bit) simp
  with Suc show ?case
    by (simp add: Let_def drop_bit_drop_bit del: drop_bit_Suc)
qed simp

lemma bits_events_cong:
  "(\<And>i. i < n \<Longrightarrow> bit d i = bit e i) \<Longrightarrow> bits_events r n msk d = bits_events r n msk e"
proof (induction n arbitrary: msk d e)
  case (Suc n)
  have "(toggle_data r msk d AND 1 \<noteq> 0) = (toggle_data r msk e AND 1 \<noteq> 0)"
    using bit_toggle_data_cong [of d e] Suc.prems [of 0] by (simp only: test_bit_1 zero_less_Suc)
  moreover have "bits_events r n (drop_bit 1 msk) (drop_bit 1 d)
      = bits_events r n (drop_bit 1 msk) (drop_bit 1 e)"
    using Suc.prems by (intro Suc.IH) (simp add: bit_drop_bit_eq)
  ultimately show ?case
    by (simp add: Let_def drop_toggle_data)
qed simp

definition plain_coding :: "ir_remote \<Rightarrow> bool" where
  "plain_coding r \<longleftrightarrow> widths_ok r \<and> \<not> is_rcmm r \<and> \<not> is_xmp r
     \<and> \<not> (r_pre_p r > 0 \<and> r_pre_s r > 0) \<and> \<not> (r_post_p r > 0 \<and> r_post_s r > 0)"

definition whole_events :: "ir_remote \<Rightarrow> int \<Rightarrow> ir_code \<Rightarrow> bool \<Rightarrow> sig list" where
  "whole_events r n w repeat =
     opt_events ((\<not> repeat \<or> \<not> has_flag r NO_HEAD_REP) \<and> has_header r) [Pulse (r_phead r), Space (r_shead r)]
     @ opt_events (r_plead r \<noteq> 0) [Pulse (r_plead r)]
     @ bits_events r (nat n) (push_bit (nat (n - 1)) 1) (reverse w n)
     @ opt_events (r_ptrail r \<noteq> 0) [Pulse (r_ptrail r)]
     @ opt_events ((\<not> repeat \<or> \<not> has_flag r NO_FOOT_REP) \<and> has_foot r) [Space (r_sfoot r), Pulse (r_pfoot r)]"

lemma drop_push_one:
  "m \<le> n \<Longrightarrow> n < 64 \<Longrightarrow> drop_bit m (push_bit n 1 :: ir_code) = push_bit (n - m) 1"
  by (rule bit_eqI) (auto simp: bit_simps)

lemma part_events:
  assumes "0 \<le> done" "0 \<le> b" "done + b \<le> n" "n \<le> 64" "\<not> is_rcmm r" "\<not> is_xmp r" "bit_count r = n"
    and low: "\<And>i. i < nat b \<Longrightarrow> bit d (nat b - 1 - i) = bit w (nat (n - done) - 1 - i)"
  shows "data_events r d b done
    = bits_events r (nat b) (drop_bit (nat done) (push_bit (nat (n - 1)) 1))
        (drop_bit (nat done) (reverse w n))"
proof (cases "b = 0")
  case False
  have msk: "drop_bit (nat done) (push_bit (nat (n - 1)) 1 :: ir_code) = push_bit (nat (n - 1 - done)) 1"
    using assms(1-4) False by (subst drop_push_one) (auto simp: nat_diff_distrib')
  have "bit (reverse d b) i = bit (drop_bit (nat done) (reverse w n)) i" if "i < nat b" for i
  proof -
    have "nat n - 1 - (nat done + i) = nat (n - done) - 1 - i" "nat done + i < nat n"
      using that assms(1-4) by linarith+
    then show ?thesis
      using that assms(2-4) low [OF that] by (simp add: bit_reverse bit_drop_bit_eq)
  qed
  then show ?thesis
    using assms(5-7) msk unfolding data_events_def by (auto intro: bits_events_cong)
qed (use assms in \<open>simp add: data_events_def\<close>)

lemma code_events_whole:
  assumes "plain_coding r"
  shows "code_events r c repeat = whole_events r (bit_count r) (whole r c) repeat"
proof -
  let ?p = "r_pre_data_bits r" and ?b = "r_bits r" and ?q = "r_post_data_bits r"
  let ?n = "bit_count r" and ?w = "whole r c"
  have w: "0 \<le> ?p" "0 \<le> ?b" "0 \<le> ?q" "?n \<le> 64" and n: "?n = ?p + ?b + ?q"
    and nx: "\<not> is_rcmm r" "\<not> is_xmp r"
    using assms by (auto simp: plain_coding_def widths_ok_def bit_count_def)
  have bit_w: "bit ?w k \<longleftrightarrow>
      (if k < nat ?q then bit (r_post_data r) k
       else if k < nat (?b + ?q) then bit c (k - nat ?q)
       else k < nat ?n \<and> bit (r_pre_data r) (k - nat (?b + ?q)))" for k
    using w by (simp add: whole_def bit_join_code n)
  let ?e = "\<lambda>m done. bits_events r (nat m) (drop_bit (nat done) (push_bit (nat (?n - 1)) 1))
        (drop_bit (nat done) (reverse ?w ?n))"
  have pre: "data_events r (r_pre_data r) ?p 0 = ?e ?p 0"
  proof (rule part_events)
    fix i assume "i < nat ?p"
    then show "bit (r_pre_data r) (nat ?p - 1 - i) = bit ?w (nat (?n - 0) - 1 - i)"
      using w n by (auto simp: bit_w nat_add_distrib diff_commute) arith+
  qed (use w n nx in auto)
  have code: "data_events r c ?b ?p = ?e ?b ?p"
  proof (rule part_events)
    fix i assume "i < nat ?b"
    moreover from this have "nat (?n - ?p) - 1 - i - nat ?q = nat ?b - 1 - i"
      using w n by auto
    ultimately show "bit c (nat ?b - 1 - i) = bit ?w (nat (?n - ?p) - 1 - i)"
      using w n by (auto simp: bit_w)
  qed (use w n nx in auto)
  have post: "data_events r (r_post_data r) ?q (?p + ?b) = ?e ?q (?p + ?b)"
  proof (rule part_events)
    fix i assume "i < nat ?q"
    then show "bit (r_post_data r) (nat ?q - 1 - i) = bit ?w (nat (?n - (?p + ?b)) - 1 - i)"
      using w n by (auto simp: bit_w)
  qed (use w n nx in auto)
  have "nat ?n = nat ?p + (nat ?b + nat ?q)" "nat (?p + ?b) = nat ?p + nat ?b"
    using w n by auto
  then have all: "bits_events r (nat ?n) (push_bit (nat (?n - 1)) 1) (reverse ?w ?n)
      = ?e ?p 0 @ ?e ?b ?p @ ?e ?q (?p + ?b)"
    by (simp add: bits_events_append drop_bit_drop_bit add.commute)
  have "opt_events (has_pre r) (?e ?p 0) = ?e ?p 0" "opt_events (has_post r) (?e ?q (?p + ?b)) = ?e ?q (?p + ?b)"
    using w by (auto simp: opt_events_def has_pre_def has_post_def not_less)
  then show ?thesis
    using assms unfolding code_events_def whole_events_def pre code post all
    by (simp add: plain_coding_def opt_events_def)
qed


section \<open>The signals of a remote\<close>

definition wholes :: "ir_remote \<Rightarrow> ir_code list list" where
  "wholes r = map (\<lambda>c. map (whole r) (button_codes c)) (codes_of r)"

definition signals_of :: "ir_remote \<Rightarrow> bool \<Rightarrow> sig list list list" where
  "signals_of r repeat = map (\<lambda>c. map (\<lambda>d. code_events r d repeat) (button_codes c)) (codes_of r)"

definition fits :: "int \<Rightarrow> ir_code \<Rightarrow> bool" where
  "fits n w \<longleftrightarrow> take_bit (nat n) w = w"

definition data_ok :: "ir_remote \<Rightarrow> bool" where
  "data_ok r \<longleftrightarrow> plain_coding r \<and> r_codes r \<noteq> None
     \<and> list_all (\<lambda>c. list_all (fits (r_bits r)) (button_codes c)) (codes_of r)
     \<and> fits (r_pre_data_bits r) (r_pre_data r) \<and> fits (r_post_data_bits r) (r_post_data r)"

text \<open>Remotes that differ in their codes and the widths of the three parts at most.\<close>

definition same_frame :: "ir_remote \<Rightarrow> ir_remote \<Rightarrow> bool" where
  "same_frame r' r \<longleftrightarrow>
     r' = r\<lparr>r_codes := r_codes r', r_bits := r_bits r', r_pre_data_bits := r_pre_data_bits r',
        r_pre_data := r_pre_data r', r_post_data_bits := r_post_data_bits r',
        r_post_data := r_post_data r'\<rparr>"

lemma same_frameE:
  assumes "same_frame r' r"
  obtains x b pb pd qb qd where "r' = r\<lparr>r_codes := x, r_bits := b, r_pre_data_bits := pb,
    r_pre_data := pd, r_post_data_bits := qb, r_post_data := qd\<rparr>"
  using assms unfolding same_frame_def by blast

lemma fits_iff: "fits n w \<longleftrightarrow> (\<forall>k. bit w k \<longrightarrow> k < nat n)"
proof
  assume *: "fits n w"
  have "bit (take_bit (nat n) w) k" if "bit w k" for k
    using * that by (simp add: fits_def)
  then show "\<forall>k. bit w k \<longrightarrow> k < nat n" by (simp add: bit_take_bit_iff)
qed (auto simp: fits_def bit_take_bit_iff intro: bit_eqI)

lemma bits_events_frame:
  fixes r :: ir_remote and x b pb pd qb qd
  defines "r' \<equiv> r\<lparr>r_codes := x, r_bits := b, r_pre_data_bits := pb, r_pre_data := pd,
    r_post_data_bits := qb, r_post_data := qd\<rparr>"
  shows "bits_events r' n m d = bits_events r n m d"
proof -
  have "toggle_data r' m d = toggle_data r m d" "bit_events r' m c = bit_events r m c" for m d c
    by (simp_all add: r'_def toggle_data_def has_toggle_bit_mask_def has_toggle_mask_def
        bit_events_def is_biphase_def is_rc5_def is_rc6_def is_space_first_def)
  then show ?thesis by (induction n arbitrary: m d) (simp_all add: Let_def)
qed

lemma frame_events: "same_frame r' r \<Longrightarrow> whole_events r' = whole_events r"
  by (erule same_frameE) (simp add: fun_eq_iff whole_events_def bits_events_frame has_header_def
      has_foot_def has_flag_def)

lemma frame_coding:
  "same_frame r' r \<Longrightarrow> plain_coding r \<Longrightarrow> widths_ok r' \<Longrightarrow> plain_coding r'"
  by (erule same_frameE) (simp add: plain_coding_def is_rcmm_def is_xmp_def)

lemma frame_refl [simp]: "same_frame r r"
  by (cases r) (simp add: same_frame_def)

lemma frame_trans: "same_frame r'' r' \<Longrightarrow> same_frame r' r \<Longrightarrow> same_frame r'' r"
  by (elim same_frameE) (simp add: same_frame_def)

lemma signals_wholes:
  "plain_coding r \<Longrightarrow> signals_of r repeat
     = map (map (\<lambda>w. whole_events r (bit_count r) w repeat)) (wholes r)"
  by (simp add: signals_of_def wholes_def code_events_whole)

text \<open>What every rearrangement keeps, and its consequence for the signals.\<close>

definition rearranges :: "ir_remote \<Rightarrow> ir_remote \<Rightarrow> bool" where
  "rearranges r r' \<longleftrightarrow> data_ok r' \<and> same_frame r' r \<and> bit_count r' = bit_count r
     \<and> wholes r' = wholes r
     \<and> map (map_button (\<lambda>_. 0)) (codes_of r') = map (map_button (\<lambda>_. 0)) (codes_of r)"

lemma rearranges_refl: "data_ok r \<Longrightarrow> rearranges r r"
  by (simp add: rearranges_def)

lemma rearranges_trans: "rearranges r r' \<Longrightarrow> rearranges r' r'' \<Longrightarrow> rearranges r r''"
  by (auto simp: rearranges_def intro: frame_trans)

lemma rearranges_signals:
  "data_ok r \<Longrightarrow> rearranges r r' \<Longrightarrow> signals_of r' repeat = signals_of r repeat"
  using frame_events [of r' r] by (simp add: rearranges_def data_ok_def signals_wholes)

lemma whole_bit:
  "widths_ok r \<Longrightarrow> bit (whole r c) k \<longleftrightarrow>
      (if k < nat (r_post_data_bits r) then bit (r_post_data r) k
       else if k < nat (r_bits r + r_post_data_bits r) then bit c (k - nat (r_post_data_bits r))
       else k < nat (bit_count r) \<and> bit (r_pre_data r) (k - nat (r_bits r + r_post_data_bits r)))"
  by (simp add: whole_def bit_join_code widths_ok_def bit_count_def)

lemma codes_map_buttons [simp]:
  "codes_of (map_buttons f r) = map (map_button f) (codes_of r)"
  by (simp add: map_buttons_def codes_of_def split: option.split)

lemma map_buttons_sel [simp]:
  "r_bits (map_buttons f r) = r_bits r" "r_pre_data_bits (map_buttons f r) = r_pre_data_bits r"
  "r_pre_data (map_buttons f r) = r_pre_data r" "r_post_data_bits (map_buttons f r) = r_post_data_bits r"
  "r_post_data (map_buttons f r) = r_post_data r" "r_codes (map_buttons f r) = None \<longleftrightarrow> r_codes r = None"
  "bit_count (map_buttons f r) = bit_count r" "whole (map_buttons f r) = whole r"
  "r_pre_p (map_buttons f r) = r_pre_p r" "r_pre_s (map_buttons f r) = r_pre_s r"
  by (simp_all add: map_buttons_def bit_count_def whole_def fun_eq_iff)

lemma button_codes_map [simp]: "button_codes (map_button f c) = map f (button_codes c)"
  by (simp add: button_codes_def map_button_def)

text \<open>The step every rearrangement takes: new widths, and a function on the codes.\<close>

lemma rearrangesI:
  assumes ok: "data_ok r"
    and r': "r' = map_buttons f (r\<lparr>r_bits := b, r_pre_data_bits := pb, r_pre_data := pd,
      r_post_data_bits := qb, r_post_data := qd\<rparr>)"
    and w: "0 \<le> b" "0 \<le> pb" "0 \<le> qb" "pb + b + qb = bit_count r"
    and f: "fits pb pd" "fits qb qd"
    and code: "\<And>c d. c \<in> set (codes_of r) \<Longrightarrow> d \<in> set (button_codes c) \<Longrightarrow>
      fits b (f d) \<and> join_code pb pd b (f d) qb qd = whole r d"
  shows "rearranges r r'"
proof -
  have codes: "codes_of r' = map (map_button f) (codes_of r)"
    unfolding r' codes_map_buttons by (simp add: codes_of_def)
  have frame: "same_frame r' r"
    unfolding r' same_frame_def map_buttons_def by simp
  have bc: "bit_count r' = bit_count r" using w by (simp add: r' bit_count_def)
  have "widths_ok r'"
    using ok w bc by (simp add: r' widths_ok_def data_ok_def plain_coding_def)
  then have "plain_coding r'"
    using frame_coding [OF frame] ok by (simp add: data_ok_def)
  moreover have "list_all (\<lambda>c. list_all (fits b) (button_codes c)) (codes_of r')"
    using code by (auto simp: codes list_all_iff)
  ultimately have "data_ok r'"
    using ok f by (simp add: data_ok_def r')
  moreover have "whole r' (f d) = whole r d" if "c \<in> set (codes_of r)" "d \<in> set (button_codes c)" for c d
    using code [OF that] by (simp add: r' whole_def)
  then have "wholes r' = wholes r"
    unfolding wholes_def codes by (auto simp: comp_def)
  moreover have "map (map_button (\<lambda>_. 0)) (codes_of r') = map (map_button (\<lambda>_. 0)) (codes_of r)"
    by (simp add: codes map_button_def comp_def)
  ultimately show ?thesis using frame bc by (simp add: rearranges_def)
qed


section \<open>Taking shared bits out of the codes\<close>

lemma get_pre_cases:
  assumes ok: "data_ok r" and none: "r_pre_data_bits r = 0"
  obtains "get_pre_data r = Some r"
  | b l where "0 \<le> b" "b < 64" "b < r_bits r" "codes_of r \<noteq> []"
      "get_pre_data r = Some (map_buttons (\<lambda>c. c AND NOT (push_bit (nat b) (gen_mask (r_bits r - b))))
        (r\<lparr>r_bits := b, r_pre_data_bits := r_bits r - b,
           r_pre_data := drop_bit (nat b) (l AND push_bit (nat b) (gen_mask (r_bits r - b)))\<rparr>))"
      "l \<in> set (concat (map button_codes (tl (codes_of r))))"
      "\<And>x k. x \<in> set (concat (map button_codes (tl (codes_of r)))) \<Longrightarrow> nat b \<le> k \<Longrightarrow> k < 64
        \<Longrightarrow> bit x k = bit (nc_code (hd (codes_of r))) k"
proof -
  obtain cs where cs: "r_codes r = Some cs" "codes_of r = cs"
    using ok by (auto simp: data_ok_def codes_of_def)
  obtain m l where ml: "agree_mask cs = (m, l)" by (cases "agree_mask cs")
  define count where "count = even_count (r_bits r) (int (leading_ones m) - (64 - r_bits r))"
  define b where "b = r_bits r - count"
  have cb: "r_bits r - b = count" by (simp add: b_def)
  consider "r_bits r = 0 \<or> length cs < 2 \<or> count \<le> 0" | "r_bits r \<noteq> 0" "2 \<le> length cs" "0 < count"
    by linarith
  then show thesis
  proof cases
    case 1
    then have "get_pre_data r = Some r"
      by (auto simp: get_pre_data_def cs ml count_def Let_def)
    then show thesis by (rule that(1))
  next
    case 2
    have w: "0 \<le> r_bits r" "bit_count r \<le> 64" "r_bits r \<le> bit_count r"
      using ok none by (auto simp: data_ok_def plain_coding_def widths_ok_def bit_count_def)
    have "count \<le> int (leading_ones m) - (64 - r_bits r)"
      using even_count_le [of "r_bits r"] 2(3) unfolding count_def by (smt (verit))
    then have b: "0 \<le> b" "b < 64" "64 \<le> nat b + leading_ones m" "b + count = r_bits r"
      using leading_ones_le [of m] 2(3) w by (auto simp: b_def)
    show thesis
    proof (rule that(2))
      show "0 \<le> b" "b < 64" "b < r_bits r" "codes_of r \<noteq> []"
        using b 2 by (auto simp: cs)
      show "get_pre_data r = Some (map_buttons (\<lambda>c. c AND NOT (push_bit (nat b) (gen_mask (r_bits r - b))))
        (r\<lparr>r_bits := b, r_pre_data_bits := r_bits r - b,
           r_pre_data := drop_bit (nat b) (l AND push_bit (nat b) (gen_mask (r_bits r - b)))\<rparr>))"
        unfolding cb using 2 b
        by (simp add: get_pre_data_def cs ml Let_def valid_shift_def b_def count_def)
      show "l \<in> set (concat (map button_codes (tl (codes_of r))))"
        using snd_agree_mask [OF 2(2)] ml by (simp add: cs)
      fix x k
      assume x: "x \<in> set (concat (map button_codes (tl (codes_of r))))" "nat b \<le> k" "k < 64"
      then have "bit m k" using b(3) by (intro leading_ones_bits) auto
      then show "bit x k = bit (nc_code (hd (codes_of r))) k"
        using bit_agree_mask [OF x(3), of cs] x(1) unfolding ml cs fst_conv by blast
    qed
  qed
qed

lemma get_pre_rearranges:
  assumes ok: "data_ok r" and none: "r_pre_data_bits r = 0"
    and first: "nc_next (hd (codes_of r)) = []"
  shows "\<exists>r'. get_pre_data r = Some r' \<and> rearranges r r'
    \<and> r_post_data_bits r' = r_post_data_bits r"
  using ok none
proof (cases rule: get_pre_cases)
  case 1
  then show ?thesis using rearranges_refl [OF ok] by simp
next
  case (2 b l)
  let ?msk = "push_bit (nat b) (gen_mask (r_bits r - b)) :: ir_code"
  have w: "0 \<le> r_bits r" "0 \<le> r_post_data_bits r" "bit_count r \<le> 64" "widths_ok r"
    and bc: "bit_count r = r_bits r + r_post_data_bits r"
    using ok none by (auto simp: data_ok_def plain_coding_def widths_ok_def bit_count_def)
  have all: "concat (map button_codes (codes_of r))
      = nc_code (hd (codes_of r)) # concat (map button_codes (tl (codes_of r)))"
    using 2(4) first by (cases "codes_of r") (auto simp: button_codes_def)
  have same: "bit x k = bit l k"
    if "x \<in> set (concat (map button_codes (codes_of r)))" "nat b \<le> k" "k < 64" for x k
    using that 2(7) [OF _ that(2,3)] 2(6) unfolding all by auto
  have msk: "bit ?msk k \<longleftrightarrow> nat b \<le> k \<and> k < nat (r_bits r)" for k
    using 2(1-3) w bc by (auto simp: gen_mask_eq bit_push_word bit_mask_iff)
  have "rearranges r (map_buttons (\<lambda>c. c AND NOT ?msk)
    (r\<lparr>r_bits := b, r_pre_data_bits := r_bits r - b, r_pre_data := drop_bit (nat b) (l AND ?msk),
       r_post_data_bits := r_post_data_bits r, r_post_data := r_post_data r\<rparr>))"
  proof (rule rearrangesI [OF ok refl])
    show "fits (r_bits r - b) (drop_bit (nat b) (l AND ?msk))"
      using 2(1-3) by (auto simp: fits_iff bit_drop_bit_eq bit_and_iff msk)
    show "fits (r_post_data_bits r) (r_post_data r)" using ok by (simp add: data_ok_def)
    fix c d assume c: "c \<in> set (codes_of r)" "d \<in> set (button_codes c)"
    then have d: "d \<in> set (concat (map button_codes (codes_of r)))" by auto
    have fd: "fits (r_bits r) d" using ok c by (auto simp: data_ok_def list_all_iff)
    have "join_code (r_bits r - b) (drop_bit (nat b) (l AND ?msk)) b (d AND NOT ?msk)
        (r_post_data_bits r) (r_post_data r) = whole r d"
    proof (rule bit_eqI)
      fix k assume "possible_bit TYPE(64 word) k"
      then have "k < 64" by simp
      then show "bit (join_code (r_bits r - b) (drop_bit (nat b) (l AND ?msk)) b (d AND NOT ?msk)
          (r_post_data_bits r) (r_post_data r)) k = bit (whole r d) k"
        using 2(1-3) w bc none same [OF d, of "k - nat (r_post_data_bits r)"]
        by (auto simp: bit_join_code whole_bit bit_drop_bit_eq bit_and_iff bit_not_iff msk
            nat_add_distrib)
    qed
    moreover have "fits b (d AND NOT ?msk)"
      using fd by (auto simp: fits_iff bit_and_iff bit_not_iff msk not_less)
    ultimately show "fits b (d AND NOT ?msk) \<and> join_code (r_bits r - b)
        (drop_bit (nat b) (l AND ?msk)) b (d AND NOT ?msk) (r_post_data_bits r) (r_post_data r) = whole r d"
      by blast
  qed (use 2(1-3) w bc in auto)
  moreover have "r\<lparr>r_post_data_bits := r_post_data_bits r, r_post_data := r_post_data r\<rparr> = r"
    by (cases r) simp
  ultimately show ?thesis using 2(5) by simp
qed

lemma get_post_rearranges:
  assumes ok: "data_ok r" and none: "r_post_data_bits r = 0"
    and first: "nc_next (hd (codes_of r)) = []"
    and differ: "r_bits r = 0 \<or> length (codes_of r) < 2 \<or>
      (\<exists>x\<in>set (concat (map button_codes (codes_of r))). x \<noteq> nc_code (hd (codes_of r)))"
  shows "\<exists>r'. get_post_data r = Some r' \<and> rearranges r r' \<and> r_post_data_bits r' < 64"
proof -
  obtain cs where cs: "r_codes r = Some cs" "codes_of r = cs"
    using ok by (auto simp: data_ok_def codes_of_def)
  obtain m l where ml: "agree_mask cs = (m, l)" by (cases "agree_mask cs")
  define count where "count = even_count (r_bits r) (int (trailing_ones m))"
  let ?r' = "map_buttons (drop_bit (nat count))
    (r\<lparr>r_bits := r_bits r - count, r_post_data_bits := count, r_post_data := l AND gen_mask count\<rparr>)"
  consider "r_bits r = 0 \<or> length cs < 2 \<or> count \<le> 0" | "r_bits r \<noteq> 0" "2 \<le> length cs" "0 < count"
    by linarith
  then show ?thesis
  proof cases
    case 1
    then have "get_post_data r = Some r"
      by (auto simp: get_post_data_def cs ml count_def Let_def)
    then show ?thesis using rearranges_refl [OF ok] none by simp
  next
    case 2
    have w: "0 \<le> r_bits r" "0 \<le> r_pre_data_bits r" "bit_count r \<le> 64" "widths_ok r"
      and bc: "bit_count r = r_pre_data_bits r + r_bits r"
      using ok none by (auto simp: data_ok_def plain_coding_def widths_ok_def bit_count_def)
    have ne: "cs \<noteq> []" using 2(2) by auto
    have same: "bit x k = bit (nc_code (hd cs)) k"
      if "x \<in> set (concat (map button_codes cs))" "k < trailing_ones m" "k < 64" for x k
      using bit_agree_all [OF ne _ that(3)] first that(1) trailing_ones_bits [OF that(2)]
      unfolding ml cs fst_conv by blast
    have fits_all: "fits (r_bits r) x" if "x \<in> set (concat (map button_codes cs))" for x
      using that ok by (auto simp: data_ok_def list_all_iff cs)
    obtain x where x: "x \<in> set (concat (map button_codes cs))" "x \<noteq> nc_code (hd cs)"
      using differ 2 by (auto simp: cs)
    obtain k where k: "bit x k \<noteq> bit (nc_code (hd cs)) k" using x(2) by (auto simp: bit_eq_iff)
    have "nc_code (hd cs) \<in> set (concat (map button_codes cs))"
      using ne by (cases cs) (auto simp: button_codes_def)
    then have kb: "k < nat (r_bits r)"
      using k fits_all x(1) unfolding fits_iff by metis
    then have "k < 64" using w bc by linarith
    then have "trailing_ones m \<le> k"
      using same [OF x(1), of k] k by (meson not_less)
    then have "int (trailing_ones m) < r_bits r" using kb by linarith
    moreover have "count \<le> int (trailing_ones m)"
      using even_count_le [of "r_bits r" "int (trailing_ones m)"] by (simp add: count_def)
    ultimately have b: "count < r_bits r" "count < 64" "nat count \<le> trailing_ones m"
      using w bc by linarith+
    have get: "get_post_data r = Some ?r'"
      using 2 b by (simp add: get_post_data_def cs ml Let_def valid_shift_def count_def)
    have lset: "l \<in> set (concat (map button_codes cs))"
      using snd_agree_mask [OF 2(2)] ml ne by (cases cs) auto
    have "rearranges r (map_buttons (drop_bit (nat count))
      (r\<lparr>r_bits := r_bits r - count, r_pre_data_bits := r_pre_data_bits r, r_pre_data := r_pre_data r,
         r_post_data_bits := count, r_post_data := l AND gen_mask count\<rparr>))"
    proof (rule rearrangesI [OF ok refl])
      show "fits count (l AND gen_mask count)"
        by (simp add: fits_iff gen_mask_eq bit_and_iff bit_mask_iff)
      show "fits (r_pre_data_bits r) (r_pre_data r)" using ok by (simp add: data_ok_def)
      fix c d assume c: "c \<in> set (codes_of r)" "d \<in> set (button_codes c)"
      then have d: "d \<in> set (concat (map button_codes cs))" by (auto simp: cs)
      have "join_code (r_pre_data_bits r) (r_pre_data r) (r_bits r - count) (drop_bit (nat count) d)
          count (l AND gen_mask count) = whole r d"
      proof (rule bit_eqI)
        fix k assume "possible_bit TYPE(64 word) k"
        then have "k < 64" by simp
        then show "bit (join_code (r_pre_data_bits r) (r_pre_data r) (r_bits r - count)
            (drop_bit (nat count) d) count (l AND gen_mask count)) k = bit (whole r d) k"
          using b w bc 2(3) none same [OF d, of k] same [OF lset, of k]
          by (auto simp: bit_join_code whole_bit bit_drop_bit_eq bit_and_iff gen_mask_eq bit_mask_iff
              nat_diff_distrib')
      qed
      moreover have "fits (r_bits r - count) (drop_bit (nat count) d)"
        using fits_all [OF d] b 2(3) by (fastforce simp: fits_iff bit_drop_bit_eq)
      ultimately show "fits (r_bits r - count) (drop_bit (nat count) d)
          \<and> join_code (r_pre_data_bits r) (r_pre_data r) (r_bits r - count)
            (drop_bit (nat count) d) count (l AND gen_mask count) = whole r d" by blast
    qed (use b 2(3) w bc in auto)
    moreover have "r\<lparr>r_pre_data_bits := r_pre_data_bits r, r_pre_data := r_pre_data r\<rparr> = r"
      by (cases r) simp
    ultimately show ?thesis using get b by simp
  qed
qed

section \<open>Putting them back\<close>

lemma remove_pre_rearranges:
  assumes ok: "data_ok r" and p: "r_pre_p r = 0" "r_pre_s r = 0"
  shows "\<exists>r'. remove_pre_data r = Some r' \<and> rearranges r r' \<and> r_pre_data_bits r' = 0
    \<and> r_post_data_bits r' = r_post_data_bits r"
proof (cases "r_pre_data_bits r = 0")
  case True
  then show ?thesis using rearranges_refl [OF ok] by (simp add: remove_pre_data_def)
next
  case False
  have w: "0 \<le> r_bits r" "0 < r_pre_data_bits r" "0 \<le> r_post_data_bits r" "bit_count r \<le> 64" "widths_ok r"
    and bc: "bit_count r = r_pre_data_bits r + r_bits r + r_post_data_bits r"
    using ok False by (auto simp: data_ok_def plain_coding_def widths_ok_def bit_count_def)
  let ?f = "\<lambda>c. c OR push_bit (nat (r_bits r)) (r_pre_data r)"
  have get: "remove_pre_data r = Some (map_buttons ?f (r\<lparr>r_bits := r_bits r + r_pre_data_bits r,
      r_pre_data_bits := 0, r_pre_data := 0\<rparr>))"
    using ok p w False bc
    by (auto simp: remove_pre_data_def data_ok_def valid_shift_def map_buttons_def)
  have "rearranges r (map_buttons ?f (r\<lparr>r_bits := r_bits r + r_pre_data_bits r,
      r_pre_data_bits := 0, r_pre_data := 0,
      r_post_data_bits := r_post_data_bits r, r_post_data := r_post_data r\<rparr>))"
  proof (rule rearrangesI [OF ok refl])
    show "fits 0 0" by (simp add: fits_iff)
    show "fits (r_post_data_bits r) (r_post_data r)" using ok by (simp add: data_ok_def)
    fix c d assume c: "c \<in> set (codes_of r)" "d \<in> set (button_codes c)"
    have fd: "fits (r_bits r) d" "fits (r_pre_data_bits r) (r_pre_data r)"
      using ok c by (auto simp: data_ok_def list_all_iff)
    have "fits (r_bits r + r_pre_data_bits r) (?f d)"
      using fd w by (fastforce simp: fits_iff bit_or_iff bit_push_word)
    moreover have "join_code 0 0 (r_bits r + r_pre_data_bits r) (?f d) (r_post_data_bits r) (r_post_data r)
        = whole r d"
    proof (rule bit_eqI)
      fix k assume "possible_bit TYPE(64 word) k"
      then have "k < 64" by simp
      moreover have "\<not> bit d (k - nat (r_post_data_bits r))"
        if "nat (r_bits r) + nat (r_post_data_bits r) \<le> k"
        using fd that by (auto simp: fits_iff)
      ultimately show "bit (join_code 0 0 (r_bits r + r_pre_data_bits r) (?f d) (r_post_data_bits r) (r_post_data r)) k
          = bit (whole r d) k"
        using w bc by (auto simp: bit_join_code whole_bit bit_or_iff bit_push_word nat_add_distrib
            diff_diff_eq add.commute)
    qed
    ultimately show "fits (r_bits r + r_pre_data_bits r) (?f d) \<and>
      join_code 0 0 (r_bits r + r_pre_data_bits r) (?f d) (r_post_data_bits r) (r_post_data r) = whole r d"
      by blast
  qed (use w bc in auto)
  moreover have "r\<lparr>r_post_data_bits := r_post_data_bits r, r_post_data := r_post_data r\<rparr> = r"
    by (cases r) simp
  ultimately show ?thesis using get by simp
qed

lemma remove_post_rearranges:
  assumes ok: "data_ok r" and narrow: "r_post_data_bits r < 64"
  shows "\<exists>r'. remove_post_data r = Some r' \<and> rearranges r r' \<and> r_post_data_bits r' = 0
    \<and> r_pre_data_bits r' = r_pre_data_bits r"
proof (cases "r_post_data_bits r = 0")
  case True
  then show ?thesis using rearranges_refl [OF ok] by (simp add: remove_post_data_def)
next
  case False
  have w: "0 \<le> r_bits r" "0 \<le> r_pre_data_bits r" "0 < r_post_data_bits r" "bit_count r \<le> 64" "widths_ok r"
    and bc: "bit_count r = r_pre_data_bits r + r_bits r + r_post_data_bits r"
    using ok False by (auto simp: data_ok_def plain_coding_def widths_ok_def bit_count_def)
  let ?f = "\<lambda>c. push_bit (nat (r_post_data_bits r)) c OR r_post_data r"
  have get: "remove_post_data r = Some (map_buttons ?f (r\<lparr>r_bits := r_bits r + r_post_data_bits r,
      r_post_data_bits := 0, r_post_data := 0\<rparr>))"
    using ok narrow w False
    by (auto simp: remove_post_data_def data_ok_def valid_shift_def map_buttons_def)
  have "rearranges r (map_buttons ?f (r\<lparr>r_bits := r_bits r + r_post_data_bits r,
      r_pre_data_bits := r_pre_data_bits r, r_pre_data := r_pre_data r,
      r_post_data_bits := 0, r_post_data := 0\<rparr>))"
  proof (rule rearrangesI [OF ok refl])
    show "fits 0 0" by (simp add: fits_iff)
    show "fits (r_pre_data_bits r) (r_pre_data r)" using ok by (simp add: data_ok_def)
    fix c d assume c: "c \<in> set (codes_of r)" "d \<in> set (button_codes c)"
    have fd: "fits (r_bits r) d" "fits (r_post_data_bits r) (r_post_data r)"
      using ok c by (auto simp: data_ok_def list_all_iff)
    have "fits (r_bits r + r_post_data_bits r) (?f d)"
      using fd w by (fastforce simp: fits_iff bit_or_iff bit_push_word)
    moreover have "join_code (r_pre_data_bits r) (r_pre_data r) (r_bits r + r_post_data_bits r) (?f d) 0 0
        = whole r d"
    proof (rule bit_eqI)
      fix k assume "possible_bit TYPE(64 word) k"
      then have "k < 64" by simp
      moreover have "bit (r_post_data r) k \<Longrightarrow> k < nat (r_post_data_bits r)" for k
        using fd by (simp add: fits_iff)
      ultimately show "bit (join_code (r_pre_data_bits r) (r_pre_data r) (r_bits r + r_post_data_bits r) (?f d) 0 0) k
          = bit (whole r d) k"
        using w bc by (auto simp: bit_join_code whole_bit bit_or_iff bit_push_word)
    qed
    ultimately show "fits (r_bits r + r_post_data_bits r) (?f d) \<and>
      join_code (r_pre_data_bits r) (r_pre_data r) (r_bits r + r_post_data_bits r) (?f d) 0 0 = whole r d"
      by blast
  qed (use w bc in auto)
  moreover have "r\<lparr>r_pre_data_bits := r_pre_data_bits r, r_pre_data := r_pre_data r\<rparr> = r"
    by (cases r) simp
  ultimately show ?thesis using get by simp
qed


section \<open>The rearrangements together\<close>

lemma rearranges_first:
  assumes "rearranges r r'"
  shows "nc_next (hd (codes_of r')) = [] \<longleftrightarrow> nc_next (hd (codes_of r)) = []"
    and "length (codes_of r') = length (codes_of r)"
    and "map nc_name (codes_of r') = map nc_name (codes_of r)"
proof -
  have eq: "map (map_button (\<lambda>_. 0)) (codes_of r') = map (map_button (\<lambda>_. 0)) (codes_of r)"
    using assms by (simp add: rearranges_def)
  from arg_cong [OF eq, of length] show len: "length (codes_of r') = length (codes_of r)" by simp
  from arg_cong [OF eq, of "map nc_name"] show "map nc_name (codes_of r') = map nc_name (codes_of r)"
    by (simp add: comp_def map_button_def)
  from arg_cong [OF eq, of "map (\<lambda>c. nc_next c = [])"]
  have "map (\<lambda>c. nc_next c = []) (codes_of r') = map (\<lambda>c. nc_next c = []) (codes_of r)"
    by (simp add: comp_def map_button_def)
  then show "nc_next (hd (codes_of r')) = [] \<longleftrightarrow> nc_next (hd (codes_of r)) = []"
    using len by (cases "codes_of r"; cases "codes_of r'") auto
qed

definition one_code :: "ir_remote \<Rightarrow> bool" where
  "one_code r \<longleftrightarrow> (\<forall>w\<in>set (concat (wholes r)). w = hd (concat (wholes r)))"

lemma whole_inject:
  assumes ok: "data_ok r" and d: "fits (r_bits r) d" "fits (r_bits r) e"
    and eq: "whole r d = whole r e"
  shows "d = e"
proof (rule bit_eqI)
  fix k
  have w: "widths_ok r" using ok by (simp add: data_ok_def plain_coding_def)
  show "bit d k = bit e k"
  proof (cases "k < nat (r_bits r)")
    case True
    have "bit (whole r d) (k + nat (r_post_data_bits r)) = bit (whole r e) (k + nat (r_post_data_bits r))"
      by (simp only: eq)
    then show ?thesis using True w by (simp add: whole_bit widths_ok_def nat_add_distrib)
  qed (use d in \<open>auto simp: fits_iff\<close>)
qed

lemma fits_codes:
  "data_ok r \<Longrightarrow> x \<in> set (concat (map button_codes (codes_of r))) \<Longrightarrow> fits (r_bits r) x"
  by (auto simp: data_ok_def list_all_iff)

lemma one_code_codes:
  assumes ok: "data_ok r" and ne: "codes_of r \<noteq> []"
  shows "one_code r \<longleftrightarrow>
    (\<forall>x\<in>set (concat (map button_codes (codes_of r))). x = nc_code (hd (codes_of r)))"
proof -
  have whl: "concat (wholes r) = map (whole r) (concat (map button_codes (codes_of r)))"
    by (simp add: wholes_def map_concat comp_def)
  have h: "hd (concat (wholes r)) = whole r (nc_code (hd (codes_of r)))"
    using ne by (cases "codes_of r") (auto simp: wholes_def button_codes_def)
  have hin: "nc_code (hd (codes_of r)) \<in> set (concat (map button_codes (codes_of r)))"
    using ne by (cases "codes_of r") (auto simp: button_codes_def)
  show ?thesis
    unfolding one_code_def h unfolding whl set_map ball_simps(9)
    using whole_inject [OF ok fits_codes [OF ok] fits_codes [OF ok hin]] by metis
qed

lemma get_pre_one_code:
  assumes ok: "data_ok r" and one: "one_code r" and two: "2 \<le> length (codes_of r)"
    and get: "get_pre_data r = Some r'" and first: "nc_next (hd (codes_of r)) = []"
  shows "r_bits r' = 0"
proof (cases "r_bits r = 0")
  case False
  have ne: "codes_of r \<noteq> []" using two by auto
  obtain cs where cs: "r_codes r = Some cs" "codes_of r = cs"
    using ok by (auto simp: data_ok_def codes_of_def)
  obtain m l where ml: "agree_mask cs = (m, l)" by (cases "agree_mask cs")
  have "bit m k" if "k < 64" for k
    using bit_agree_all [OF ne _ that] one_code_codes [OF ok ne] one first
    unfolding cs ml by simp
  then have "\<not> leading_ones m < 64" using leading_ones_stop [of m] by auto
  then have "leading_ones m = 64" using leading_ones_le [of m] by simp
  then show ?thesis
    using get two False ok
    by (auto simp: get_pre_data_def cs ml Let_def data_ok_def plain_coding_def widths_ok_def
        split: if_splits)
qed (use get in \<open>simp add: get_pre_data_def\<close>)

definition split_data :: "ir_remote \<Rightarrow> ir_remote option" where
  "split_data r = Option.bind (get_pre_data r) get_post_data"

definition join_data :: "ir_remote \<Rightarrow> ir_remote option" where
  "join_data r = Option.bind (remove_pre_data r) remove_post_data"

lemma split_rearranges:
  assumes ok: "data_ok r" and none: "r_pre_data_bits r = 0" "r_post_data_bits r = 0"
    and first: "nc_next (hd (codes_of r)) = []"
  shows "\<exists>r'. split_data r = Some r' \<and> rearranges r r' \<and> r_post_data_bits r' < 64"
proof -
  obtain r1 where r1: "get_pre_data r = Some r1" "rearranges r r1" "r_post_data_bits r1 = 0"
    using get_pre_rearranges [OF ok none(1) first] none(2) by auto
  have ok1: "data_ok r1" and wh: "wholes r1 = wholes r" using r1(2) by (simp_all add: rearranges_def)
  note f1 = rearranges_first [OF r1(2)]
  have "r_bits r1 = 0 \<or> length (codes_of r1) < 2 \<or>
      (\<exists>x\<in>set (concat (map button_codes (codes_of r1))). x \<noteq> nc_code (hd (codes_of r1)))"
  proof (cases "one_code r \<and> 2 \<le> length (codes_of r)")
    case True
    then show ?thesis using get_pre_one_code [OF ok _ _ r1(1) first] by simp
  next
    case False
    then show ?thesis
      using one_code_codes [OF ok1] wh f1(2) unfolding one_code_def by (cases "codes_of r1 = []") auto
  qed
  then show ?thesis
    using get_post_rearranges [OF ok1 r1(3)] f1(1) first r1 by (auto simp: split_data_def intro: rearranges_trans)
qed

lemma join_rearranges:
  assumes ok: "data_ok r" and p: "r_pre_p r = 0" "r_pre_s r = 0" and narrow: "r_post_data_bits r < 64"
  shows "\<exists>r'. join_data r = Some r' \<and> rearranges r r' \<and> r_pre_data_bits r' = 0 \<and> r_post_data_bits r' = 0"
proof -
  obtain r1 where r1: "remove_pre_data r = Some r1" "rearranges r r1" "r_pre_data_bits r1 = 0"
      "r_post_data_bits r1 = r_post_data_bits r"
    using remove_pre_rearranges [OF ok p] by auto
  then have "data_ok r1" by (simp add: rearranges_def)
  from remove_post_rearranges [OF this] r1 narrow show ?thesis
    by (auto simp: join_data_def intro: rearranges_trans)
qed


text \<open>
  C6: The rearrangement \<open>irrecord\<close> makes of a remote - the pre and post data go back into the
  codes, then the bits all codes share are taken out of them again - always succeeds, keeps the
  buttons and their names, and leaves every signal as it was: for every code of every button
  \<open>send_code\<close> emits the same events as before. The remote has no pulses between the parts, its
  data fit their widths, and its first button has a single code.
\<close>

theorem rearranging_keeps_signals:
  assumes "data_ok r" and "0 < r_bits r" and "r_pre_p r = 0" and "r_pre_s r = 0"
    and "nc_next (hd (codes_of r)) = []"
  shows "\<exists>r1 r2. join_data r = Some r1 \<and> split_data r1 = Some r2
    \<and> map nc_name (codes_of r2) = map nc_name (codes_of r)
    \<and> signals_of r2 repeat = signals_of r repeat"
proof -
  have "r_post_data_bits r < 64"
    using assms(1,2) by (auto simp: data_ok_def plain_coding_def widths_ok_def bit_count_def)
  then obtain r1 where r1: "join_data r = Some r1" "rearranges r r1" "r_pre_data_bits r1 = 0"
      "r_post_data_bits r1 = 0"
    using join_rearranges assms by blast
  then have "data_ok r1" by (simp add: rearranges_def)
  then obtain r2 where r2: "split_data r1 = Some r2" "rearranges r1 r2"
    using split_rearranges r1 rearranges_first(1) [OF r1(2)] assms(5) by blast
  have "rearranges r r2" using r1(2) r2(2) by (rule rearranges_trans)
  then show ?thesis
    using r1(1) r2(1) rearranges_first(3) [of r r2] rearranges_signals [OF assms(1), of r2 repeat] by blast
qed

definition sample_split :: ir_remote where
  "sample_split = sample_nec\<lparr>r_post_data_bits := 4, r_post_data := 9\<rparr>"

theorem rearranging_keeps_signals_witness:
  "\<exists>r1 r2. join_data sample_split = Some r1 \<and> split_data r1 = Some r2
    \<and> map nc_name (codes_of r2) = map nc_name (codes_of sample_split)
    \<and> signals_of r2 False = signals_of sample_split False"
proof (rule rearranging_keeps_signals)
  show "data_ok sample_split" by code_simp
qed (code_simp+)





section \<open>The first button\<close>

text \<open>
  C39: A sequence of the first button is lost. The search for shared bits looks at all codes but
  the further codes of the first button. When such a code differs from the first code in a bit
  that goes into the pre data, \<open>get_pre_data\<close> clears the bit, and the remote sends another code
  than the one that was recorded.
\<close>

theorem first_sequence_lost:
  assumes "data_ok r" and "\<not> is_raw r" and "r_pre_data_bits r = 0" and "get_pre_data r = Some r'"
    and "d = nc_next (hd (codes_of r)) ! j" and "j < length (nc_next (hd (codes_of r)))"
    and "bit d k \<noteq> bit (nc_code (hd (codes_of r))) k" and "nat (r_bits r') \<le> k" and "k < nat (r_bits r)"
  shows "gen_ir_code r' (r_pre_data r') (nc_next (hd (codes_of r')) ! j) (r_post_data r')
    \<noteq> gen_ir_code r (r_pre_data r) d (r_post_data r)"
  using assms(1,3)
proof (cases rule: get_pre_cases)
  case 1
  then show ?thesis using assms by simp
next
  case (2 b l)
  let ?msk = "push_bit (nat b) (gen_mask (r_bits r - b)) :: ir_code"
  let ?f = "\<lambda>c. c AND NOT ?msk"
  have w: "0 \<le> r_bits r" "0 \<le> r_post_data_bits r" "bit_count r \<le> 64" "widths_ok r"
    and bc: "bit_count r = r_bits r + r_post_data_bits r"
    using assms(1,3) by (auto simp: data_ok_def plain_coding_def widths_ok_def bit_count_def)
  have r': "r' = map_buttons ?f (r\<lparr>r_bits := b, r_pre_data_bits := r_bits r - b,
       r_pre_data := drop_bit (nat b) (l AND ?msk)\<rparr>)"
    using 2(5) assms(4) by simp
  have k: "nat b \<le> k" "k < 64" using assms(8,9) w bc by (auto simp: r')
  have w': "widths_ok r'" using w 2(1-3) bc by (simp add: r' widths_ok_def bit_count_def)
  have raw: "\<not> is_raw r'" using assms(2) by (simp add: r' is_raw_def map_buttons_def)
  have "bit ?msk k" using k assms(9) 2(1) by (auto simp: gen_mask_eq bit_push_word bit_mask_iff)
  then have "bit (r_pre_data r') (k - nat b) \<longleftrightarrow> bit l k"
    using k by (simp add: r' bit_drop_bit_eq bit_and_iff)
  moreover have "r_bits r' = b" "r_post_data_bits r' = r_post_data_bits r" "bit_count r' = bit_count r"
    using bc by (simp_all add: r' bit_count_def)
  ultimately have "bit (whole r' x) (k + nat (r_post_data_bits r)) \<longleftrightarrow> bit l k" for x
    using whole_bit [OF w', of x "k + nat (r_post_data_bits r)"] w bc 2(1-3) k assms(9)
    by (simp add: nat_add_distrib)
  moreover have "bit l k = bit (nc_code (hd (codes_of r))) k" using 2(6,7) k by blast
  moreover have "bit (whole r d) (k + nat (r_post_data_bits r)) \<longleftrightarrow> bit d k"
    using w bc assms(9) by (auto simp: whole_bit nat_add_distrib)
  ultimately have "whole r' x \<noteq> whole r d" for x using assms(7) by metis
  then show ?thesis
    using gen_ir_code_join [OF w' raw] gen_ir_code_join [OF w(4) assms(2)] by (simp add: whole_def)
qed

definition record_sequence :: ir_remote where
  "record_sequence = (zero_remote ''seq'')\<lparr>r_flags := SPACE_ENC, r_bits := 16,
     r_codes := Some [zero_ncode\<lparr>nc_name := ''KEY_1'', nc_code := 0x2010, nc_next := [0x7010]\<rparr>,
                      zero_ncode\<lparr>nc_name := ''KEY_2'', nc_code := 0x20B4\<rparr>]\<rparr>"

theorem first_sequence_lost_witness:
  "gen_ir_code (the (get_pre_data record_sequence)) (r_pre_data (the (get_pre_data record_sequence)))
      (nc_next (hd (codes_of (the (get_pre_data record_sequence)))) ! 0)
      (r_post_data (the (get_pre_data record_sequence)))
    \<noteq> gen_ir_code record_sequence (r_pre_data record_sequence) 0x7010 (r_post_data record_sequence)"
  by (rule first_sequence_lost [where k = 12]) (code_simp+)

section \<open>Ones for zeros\<close>

definition swapped :: "ir_remote \<Rightarrow> ir_remote" where
  "swapped r = r\<lparr>r_pone := r_pzero r, r_sone := r_szero r, r_pzero := r_pone r, r_szero := r_sone r\<rparr>"

lemma bits_events_inverted:
  assumes "\<not> is_biphase r" and "\<not> has_toggle_bit_mask r" and "\<not> has_toggle_mask r"
    and "\<And>i. i < n \<Longrightarrow> bit e i = (\<not> bit d i)"
  shows "bits_events (swapped r) n m e = bits_events r n m d"
  using assms(4)
proof (induction n arbitrary: m d e)
  case (Suc n)
  have flags: "\<not> is_biphase (swapped r)" "toggle_data (swapped r) m e = e" "toggle_data r m d = d"
    "r_rc6_mask r = 0" "r_rc6_mask (swapped r) = 0" "is_space_first (swapped r) = is_space_first r"
    using assms(1-3) by (auto simp: swapped_def toggle_data_def feature_defs is_biphase_def is_rc5_def
        is_rc6_def is_space_first_def)
  have "bit_events (swapped r) m (e AND 1 \<noteq> 0) = bit_events r m (d AND 1 \<noteq> 0)"
    using Suc.prems [of 0] assms(1) flags
    by (simp add: test_bit_1 bit_events_def) (simp add: swapped_def)
  moreover have "bits_events (swapped r) n (drop_bit 1 m) (drop_bit 1 e)
      = bits_events r n (drop_bit 1 m) (drop_bit 1 d)"
    using Suc.prems by (intro Suc.IH) (simp add: bit_drop_bit_eq)
  ultimately show ?case by (simp add: Let_def flags)
qed simp


lemma whole_events_inverted:
  assumes "\<not> is_biphase r" "\<not> has_toggle_bit_mask r" "\<not> has_toggle_mask r" "n \<le> 64"
    and "\<And>k. k < nat n \<Longrightarrow> bit v k = (\<not> bit w k)"
  shows "whole_events (swapped r) n v repeat = whole_events r n w repeat"
proof -
  have "bits_events (swapped r) (nat n) (push_bit (nat (n - 1)) 1) (reverse v n)
      = bits_events r (nat n) (push_bit (nat (n - 1)) 1) (reverse w n)"
    using assms by (intro bits_events_inverted) (simp_all add: bit_reverse)
  then show ?thesis
    by (simp add: whole_events_def) (simp add: swapped_def has_header_def has_foot_def has_flag_def)
qed

text \<open>
  C17: \<open>invert_data\<close> exchanges the pulses and spaces of ones and zeros and inverts every bit, so
  it leaves every signal of the remote as it was: for a remote that is not biphase encoded and has
  no toggle masks, each code of each button emits the same events before and after.
\<close>

theorem inverting_keeps_signals:
  assumes "plain_coding r" and "r_codes r \<noteq> None" and "\<not> is_biphase r"
    and "\<not> has_toggle_bit_mask r" and "\<not> has_toggle_mask r"
  shows "\<exists>r'. invert_data r = Some r' \<and> map nc_name (codes_of r') = map nc_name (codes_of r)
    \<and> signals_of r' repeat = signals_of r repeat"
proof -
  let ?p = "if has_pre r then r_pre_data r XOR gen_mask (r_pre_data_bits r) else r_pre_data r"
  let ?q = "if has_post r then r_post_data r XOR gen_mask (r_post_data_bits r) else r_post_data r"
  let ?f = "\<lambda>c. if r_bits r = 0 then c else c XOR gen_mask (r_bits r)"
  define r' where "r' = map_buttons ?f ((swapped r)\<lparr>r_pre_data := ?p, r_post_data := ?q\<rparr>)"
  have w: "widths_ok r" "0 \<le> r_pre_data_bits r" "0 \<le> r_bits r" "0 \<le> r_post_data_bits r" "bit_count r \<le> 64"
    using assms(1) by (auto simp: plain_coding_def widths_ok_def)
  have upd: "r\<lparr>r_pre_data := r_pre_data r\<rparr> = r" "r\<lparr>r_post_data := r_post_data r\<rparr> = r" for r :: ir_remote
    by (cases r, simp)+
  have id: "map_buttons (\<lambda>c. c) r = r" for r
  proof -
    have "map_button (\<lambda>c. c) c = c" for c by (cases c) (simp add: map_button_def)
    then have "map_button (\<lambda>c. c) = (\<lambda>c. c)" by (rule ext)
    then show ?thesis by (cases r; cases "r_codes r") (simp_all add: map_buttons_def)
  qed
  obtain cs where "r_codes r = Some cs" using assms(2) by blast
  then have inv: "invert_data r = Some r'"
    by (simp add: invert_data_def Let_def r'_def swapped_def has_pre_def has_post_def id upd
        cong: if_cong)
  have frame: "same_frame r' (swapped r)"
    by (simp add: r'_def same_frame_def map_buttons_def swapped_def)
  have sel: "r_bits r' = r_bits r" "r_pre_data_bits r' = r_pre_data_bits r"
    "r_post_data_bits r' = r_post_data_bits r" "bit_count r' = bit_count r"
    "r_pre_data r' = ?p" "r_post_data r' = ?q"
    by (simp_all add: r'_def swapped_def bit_count_def)
  have w': "widths_ok r'" using w(1) by (simp add: widths_ok_def sel)
  have codes: "codes_of r' = map (map_button ?f) (codes_of r)"
    unfolding r'_def codes_map_buttons by (simp add: codes_of_def swapped_def)
  have "plain_coding (swapped r)"
    using assms(1) by (simp add: plain_coding_def swapped_def is_rcmm_def is_xmp_def widths_ok_def bit_count_def)
  then have plain: "plain_coding r'" using frame_coding [OF frame] w' by blast
  have inverted: "bit (whole r' (?f d)) k = (\<not> bit (whole r d) k)" if "k < nat (bit_count r)" for d k
  proof -
    have n: "k < 64" "nat (bit_count r) = nat (r_pre_data_bits r) + nat (r_bits r) + nat (r_post_data_bits r)"
      using that w by (auto simp: bit_count_def nat_add_distrib)
    show ?thesis
      using that w n unfolding whole_bit [OF w'] whole_bit [OF w(1)] sel
      by (auto simp: gen_mask_eq bit_xor_iff bit_mask_iff has_pre_def has_post_def nat_add_distrib)
  qed
  have "code_events r' (?f d) repeat = code_events r d repeat" for d
    unfolding code_events_whole [OF plain] code_events_whole [OF assms(1)] frame_events [OF frame] sel
    by (rule whole_events_inverted) (use assms(3-5) w inverted in auto)
  then have "signals_of r' repeat = signals_of r repeat"
    by (simp add: signals_of_def codes comp_def)
  moreover have "map nc_name (codes_of r') = map nc_name (codes_of r)"
    by (simp add: codes map_button_def comp_def)
  ultimately show ?thesis using inv by blast
qed

theorem inverting_keeps_signals_witness:
  "\<exists>r'. invert_data sample_split = Some r'
    \<and> map nc_name (codes_of r') = map nc_name (codes_of sample_split)
    \<and> signals_of r' False = signals_of sample_split False"
  by (rule inverting_keeps_signals) (code_simp+)

end
