(* ===== verification/Record_Lengths.thy ===== *)
theory Record_Lengths
  imports Ir_Inline
begin

text \<open>
  The statistics of \<open>lib/irrecord.c\<close>: recorded durations are collected in classes of similar
  length (\<open>struct lengths\<close>), which are merged when they are close, and the most frequent class
  is what the analysis takes for the duration of the remote.

  A list of \<open>struct lengths\<close> is a list of records; \<open>malloc\<close> does not fail. The fields \<open>sum\<close>,
  \<open>min\<close> and so on are \<open>lirc_t\<close>; \<open>eps\<close> is \<open>unsigned int\<close> and the mean of two classes is
  \<open>__u32\<close>, so the comparisons of \<open>merge_lengths\<close> are unsigned, which \<open>u32\<close> writes out.
\<close>

record length_class =
  l_count :: int
  l_sum :: lirc_t
  l_upper :: lirc_t
  l_lower :: lirc_t
  l_min :: lirc_t
  l_max :: lirc_t

definition calc_signal :: "length_class \<Rightarrow> lirc_t" where
  "calc_signal len = (if l_count len = 0 then 0 else s32 (u32 (l_sum len) div l_count len))"

definition new_length :: "lirc_t \<Rightarrow> length_class" where
  "new_length x = \<lparr>l_count = 1, l_sum = x, l_upper = x sdiv 100 * 100 + 99,
     l_lower = x sdiv 100 * 100, l_min = x, l_max = x\<rparr>"

definition count_length :: "lirc_t \<Rightarrow> length_class \<Rightarrow> length_class" where
  "count_length x l = l\<lparr>l_count := l_count l + 1, l_sum := l_sum l + x,
     l_min := min (l_min l) x, l_max := max (l_max l) x\<rparr>"

fun add_length :: "lirc_t \<Rightarrow> length_class list \<Rightarrow> length_class list" where
  "add_length x [] = [new_length x]"
| "add_length x (l # ls) =
     (if l_lower l \<le> x \<and> x \<le> l_upper l then count_length x l # ls
      else l # add_length x ls)"

text \<open>
  \<open>unlink_length\<close>: the element at an index leaves the list. (A pointer that is not in the list
  is reported as a bug; no caller has one.)
\<close>

definition unlink_length :: "nat \<Rightarrow> length_class list \<Rightarrow> length_class list" where
  "unlink_length i ls = take i ls @ drop (Suc i) ls"

section \<open>Merging\<close>

definition mean_length :: "length_class \<Rightarrow> length_class \<Rightarrow> int" where
  "mean_length l inner = u32 (l_sum l + l_sum inner) div (l_count l + l_count inner)"

definition close_absolute :: "lirc_t \<Rightarrow> int \<Rightarrow> length_class \<Rightarrow> bool" where
  "close_absolute aeps mean l \<longleftrightarrow>
     u32 (l_max l) \<le> u32 (mean + aeps) \<and> u32 (l_min l + aeps) \<ge> mean"

definition close_relative :: "int \<Rightarrow> int \<Rightarrow> length_class \<Rightarrow> bool" where
  "close_relative eps mean l \<longleftrightarrow>
     u32 (l_max l) \<le> u32 (mean * (100 + eps)) \<and> u32 (l_min l) \<ge> u32 (mean * (100 - eps))"

definition close_lengths :: "int \<Rightarrow> lirc_t \<Rightarrow> length_class \<Rightarrow> length_class \<Rightarrow> bool" where
  "close_lengths eps aeps l inner \<longleftrightarrow>
     (let mean = mean_length l inner
      in close_absolute aeps mean l \<and> close_absolute aeps mean inner
         \<or> close_relative eps mean l \<and> close_relative eps mean inner)"

definition join_lengths :: "length_class \<Rightarrow> length_class \<Rightarrow> length_class" where
  "join_lengths l inner =
     \<lparr>l_count = l_count l + l_count inner, l_sum = s32 (u32 (l_sum l + l_sum inner)),
      l_upper = max (l_upper l) (l_upper inner), l_lower = min (l_lower l) (l_lower inner),
      l_min = min (l_min l) (l_min inner), l_max = max (l_max l) (l_max inner)\<rparr>"

text \<open>The inner loop: \<open>l\<close> takes up every later class that is close to what it has become.\<close>

fun absorb_lengths :: "int \<Rightarrow> lirc_t \<Rightarrow> length_class \<Rightarrow> length_class list \<Rightarrow> length_class \<times> length_class list" where
  "absorb_lengths eps aeps l [] = (l, [])"
| "absorb_lengths eps aeps l (inner # ls) =
     (if close_lengths eps aeps l inner then absorb_lengths eps aeps (join_lengths l inner) ls
      else (case absorb_lengths eps aeps l ls of (l, ls) \<Rightarrow> (l, inner # ls)))"

lemma length_absorb: "absorb_lengths eps aeps l ls = (l', ls') \<Longrightarrow> length ls' \<le> length ls"
  by (induction eps aeps l ls arbitrary: l' ls' rule: absorb_lengths.induct)
    (auto split: if_splits prod.splits intro: le_SucI)

function merge_lengths :: "int \<Rightarrow> lirc_t \<Rightarrow> length_class list \<Rightarrow> length_class list" where
  "merge_lengths eps aeps [] = []"
| "merge_lengths eps aeps (l # ls) =
     (case absorb_lengths eps aeps l ls of (l, ls) \<Rightarrow> l # merge_lengths eps aeps ls)"
  by pat_completeness auto
termination
  by (relation "measure (\<lambda>(eps, aeps, ls). length ls)")
    (auto simp: less_Suc_eq_le dest!: sym [of "(_, _)"] intro: length_absorb)

text \<open>One sample: \<open>add_length\<close> is always followed by \<open>merge_lengths\<close>.\<close>

definition sample_length :: "int \<Rightarrow> lirc_t \<Rightarrow> lirc_t \<Rightarrow> length_class list \<Rightarrow> length_class list" where
  "sample_length eps aeps x ls = merge_lengths eps aeps (add_length x ls)"

section \<open>The most frequent class\<close>

text \<open>
  The loop of \<open>get_max_length\<close> from the index \<open>i\<close> on, with the index of the largest count so
  far and the sum of the counts. The first of several largest counts wins.
\<close>

fun max_loop :: "nat \<Rightarrow> nat \<times> int \<Rightarrow> int \<Rightarrow> length_class list \<Rightarrow> nat \<times> int" where
  "max_loop i (best, n) most [] = (best, n)"
| "max_loop i (best, n) most (scan # ls) =
     max_loop (Suc i) (if l_count scan > most then i else best, u32 (n + l_count scan))
       (if l_count scan > most then l_count scan else most) ls"

definition get_max_length :: "length_class list \<Rightarrow> (nat \<times> int) option" where
  "get_max_length first =
     (case first of
        [] \<Rightarrow> None
      | l # ls \<Rightarrow> Some (max_loop 1 (0, u32 (l_count l)) (l_count l) ls))"

text \<open>
  The same loop on a list whose last element may point back into the list instead of being
  NULL: \<open>back\<close> is the index it points to. The loop leaves only over a NULL pointer, so its
  result is \<open>None\<close> when it does not return.
\<close>

definition chain_next :: "length_class list \<Rightarrow> nat option \<Rightarrow> nat \<Rightarrow> nat option" where
  "chain_next ls back i = (if Suc i < length ls then Some (Suc i) else back)"

partial_function (option) chain_loop ::
  "length_class list \<Rightarrow> nat option \<Rightarrow> nat option \<Rightarrow> nat \<times> int \<Rightarrow> (nat \<times> int) option" where
  "chain_loop ls back scan acc =
     (case scan of
        None \<Rightarrow> Some acc
      | Some i \<Rightarrow>
          chain_loop ls back (chain_next ls back i)
            (case acc of (best, n) \<Rightarrow>
               (if l_count (ls ! i) > l_count (ls ! best) then i else best,
                u32 (n + l_count (ls ! i)))))"

declare chain_loop.simps [code]

definition get_max_chain :: "length_class list \<Rightarrow> nat option \<Rightarrow> (nat \<times> int) option" where
  "get_max_chain ls back =
     chain_loop ls back (chain_next ls back 0) (0, u32 (l_count (hd ls)))"

section \<open>Facts about the classes\<close>

text \<open>The number of samples and their sum, over all classes.\<close>

definition total_count :: "length_class list \<Rightarrow> int" where
  "total_count ls = sum_list (map l_count ls)"

definition total_sum :: "length_class list \<Rightarrow> int" where
  "total_sum ls = sum_list (map l_sum ls)"

lemma totals_Nil [simp]: "total_count [] = 0" "total_sum [] = 0"
  by (simp_all add: total_count_def total_sum_def)

lemma totals_Cons [simp]:
  "total_count (l # ls) = l_count l + total_count ls" "total_sum (l # ls) = l_sum l + total_sum ls"
  by (simp_all add: total_count_def total_sum_def)

text \<open>A class: its samples lie between \<open>min\<close> and \<open>max\<close>, which are values it has seen.\<close>

definition class_ok :: "lirc_t set \<Rightarrow> length_class \<Rightarrow> bool" where
  "class_ok xs l \<longleftrightarrow> 0 < l_count l \<and> l_min l \<in> xs \<and> l_max l \<in> xs
     \<and> l_count l * l_min l \<le> l_sum l \<and> l_sum l \<le> l_count l * l_max l"

lemma class_ok_mono: "class_ok xs l \<Longrightarrow> xs \<subseteq> ys \<Longrightarrow> class_ok ys l"
  by (auto simp: class_ok_def)

lemma class_new: "class_ok {x} (new_length x)"
  by (simp add: class_ok_def new_length_def)

lemma class_count:
  assumes "class_ok xs l" and "x \<in> xs"
  shows "class_ok xs (count_length x l)"
proof -
  have "(l_count l + 1) * min (l_min l) x \<le> l_count l * l_min l + x"
    using assms by (simp add: class_ok_def distrib_right add_mono mult_left_mono)
  moreover have "l_count l * l_max l + x \<le> (l_count l + 1) * max (l_max l) x"
    using assms by (simp add: class_ok_def distrib_right add_mono mult_left_mono)
  ultimately show ?thesis
    using assms by (auto simp: class_ok_def count_length_def min_def max_def)
qed

lemma class_join:
  assumes "class_ok xs l" and "class_ok xs k" and "in_s32 (l_sum l + l_sum k)"
  shows "class_ok xs (join_lengths l k)"
proof -
  have "(l_count l + l_count k) * min (l_min l) (l_min k) \<le> l_count l * l_min l + l_count k * l_min k"
    using assms by (simp add: class_ok_def distrib_right add_mono mult_left_mono)
  moreover have "l_count l * l_max l + l_count k * l_max k \<le> (l_count l + l_count k) * max (l_max l) (l_max k)"
    using assms by (simp add: class_ok_def distrib_right add_mono mult_left_mono)
  ultimately show ?thesis
    using assms by (auto simp: class_ok_def join_lengths_def min_def max_def)
qed

lemma class_mean:
  assumes "class_ok xs l" and "\<forall>x\<in>xs. 0 \<le> x \<and> x < 2147483648" and "in_s32 (l_sum l)"
  shows "l_min l \<le> calc_signal l \<and> calc_signal l \<le> l_max l"
proof -
  have c: "0 < l_count l" "0 \<le> l_min l" "l_max l < 2147483648"
    "l_count l * l_min l \<le> l_sum l" "l_sum l \<le> l_count l * l_max l"
    using assms(1,2) by (auto simp: class_ok_def)
  then have "0 \<le> l_sum l" by (meson mult_nonneg_nonneg order.trans order_less_imp_le)
  then have u: "u32 (l_sum l) = l_sum l" using assms(3) by (simp add: in_s32_def in_u32_def)
  have lo: "l_min l \<le> l_sum l div l_count l"
    using zdiv_mono1 [OF c(4) c(1)] c(1) by simp
  have hi: "l_sum l div l_count l \<le> l_max l"
    using zdiv_mono1 [OF c(5) c(1)] c(1) by simp
  have "in_s32 (l_sum l div l_count l)" using lo hi c by (simp add: in_s32_def)
  then show ?thesis using lo hi c u by (simp add: calc_signal_def)
qed

end
