(* ===== verification/Record_Analysis.thy ===== *)
theory Record_Analysis
  imports Record_Lengths
begin

text \<open>
  The analysis of \<open>lib/irrecord.c\<close> that finds the parameters of a remote in a stream of pulses
  and spaces: the search for the gap, the statistics of the signals between gaps, and the
  functions that read header, trail, lead, repeat signal, encoding and length off them.

  The static variables of the file are the record \<open>analysis\<close>, with the tolerances \<open>eps\<close> and
  \<open>aeps\<close>. The list \<open>first_pulse\<close> is the only one that can become cyclic (in \<open>get_scheme\<close>); its
  last element points to the index \<open>an_pulse_back\<close>, or is NULL for \<open>None\<close>. The result \<open>None\<close> of a
  function stands for a followed NULL pointer, a division by zero, or a loop that never ends. The
  message output is left out.
\<close>

section \<open>Constants and state\<close>

definition MAX_SIGNALS :: int where "MAX_SIGNALS = 200"
definition TH_SPACE_ENC :: int where "TH_SPACE_ENC = 80"
definition TH_HEADER :: int where "TH_HEADER = 90"
definition TH_REPEAT :: int where "TH_REPEAT = 90"
definition TH_TRAIL :: int where "TH_TRAIL = 90"
definition TH_LEAD :: int where "TH_LEAD = 90"
definition TH_IS_BIT :: int where "TH_IS_BIT = 10"
definition TH_RC6_SIGNAL :: int where "TH_RC6_SIGNAL = 550"
definition MIN_GAP :: int where "MIN_GAP = 20000"
definition SAMPLES :: int where "SAMPLES = 80"

lemmas record_consts [cdefs] = MAX_SIGNALS_def TH_SPACE_ENC_def TH_HEADER_def TH_REPEAT_def
  TH_TRAIL_def TH_LEAD_def TH_IS_BIT_def TH_RC6_SIGNAL_def MIN_GAP_def SAMPLES_def

datatype analyse_mode = MODE_GET_GAP | MODE_HAVE_GAP

datatype lengths_status = STS_LEN_OK | STS_LEN_FAIL | STS_LEN_RAW_OK | STS_LEN_TIMEOUT
  | STS_LEN_AGAIN | STS_LEN_AGAIN_INFO | STS_LEN_NO_GAP_FOUND | STS_LEN_TOO_LONG

record analysis =
  an_eps :: int
  an_aeps :: lirc_t
  an_signals :: "lirc_t list"
  an_space :: "length_class list"
  an_pulse :: "length_class list"
  an_pulse_back :: "nat option"
  an_sum :: "length_class list"
  an_gap :: "length_class list"
  an_repeat_gap :: "length_class list"
  an_signal_length :: "length_class list"
  an_headerp :: "length_class list"
  an_headers :: "length_class list"
  an_1lead :: "length_class list"
  an_3lead :: "length_class list"
  an_trail :: "length_class list"
  an_repeatp :: "length_class list"
  an_repeats :: "length_class list"
  an_lengths :: "int list"
  an_first_length :: int
  an_first_lengths :: int
  an_second_lengths :: int
  an_count_spaces :: int
  an_count_signals :: int
  an_count_3repeats :: int
  an_count_5repeats :: int
  an_lastmaxcount :: int

record lengths_state =
  ls_keypresses :: int
  ls_retval :: bool
  ls_count :: int
  ls_data :: lirc_t
  ls_average :: lirc_t
  ls_maxspace :: lirc_t
  ls_sum :: lirc_t
  ls_remaining_gap :: lirc_t
  ls_header :: lirc_t
  ls_first_signal :: int
  ls_mode :: analyse_mode

definition free_all_lengths :: "analysis \<Rightarrow> analysis" where
  "free_all_lengths an = an\<lparr>an_space := [], an_pulse := [], an_pulse_back := None, an_sum := [],
     an_gap := [], an_repeat_gap := [], an_signal_length := [], an_headerp := [], an_headers := [],
     an_1lead := [], an_3lead := [], an_trail := [], an_repeatp := [], an_repeats := []\<rparr>"

definition lengths_state_init :: "analysis \<Rightarrow> lengths_state \<times> analysis" where
  "lengths_state_init an =
     (\<lparr>ls_keypresses = 0, ls_retval = True, ls_count = 0, ls_data = 0, ls_average = 0,
        ls_maxspace = 0, ls_sum = 0, ls_remaining_gap = 0, ls_header = 0, ls_first_signal = - 1,
        ls_mode = MODE_GET_GAP\<rparr>,
      an\<lparr>an_count_spaces := 0, an_count_3repeats := 0, an_count_5repeats := 0,
         an_count_signals := 0, an_first_length := 0, an_first_lengths := 0,
         an_second_lengths := 0\<rparr>)"

section \<open>Trail, lead, header and repeat signal\<close>

text \<open>\<open>max_count >= sum * threshold / 100\<close>, in unsigned arithmetic.\<close>

definition frequent :: "int \<Rightarrow> int \<Rightarrow> int \<Rightarrow> bool" where
  "frequent max_count n threshold \<longleftrightarrow> max_count \<ge> u32 (n * threshold) div 100"

definition get_trail_length :: "analysis \<Rightarrow> ir_remote \<Rightarrow> ir_remote option" where
  "get_trail_length an remote =
     (if is_biphase remote then Some remote
      else
        (case get_max_length (an_trail an) of
           None \<Rightarrow> None
         | Some (i, n) \<Rightarrow>
             let max_length = an_trail an ! i
             in if frequent (l_count max_length) n TH_TRAIL
                then Some (remote\<lparr>r_ptrail := calc_signal max_length\<rparr>) else Some remote))"

text \<open>
  \<open>get_lead_length\<close> unlinks the largest class from its own copy of the list pointer, so the
  class is lost from \<open>first_1lead\<close> unless it is the first one.
\<close>

definition get_lead_length :: "analysis \<Rightarrow> ir_remote \<Rightarrow> (analysis \<times> ir_remote) option" where
  "get_lead_length an remote =
     (if \<not> is_biphase remote \<or> has_header remote \<or> is_rc6 remote then Some (an, remote)
      else
        (case get_max_length (an_1lead an) of
           None \<Rightarrow> None
         | Some (i, n) \<Rightarrow>
             let max_length = an_1lead an ! i
             in if frequent (l_count max_length) n TH_LEAD
                then Some (an, remote\<lparr>r_plead := calc_signal max_length\<rparr>)
                else
                  (let rest = unlink_length i (an_1lead an);
                       an = (if i = 0 then an else an\<lparr>an_1lead := rest\<rparr>)
                   in case get_max_length rest of
                        None \<Rightarrow> None
                      | Some (j, _) \<Rightarrow>
                          let a = min (calc_signal max_length) (calc_signal (rest ! j));
                              b = max (calc_signal max_length) (calc_signal (rest ! j))
                          in if u32 \<bar>2 * a - b\<bar> < u32 (b * an_eps an) div 100
                                \<or> \<bar>2 * a - b\<bar> < an_aeps an
                             then Some (an, remote\<lparr>r_plead := a\<rparr>) else Some (an, remote))))"

definition get_header_length :: "analysis \<Rightarrow> ir_remote \<Rightarrow> ir_remote option" where
  "get_header_length an remote =
     (case get_max_length (an_headerp an) of
        None \<Rightarrow> Some remote
      | Some (i, n) \<Rightarrow>
          let max_plength = an_headerp an ! i
          in if \<not> frequent (l_count max_plength) n TH_HEADER then Some remote
             else
               (case get_max_length (an_headers an) of
                  None \<Rightarrow> None
                | Some (j, n) \<Rightarrow>
                    let max_slength = an_headers an ! j
                    in if \<not> frequent (l_count max_slength) n TH_HEADER then Some remote
                       else
                         (let remote = remote\<lparr>r_phead := calc_signal max_plength,
                                              r_shead := calc_signal max_slength\<rparr>
                          in Some (if an_first_lengths an < an_second_lengths an
                                   then remote\<lparr>r_flags := r_flags remote OR NO_HEAD_REP\<rparr>
                                   else remote))))"

text \<open>The first component is the return value.\<close>

definition get_repeat_length :: "analysis \<Rightarrow> ir_remote \<Rightarrow> (bool \<times> ir_remote) option" where
  "get_repeat_length an remote =
     (let often3 = an_count_3repeats an > SAMPLES div 2;
          often5 = an_count_5repeats an > SAMPLES div 2
      in if often3 = often5 then Some (\<not> often3, remote)
         else
           (case get_max_length (an_repeatp an) of
              None \<Rightarrow> None
            | Some (i, n) \<Rightarrow>
                let max_plength = an_repeatp an ! i
                in if \<not> frequent (l_count max_plength) n TH_REPEAT then Some (True, remote)
                   else
                     (case get_max_length (an_repeats an) of
                        None \<Rightarrow> None
                      | Some (j, n) \<Rightarrow>
                          let max_slength = an_repeats an ! j;
                              with_header = an_count_5repeats an > an_count_3repeats an
                          in if \<not> frequent (l_count max_slength) n TH_REPEAT then Some (True, remote)
                             else if with_header \<and> \<not> has_header remote then Some (False, remote)
                             else
                               (let remote = (if with_header
                                     then remote\<lparr>r_flags := r_flags remote OR REPEAT_HEADER\<rparr>
                                     else remote);
                                    remote = remote\<lparr>r_prepeat := calc_signal max_plength,
                                                    r_srepeat := calc_signal max_slength\<rparr>
                                in if has_flag remote CONST_LENGTH then Some (True, remote)
                                   else
                                     (case get_max_length (an_repeat_gap an) of
                                        None \<Rightarrow> None
                                      | Some (k, _) \<Rightarrow>
                                          Some (True, remote\<lparr>r_repeat_gap :=
                                            calc_signal (an_repeat_gap an ! k)\<rparr>))))))"


section \<open>Encoding and length\<close>

text \<open>The most frequent number of durations of a signal, and the number of signals.\<close>

definition longest_run :: "int list \<Rightarrow> nat \<times> int" where
  "longest_run ls =
     fold (\<lambda>i (len, n). (if ls ! i > ls ! len then i else len, u32 (n + ls ! i)))
       [1..<nat MAX_SIGNALS] (0, 0)"

definition get_scheme :: "analysis \<Rightarrow> ir_remote \<Rightarrow> (analysis \<times> ir_remote) option" where
  "get_scheme an remote =
     (let (len, n) = longest_run (an_lengths an);
          as_space_enc = (\<lambda>remote. set_protocol (remote\<lparr>r_bits := int len + 1\<rparr>) SPACE_ENC)
      in if an_lengths an ! len \<ge> u32 (TH_SPACE_ENC * n) div 100
         then Some (an, as_space_enc remote)
         else if an_pulse an = [] then None
         else
           (case get_max_chain (an_pulse an) (an_pulse_back an) of
              None \<Rightarrow> None
            | Some (i, _) \<Rightarrow>
                let maxp = an_pulse an ! i;
                    rest = unlink_length i (an_pulse an);
                    max2p = (case get_max_length rest of None \<Rightarrow> maxp | Some (j, _) \<Rightarrow> rest ! j);
                    an = an\<lparr>an_pulse := maxp # rest,
                            an_pulse_back := (if rest = [] then Some 0 else None)\<rparr>
                in case get_max_length (an_space an) of
                     None \<Rightarrow> None
                   | Some (j, _) \<Rightarrow>
                       let maxs = an_space an ! j;
                           rest = unlink_length j (an_space an)
                       in case get_max_length rest of
                            None \<Rightarrow> Some (an, as_space_enc remote)
                          | Some (k, _) \<Rightarrow>
                              let max2s = rest ! k;
                                  an = an\<lparr>an_space := maxs # rest\<rparr>
                              in case get_max_length (an_space an) of
                                   None \<Rightarrow> None
                                 | Some (l, _) \<Rightarrow>
                                     let maxs = an_space an ! l
                                     in Some (an, set_protocol remote
                                          (if len > 20
                                              \<and> (calc_signal maxp < TH_RC6_SIGNAL
                                                 \<or> calc_signal max2p < TH_RC6_SIGNAL)
                                              \<and> (calc_signal maxs < TH_RC6_SIGNAL
                                                 \<or> calc_signal max2s < TH_RC6_SIGNAL)
                                           then RC6 else RC5))))"

text \<open>
  The durations of ones and zeros from the two most frequent pulses and spaces; \<open>None\<close> is the
  return value 0 for an unknown encoding.
\<close>

definition bit_durations ::
  "driver \<Rightarrow> length_class \<Rightarrow> length_class option \<Rightarrow> length_class \<Rightarrow> length_class option \<Rightarrow> ir_remote \<Rightarrow> ir_remote option" where
  "bit_durations drv max_plength max2_plength max_slength max2_slength remote =
     (let p1 = calc_signal max_plength; s1 = calc_signal max_slength
      in if is_biphase remote then
           (case (max2_plength, max2_slength) of
              (Some mp, Some ms) \<Rightarrow>
                let p2 = calc_signal mp; s2 = calc_signal ms;
                    p = (min p1 p2 + max p1 p2 sdiv 2) sdiv 2;
                    s = (min s1 s2 + max s1 s2 sdiv 2) sdiv 2
                in Some (remote\<lparr>r_pone := p, r_sone := s, r_pzero := p, r_szero := s\<rparr>)
            | _ \<Rightarrow> None)
         else
           (case (max2_plength, max2_slength) of
              (Some mp, None) \<Rightarrow>
                let p2 = calc_signal mp;
                    remote = remote\<lparr>r_pone := max p1 p2, r_sone := s1, r_pzero := min p1 p2, r_szero := s1\<rparr>
                in Some (if expect drv remote (r_ptrail remote) p1 \<or> expect drv remote (r_ptrail remote) p2
                         then remote\<lparr>r_ptrail := 0\<rparr> else remote)
            | (None, Some ms) \<Rightarrow>
                let s2 = calc_signal ms
                in Some (remote\<lparr>r_pone := p1, r_sone := max s1 s2, r_pzero := p1, r_szero := min s1 s2\<rparr>)
            | _ \<Rightarrow> None))"

text \<open>A header that looks like a bit is none.\<close>

definition clear_no_head_rep :: "ir_remote \<Rightarrow> ir_remote" where
  "clear_no_head_rep remote =
     remote\<lparr>r_phead := 0, r_shead := 0, r_flags := r_flags remote AND NOT NO_HEAD_REP\<rparr>"

definition drop_header :: "driver \<Rightarrow> ir_remote \<Rightarrow> ir_remote" where
  "drop_header drv remote =
     (if has_header remote \<and> (\<not> has_repeat remote \<or> has_flag remote NO_HEAD_REP) then
        let remote =
          (if \<not> is_biphase remote
              \<and> (expect drv remote (r_phead remote) (r_pone remote)
                 \<and> expect drv remote (r_shead remote) (r_sone remote)
                 \<or> expect drv remote (r_phead remote) (r_pzero remote)
                 \<and> expect drv remote (r_shead remote) (r_szero remote))
           then clear_no_head_rep remote else remote)
        in if is_biphase remote \<and> expect drv remote (r_shead remote) (r_sone remote)
           then clear_no_head_rep (remote\<lparr>r_plead := r_phead remote\<rparr>) else remote
      else remote)"

definition count_bits :: "analysis \<Rightarrow> ir_remote \<Rightarrow> ir_remote option" where
  "count_bits an remote =
     (if is_biphase remote then
        (case get_max_length (an_signal_length an) of
           None \<Rightarrow> None
         | Some (i, _) \<Rightarrow>
             let bit_len = r_pone remote + r_sone remote;
                 data_length = calc_signal (an_signal_length an ! i) - r_plead remote
                   - r_phead remote - r_shead remote + bit_len sdiv 2;
                 bits = data_length sdiv bit_len
             in if bit_len = 0 then None
                else Some (remote\<lparr>r_bits := (if is_rc6 remote then bits - 1 else bits)\<rparr>))
      else Some (remote\<lparr>r_bits := (r_bits remote - (if has_header remote then 2 else 0) + 1
                   - (if r_ptrail remote > 0 then 2 else 0)) sdiv 2\<rparr>))"

definition second_class :: "int \<Rightarrow> length_class list \<Rightarrow> length_class option" where
  "second_class max_count rest =
     (case get_max_length rest of
        None \<Rightarrow> None
      | Some (i, _) \<Rightarrow>
          if l_count (rest ! i) < u32 (max_count * TH_IS_BIT) div 100 then None else Some (rest ! i))"

definition get_data_length ::
  "driver \<Rightarrow> analysis \<Rightarrow> ir_remote \<Rightarrow> (bool \<times> analysis \<times> ir_remote) option" where
  "get_data_length drv an remote =
     (if an_pulse an = [] then None
      else
        (case get_max_chain (an_pulse an) (an_pulse_back an) of
           None \<Rightarrow> None
         | Some (i, n) \<Rightarrow>
             let max_plength = an_pulse an ! i
             in if \<not> frequent (l_count max_plength) n TH_IS_BIT then Some (False, an, remote)
                else
                  (let restp = unlink_length i (an_pulse an);
                       max2_plength = second_class (l_count max_plength) restp;
                       an = an\<lparr>an_pulse := restp, an_pulse_back := None\<rparr>
                   in case get_max_length (an_space an) of
                        None \<Rightarrow> None
                      | Some (j, n) \<Rightarrow>
                          let max_slength = an_space an ! j
                          in if \<not> frequent (l_count max_slength) n TH_IS_BIT then Some (False, an, remote)
                             else
                               (let rests = unlink_length j (an_space an);
                                    max2_slength = second_class (l_count max_slength) rests;
                                    an = an\<lparr>an_space := rests\<rparr>;
                                    remote = remote\<lparr>r_eps := s32 (an_eps an), r_aeps := an_aeps an\<rparr>
                                in case bit_durations drv max_plength max2_plength max_slength
                                          max2_slength remote of
                                     None \<Rightarrow> Some (False, an, remote)
                                   | Some remote \<Rightarrow>
                                       (case count_bits an (drop_header drv remote) of
                                          None \<Rightarrow> None
                                        | Some remote \<Rightarrow> Some (True, an, remote))))))"

section \<open>The statistics of one signal\<close>

text \<open>\<open>merge_lengths(first); add_length(&first, x)\<close> on one of the lists.\<close>

definition sampled :: "analysis \<Rightarrow> lirc_t \<Rightarrow> length_class list \<Rightarrow> length_class list" where
  "sampled an x ls = sample_length (an_eps an) (an_aeps an) x ls"

definition compute_lengths_4_signals :: "analysis \<Rightarrow> analysis" where
  "compute_lengths_4_signals an =
     (let sg = an_signals an
      in an\<lparr>an_repeatp := sampled an (sg ! 0) (an_repeatp an),
            an_repeats := sampled an (sg ! 1) (an_repeats an),
            an_trail := sampled an (sg ! 2) (an_trail an),
            an_repeat_gap := sampled an (sg ! 3) (an_repeat_gap an)\<rparr>)"

definition compute_lengths_6_signals :: "analysis \<Rightarrow> analysis" where
  "compute_lengths_6_signals an =
     (let sg = an_signals an
      in an\<lparr>an_headerp := sampled an (sg ! 0) (an_headerp an),
            an_headers := sampled an (sg ! 1) (an_headers an),
            an_repeatp := sampled an (sg ! 2) (an_repeatp an),
            an_repeats := sampled an (sg ! 3) (an_repeats an),
            an_trail := sampled an (sg ! 4) (an_trail an),
            an_repeat_gap := sampled an (sg ! 5) (an_repeat_gap an)\<rparr>)"

text \<open>The pulses and spaces between the first two and the last two durations.\<close>

definition sample_inner :: "analysis \<Rightarrow> nat \<Rightarrow> analysis" where
  "sample_inner an n =
     fold (\<lambda>i an.
         if i mod 2 \<noteq> 0 then an\<lparr>an_space := sampled an (an_signals an ! i) (an_space an)\<rparr>
         else an\<lparr>an_pulse := sampled an (an_signals an ! i) (an_pulse an)\<rparr>)
       [2..<n - 2] an"

definition bump :: "int \<Rightarrow> nat \<Rightarrow> analysis \<Rightarrow> analysis" where
  "bump d i an = an\<lparr>an_lengths := (an_lengths an)[i := u32 (an_lengths an ! i + d)]\<rparr>"

definition compute_lengths_many_signals :: "lengths_state \<Rightarrow> analysis \<Rightarrow> lengths_state \<times> analysis" where
  "compute_lengths_many_signals state an =
     (let n = nat (ls_count state); sg = an_signals an;
          an = an\<lparr>an_1lead := sampled an (sg ! 0) (an_1lead an)\<rparr>;
          an = sample_inner an n;
          an = an\<lparr>an_trail := sampled an (sg ! (n - 2)) (an_trail an)\<rparr>;
          an = bump 1 (n - 2) an;
          an = an\<lparr>an_signal_length := sampled an (ls_sum state - ls_data state) (an_signal_length an)\<rparr>;
          an = (if ls_first_signal state = 1
                   \<or> an_first_length an > 2 \<and> an_first_length an - 2 \<noteq> ls_count state - 2
                then an\<lparr>an_3lead := sampled an (sg ! 2) (an_3lead an),
                        an_headerp := sampled an (sg ! 0) (an_headerp an),
                        an_headers := sampled an (sg ! 1) (an_headers an)\<rparr>
                else an)
      in if ls_first_signal state = 1 then
           (state\<lparr>ls_header := sg ! 0 + sg ! 1\<rparr>,
            an\<lparr>an_first_lengths := u32 (an_first_lengths an + 1), an_first_length := ls_count state - 2\<rparr>)
         else if ls_first_signal state = 0 \<and> u32 (an_first_length an - 2) = ls_count state - 2 then
           (state, (bump 1 n (bump (- 1) (n - 2) an))
              \<lparr>an_second_lengths := u32 (an_second_lengths an + 1)\<rparr>)
         else (state, an))"


section \<open>One duration\<close>

text \<open>The loop of \<open>scan_gap1\<close> and \<open>scan_gap2\<close>: the first class with more than \<open>SAMPLES\<close> members.\<close>

fun scan_gap :: "length_class list \<Rightarrow> int \<Rightarrow> int \<times> length_class option" where
  "scan_gap [] maxcount = (maxcount, None)"
| "scan_gap (scan # ls) maxcount =
     (let maxcount = max maxcount (l_count scan)
      in if l_count scan > SAMPLES then (maxcount, Some scan) else scan_gap ls maxcount)"

definition scan_gap1 :: "analysis \<Rightarrow> ir_remote \<Rightarrow> int \<Rightarrow> int \<times> ir_remote option" where
  "scan_gap1 an remote maxcount =
     (case scan_gap (an_sum an) maxcount of
        (maxcount, None) \<Rightarrow> (maxcount, None)
      | (maxcount, Some scan) \<Rightarrow>
          (maxcount, Some (remote\<lparr>r_gap := u32 (calc_signal scan),
                                  r_flags := r_flags remote OR CONST_LENGTH\<rparr>)))"

definition scan_gap2 :: "analysis \<Rightarrow> ir_remote \<Rightarrow> int \<Rightarrow> int \<times> ir_remote option" where
  "scan_gap2 an remote maxcount =
     (case scan_gap (an_gap an) maxcount of
        (maxcount, None) \<Rightarrow> (maxcount, None)
      | (maxcount, Some scan) \<Rightarrow> (maxcount, Some (remote\<lparr>r_gap := u32 (calc_signal scan)\<rparr>)))"

text \<open>What \<open>get_lengths\<close> works on.\<close>

record record_state =
  rs_state :: lengths_state
  rs_an :: analysis
  rs_remote :: ir_remote

text \<open>A space that must be a gap.\<close>

definition must_be_gap :: "lengths_state \<Rightarrow> analysis \<Rightarrow> bool" where
  "must_be_gap state an \<longleftrightarrow>
     ls_data state > MIN_GAP
     \<or> ls_data state > 100 * ls_average state
     \<or> ls_data state \<ge> 5000 \<and> an_count_spaces an > 10 \<and> ls_data state > 5 * ls_average state
     \<or> ls_data state < 5000 \<and> an_count_spaces an > 10
       \<and> ls_data state > 5 * ls_maxspace state sdiv 2"

text \<open>The state is given with the count, the data and (in this mode) the sum already updated.\<close>

definition gap_seen :: "bool \<Rightarrow> record_state \<Rightarrow> lengths_status \<times> record_state" where
  "gap_seen force rs =
     (let state = rs_state rs; an = rs_an rs; remote = rs_remote rs;
          an = an\<lparr>an_sum := sampled an (ls_sum state) (an_sum an),
                  an_gap := sampled an (ls_data state) (an_gap an), an_count_spaces := 0\<rparr>;
          state = state\<lparr>ls_sum := 0, ls_average := 0, ls_maxspace := 0\<rparr>;
          (maxcount, scan) = scan_gap1 an remote 0;
          (maxcount, scan) = (if scan = None then scan_gap2 an remote maxcount else (maxcount, scan))
      in case scan of
           Some remote \<Rightarrow>
             let state = state\<lparr>ls_mode := MODE_HAVE_GAP, ls_sum := 0, ls_count := 0,
                   ls_remaining_gap :=
                     s32 (if is_const remote
                          then (if r_gap remote > ls_data state then r_gap remote - ls_data state else 0)
                          else if has_repeat_gap remote then r_repeat_gap remote else r_gap remote)\<rparr>
             in if force
                then (STS_LEN_RAW_OK, \<lparr>rs_state = state\<lparr>ls_retval := False\<rparr>, rs_an = an, rs_remote = remote\<rparr>)
                else (STS_LEN_AGAIN_INFO, \<lparr>rs_state = state, rs_an = an, rs_remote = remote\<rparr>)
         | None \<Rightarrow>
             (STS_LEN_AGAIN, \<lparr>rs_state = state\<lparr>ls_keypresses := maxcount\<rparr>,
                rs_an = an\<lparr>an_lastmaxcount := maxcount\<rparr>, rs_remote = remote\<rparr>))"

definition count_space :: "record_state \<Rightarrow> record_state" where
  "count_space rs =
     (let state = rs_state rs; n = an_count_spaces (rs_an rs)
      in rs\<lparr>rs_state := state\<lparr>
               ls_average := s32 (u32 (ls_average state * n + ls_data state) div (n + 1)),
               ls_maxspace := max (ls_maxspace state) (ls_data state)\<rparr>,
            rs_an := (rs_an rs)\<lparr>an_count_spaces := n + 1\<rparr>\<rparr>)"

definition gap_search_end :: "record_state \<Rightarrow> lengths_status \<times> record_state" where
  "gap_search_end rs =
     (let state = rs_state rs
      in if ls_count state > SAMPLES * MAX_SIGNALS * 2
         then (STS_LEN_NO_GAP_FOUND, rs\<lparr>rs_state := state\<lparr>ls_retval := False\<rparr>\<rparr>)
         else (STS_LEN_AGAIN, rs\<lparr>rs_state := state\<lparr>ls_keypresses := an_lastmaxcount (rs_an rs)\<rparr>\<rparr>))"

definition search_gap :: "bool \<Rightarrow> record_state \<Rightarrow> lengths_status \<times> record_state" where
  "search_gap force rs =
     (let state = rs_state rs; data = ls_data state;
          state = state\<lparr>ls_sum := ls_sum state + (data AND PULSE_MASK)\<rparr>;
          rs = rs\<lparr>rs_state := state\<rparr>
      in if ls_average state = 0 \<and> is_space data then
           (if data > 100000
            then (STS_LEN_AGAIN, rs\<lparr>rs_state := state\<lparr>ls_sum := 0\<rparr>\<rparr>)
            else gap_search_end (rs\<lparr>rs_state := state\<lparr>ls_average := data, ls_maxspace := data\<rparr>\<rparr>))
         else if is_space data then
           (if must_be_gap state (rs_an rs) then gap_seen force rs
            else gap_search_end (count_space rs))
         else gap_search_end rs)"

text \<open>The end of a signal: its statistics, by the number of its durations.\<close>

definition signal_complete :: "record_state \<Rightarrow> record_state" where
  "signal_complete rs =
     (let state = rs_state rs; an = rs_an rs;
          state = state\<lparr>ls_keypresses := ls_keypresses state + 1\<rparr>;
          (state, an) =
            (if ls_count state = 4 then
               (state, compute_lengths_4_signals (an\<lparr>an_count_3repeats := an_count_3repeats an + 1\<rparr>))
             else if ls_count state = 6 then
               (state, compute_lengths_6_signals (an\<lparr>an_count_5repeats := an_count_5repeats an + 1\<rparr>))
             else if ls_count state > 6 then
               compute_lengths_many_signals state (an\<lparr>an_count_signals := an_count_signals an + 1\<rparr>)
             else (state, an))
      in rs\<lparr>rs_state := state\<lparr>ls_count := 0, ls_sum := 0\<rparr>, rs_an := an\<rparr>)"

definition derive_parameters :: "driver \<Rightarrow> record_state \<Rightarrow> (bool \<times> record_state) option" where
  "derive_parameters drv rs =
     (case get_scheme (rs_an rs) (rs_remote rs) of
        None \<Rightarrow> None
      | Some (an, remote) \<Rightarrow>
     (case get_header_length an remote of
        None \<Rightarrow> None
      | Some remote \<Rightarrow>
     (case get_trail_length an remote of
        None \<Rightarrow> None
      | Some remote \<Rightarrow>
     (case get_lead_length an remote of
        None \<Rightarrow> None
      | Some (an, remote) \<Rightarrow>
     (case get_repeat_length an remote of
        None \<Rightarrow> None
      | Some (False, remote) \<Rightarrow> Some (False, rs\<lparr>rs_an := an, rs_remote := remote\<rparr>)
      | Some (True, remote) \<Rightarrow>
     (case get_data_length drv an remote of
        None \<Rightarrow> None
      | Some (ok, an, remote) \<Rightarrow> Some (ok, rs\<lparr>rs_an := an, rs_remote := remote\<rparr>)))))))"

definition collect_signal :: "driver \<Rightarrow> record_state \<Rightarrow> (lengths_status \<times> record_state) option" where
  "collect_signal drv rs =
     (let state = rs_state rs; an = rs_an rs; remote = rs_remote rs;
          d = ls_data state AND PULSE_MASK
      in if ls_count state > MAX_SIGNALS
         then Some (STS_LEN_TOO_LONG, rs\<lparr>rs_state := state\<lparr>ls_retval := False\<rparr>\<rparr>)
         else
           (let an = an\<lparr>an_signals := (an_signals an)[nat (ls_count state - 1) := d]\<rparr>;
                gap = s32 (if is_const remote
                           then (if r_gap remote > ls_sum state then r_gap remote - ls_sum state else 0)
                           else r_gap remote);
                state = state\<lparr>ls_remaining_gap := gap, ls_sum := ls_sum state + d\<rparr>;
                rs = rs\<lparr>rs_state := state, rs_an := an\<rparr>
            in if ls_count state > 2
                  \<and> (d \<ge> u32 (gap * (100 - an_eps an)) div 100 \<or> d \<ge> gap - an_aeps an)
               then
                 (if \<not> is_space (ls_data state)
                  then Some (STS_LEN_NO_GAP_FOUND, rs\<lparr>rs_remote := remote\<lparr>r_gap := 0\<rparr>\<rparr>)
                  else
                    (let rs = signal_complete rs; state = rs_state rs; an = rs_an rs
                     in if an_count_signals an \<ge> SAMPLES then
                          (case derive_parameters drv rs of
                             None \<Rightarrow> None
                           | Some (ok, rs) \<Rightarrow>
                               let state = rs_state rs; ok = (ok \<and> ls_retval state)
                               in Some (if ok then STS_LEN_OK else STS_LEN_FAIL,
                                        rs\<lparr>rs_state := state\<lparr>ls_retval := ok\<rparr>\<rparr>))
                        else
                          (let bound = gap + ls_header state
                           in if d \<le> u32 (bound * (100 + an_eps an)) div 100 \<or> d \<le> bound + an_aeps an
                              then Some (STS_LEN_AGAIN,
                                rs\<lparr>rs_state := state\<lparr>ls_first_signal := 0, ls_header := 0\<rparr>\<rparr>)
                              else Some (STS_LEN_AGAIN, rs\<lparr>rs_state := state\<lparr>ls_first_signal := 1\<rparr>\<rparr>))))
               else Some (STS_LEN_AGAIN, rs)))"

text \<open>\<open>get_lengths\<close>, given what \<open>readdata\<close> returns.\<close>

definition get_lengths ::
  "driver \<Rightarrow> bool \<Rightarrow> lirc_t \<Rightarrow> record_state \<Rightarrow> (lengths_status \<times> record_state) option" where
  "get_lengths drv force data rs =
     (let state = (rs_state rs)\<lparr>ls_data := data\<rparr>
      in if data = 0
         then Some (STS_LEN_TIMEOUT, rs\<lparr>rs_state := state\<lparr>ls_retval := False\<rparr>\<rparr>)
         else
           (let rs = rs\<lparr>rs_state := state\<lparr>ls_count := ls_count state + 1\<rparr>\<rparr>
            in case ls_mode state of
                 MODE_GET_GAP \<Rightarrow> Some (search_gap force rs)
               | MODE_HAVE_GAP \<Rightarrow> collect_signal drv rs))"

end
