(* ===== verification/Input_Map.thy ===== *)
theory Input_Map
  imports Prelude
begin

text \<open>
  The names of buttons (\<open>lib/input_map.c\<close>): the name of a key and the code the Linux input system
  has for it. The table, which the build generates, is an argument.
\<close>

fun input_code_from :: "nat \<Rightarrow> (string \<times> int) list \<Rightarrow> string \<Rightarrow> (nat \<times> int) option" where
  "input_code_from i [] nm = None"
| "input_code_from i ((entry, code) # input_map) nm =
     (if strcasecmp_eq nm entry then Some (i, code) else input_code_from (Suc i) input_map nm)"

definition get_input_code :: "(string \<times> int) list \<Rightarrow> string \<Rightarrow> (nat \<times> int) option" where
  "get_input_code input_map nm = input_code_from 0 input_map nm"

definition is_in_namespace :: "(string \<times> int) list \<Rightarrow> string \<Rightarrow> bool" where
  "is_in_namespace input_map nm \<longleftrightarrow> get_input_code input_map nm \<noteq> None"

end
