(* ===== verification/Record_Buttons.thy ===== *)
theory Record_Buttons
  imports Record_Analysis Record_Data Input_Map
begin

text \<open>
  The recording half of \<open>lib/irrecord.c\<close>: the emulated receiver of a raw remote and the
  analysis that feeds on it, the gap of a receiver without timing data, the toggle bits, and the
  recording of the buttons.

  What comes from outside is an argument: the data a driver delivers, the time of day, whether
  data arrived before the timeout, the decoder of the driver. Sleeping, flushing and the reset of
  the hardware have no effect on the modelled state.
\<close>

section \<open>The emulated receiver\<close>

text \<open>
  The static variables of \<open>emulation_readdata\<close>; pointers into the codes of the raw remote are
  indices, the end of the codes is their number.
\<close>

record emulation =
  em_data :: ir_remote
  em_next :: "nat option"
  em_current :: "nat option"
  em_index :: int
  em_rep :: int
  em_sum :: lirc_t

definition emulation_start :: "emulation \<Rightarrow> emulation" where
  "emulation_start em =
     em\<lparr>em_current := Some (case em_next em of Some i \<Rightarrow> i | None \<Rightarrow> 0), em_rep := 0, em_sum := 0\<rparr>"

text \<open>The end of the signals of a code: the code to play next, and whether a long gap follows.\<close>

definition emulation_advance :: "emulation \<Rightarrow> nat \<Rightarrow> emulation \<times> lirc_t" where
  "emulation_advance em i =
     (case em_next em of
        Some j \<Rightarrow> (em\<lparr>em_current := Some j, em_index := 0\<rparr>, 0)
      | None \<Rightarrow>
          if em_rep em + 1 > 2
          then (em\<lparr>em_current := Some (Suc i), em_rep := 0, em_index := 0\<rparr>, 1000000)
          else (em\<lparr>em_rep := em_rep em + 1, em_index := 0\<rparr>, 0))"

text \<open>
  One call of \<open>emulation_readdata\<close>. Playing the end of the codes (a remote without codes) reads
  the zero entry behind them: its length is 0 and its signals are never looked at.
\<close>

definition emulation_readdata :: "emulation \<Rightarrow> lirc_t \<times> emulation" where
  "emulation_readdata em =
     (let cs = codes_of (em_data em)
      in case em_current em of
           None \<Rightarrow> (1000000, emulation_start em)
         | Some i \<Rightarrow>
             let code = (if i < length cs then cs ! i else zero_ncode)
             in if em_index em \<ge> nc_length code then
                  (case emulation_advance em i of
                     (em, d) \<Rightarrow>
                       if em_current em = Some (length cs)
                       then (1000000, emulation_start em)
                       else
                         (if d \<noteq> 0 then d
                          else if is_const (em_data em) then s32 (r_gap (em_data em) - em_sum em)
                          else s32 (r_gap (em_data em)), em\<lparr>em_sum := 0\<rparr>))
                else
                  (let s = (case nc_signals code of None \<Rightarrow> 0 | Some xs \<Rightarrow> xs ! nat (em_index em));
                       d = (if em_index em mod 2 = 0 then s OR PULSE_BIT else s)
                   in (d, em\<lparr>em_index := em_index em + 1, em_sum := em_sum em + (d AND PULSE_MASK)\<rparr>)))"

text \<open>\<open>analyse_get_lengths\<close>: \<open>get_lengths\<close> until the analysis is done or has failed.\<close>

partial_function (option) analyse_get_lengths ::
  "driver \<Rightarrow> emulation \<Rightarrow> record_state \<Rightarrow> (bool \<times> record_state) option" where
  "analyse_get_lengths drv em rs =
     (case emulation_readdata em of
        (data, em) \<Rightarrow>
          (case get_lengths drv False data rs of
             None \<Rightarrow> None
           | Some (status, rs) \<Rightarrow>
               if status = STS_LEN_AGAIN \<or> status = STS_LEN_AGAIN_INFO
               then analyse_get_lengths drv em rs
               else Some (status = STS_LEN_OK, rs)))"

declare analyse_get_lengths.simps [code]

text \<open>
  The part of \<open>analyse_remote\<close> behind the statistics: the mask of RC-6, and the codes of the
  buttons. \<open>decoded\<close> holds the results of the two calls of \<open>receive_decode\<close> for each button;
  the two codes pass through variables of type \<open>int\<close>.
\<close>

definition int_code :: "ir_code \<Rightarrow> ir_code" where
  "int_code c = word_of_int (s32 (uint c))"

definition analysed_code :: "string \<Rightarrow> ir_code \<Rightarrow> bool \<times> ir_code \<Rightarrow> ir_ncode" where
  "analysed_code nm code second =
     zero_ncode\<lparr>nc_name := nm, nc_code := int_code code,
       nc_next := (if fst second \<and> int_code (snd second) \<noteq> int_code code
                   then [int_code (snd second)] else [])\<rparr>"

fun analysed_codes :: "ir_ncode list \<Rightarrow> ((bool \<times> ir_code) \<times> (bool \<times> ir_code)) list \<Rightarrow> ir_ncode list" where
  "analysed_codes (c # cs) (((ok, code), second) # ds) =
     (if ok then analysed_code (nc_name c) code second # analysed_codes cs ds else analysed_codes cs ds)"
| "analysed_codes _ _ = []"

definition analysed_remote ::
  "ir_remote \<Rightarrow> ir_remote \<Rightarrow> ((bool \<times> ir_code) \<times> (bool \<times> ir_code)) list \<Rightarrow> ir_remote" where
  "analysed_remote raw_data remote decoded =
     (let remote = (if is_rc6 remote \<and> r_bits remote \<ge> 5
                    then remote\<lparr>r_rc6_mask := push_bit (nat (r_bits remote - 5)) 1\<rparr> else remote)
      in remote\<lparr>r_name := r_name raw_data, r_freq := r_freq raw_data,
                r_codes := Some (analysed_codes (codes_of raw_data) decoded)\<rparr>)"

section \<open>The gap of a receiver without timing data\<close>

datatype get_gap_status = STS_GAP_INIT | STS_GAP_TIMEOUT | STS_GAP_FOUND | STS_GAP_GOT_ONE_PRESS
  | STS_GAP_AGAIN

record gap_state =
  gs_gaps :: "length_class list"
  gs_last :: timeval
  gs_flag :: bool
  gs_maxcount :: int
  gs_lastmaxcount :: int
  gs_gap :: lirc_t

definition gap_state_init :: gap_state where
  "gap_state_init = \<lparr>gs_gaps = [], gs_last = timerclear, gs_flag = False, gs_maxcount = 0,
     gs_lastmaxcount = 0, gs_gap = 0\<rparr>"

text \<open>\<open>ready\<close>: data arrived in time; \<open>start\<close>, \<open>stop\<close>: the time before and after it was read.\<close>

definition get_gap_length ::
  "int \<Rightarrow> lirc_t \<Rightarrow> bool \<Rightarrow> timeval \<Rightarrow> timeval \<Rightarrow> gap_state \<Rightarrow> ir_remote
     \<Rightarrow> get_gap_status \<times> gap_state \<times> ir_remote" where
  "get_gap_length eps aeps ready start stop state remote =
     (if \<not> ready then (STS_GAP_TIMEOUT, state\<lparr>gs_gaps := []\<rparr>, remote)
      else if gs_flag state then
        (let gap = s32 (time_elapsed (gs_last state) start);
             gaps = sample_length eps aeps gap (gs_gaps state);
             (maxcount, scan) = scan_gap gaps 0;
             state = state\<lparr>gs_gap := gap, gs_gaps := gaps, gs_maxcount := maxcount\<rparr>
         in case scan of
              Some l \<Rightarrow> (STS_GAP_FOUND, state\<lparr>gs_gaps := []\<rparr>, remote\<lparr>r_gap := u32 (calc_signal l)\<rparr>)
            | None \<Rightarrow>
                if maxcount > gs_lastmaxcount state
                then (STS_GAP_GOT_ONE_PRESS, state\<lparr>gs_lastmaxcount := maxcount\<rparr>, remote)
                else (STS_GAP_AGAIN, state\<lparr>gs_last := stop\<rparr>, remote))
      else (STS_GAP_AGAIN, state\<lparr>gs_flag := True, gs_last := stop\<rparr>, remote))"

section \<open>The toggle bits\<close>

datatype toggle_status = STS_TGL_TIMEOUT | STS_TGL_GOT_ONE_PRESS | STS_TGL_NOT_FOUND
  | STS_TGL_FOUND | STS_TGL_AGAIN

record toggle_state =
  ts_retries :: int
  ts_flag :: bool
  ts_success :: bool
  ts_first :: ir_code
  ts_last :: ir_code
  ts_seq :: int
  ts_repeats :: int
  ts_found :: bool
  ts_inited :: bool

definition toggle_state_init :: toggle_state where
  "toggle_state_init = \<lparr>ts_retries = 30, ts_flag = False, ts_success = False, ts_first = 0,
     ts_last = 0, ts_seq = 0, ts_repeats = 0, ts_found = False, ts_inited = False\<rparr>"

definition fresh_ctx :: decode_ctx_t where
  "fresh_ctx = \<lparr>ctx_code = 0, ctx_pre = 0, ctx_post = 0, ctx_repeat_flag = False,
     ctx_max_remaining_gap = 0, ctx_min_remaining_gap = 0\<rparr>"

text \<open>The search for the RC-6 mask: the first single bit with which the signal can be decoded.\<close>

fun try_rc6_masks ::
  "(ir_remote \<Rightarrow> decode_ctx_t \<Rightarrow> bool \<times> decode_ctx_t) \<Rightarrow> nat \<Rightarrow> ir_code \<Rightarrow> ir_remote \<Rightarrow> decode_ctx_t
     \<Rightarrow> bool \<Rightarrow> bool \<times> decode_ctx_t \<times> ir_remote" where
  "try_rc6_masks decode 0 msk remote ctx success = (success, ctx, remote)"
| "try_rc6_masks decode (Suc n) msk remote ctx success =
     (let remote = remote\<lparr>r_rc6_mask := msk\<rparr>
      in case decode remote ctx of
           (True, ctx) \<Rightarrow> (True, ctx, remote)
         | (False, ctx) \<Rightarrow> try_rc6_masks decode n (push_bit 1 msk) remote ctx False)"

definition decode_toggle ::
  "(ir_remote \<Rightarrow> decode_ctx_t \<Rightarrow> bool \<times> decode_ctx_t) \<Rightarrow> bool \<Rightarrow> ir_remote
     \<Rightarrow> bool \<times> decode_ctx_t \<times> ir_remote" where
  "decode_toggle decode success remote =
     (let (success, ctx, remote) =
        (if is_rc6 remote \<and> r_rc6_mask remote = 0 then
           (case try_rc6_masks decode (nat (r_bits remote)) 1 remote fresh_ctx success of
              (success, ctx, remote) \<Rightarrow>
                (success, ctx, if success then remote else remote\<lparr>r_rc6_mask := 0\<rparr>))
         else (case decode remote fresh_ctx of (success, ctx) \<Rightarrow> (success, ctx, remote)))
      in (success, ctx,
          if success then remote\<lparr>r_min_remaining_gap := ctx_min_remaining_gap ctx,
                                 r_max_remaining_gap := ctx_max_remaining_gap ctx\<rparr>
          else remote))"

text \<open>
  One press: the toggle mask is what differs between the first code and a later one. The option
  is that of \<open>set_toggle_bit_mask\<close>; a new press divides by a counter it has just increased.
\<close>

definition new_press ::
  "toggle_state \<Rightarrow> decode_ctx_t \<Rightarrow> ir_remote \<Rightarrow> (toggle_state \<times> ir_remote) option" where
  "new_press state ctx remote =
     (let state = state\<lparr>ts_seq := ts_seq state + 1\<rparr>;
          msk = ts_first state XOR ctx_code ctx
      in map_option (\<lambda>(state, remote).
           (state\<lparr>ts_retries := ts_retries state - 1, ts_last := ctx_code ctx\<rparr>, remote))
         (if \<not> ts_found state \<and> msk \<noteq> 0 then
            map_option (\<lambda>remote.
                (state\<lparr>ts_found := True\<rparr>,
                 if ts_seq state > 0
                 then remote\<lparr>r_min_repeat := ts_repeats state sdiv ts_seq state\<rparr> else remote))
              (set_toggle_bit_mask remote msk)
          else Some (state, remote)))"

definition get_toggle_bit_mask ::
  "(ir_remote \<Rightarrow> decode_ctx_t \<Rightarrow> bool \<times> decode_ctx_t) \<Rightarrow> bool \<Rightarrow> toggle_state \<Rightarrow> ir_remote
     \<Rightarrow> (toggle_status \<times> toggle_state \<times> ir_remote) option" where
  "get_toggle_bit_mask decode ready state remote =
     (let state = state\<lparr>ts_inited := True\<rparr>
      in if ts_retries state \<le> 0 then
           (if \<not> ts_found state then Some (STS_TGL_NOT_FOUND, state, remote)
            else Some (STS_TGL_FOUND, state,
              if ts_seq state > 0
              then remote\<lparr>r_min_repeat := ts_repeats state sdiv ts_seq state\<rparr> else remote))
         else if \<not> ready then Some (STS_TGL_TIMEOUT, state, remote)
         else
           (case decode_toggle decode (ts_success state) remote of
              (success, ctx, remote) \<Rightarrow>
                let state = state\<lparr>ts_success := success\<rparr>
                in if \<not> success
                   then Some (STS_TGL_AGAIN, state\<lparr>ts_retries := ts_retries state - 1\<rparr>, remote)
                   else if \<not> ts_flag state
                   then Some (STS_TGL_AGAIN, state\<lparr>ts_flag := True, ts_first := ctx_code ctx,
                     ts_repeats := ts_repeats state + 1, ts_last := ctx_code ctx\<rparr>, remote)
                   else if \<not> ctx_repeat_flag ctx \<or> ctx_code ctx \<noteq> ts_last state
                   then map_option (\<lambda>(state, remote). (STS_TGL_GOT_ONE_PRESS, state, remote))
                     (new_press state ctx remote)
                   else Some (STS_TGL_AGAIN, state\<lparr>ts_repeats := ts_repeats state + 1,
                     ts_last := ctx_code ctx\<rparr>, remote)))"

datatype button_status = STS_BTN_INIT | STS_BTN_GET_NAME | STS_BTN_INIT_DATA
  | STS_BTN_GET_RAW_DATA | STS_BTN_GET_DATA | STS_BTN_GET_TOGGLE_BITS | STS_BTN_RECORD_DONE
  | STS_BTN_BUTTON_DONE | STS_BTN_BUTTONS_DONE | STS_BTN_ALL_DONE | STS_BTN_SOFT_ERROR
  | STS_BTN_HARD_ERROR | STS_BTN_TIMEOUT

record opts =
  o_force :: bool
  o_disable_namespace :: bool
  o_update :: bool
  o_using_template :: bool

definition check_button_name :: "opts \<Rightarrow> (string \<times> int) list \<Rightarrow> string \<Rightarrow> button_status" where
  "check_button_name opts input_map buffer =
     (if CHR '' '' \<in> set buffer \<or> CHR 0x09 \<in> set buffer then STS_BTN_SOFT_ERROR
      else if strcasecmp_eq buffer ''begin'' \<or> strcasecmp_eq buffer ''end'' then STS_BTN_SOFT_ERROR
      else if buffer = [] then STS_BTN_RECORD_DONE
      else if \<not> o_disable_namespace opts \<and> \<not> is_in_namespace input_map buffer
      then STS_BTN_SOFT_ERROR
      else STS_BTN_INIT_DATA)"

section \<open>A raw signal\<close>

text \<open>The button being recorded; \<open>bs_signals\<close> is the static array \<open>signals\<close>.\<close>

record button_state =
  bs_ncode :: ir_ncode
  bs_buffer :: string
  bs_data :: lirc_t
  bs_sum :: lirc_t
  bs_count :: int
  bs_signals :: "lirc_t list"
  bs_no_data :: bool

definition raw_data_ok :: "ir_remote \<Rightarrow> button_state \<Rightarrow> bool" where
  "raw_data_ok remote state \<longleftrightarrow>
     is_space (bs_data state)
     \<and> (if is_const remote then
          bs_data state >
            (if r_gap remote > bs_sum state
             then (s32 (r_gap remote - bs_sum state) * (100 - r_eps remote)) sdiv 100 else 0)
        else u32 (bs_data state) > u32 (r_gap remote * (100 - r_eps remote)) div 100)"

text \<open>
  One round of the recording loop with the result of \<open>readdata\<close>. The first component is the
  status the function returns with, \<open>None\<close> when the loop goes on.
\<close>

definition raw_step :: "ir_remote \<Rightarrow> lirc_t \<Rightarrow> button_state \<Rightarrow> button_status option \<times> button_state" where
  "raw_step remote data state =
     (if data = 0 \<and> bs_count state = 0 then (Some STS_BTN_TIMEOUT, state\<lparr>bs_data := data\<rparr>)
      else
        (let state = state\<lparr>bs_data := if data = 0 then s32 (r_gap remote) else data\<rparr>;
             again = (\<lambda>state. state\<lparr>bs_count := bs_count state + 1\<rparr>)
         in if bs_count state = 0 then
              (if \<not> is_space (bs_data state)
                  \<or> u32 (bs_data state) < u32 (r_gap remote - u32 (r_gap remote * r_eps remote) div 100)
               then (Some STS_BTN_SOFT_ERROR, state)
               else (None, again state))
            else if raw_data_ok remote state then
              (if bs_count state mod 2 \<noteq> 0 then (Some STS_BTN_SOFT_ERROR, state\<lparr>bs_count := 0\<rparr>)
               else (Some STS_BTN_BUTTON_DONE,
                     state\<lparr>bs_ncode := (bs_ncode state)\<lparr>nc_name := bs_buffer state,
                       nc_length := bs_count state - 1, nc_signals := Some (bs_signals state)\<rparr>\<rparr>))
            else
              (let d = bs_data state AND PULSE_MASK
               in (None, again (state\<lparr>bs_signals := (bs_signals state)[nat (bs_count state - 1) := d],
                                      bs_sum := bs_sum state + d\<rparr>)))))"

text \<open>
  The loop, over the data the driver delivers; \<open>None\<close> when they do not suffice, so that the
  function still waits.
\<close>

fun raw_loop :: "ir_remote \<Rightarrow> lirc_t list \<Rightarrow> button_state \<Rightarrow> (button_status \<times> button_state) option" where
  "raw_loop remote [] state =
     (if bs_count state < MAX_SIGNALS then None else Some (STS_BTN_SOFT_ERROR, state))"
| "raw_loop remote (data # ds) state =
     (if bs_count state < MAX_SIGNALS then
        (case raw_step remote data state of
           (Some status, state) \<Rightarrow> Some (status, state)
         | (None, state) \<Rightarrow> raw_loop remote ds state)
      else Some (STS_BTN_SOFT_ERROR, state))"

definition record_raw :: "ir_remote \<Rightarrow> lirc_t list \<Rightarrow> button_state \<Rightarrow> (button_status \<times> button_state) option" where
  "record_raw remote ds state = raw_loop remote ds (state\<lparr>bs_count := 0, bs_sum := 0\<rparr>)"

section \<open>A decoded signal\<close>

text \<open>
  \<open>first\<close> is what the decoder made of the first signal, \<open>second\<close> its two results for the next
  one. The further code is stored when the second signal can \<open>not\<close> be decoded; it is the code of
  the last attempt then. The list \<open>next\<close> of the button is never emptied.
\<close>

definition record_decoded ::
  "bool \<Rightarrow> decode_ctx_t option \<Rightarrow> bool \<times> decode_ctx_t \<Rightarrow> bool \<Rightarrow> button_state
     \<Rightarrow> button_status \<times> button_state" where
  "record_decoded ready first second reset_ok state =
     (if \<not> ready then (STS_BTN_TIMEOUT, state\<lparr>bs_no_data := True\<rparr>)
      else
        (case first of
           None \<Rightarrow> (if reset_ok then STS_BTN_SOFT_ERROR else STS_BTN_HARD_ERROR, state)
         | Some ctx \<Rightarrow>
             let ncode = (bs_ncode state)\<lparr>nc_name := bs_buffer state, nc_code := ctx_code ctx\<rparr>;
                 ncode = (case second of (ok, ctx2) \<Rightarrow>
                            if \<not> ok \<and> ctx_code ctx \<noteq> ctx_code ctx2
                            then ncode\<lparr>nc_next := [ctx_code ctx2]\<rparr> else ncode)
             in (STS_BTN_BUTTON_DONE, state\<lparr>bs_ncode := ncode\<rparr>)))"

section \<open>The end of the recording\<close>

text \<open>
  The configuration file is read back; the result of \<open>read_config\<close> is an argument, \<open>Inl False\<close>
  for no remote and \<open>Inl True\<close> for the error value. The remote is left as it is to be written;
  \<open>None\<close> is the undefined behaviour of the functions on its data.
\<close>

definition buttons_done ::
  "opts \<Rightarrow> string \<Rightarrow> bool + ir_remote \<Rightarrow> ir_remote \<Rightarrow> (button_status \<times> ir_remote) option" where
  "buttons_done opts driver_name config remote =
     (case config of
        Inl _ \<Rightarrow> Some (STS_BTN_HARD_ERROR, remote)
      | Inr my_remote \<Rightarrow>
          if o_force opts then Some (STS_BTN_ALL_DONE, my_remote)
          else
            (let toggles = has_toggle_bit_mask my_remote;
                 sts = (if \<not> toggles \<and> \<not> o_using_template opts \<and> driver_name \<noteq> ''devinput''
                        then STS_BTN_GET_TOGGLE_BITS else STS_BTN_ALL_DONE)
             in case (if toggles then set_toggle_bit_mask my_remote (r_toggle_bit_mask my_remote)
                      else Some my_remote) of
                  None \<Rightarrow> None
                | Some my_remote \<Rightarrow>
                    if o_update opts then Some (sts, my_remote)
                    else map_option (Pair sts) (Option.bind (get_pre_data my_remote) get_post_data)))"

text \<open>What one call of \<open>record_buttons\<close> is told by the driver and the file system.\<close>

record outside =
  out_input_map :: "(string \<times> int) list"
  out_ready :: bool
  out_first :: "decode_ctx_t option"
  out_second :: "bool \<times> decode_ctx_t"
  out_raw :: "lirc_t list"
  out_reset_ok :: bool
  out_driver_name :: string
  out_config :: "bool + ir_remote"

text \<open>
  \<open>record_buttons\<close>; \<open>None\<close> when the data do not suffice, or for undefined behaviour at the end of
  the recording.
\<close>

definition record_buttons ::
  "opts \<Rightarrow> outside \<Rightarrow> ir_remote \<Rightarrow> button_state \<Rightarrow> button_status
     \<Rightarrow> (button_status \<times> button_state \<times> ir_remote) option" where
  "record_buttons opts out remote state last_status =
     (if bs_no_data state then Some (STS_BTN_TIMEOUT, state\<lparr>bs_no_data := False\<rparr>, remote)
      else
        (let stay = (\<lambda>sts. Some (sts, state, remote))
         in case last_status of
              STS_BTN_INIT \<Rightarrow> stay STS_BTN_GET_NAME
            | STS_BTN_GET_NAME \<Rightarrow> stay (check_button_name opts (out_input_map out) (bs_buffer state))
            | STS_BTN_INIT_DATA \<Rightarrow>
                stay (if o_force opts then STS_BTN_GET_RAW_DATA else STS_BTN_GET_DATA)
            | STS_BTN_GET_DATA \<Rightarrow>
                (case record_decoded (out_ready out) (out_first out) (out_second out) (out_reset_ok out) state of
                   (sts, state) \<Rightarrow> Some (sts, state, remote))
            | STS_BTN_GET_RAW_DATA \<Rightarrow>
                map_option (\<lambda>(sts, state). (sts, state, remote)) (record_raw remote (out_raw out) state)
            | STS_BTN_RECORD_DONE \<Rightarrow>
                stay (if is_raw remote then STS_BTN_ALL_DONE
                      else if \<not> out_reset_ok out then STS_BTN_HARD_ERROR else STS_BTN_BUTTONS_DONE)
            | STS_BTN_BUTTONS_DONE \<Rightarrow>
                map_option (\<lambda>(sts, remote). (sts, state, remote))
                  (buttons_done opts (out_driver_name out) (out_config out) remote)
            | STS_BTN_BUTTON_DONE \<Rightarrow> stay STS_BTN_BUTTON_DONE
            | _ \<Rightarrow> stay STS_BTN_HARD_ERROR))"

end
