(* ===== verification/Record_Spec.thy ===== *)
theory Record_Spec
  imports Record_Buttons
begin

text \<open>
  The properties of the analysis of \<open>lib/irrecord.c\<close>: what the classes of durations say about
  the samples, which classes are merged, when the analysis hangs, which encoding it finds, and
  what a recorded raw signal consists of.
\<close>

section \<open>The classes summarise the samples\<close>

lemma class_sum_nonneg: "class_ok xs l \<Longrightarrow> \<forall>x\<in>xs. 0 \<le> x \<Longrightarrow> 0 \<le> l_sum l"
  by (auto simp: class_ok_def) (meson mult_nonneg_nonneg order.trans order_less_imp_le)

lemma classes_sum_nonneg: "\<forall>l\<in>set ls. class_ok xs l \<Longrightarrow> \<forall>x\<in>xs. 0 \<le> x \<Longrightarrow> 0 \<le> total_sum ls"
  by (induction ls) (auto intro: add_nonneg_nonneg class_sum_nonneg)

lemma join_lengths_sums:
  assumes "0 \<le> l_sum l" "0 \<le> l_sum k" "l_sum l + l_sum k < 2147483648"
  shows "l_sum (join_lengths l k) = l_sum l + l_sum k" "in_s32 (l_sum l + l_sum k)"
  using assms by (simp_all add: join_lengths_def in_s32_def)

lemma absorb_summary:
  assumes "class_ok xs l" "\<forall>k\<in>set ls. class_ok xs k" "\<forall>x\<in>xs. 0 \<le> x"
    and "l_sum l + total_sum ls < 2147483648" "absorb_lengths eps aeps l ls = (l', ls')"
  shows "class_ok xs l' \<and> (\<forall>k\<in>set ls'. class_ok xs k)
    \<and> l_count l' + total_count ls' = l_count l + total_count ls
    \<and> l_sum l' + total_sum ls' = l_sum l + total_sum ls"
  using assms
proof (induction eps aeps l ls arbitrary: l' ls' rule: absorb_lengths.induct)
  case (2 eps aeps l inner ls)
  have nn: "0 \<le> l_sum l" "0 \<le> l_sum inner" "0 \<le> total_sum ls"
    using 2(3-5) by (auto intro: class_sum_nonneg classes_sum_nonneg)
  show ?case
  proof (cases "close_lengths eps aeps l inner")
    case True
    have j: "l_sum (join_lengths l inner) = l_sum l + l_sum inner" "in_s32 (l_sum l + l_sum inner)"
      using join_lengths_sums [of l inner] nn 2(6) by auto
    have "class_ok xs (join_lengths l inner)"
      using 2(3,4) j by (auto intro: class_join)
    then show ?thesis
      using 2(1) [OF True _ _ 2(5), of l' ls'] 2(4,6,7) True j(1)
      by (simp add: join_lengths_def [of l inner])
  next
    case False
    obtain m ms where m: "absorb_lengths eps aeps l ls = (m, ms)" by fastforce
    then show ?thesis
      using 2(2) [OF False 2(3) _ 2(5) _ m] 2(4,6,7) nn False by (auto simp: algebra_simps)
  qed
qed simp

lemma merge_summary:
  assumes "\<forall>k\<in>set ls. class_ok xs k" "\<forall>x\<in>xs. 0 \<le> x" "total_sum ls < 2147483648"
  shows "(\<forall>k\<in>set (merge_lengths eps aeps ls). class_ok xs k)
    \<and> total_count (merge_lengths eps aeps ls) = total_count ls
    \<and> total_sum (merge_lengths eps aeps ls) = total_sum ls"
  using assms
proof (induction eps aeps ls rule: merge_lengths.induct)
  case (2 eps aeps l ls)
  obtain m ms where m: "absorb_lengths eps aeps l ls = (m, ms)" by fastforce
  have s: "class_ok xs m" "\<forall>k\<in>set ms. class_ok xs k"
    "l_count m + total_count ms = l_count l + total_count ls"
    "l_sum m + total_sum ms = l_sum l + total_sum ls"
    using absorb_summary [OF _ _ 2(3) _ m] 2(2,4) by auto
  moreover have "0 \<le> l_sum m" using s(1) 2(3) by (rule class_sum_nonneg)
  ultimately show ?case
    using 2(1) [OF m [symmetric] s(2) 2(3)] 2(4) m by auto
qed simp

lemma add_summary:
  assumes "\<forall>k\<in>set ls. class_ok xs k" and "x \<in> xs"
  shows "(\<forall>k\<in>set (add_length x ls). class_ok xs k)
    \<and> total_count (add_length x ls) = total_count ls + 1 \<and> total_sum (add_length x ls) = total_sum ls + x"
  using assms
proof (induction x ls rule: add_length.induct)
  case (1 x)
  then show ?case using class_new [of x] by (auto simp: new_length_def intro: class_ok_mono)
next
  case (2 x l ls)
  then show ?case using class_count [of xs l x] by (auto simp: count_length_def)
qed

lemma sample_summary:
  assumes "\<forall>x\<in>set xs. 0 \<le> x" "sum_list xs < 2147483648"
  shows "(\<forall>k\<in>set (fold (sample_length eps aeps) xs []). class_ok (set xs) k)
    \<and> total_count (fold (sample_length eps aeps) xs []) = int (length xs)
    \<and> total_sum (fold (sample_length eps aeps) xs []) = sum_list xs"
  using assms
proof (induction xs rule: rev_induct)
  case (snoc x xs)
  let ?ls = "fold (sample_length eps aeps) xs []"
  have "\<forall>k\<in>set ?ls. class_ok (set (xs @ [x])) k" "total_count ?ls = int (length xs)"
    "total_sum ?ls = sum_list xs"
    using snoc by (auto intro: class_ok_mono)
  then have "(\<forall>k\<in>set (add_length x ?ls). class_ok (set (xs @ [x])) k)
    \<and> total_count (add_length x ?ls) = int (length xs) + 1 \<and> total_sum (add_length x ?ls) = sum_list xs + x"
    using add_summary [of ?ls "set (xs @ [x])" x] by simp
  then show ?case
    using merge_summary [of "add_length x ?ls" "set (xs @ [x])" eps aeps] snoc.prems
    by (simp add: sample_length_def [symmetric])
qed simp

lemma member_le_total:
  "l \<in> set ls \<Longrightarrow> \<forall>k\<in>set ls. 0 \<le> l_sum k \<Longrightarrow> l_sum l \<le> total_sum ls"
proof (induction ls)
  case (Cons k ls)
  have "0 \<le> total_sum ls" using Cons.prems(2) by (induction ls) (auto)
  then show ?case using Cons by auto
qed simp

lemma member_le_sum: "x \<in> set xs \<Longrightarrow> \<forall>y\<in>set xs. 0 \<le> y \<Longrightarrow> x \<le> sum_list xs" for x :: int
proof (induction xs)
  case (Cons y xs)
  have "0 \<le> sum_list xs" using Cons.prems(2) by (intro sum_list_nonneg) auto
  then show ?case using Cons by auto
qed simp

text \<open>
  C22: The classes \<open>irrecord\<close> keeps of a series of durations account for every sample: their
  counts add up to the number of samples and their sums to the sum of the samples, whatever was
  merged. The bounds of a class are durations that were measured, and the duration the analysis
  reports for a class lies between them.
\<close>

theorem samples_summarised:
  assumes "\<forall>x\<in>set xs. 0 \<le> x" and "sum_list xs < 2147483648"
    and "ls = fold (sample_length eps aeps) xs []"
  shows "total_count ls = int (length xs) \<and> total_sum ls = sum_list xs
    \<and> (\<forall>l\<in>set ls. l_min l \<in> set xs \<and> l_max l \<in> set xs
         \<and> l_min l \<le> calc_signal l \<and> calc_signal l \<le> l_max l)"
proof -
  note s = sample_summary [OF assms(1,2), of eps aeps, folded assms(3)]
  have bound: "\<forall>x\<in>set xs. 0 \<le> x \<and> x < 2147483648"
    using assms(1,2) member_le_sum [of _ xs] by fastforce
  have "in_s32 (l_sum l)" if "l \<in> set ls" for l
  proof -
    have nn: "\<forall>k\<in>set ls. 0 \<le> l_sum k" using s assms(1) by (auto intro: class_sum_nonneg)
    then show ?thesis using member_le_total [OF that nn] s assms(2) that by (auto simp: in_s32_def)
  qed
  then show ?thesis
    using s class_mean [OF _ bound] by (auto simp: class_ok_def)
qed


theorem samples_summarised_witness:
  "total_count (fold (sample_length 30 100) [560, 1690, 600, 540] []) = 4
    \<and> total_sum (fold (sample_length 30 100) [560, 1690, 600, 540] []) = 3390
    \<and> l_min (hd (fold (sample_length 30 100) [560, 1690, 600, 540] [])) \<in> {560, 1690, 600, 540}"
proof -
  let ?xs = "[560, 1690, 600, 540] :: lirc_t list"
  let ?ls = "fold (sample_length 30 100) ?xs []"
  have all: "total_count ?ls = int (length ?xs) \<and> total_sum ?ls = sum_list ?xs
    \<and> (\<forall>l\<in>set ?ls. l_min l \<in> set ?xs \<and> l_max l \<in> set ?xs
         \<and> l_min l \<le> calc_signal l \<and> calc_signal l \<le> l_max l)"
    by (rule samples_summarised [OF _ _ refl]) simp_all
  have "?ls \<noteq> []"
  proof
    assume "?ls = []"
    then have "total_count ?ls = 0" by (simp only: totals_Nil)
    with all show False by simp
  qed
  then have "hd ?ls \<in> set ?ls" by (rule hd_in_set)
  then show ?thesis using all by simp
qed

section \<open>The relative tolerance\<close>

lemma mean_bounds:
  assumes l: "class_ok xs l" and k: "class_ok xs k" and xs: "\<forall>x\<in>xs. 0 < x \<and> x \<le> PULSE_MASK"
    and small: "l_sum l + l_sum k < 2147483648"
  shows "min (l_min l) (l_min k) \<le> mean_length l k" "0 < mean_length l k" "mean_length l k \<le> PULSE_MASK"
proof -
  let ?n = "l_count l + l_count k" and ?m = "min (l_min l) (l_min k)" and ?M = "max (l_max l) (l_max k)"
  have c: "0 < l_count l" "0 < l_count k" "0 < ?m" "?M \<le> PULSE_MASK"
    using l k xs by (auto simp: class_ok_def)
  have nn: "0 \<le> l_sum l" "0 \<le> l_sum k"
    using class_sum_nonneg [OF l] class_sum_nonneg [OF k] xs by fastforce+
  then have u: "u32 (l_sum l + l_sum k) = l_sum l + l_sum k"
    using small by (simp add: in_u32_def)
  have "?n * ?m \<le> l_count l * l_min l + l_count k * l_min k"
    using c by (simp add: distrib_right add_mono mult_left_mono)
  then have lo: "?n * ?m \<le> l_sum l + l_sum k" using l k by (simp add: class_ok_def)
  have "l_count l * l_max l + l_count k * l_max k \<le> ?n * ?M"
    using c by (simp add: distrib_right add_mono mult_left_mono)
  then have hi: "l_sum l + l_sum k \<le> ?n * ?M" using l k by (simp add: class_ok_def)
  have "?m \<le> (l_sum l + l_sum k) div ?n" using zdiv_mono1 [OF lo, of ?n] c by simp
  moreover have "(l_sum l + l_sum k) div ?n \<le> ?M" using zdiv_mono1 [OF hi, of ?n] c by simp
  ultimately show "?m \<le> mean_length l k" "0 < mean_length l k" "mean_length l k \<le> PULSE_MASK"
    using c by (auto simp: mean_length_def u)
qed

lemma relative_never_close:
  assumes "class_ok xs l" "class_ok xs k" "\<forall>x\<in>xs. 0 < x \<and> x \<le> PULSE_MASK"
    and "l_sum l + l_sum k < 2147483648" and "0 \<le> eps" "eps < 99"
  shows "\<not> (close_relative eps (mean_length l k) l \<and> close_relative eps (mean_length l k) k)"
proof
  let ?mean = "mean_length l k"
  assume r: "close_relative eps ?mean l \<and> close_relative eps ?mean k"
  note m = mean_bounds [OF assms(1-4)]
  have "?mean * (100 - eps) \<le> PULSE_MASK * 100"
    using m assms(5,6) by (intro mult_mono) auto
  then have "u32 (?mean * (100 - eps)) = ?mean * (100 - eps)"
    using m assms(6) by (simp add: in_u32_def PULSE_MASK_def)
  moreover have "?mean * 2 \<le> ?mean * (100 - eps)"
    using m assms(6) by (intro mult_left_mono) auto
  moreover have "u32 (l_min l) = l_min l" "u32 (l_min k) = l_min k"
    using assms(1-3) by (auto simp: class_ok_def in_u32_def PULSE_MASK_def)
  ultimately have "?mean * 2 \<le> l_min l" "?mean * 2 \<le> l_min k"
    using r by (simp_all add: close_relative_def)
  then show False using m by (simp add: min_def split: if_splits)
qed

text \<open>
  C37: The relative tolerance \<open>eps\<close> never lets two classes be merged. The comparison has the
  factors \<open>100 + eps\<close> and \<open>100 - eps\<close> but no division by 100, so both classes would have to lie
  above at least twice their common mean. What is merged is decided by \<open>aeps\<close> alone, for all
  durations a receiver can report and every \<open>eps\<close> below 99.
\<close>

theorem relative_tolerance_unused:
  assumes "class_ok xs l" and "class_ok xs k" and "\<forall>x\<in>xs. 0 < x \<and> x \<le> PULSE_MASK"
    and "l_sum l + l_sum k < 2147483648" and "0 \<le> eps" and "eps < 99"
  shows "close_lengths eps aeps l k \<longleftrightarrow>
    close_absolute aeps (mean_length l k) l \<and> close_absolute aeps (mean_length l k) k"
  using relative_never_close [OF assms] by (auto simp: close_lengths_def Let_def)

theorem relative_tolerance_unused_witness:
  "close_lengths 30 100 (new_length 9000) (new_length 9300) \<longleftrightarrow>
    close_absolute 100 (mean_length (new_length 9000) (new_length 9300)) (new_length 9000)
    \<and> close_absolute 100 (mean_length (new_length 9000) (new_length 9300)) (new_length 9300)"
  by (rule relative_tolerance_unused [where xs = "{9000, 9300}"])
    (simp_all add: class_ok_def new_length_def PULSE_MASK_def)

section \<open>The most frequent class\<close>

lemma max_loop_best:
  assumes "most = l_count ((as @ ls) ! best)" "best < length as" "\<forall>k<length as. l_count (as ! k) \<le> most"
    and "\<forall>k<best. l_count (as ! k) < most" "n = u32 (total_count as)"
    and "max_loop (length as) (best, n) most ls = (i, m)"
  shows "i < length (as @ ls) \<and> (\<forall>k<length (as @ ls). l_count ((as @ ls) ! k) \<le> l_count ((as @ ls) ! i))
    \<and> (\<forall>k<i. l_count ((as @ ls) ! k) < l_count ((as @ ls) ! i)) \<and> m = u32 (total_count (as @ ls))"
  using assms
proof (induction ls arbitrary: as best n most)
  case Nil
  then show ?case by auto
next
  case (Cons l ls)
  let ?as = "as @ [l]"
  let ?best = "if l_count l > most then length as else best"
  let ?most = "if l_count l > most then l_count l else most"
  have n: "u32 (n + l_count l) = u32 (total_count ?as)"
    by (simp add: Cons.prems(5) total_count_def u32_def mod_simps)
  have loop: "max_loop (length ?as) (?best, u32 (n + l_count l)) ?most ls = (i, m)"
    using Cons.prems(6) by simp
  have "?most = l_count ((?as @ ls) ! ?best)" "?best < length ?as"
    using Cons.prems(1,2) by (auto simp: nth_append)
  moreover have "\<forall>k<length ?as. l_count (?as ! k) \<le> ?most"
    using Cons.prems(3) by (auto simp: nth_append less_Suc_eq)
  moreover have "\<forall>k<?best. l_count (?as ! k) < ?most"
    using Cons.prems(2-4) by (auto simp: nth_append intro: le_less_trans)
  ultimately show ?case using Cons.IH [OF _ _ _ _ n loop] by simp
qed

lemma get_max_best:
  assumes "get_max_length ls = Some (i, n)"
  shows "i < length ls" "\<And>k. k < length ls \<Longrightarrow> l_count (ls ! k) \<le> l_count (ls ! i)"
    "\<And>k. k < i \<Longrightarrow> l_count (ls ! k) < l_count (ls ! i)" "n = u32 (total_count ls)"
proof -
  obtain l ks where ls: "ls = l # ks" using assms by (cases ls) (auto simp: get_max_length_def)
  have "i < length (([l]) @ ks)
    \<and> (\<forall>k<length ([l] @ ks). l_count (([l] @ ks) ! k) \<le> l_count (([l] @ ks) ! i))
    \<and> (\<forall>k<i. l_count (([l] @ ks) ! k) < l_count (([l] @ ks) ! i)) \<and> n = u32 (total_count ([l] @ ks))"
  proof (rule max_loop_best)
    show "max_loop (length [l]) (0, u32 (l_count l)) (l_count l) ks = (i, n)"
      using assms by (simp add: ls get_max_length_def)
  qed simp_all
  then show "i < length ls" "\<And>k. k < length ls \<Longrightarrow> l_count (ls ! k) \<le> l_count (ls ! i)"
    "\<And>k. k < i \<Longrightarrow> l_count (ls ! k) < l_count (ls ! i)" "n = u32 (total_count ls)"
    by (simp_all add: ls)
qed

lemma get_max_None: "get_max_length ls = None \<longleftrightarrow> ls = []"
  by (cases ls) (auto simp: get_max_length_def)

section \<open>The cyclic list\<close>

text \<open>On a list that ends with NULL the pointer loop is \<open>get_max_length\<close>.\<close>

lemma chain_loop_list:
  "best < length as \<Longrightarrow> most = l_count ((as @ ls) ! best) \<Longrightarrow>
   chain_loop (as @ ls) None (if ls = [] then None else Some (length as)) (best, n)
     = Some (max_loop (length as) (best, n) most ls)"
proof (induction ls arbitrary: as best n most)
  case Nil
  then show ?case by (simp add: chain_loop.simps)
next
  case (Cons l ls)
  let ?best = "if l_count l > most then length as else best"
  have eq: "(as @ l # ls) ! length as = l" "as @ l # ls = (as @ [l]) @ ls" by simp_all
  have nxt: "chain_next (as @ l # ls) None (length as) = (if ls = [] then None else Some (length (as @ [l])))"
    by (simp add: chain_next_def)
  have "chain_loop ((as @ [l]) @ ls) None (if ls = [] then None else Some (length (as @ [l])))
      (?best, u32 (n + l_count l))
    = Some (max_loop (length (as @ [l])) (?best, u32 (n + l_count l))
        (if l_count l > most then l_count l else most) ls)"
    using Cons.prems by (intro Cons.IH) (auto simp: nth_append)
  then show ?case
    using Cons.prems(2) nxt by (subst chain_loop.simps) simp
qed

lemma get_max_chain_list: "ls \<noteq> [] \<Longrightarrow> get_max_chain ls None = get_max_length ls"
  using chain_loop_list [of 0 "[hd ls]" "l_count (hd ls)" "tl ls" "u32 (l_count (hd ls))"]
  by (cases ls) (auto simp: get_max_chain_def get_max_length_def chain_next_def)

text \<open>A list whose last element points back has no end.\<close>

lemma chain_loop_cyclic: "chain_loop ls (Some j) (Some i) acc = None"
proof -
  have "bk \<noteq> None \<longrightarrow> scan = None" if "chain_loop ls bk scan acc = Some r" for ls bk scan acc r
  proof (induct ls bk scan acc r rule: chain_loop.raw_induct)
    case (1 loop ls bk scan acc r)
    show ?case
    proof (cases scan)
      case (Some i)
      then obtain acc' where "loop ls bk (chain_next ls bk i) acc' = Some r"
        using 1(2) by auto
      from 1(1) [OF this] show ?thesis by (auto simp: chain_next_def split: if_splits)
    qed simp
  qed (rule that)
  then have "chain_loop ls (Some j) (Some i) acc \<noteq> Some r" for r by blast
  then show ?thesis by (metis not_Some_eq)
qed

text \<open>
  C35: A remote whose pulses all have about the same length, and whose signals do not have the
  same number of durations in four of five cases, hangs the analysis: \<open>get_scheme\<close> links the only
  class of pulses to itself, and the next \<open>get_max_length\<close> on that list, in \<open>get_data_length\<close>,
  never returns.
\<close>

theorem single_pulse_hangs:
  assumes "an_pulse an = [p]" and "an_pulse_back an = None" and "an_space an \<noteq> []"
    and "longest_run (an_lengths an) = (len, n)"
    and "an_lengths an ! len < u32 (TH_SPACE_ENC * n) div 100"
  shows "\<exists>an' r'. get_scheme an r = Some (an', r')
    \<and> get_max_chain (an_pulse an') (an_pulse_back an') = None
    \<and> (\<forall>r''. get_data_length drv an' r'' = None)"
proof -
  have p: "get_max_chain [p] None = Some (0, u32 (l_count p))"
    using get_max_chain_list [of "[p]"] by (simp add: get_max_length_def)
  obtain j m where j: "get_max_length (an_space an) = Some (j, m)"
    using assms(3) get_max_None [of "an_space an"] by (cases "get_max_length (an_space an)") auto
  have cyc: "get_max_chain [p] (Some 0) = None"
    by (simp add: get_max_chain_def chain_next_def chain_loop_cyclic)
  have "\<exists>an' r'. get_scheme an r = Some (an', r') \<and> an_pulse an' = [p] \<and> an_pulse_back an' = Some 0"
    using assms p j
    by (auto simp: get_scheme_def unlink_length_def get_max_length_def Let_def get_max_None
        split: option.splits list.splits prod.splits)
  then obtain an' r' where s: "get_scheme an r = Some (an', r')" "an_pulse an' = [p]" "an_pulse_back an' = Some 0"
    by blast
  then show ?thesis using cyc by (auto simp: get_data_length_def)
qed


definition sample_analysis :: analysis where
  "sample_analysis = \<lparr>an_eps = 30, an_aeps = 100, an_signals = replicate 200 0,
     an_space = [new_length 560, new_length 1690], an_pulse = [new_length 560], an_pulse_back = None,
     an_sum = [], an_gap = [], an_repeat_gap = [], an_signal_length = [], an_headerp = [],
     an_headers = [], an_1lead = [], an_3lead = [], an_trail = [], an_repeatp = [], an_repeats = [],
     an_lengths = (replicate 200 0)[33 := 40, 49 := 40],
     an_first_length = 0, an_first_lengths = 0, an_second_lengths = 0, an_count_spaces = 0,
     an_count_signals = 80, an_count_3repeats = 0, an_count_5repeats = 0, an_lastmaxcount = 0\<rparr>"

theorem single_pulse_hangs_witness:
  "\<exists>an' r'. get_scheme sample_analysis (zero_remote ''x'') = Some (an', r')
    \<and> get_max_chain (an_pulse an') (an_pulse_back an') = None
    \<and> (\<forall>r''. get_data_length \<lparr>d_rec_mode = 4, d_code_length = 0, d_resolution = 0\<rparr> an' r'' = None)"
proof (rule single_pulse_hangs)
  show "longest_run (an_lengths sample_analysis) = (33, 80)" by code_simp
  show "an_lengths sample_analysis ! 33 < u32 (TH_SPACE_ENC * 80) div 100" by code_simp
qed (simp_all add: sample_analysis_def)

section \<open>Space encoding\<close>

text \<open>The class of \<open>n\<close> samples that all last \<open>v\<close>.\<close>

definition steady :: "lirc_t \<Rightarrow> nat \<Rightarrow> length_class" where
  "steady v n = (new_length v)\<lparr>l_count := int n, l_sum := int n * v\<rparr>"

lemma steady_sel [simp]:
  "l_count (steady v n) = int n" "l_sum (steady v n) = int n * v" "l_min (steady v n) = v"
  "l_max (steady v n) = v" "l_lower (steady v n) = v sdiv 100 * 100"
  "l_upper (steady v n) = v sdiv 100 * 100 + 99"
  by (simp_all add: steady_def new_length_def)

lemma steady_new: "new_length v = steady v 1"
  by (simp add: steady_def new_length_def)

lemma steady_count: "count_length v (steady v n) = steady v (Suc n)"
  by (simp add: count_length_def steady_def new_length_def distrib_right)

lemma steady_range: "0 \<le> v \<Longrightarrow> l_lower (steady v n) \<le> v \<and> v \<le> l_upper (steady v n)"
proof -
  assume "0 \<le> v"
  then have "v sdiv 100 = v div 100" by (simp add: sdiv_nonneg)
  moreover have "v div 100 * 100 \<le> v \<and> v \<le> v div 100 * 100 + 99" by presburger
  ultimately show ?thesis by simp
qed

lemma steady_far_range:
  assumes "0 \<le> v" "0 \<le> w" "\<bar>v - w\<bar> > 200"
  shows "\<not> (l_lower (steady w n) \<le> v \<and> v \<le> l_upper (steady w n))"
proof -
  have "w sdiv 100 = w div 100" using assms(2) by (simp add: sdiv_nonneg)
  moreover have "w div 100 * 100 \<le> w \<and> w \<le> w div 100 * 100 + 99" by presburger
  ultimately show ?thesis using assms(3) by auto
qed

lemma class_steady: "0 < n \<Longrightarrow> class_ok {v, w} (steady v n)" "0 < n \<Longrightarrow> class_ok {v, w} (steady w n)"
  by (simp_all add: class_ok_def)

lemma calc_steady:
  assumes "0 < n" "0 \<le> v" "int n * v < 2147483648"
  shows "calc_signal (steady v n) = v"
proof -
  have "v \<le> int n * v" using assms(1,2) by (cases n) (auto simp: distrib_right)
  moreover have "u32 (int n * v) = int n * v" using assms by (simp add: in_u32_def)
  ultimately show ?thesis using assms by (simp add: calc_signal_def in_s32_def)
qed

lemma steady_not_close:
  assumes "0 < v" "0 < w" "v \<le> PULSE_MASK" "w \<le> PULSE_MASK" "0 < a" "0 < b" "0 \<le> aeps"
    and "aeps \<le> PULSE_MASK" "\<bar>v - w\<bar> > 2 * aeps + 200" "int a * v + int b * w < 2147483648"
    and "0 \<le> eps" "eps < 99"
  shows "\<not> close_lengths eps aeps (steady v a) (steady w b)"
proof
  let ?mean = "mean_length (steady v a) (steady w b)"
  assume c: "close_lengths eps aeps (steady v a) (steady w b)"
  have ok: "class_ok {v, w} (steady v a)" "class_ok {v, w} (steady w b)"
    using assms by (auto simp: class_ok_def)
  have xs: "\<forall>x\<in>{v, w}. 0 < x \<and> x \<le> PULSE_MASK" using assms by auto
  have s: "l_sum (steady v a) + l_sum (steady w b) < 2147483648" using assms by simp
  have "close_absolute aeps ?mean (steady v a) \<and> close_absolute aeps ?mean (steady w b)"
    using c relative_never_close [OF ok xs s assms(11,12)] by (auto simp: close_lengths_def Let_def)
  moreover have "u32 v = v" "u32 w = w" "u32 (v + aeps) = v + aeps" "u32 (w + aeps) = w + aeps"
    "u32 (?mean + aeps) = ?mean + aeps"
    using assms mean_bounds [OF ok xs s] by (auto simp: in_u32_def PULSE_MASK_def)
  ultimately have "v \<le> ?mean + aeps" "?mean \<le> v + aeps" "w \<le> ?mean + aeps" "?mean \<le> w + aeps"
    by (auto simp: close_absolute_def)
  then show False using assms by linarith
qed


text \<open>The classes of \<open>a\<close> samples \<open>v\<close> and \<open>b\<close> samples \<open>w\<close>, in the order they came.\<close>

definition two_classes :: "lirc_t \<Rightarrow> lirc_t \<Rightarrow> nat \<Rightarrow> nat \<Rightarrow> length_class list \<Rightarrow> bool" where
  "two_classes v w a b ls \<longleftrightarrow>
     (let vs = (if a = 0 then [] else [steady v a]); ws = (if b = 0 then [] else [steady w b])
      in ls = vs @ ws \<or> ls = ws @ vs)"

lemma two_classes_swap: "two_classes v w a b ls \<Longrightarrow> two_classes w v b a ls"
  by (auto simp: two_classes_def Let_def)

lemma two_classes_sample:
  assumes two: "two_classes v w a b ls"
    and r: "0 < v" "0 < w" "v \<le> PULSE_MASK" "w \<le> PULSE_MASK" "0 \<le> aeps" "aeps \<le> PULSE_MASK"
      "\<bar>v - w\<bar> > 2 * aeps + 200" "int (Suc a) * v + int b * w < 2147483648" "0 \<le> eps" "eps < 99"
  shows "two_classes v w (Suc a) b (sample_length eps aeps v ls)"
proof -
  have far: "\<not> (l_lower (steady w b) \<le> v \<and> v \<le> l_upper (steady w b))"
    using r by (intro steady_far_range) auto
  have in_range: "l_lower (steady v a) \<le> v \<and> v \<le> l_upper (steady v a)"
    using r by (intro steady_range) auto
  have add: "two_classes v w (Suc a) b (add_length v ls)"
    using two far in_range
    by (auto simp: two_classes_def Let_def steady_new steady_count simp del: steady_sel split: if_splits)
  have nc1: "\<not> close_lengths eps aeps (steady v (Suc a)) (steady w b)" if "b \<noteq> 0"
    by (rule steady_not_close) (use that r in auto)
  have nc2: "\<not> close_lengths eps aeps (steady w b) (steady v (Suc a))" if "b \<noteq> 0"
    by (rule steady_not_close) (use that r in \<open>auto simp: add.commute\<close>)
  from nc1 nc2 have "merge_lengths eps aeps ks = ks" if "two_classes v w (Suc a) b ks" for ks
    using that by (auto simp: two_classes_def Let_def split: if_splits)
  then show ?thesis using add by (simp add: sample_length_def)
qed

lemma two_classes_samples:
  assumes "set xs \<subseteq> {v, w}" and r: "0 < v" "0 < w" "v \<le> PULSE_MASK" "w \<le> PULSE_MASK" "0 \<le> aeps"
      "aeps \<le> PULSE_MASK" "\<bar>v - w\<bar> > 2 * aeps + 200" "sum_list xs < 2147483648" "0 \<le> eps" "eps < 99"
  shows "two_classes v w (count_list xs v) (count_list xs w) (fold (sample_length eps aeps) xs [])"
  using assms
proof (induction xs rule: rev_induct)
  case Nil
  then show ?case by (simp add: two_classes_def)
next
  case (snoc x xs)
  have ne: "v \<noteq> w" using r by auto
  have pos: "0 < y" if "y \<in> set xs" for y using that snoc.prems(1) r by auto
  have sum: "sum_list xs = int (count_list xs v) * v + int (count_list xs w) * w"
    if "set xs \<subseteq> {v, w}" for xs
    using that ne by (induction xs) (auto simp: distrib_right)
  have IH: "two_classes v w (count_list xs v) (count_list xs w) (fold (sample_length eps aeps) xs [])"
    using snoc by auto
  have total: "int (count_list (xs @ [x]) v) * v + int (count_list (xs @ [x]) w) * w < 2147483648"
    using sum [of "xs @ [x]"] snoc.prems(1) r(8) snoc.prems by simp
  have "x = v \<or> x = w" using snoc.prems(1) by simp
  then show ?case
  proof
    assume x: "x = v"
    then show ?thesis
      using two_classes_sample [OF IH r(1-7) _ r(9,10)] total ne by simp
  next
    assume x: "x = w"
    have "two_classes w v (Suc (count_list xs w)) (count_list xs v)
      (sample_length eps aeps w (fold (sample_length eps aeps) xs []))"
      using two_classes_sample [OF two_classes_swap [OF IH] r(2,1,4,3,5,6) _ _ r(9,10)] total ne x r(7)
      by (simp add: add.commute abs_minus_commute)
    then show ?thesis using two_classes_swap ne x by simp
  qed
qed


lemma u32_le: "0 \<le> x \<Longrightarrow> u32 x \<le> x" "0 \<le> u32 x"
  by (simp_all add: u32_def zmod_le_nonneg_dividend)

lemma frequent_half:
  assumes "0 \<le> t" "t \<le> 2 * c"
  shows "frequent c (u32 t) TH_IS_BIT"
proof -
  have "u32 (u32 t * 10) \<le> u32 t * 10" "u32 t \<le> t"
    using assms(1) by (simp_all add: u32_le)
  then have "u32 (u32 t * 10) \<le> 20 * c" using assms by linarith
  then have "u32 (u32 t * 10) div 100 \<le> c" using assms by linarith
  then show ?thesis by (simp add: frequent_def TH_IS_BIT_def)
qed

lemma second_steady:
  assumes "0 < n" "int m \<le> 10 * int n"
  shows "second_class (int m) [steady v n] = Some (steady v n)"
proof -
  have "u32 (int m * 10) \<le> int m * 10" by (simp add: u32_le)
  then have "u32 (int m * 10) div 100 \<le> int n" using assms by linarith
  then show ?thesis by (simp add: second_class_def get_max_length_def TH_IS_BIT_def)
qed

text \<open>The larger of two classes is taken, the other one is left.\<close>

lemma two_classes_max:
  assumes two: "two_classes v w a b ls" and ab: "0 < a" "0 < b" "int a \<le> 10 * int b" "int b \<le> 10 * int a"
  shows "\<exists>i n. get_max_length ls = Some (i, n) \<and> frequent (l_count (ls ! i)) n TH_IS_BIT
    \<and> (ls ! i = steady v a \<and> second_class (l_count (ls ! i)) (unlink_length i ls) = Some (steady w b)
      \<or> ls ! i = steady w b \<and> second_class (l_count (ls ! i)) (unlink_length i ls) = Some (steady v a))"
proof -
  have ls: "ls = [steady v a, steady w b] \<or> ls = [steady w b, steady v a]"
    using two ab by (auto simp: two_classes_def Let_def)
  then have "ls \<noteq> []" by auto
  then obtain i n where m: "get_max_length ls = Some (i, n)"
    using get_max_None [of ls] by (cases "get_max_length ls") auto
  note best = get_max_best [OF m]
  have "i = 0 \<or> i = 1" using best(1) ls by auto
  moreover have "frequent (l_count (ls ! i)) n TH_IS_BIT"
    unfolding best(4) using best(2) [of 0] best(2) [of 1] ls
    by (intro frequent_half) auto
  ultimately show ?thesis
    using m ls ab by (auto simp: unlink_length_def second_steady simp del: steady_sel)
      (auto simp: second_steady)
qed

lemma protocol_kept:
  "r_flags r' = r_flags r AND NOT NO_HEAD_REP \<Longrightarrow> r_rc6_mask r' = r_rc6_mask r \<Longrightarrow> is_biphase r' = is_biphase r"
proof -
  assume f: "r_flags r' = r_flags r AND NOT NO_HEAD_REP" "r_rc6_mask r' = r_rc6_mask r"
  have "r_flags r' AND IR_PROTOCOL_MASK = r_flags r AND (NOT NO_HEAD_REP AND IR_PROTOCOL_MASK)"
    by (simp add: f word_bw_assocs)
  also have "NOT NO_HEAD_REP AND IR_PROTOCOL_MASK = IR_PROTOCOL_MASK"
    by (simp add: NO_HEAD_REP_def IR_PROTOCOL_MASK_def)
  finally show ?thesis by (simp add: is_biphase_def is_rc5_def is_rc6_def f)
qed

lemma drop_header_keeps:
  assumes "\<not> is_biphase r"
  shows "\<not> is_biphase (drop_header drv r)" "r_bits (drop_header drv r) = r_bits r"
    "r_pone (drop_header drv r) = r_pone r" "r_sone (drop_header drv r) = r_sone r"
    "r_pzero (drop_header drv r) = r_pzero r" "r_szero (drop_header drv r) = r_szero r"
    "r_ptrail (drop_header drv r) = r_ptrail r"
proof -
  have "\<not> is_biphase (clear_no_head_rep r)"
    using protocol_kept [of "clear_no_head_rep r" r] assms by (simp add: clear_no_head_rep_def)
  then show "\<not> is_biphase (drop_header drv r)"
    using assms by (simp add: drop_header_def Let_def)
  show "r_bits (drop_header drv r) = r_bits r"
    "r_pone (drop_header drv r) = r_pone r" "r_sone (drop_header drv r) = r_sone r"
    "r_pzero (drop_header drv r) = r_pzero r" "r_szero (drop_header drv r) = r_szero r"
    "r_ptrail (drop_header drv r) = r_ptrail r"
    using assms by (simp_all add: drop_header_def clear_no_head_rep_def Let_def)
qed

lemma steady_samples:
  "set xs \<subseteq> {v} \<Longrightarrow> 0 < v \<Longrightarrow>
   fold (sample_length eps aeps) xs [] = (if xs = [] then [] else [steady v (length xs)])
   \<and> sum_list xs = int (length xs) * v"
proof (induction xs rule: rev_induct)
  case (snoc x xs)
  have "l_lower (steady v (length xs)) \<le> v \<and> v \<le> l_upper (steady v (length xs))"
    using snoc.prems by (intro steady_range) auto
  then show ?case
    using snoc by (auto simp: sample_length_def steady_new steady_count distrib_right simp del: steady_sel)
qed simp

text \<open>
  C12: The analysis finds a space encoding. When the pulses of the recorded signals all last
  \<open>P\<close> and their spaces \<open>S\<close> or \<open>L\<close>, with \<open>L\<close> longer than \<open>S\<close> by more than twice the absolute
  tolerance and 200 microseconds, and neither of them rare, then \<open>get_data_length\<close> succeeds: ones
  are the long spaces, zeros the short ones, and the number of bits is what is left of the length
  of a signal without header and trailing pulse. The order of the samples does not matter.
\<close>

theorem space_encoding_recovered:
  assumes "ps \<noteq> []" and "set ps = {P}" and "set ss = {S, L}" and "0 < P" and "P \<le> PULSE_MASK"
    and "0 < S" and "L \<le> PULSE_MASK" and "2 * an_aeps an + 200 < L - S"
    and "0 \<le> an_aeps an" and "an_aeps an \<le> PULSE_MASK" and "0 \<le> an_eps an" and "an_eps an < 99"
    and "sum_list ps < 2147483648" and "sum_list ss < 2147483648"
    and "int (count_list ss L) \<le> 10 * int (count_list ss S)"
    and "int (count_list ss S) \<le> 10 * int (count_list ss L)"
    and "an_pulse an = fold (sample_length (an_eps an) (an_aeps an)) ps []"
    and "an_pulse_back an = None"
    and "an_space an = fold (sample_length (an_eps an) (an_aeps an)) ss []"
    and "\<not> is_biphase r"
  shows "\<exists>an' r'. get_data_length drv an r = Some (True, an', r')
    \<and> r_pone r' = P \<and> r_sone r' = L \<and> r_pzero r' = P \<and> r_szero r' = S
    \<and> r_bits r' = (r_bits r - (if has_header r' then 2 else 0) + 1
                   - (if r_ptrail r' > 0 then 2 else 0)) sdiv 2"
proof -
  let ?eps = "an_eps an" and ?aeps = "an_aeps an"
  define a where "a = count_list ss L"
  define b where "b = count_list ss S"
  have LS: "0 < L" "S \<le> PULSE_MASK" "L \<noteq> S" using assms by auto
  have ab: "0 < a" "0 < b"
    unfolding a_def b_def using assms(3) count_list_0_iff [of ss L] count_list_0_iff [of ss S] by fastforce+
  have sums: "sum_list xs = int (count_list xs v) * v + int (count_list xs w) * w"
    if "set xs \<subseteq> {v, w}" "v \<noteq> w" for xs and v w :: int
    using that by (induction xs) (auto simp: distrib_right)
  have "two_classes L S a b (an_space an)"
    unfolding assms(19) a_def b_def by (rule two_classes_samples) (use assms LS in auto)
  then obtain i n where i: "get_max_length (an_space an) = Some (i, n)"
      "frequent (l_count (an_space an ! i)) n TH_IS_BIT"
      "an_space an ! i = steady L a
          \<and> second_class (l_count (an_space an ! i)) (unlink_length i (an_space an)) = Some (steady S b)
        \<or> an_space an ! i = steady S b
          \<and> second_class (l_count (an_space an ! i)) (unlink_length i (an_space an)) = Some (steady L a)"
    using two_classes_max ab assms(15,16) unfolding a_def b_def by blast
  define m where "m = length ps"
  have m: "0 < m" using assms(1) by (simp add: m_def)
  have pulse: "an_pulse an = [steady P m]" "sum_list ps = int m * P"
    using steady_samples [of ps P ?eps ?aeps] assms(1,2,4,17) by (auto simp: m_def)
  have "sum_list ss = int a * L + int b * S"
    unfolding a_def b_def by (rule sums) (use assms(3) LS in auto)
  moreover have "0 \<le> int a * L" "0 \<le> int b * S" using assms LS by simp_all
  ultimately have "int a * L < 2147483648" "int b * S < 2147483648"
    using assms(14) by linarith+
  then have calc: "calc_signal (steady L a) = L" "calc_signal (steady S b) = S"
    "calc_signal (steady P m) = P"
    using assms(4,6,13) ab m pulse(2) LS(1) by (simp_all add: calc_steady)
  have maxp: "get_max_chain (an_pulse an) (an_pulse_back an) = Some (0, u32 (int m))"
    using get_max_chain_list [of "[steady P m]"] by (simp add: pulse assms(18) get_max_length_def)
  have freq: "frequent (int m) (u32 (int m)) TH_IS_BIT" by (rule frequent_half) auto
  define rests where "rests = unlink_length i (an_space an)"
  define an' where "an' = an\<lparr>an_pulse := [], an_pulse_back := None, an_space := rests\<rparr>"
  define r1 where "r1 = r\<lparr>r_eps := s32 ?eps, r_aeps := ?aeps\<rparr>"
  define r2 where "r2 = r1\<lparr>r_pone := P, r_sone := L, r_pzero := P, r_szero := S\<rparr>"
  have nb: "\<not> is_biphase r2"
    using assms(20) by (simp add: r2_def r1_def is_biphase_def is_rc5_def is_rc6_def)
  have "bit_durations drv (steady P m) None (an_space an ! i)
      (second_class (l_count (an_space an ! i)) rests) r1 = Some r2"
    using i(3) calc assms(8,9,20)
    by (auto simp: bit_durations_def r2_def r1_def rests_def is_biphase_def is_rc5_def is_rc6_def Let_def)
  moreover have "second_class (int m) [] = None" by (simp add: second_class_def get_max_length_def)
  moreover obtain r3 where r3: "count_bits an' (drop_header drv r2) = Some r3"
      "r3 = (drop_header drv r2)\<lparr>r_bits := (r_bits (drop_header drv r2)
        - (if has_header (drop_header drv r2) then 2 else 0) + 1
        - (if r_ptrail (drop_header drv r2) > 0 then 2 else 0)) sdiv 2\<rparr>"
    using drop_header_keeps(1) [OF nb] by (simp add: count_bits_def)
  ultimately have "get_data_length drv an r = Some (True, an', r3)"
    using i(1,2) maxp freq
    by (simp add: get_data_length_def pulse unlink_length_def an'_def r1_def rests_def Let_def)
  moreover have "r_bits r2 = r_bits r" "r_pone r2 = P" "r_sone r2 = L" "r_pzero r2 = P" "r_szero r2 = S"
    by (simp_all add: r2_def r1_def)
  ultimately show ?thesis
    using drop_header_keeps [OF nb, of drv]
    by (intro exI [of _ an'] exI [of _ r3]) (simp add: r3(2) has_header_def)
qed


definition sample_spaces :: "lirc_t list" where
  "sample_spaces = [560, 1690, 1690, 560, 560]"

definition sample_recorded :: analysis where
  "sample_recorded = sample_analysis\<lparr>an_pulse := fold (sample_length 30 100) [560, 560, 560] [],
     an_space := fold (sample_length 30 100) sample_spaces []\<rparr>"

theorem space_encoding_recovered_witness:
  "\<exists>an' r'. get_data_length \<lparr>d_rec_mode = 4, d_code_length = 0, d_resolution = 0\<rparr> sample_recorded
      ((zero_remote ''x'')\<lparr>r_flags := SPACE_ENC, r_bits := 65\<rparr>) = Some (True, an', r')
    \<and> r_pone r' = 560 \<and> r_sone r' = 1690 \<and> r_pzero r' = 560 \<and> r_szero r' = 560
    \<and> r_bits r' = (r_bits ((zero_remote ''x'')\<lparr>r_flags := SPACE_ENC, r_bits := 65\<rparr>)
         - (if has_header r' then 2 else 0) + 1 - (if r_ptrail r' > 0 then 2 else 0)) sdiv 2"
proof (rule space_encoding_recovered)
  show "an_pulse sample_recorded
      = fold (sample_length (an_eps sample_recorded) (an_aeps sample_recorded)) [560, 560, 560] []"
    "an_space sample_recorded
      = fold (sample_length (an_eps sample_recorded) (an_aeps sample_recorded)) sample_spaces []"
    by (simp_all add: sample_recorded_def sample_analysis_def)
  show "\<not> is_biphase ((zero_remote ''x'')\<lparr>r_flags := SPACE_ENC, r_bits := 65\<rparr>)" by code_simp
qed (auto simp: sample_recorded_def sample_analysis_def sample_spaces_def PULSE_MASK_def)

section \<open>Raw signals\<close>











section \<open>Codes through an int\<close>

text \<open>
  C38: The analysis of a raw remote passes the decoded codes through variables of type \<open>int\<close>: the
  code it writes for a button is the decoded one exactly when bit 31 and all bits above it are
  equal. Every code of 32 bits with its top bit set, and almost every longer one, comes out wrong.
\<close>

theorem analysis_truncates_codes:
  "nc_code (analysed_code nm code second) = code
     \<longleftrightarrow> code < 0x80000000 \<or> 0xFFFFFFFF80000000 \<le> code"
proof -
  define x where "x = uint code"
  have x: "0 \<le> x" "x < 18446744073709551616" using uint_lt2p [of code] by (simp_all add: x_def)
  have "int_code code = code \<longleftrightarrow> s32 x mod 18446744073709551616 = x"
    unfolding int_code_def x_def word_uint_eq_iff by (simp add: uint_word_of_int)
  also have "\<dots> \<longleftrightarrow> x < 0x80000000 \<or> 0xFFFFFFFF80000000 \<le> x"
  proof -
    have y: "- 2147483648 \<le> s32 x" "s32 x < 2147483648"
      using in_s32_s32 [of x] by (simp_all add: in_s32_def)
    have m: "s32 x mod 18446744073709551616 = (if 0 \<le> s32 x then s32 x else s32 x + 18446744073709551616)"
    proof (cases "0 \<le> s32 x")
      case False
      have "s32 x mod 18446744073709551616 = (s32 x + 18446744073709551616) mod 18446744073709551616"
        by (rule mod_add_self2 [symmetric])
      also have "\<dots> = s32 x + 18446744073709551616"
        using y False by (intro mod_pos_pos_trivial) linarith+
      finally show ?thesis using False by simp
    qed (use y in \<open>simp add: mod_pos_pos_trivial\<close>)
    have id: "s32 z = z" if "- 2147483648 \<le> z" "z < 2147483648" for z using that by (simp add: in_s32_def)
    have "s32 x = s32 (x - 18446744073709551616)"
    proof -
      have "x - 18446744073709551616 + 2147483648 = (x + 2147483648) + 4294967296 * (- 4294967296)" by simp
      then show ?thesis unfolding s32_def by (simp only: mod_mult_self2)
    qed
    then show ?thesis using x y m id [of x] id [of "x - 18446744073709551616"] by (auto split: if_splits)
  qed
  finally show ?thesis by (simp add: analysed_code_def x_def word_less_def word_le_def)
qed

end
