(* ===== verification/Dump_Config.thy ===== *)
theory Dump_Config
  imports Config_Values
begin

text \<open>
  The printer of remotes, \<open>lib/dump_config.c\<close>: what it writes to the file is the value of each
  function. The comment at the top depends on the program and the machine, which are an argument.

  A \<open>long\<close> has 32 bits, as in the parser. The further codes of a button are printed with \<open>%lX\<close>
  although they have 64 bits; on the machines the program is for (32 bits, little endian) this
  prints the lower half.
\<close>

section \<open>Conversions of printf\<close>

definition fmt_u :: "nat \<Rightarrow> int \<Rightarrow> string" where
  "fmt_u w x = pad_left w CHR '' '' (decimal (nat (u32 x)))"

definition fmt_d :: "nat \<Rightarrow> int \<Rightarrow> string" where
  "fmt_d w x = pad_left w CHR '' '' (signed_decimal (s32 x))"

text \<open>\<open>0x%llX\<close>, and with a width that the flag 0 fills up; a negative one is the flag \<open>-\<close>.\<close>

definition upper_hex :: "nat \<Rightarrow> string" where
  "upper_hex n = map (\<lambda>c. if 97 \<le> char_code c then char_of (char_code c - 32) else c) (show_base 16 n)"

definition fmt_X :: "int \<Rightarrow> nat \<Rightarrow> string" where
  "fmt_X w n = ''0x'' @ (if w < 0 then pad_right (nat (- w)) (upper_hex n)
                          else pad_left (nat w) CHR ''0'' (upper_hex n))"

abbreviation hex_code :: "ir_code \<Rightarrow> string" where
  "hex_code c \<equiv> fmt_X 0 (unat c)"

section \<open>The comment\<close>

text \<open>
  The version, the name of the driver, the time as \<open>asctime\<close> writes it and the answer of
  \<open>uname -r\<close>, both with the newline at their end. \<open>cm_cmd\<close> is what the uninitialised buffer
  holds, which is printed when there is no command line.
\<close>

record comment =
  cm_version :: string
  cm_driver :: string
  cm_time :: string
  cm_uname :: string
  cm_cmd :: string

definition put_lines :: "string list \<Rightarrow> string" where
  "put_lines ls = concat (map (\<lambda>l. l @ [newline]) ls)"

definition fprint_comment :: "comment \<Rightarrow> ir_remote \<Rightarrow> string option \<Rightarrow> string" where
  "fprint_comment cm rem commandline =
     put_lines [''#'', ''# This config file was automatically generated'']
     @ ''# using lirc-'' @ cm_version cm @ ''('' @ cm_driver cm @ '') on '' @ cm_time cm
     @ put_lines [''# Command line used: '' @ (case commandline of Some cl \<Rightarrow> take 127 cl | None \<Rightarrow> cm_cmd cm)]
     @ ''# Kernel version (uname -r): '' @ cm_uname cm
     @ put_lines [''#'', ''# Remote name (as of config file): '' @ r_name rem,
         ''# Brand of remote device, the thing you hold in your hand:'',
         ''# Remote device model nr:'', ''# Remote device info url:'',
         ''# Does remote device has a bundled capture device e. g., a'',
         ''#     usb dongle? :'', ''# For bundled USB devices: usb vendor id, product id'',
         ''#     and device string (use dmesg or lsusb):'', ''# Type of device controlled'',
         ''#     (TV, VCR, Audio, DVD, Satellite, Cable, HTPC, ...) :'',
         ''# Device(s) controlled by this remote:'', '''']"

section \<open>The head of a remote\<close>

primrec flags_text :: "(string \<times> 32 word) list \<Rightarrow> 32 word \<Rightarrow> bool \<Rightarrow> string" where
  "flags_text [] flags started = (if started then [newline] else [])"
| "flags_text (e # es) flags started =
     (if flags AND snd e \<noteq> 0
      then (if started then ''|'' else ''  flags '') @ fst e @ flags_text es (flags AND NOT (snd e)) True
      else flags_text es flags started)"

definition fprint_flags :: "32 word \<Rightarrow> string" where
  "fprint_flags flags = flags_text all_flags flags False"

definition fprint_remote_gap :: "ir_remote \<Rightarrow> string" where
  "fprint_remote_gap rem =
     (if r_gap2 rem \<noteq> 0
      then ''  gap          '' @ fmt_u 0 (r_gap rem) @ '' '' @ fmt_u 0 (r_gap2 rem) @ [newline]
      else ''  gap          '' @ fmt_u 0 (r_gap rem) @ [newline])"

text \<open>A line with one value, and one with a pulse and a space.\<close>

definition put_line :: "string \<Rightarrow> string \<Rightarrow> string" where
  "put_line label v = label @ v @ [newline]"

definition put_pair :: "string \<Rightarrow> lirc_t \<Rightarrow> lirc_t \<Rightarrow> string" where
  "put_pair label p s = label @ fmt_u 5 p @ '' '' @ fmt_u 5 s @ [newline]"

definition put_if :: "bool \<Rightarrow> string \<Rightarrow> string" where
  "put_if c s = (if c then s else [])"

text \<open>The lengths of the pulses and spaces.\<close>

definition head_pulses :: "ir_remote \<Rightarrow> string" where
  "head_pulses rem =
     put_if (\<not> is_raw rem)
       (put_if (has_header rem) (put_pair ''  header      '' (r_phead rem) (r_shead rem))
        @ put_if (r_pthree rem \<noteq> 0 \<or> r_sthree rem \<noteq> 0) (put_pair ''  three       '' (r_pthree rem) (r_sthree rem))
        @ put_if (r_ptwo rem \<noteq> 0 \<or> r_stwo rem \<noteq> 0) (put_pair ''  two         '' (r_ptwo rem) (r_stwo rem))
        @ put_pair ''  one         '' (r_pone rem) (r_sone rem)
        @ put_pair ''  zero        '' (r_pzero rem) (r_szero rem))
     @ put_if (r_ptrail rem \<noteq> 0) (put_line ''  ptrail      '' (fmt_u 5 (r_ptrail rem)))
     @ put_if (\<not> is_raw rem)
       (put_if (r_plead rem \<noteq> 0) (put_line ''  plead       '' (fmt_u 5 (r_plead rem)))
        @ put_if (has_foot rem) (put_pair ''  foot        '' (r_pfoot rem) (r_sfoot rem)))
     @ put_if (has_repeat rem) (put_pair ''  repeat      '' (r_prepeat rem) (r_srepeat rem))"

definition head_data :: "ir_remote \<Rightarrow> string" where
  "head_data rem =
     put_if (\<not> is_raw rem)
       (put_if (r_pre_data_bits rem > 0)
          (put_line ''  pre_data_bits   '' (fmt_d 0 (r_pre_data_bits rem))
           @ put_line ''  pre_data       '' (hex_code (r_pre_data rem)))
        @ put_if (r_post_data_bits rem > 0)
          (put_line ''  post_data_bits  '' (fmt_d 0 (r_post_data_bits rem))
           @ put_line ''  post_data      '' (hex_code (r_post_data rem)))
        @ put_if (r_pre_p rem \<noteq> 0 \<and> r_pre_s rem \<noteq> 0) (put_pair ''  pre         '' (r_pre_p rem) (r_pre_s rem))
        @ put_if (r_post_p rem \<noteq> 0 \<and> r_post_s rem \<noteq> 0) (put_pair ''  post        '' (r_post_p rem) (r_post_s rem)))"

definition head_repeats :: "ir_remote \<Rightarrow> string" where
  "head_repeats rem =
     put_if (has_repeat_gap rem) (put_line ''  repeat_gap   '' (fmt_u 0 (r_repeat_gap rem)))
     @ put_if (r_suppress_repeat rem > 0) (put_line ''  suppress_repeat '' (fmt_d 0 (r_suppress_repeat rem)))
     @ put_if (r_min_repeat rem > 0)
       (put_line ''  min_repeat      '' (fmt_d 0 (r_min_repeat rem))
        @ put_if (r_suppress_repeat rem = 0)
          (put_line ''#  suppress_repeat '' (fmt_d 0 (r_min_repeat rem))
           @ put_line ''#  uncomment to suppress unwanted repeats'' []))"

text \<open>The parity is printed as N, whatever it is.\<close>

definition serial_mode_text :: "ir_remote \<Rightarrow> string" where
  "serial_mode_text rem =
     fmt_d 0 (r_bits_in_byte rem) @ ''N'' @ fmt_d 0 (r_stop_bits rem div 2)
     @ (if r_stop_bits rem mod 2 \<noteq> 0 then ''.5'' else [])"

definition head_masks :: "ir_remote \<Rightarrow> string" where
  "head_masks rem =
     put_if (\<not> is_raw rem)
       (put_if (r_min_code_repeat rem > 0) (put_line ''  min_code_repeat '' (fmt_d 0 (r_min_code_repeat rem)))
        @ put_line ''  toggle_bit_mask '' (hex_code (r_toggle_bit_mask rem))
        @ put_if (has_toggle_mask rem) (put_line ''  toggle_mask    '' (hex_code (r_toggle_mask rem)))
        @ put_if (r_repeat_mask rem \<noteq> 0) (put_line ''  repeat_mask    '' (hex_code (r_repeat_mask rem)))
        @ put_if (r_rc6_mask rem \<noteq> 0) (put_line ''  rc6_mask    '' (hex_code (r_rc6_mask rem)))
        @ put_if (has_ignore_mask rem) (put_line ''  ignore_mask '' (hex_code (r_ignore_mask rem)))
        @ put_if (is_serial rem)
          (put_line ''  baud            '' (fmt_d 0 (r_baud rem))
           @ put_line ''  serial_mode     '' (serial_mode_text rem)))
     @ put_if (r_freq rem \<noteq> 0) (put_line ''  frequency    '' (fmt_u 0 (r_freq rem)))
     @ put_if (r_duty_cycle rem \<noteq> 0) (put_line ''  duty_cycle   '' (fmt_u 0 (r_duty_cycle rem)))"

definition fprint_remote_head :: "ir_remote \<Rightarrow> string" where
  "fprint_remote_head rem =
     put_line ''begin remote'' [] @ [newline]
     @ put_line ''  name  '' (r_name rem)
     @ put_if (r_manual_sort rem \<noteq> 0) (put_line ''  manual_sort  '' (fmt_d 0 (r_manual_sort rem)))
     @ put_if (r_driver rem \<noteq> []) (put_line ''  driver '' (r_driver rem))
     @ put_if (\<not> is_raw rem) (put_line ''  bits        '' (fmt_d 5 (r_bits rem)))
     @ fprint_flags (r_flags rem)
     @ put_line ''  eps         '' (fmt_d 5 (r_eps rem))
     @ put_line ''  aeps        '' (fmt_d 5 (r_aeps rem)) @ [newline]
     @ head_pulses rem @ head_data rem @ fprint_remote_gap rem @ head_repeats rem @ head_masks rem
     @ [newline]"

definition fprint_remote_foot :: "ir_remote \<Rightarrow> string" where
  "fprint_remote_foot rem = put_line ''end remote'' []"

section \<open>The codes\<close>

definition fprint_remote_signal_head :: "ir_remote \<Rightarrow> string" where
  "fprint_remote_signal_head rem =
     (if \<not> is_raw rem then put_line ''      begin codes'' [] else put_line ''      begin raw_codes'' [] @ [newline])"

definition fprint_remote_signal_foot :: "ir_remote \<Rightarrow> string" where
  "fprint_remote_signal_foot rem =
     (if \<not> is_raw rem then put_line ''      end codes'' [] else put_line ''      end raw_codes'' []) @ [newline]"

text \<open>The signals of a raw button: six in a line; \<open>j\<close> counts those of the line.\<close>

fun raw_signals_text :: "nat \<Rightarrow> lirc_t list \<Rightarrow> string" where
  "raw_signals_text j [] = (if j = 0 then [newline] else [newline, newline])"
| "raw_signals_text j (x # xs) =
     (if j = 0 then ''          '' @ fmt_u 7 x @ raw_signals_text 1 xs
      else if j < 5 then '' '' @ fmt_u 7 x @ raw_signals_text (j + 1) xs
      else '' '' @ fmt_u 7 x @ [newline] @ raw_signals_text 0 xs)"

definition raw_signals :: "ir_ncode \<Rightarrow> lirc_t list" where
  "raw_signals code = take (nat (nc_length code)) (case nc_signals code of Some xs \<Rightarrow> xs | None \<Rightarrow> [])"

definition fprint_remote_signal :: "ir_remote \<Rightarrow> ir_ncode \<Rightarrow> string" where
  "fprint_remote_signal rem code =
     (if \<not> is_raw rem then
        (let w = (r_bits rem + 3) sdiv 4
         in ''          '' @ pad_right 24 (nc_name code) @ '' '' @ fmt_X w (unat (nc_code code))
            @ concat (map (\<lambda>c. '' '' @ fmt_X w (unat c mod 2 ^ 32)) (nc_next code)) @ [newline])
      else
        put_line ''          name '' (nc_name code) @ raw_signals_text 0 (raw_signals code))"

text \<open>\<open>None\<close>: the codes are NULL, or a raw button has more signals than its array.\<close>

definition fprint_remote_signals :: "ir_remote \<Rightarrow> string option" where
  "fprint_remote_signals rem =
     (case r_codes rem of
        None \<Rightarrow> None
      | Some codes \<Rightarrow>
          if is_raw rem \<and> (\<exists>c\<in>set codes. int (length (raw_signals c)) < nc_length c) then None
          else Some (fprint_remote_signal_head rem
          @ concat (map (fprint_remote_signal rem) codes) @ fprint_remote_signal_foot rem))"

section \<open>Remotes\<close>

text \<open>A remote whose \<open>codes\<close> is NULL is followed without a test.\<close>

definition fprint_remote :: "comment \<Rightarrow> ir_remote \<Rightarrow> string option \<Rightarrow> string option" where
  "fprint_remote cm rem commandline =
     (case fprint_remote_signals rem of
        None \<Rightarrow> None
      | Some s \<Rightarrow> Some (fprint_comment cm rem commandline @ fprint_remote_head rem @ s @ fprint_remote_foot rem))"

primrec fprint_remotes :: "comment \<Rightarrow> ir_remote list \<Rightarrow> string option \<Rightarrow> string option" where
  "fprint_remotes cm [] commandline = Some []"
| "fprint_remotes cm (rem # all) commandline =
     (case fprint_remote cm rem commandline of
        None \<Rightarrow> None
      | Some s \<Rightarrow> map_option (\<lambda>t. s @ [newline, newline] @ t) (fprint_remotes cm all commandline))"

end
