(* ===== verification/Printed_Values.thy ===== *)
theory Printed_Values
  imports Dump_Config
begin

text \<open>
  What the parser reads where \<open>Dump_Config\<close> has written: the tokens of a printed line, and the
  numbers of the conversions \<open>%d\<close>, \<open>%u\<close> and \<open>%llX\<close>.
\<close>

section \<open>Words\<close>

text \<open>Words can be printed as the value of a parameter: a line with one of them has it as a token.\<close>

definition blanks :: "char set" where
  "blanks = {CHR '' '', CHR 0x09, newline, carriage_return}"

definition word_ok :: "string \<Rightarrow> bool" where
  "word_ok w \<longleftrightarrow> w \<noteq> [] \<and> set w \<inter> blanks = {}"

lemma word_okD:
  assumes "word_ok w"
  shows "w \<noteq> []" "set w \<inter> set whitespace = {}" "newline \<notin> set w" "carriage_return \<notin> set w"
  using assms by (auto simp: word_ok_def blanks_def whitespace_def)

lemma strtok_skip: "c \<in> set ds \<Longrightarrow> strtok ds (c # s) = strtok ds s"
  by (simp add: strtok_def)

lemma strtok_here:
  "c \<notin> set ds \<Longrightarrow> strtok ds (c # s)
     = Some (c # takeWhile (\<lambda>c. c \<notin> set ds) s, drop 1 (dropWhile (\<lambda>c. c \<notin> set ds) s))"
  by (simp add: strtok_def)

lemma whitespace_set: "set whitespace = {CHR '' '', CHR 0x09}"
  by (simp add: whitespace_def)

lemma strtok_word:
  assumes "word_ok w"
  shows "strtok whitespace (pad_left n CHR '' '' w) = Some (w, [])"
    "strtok whitespace (pad_left n CHR '' '' w @ CHR '' '' # r) = Some (w, r)"
    "strtok whitespace w = Some (w, [])" "strtok whitespace (w @ CHR '' '' # r) = Some (w, r)"
proof -
  have ws: "set (replicate k CHR '' '') \<subseteq> set whitespace" for k by (auto simp: whitespace_set)
  have sp: "CHR '' '' \<in> set whitespace" by (simp add: whitespace_set)
  note tok = strtok_token [OF ws word_okD(1) [OF assms] word_okD(2) [OF assms] sp]
  show "strtok whitespace (pad_left n CHR '' '' w) = Some (w, [])"
    "strtok whitespace (pad_left n CHR '' '' w @ CHR '' '' # r) = Some (w, r)"
    using tok by (simp_all add: pad_left_def)
  show "strtok whitespace w = Some (w, [])" "strtok whitespace (w @ CHR '' '' # r) = Some (w, r)"
    using tok [of 0] by simp_all
qed

lemma strtok_Nil [simp]: "strtok ds [] = None"
  by (simp add: strtok_def)

lemma pad_right_word:
  assumes "word_ok w"
  shows "\<exists>k. strtok whitespace (pad_right n w @ CHR '' '' # r) = Some (w, replicate k CHR '' '' @ r)"
proof (cases "n - length w")
  case 0
  then show ?thesis using strtok_word(4) [OF assms, of r] by (intro exI [of _ 0]) (simp add: pad_right_def)
next
  case (Suc k)
  then show ?thesis using strtok_word(4) [OF assms, of "replicate k CHR '' '' @ CHR '' '' # r"]
    by (intro exI [of _ "Suc k"]) (simp add: pad_right_def replicate_app_Cons_same)
qed

lemma strtok_replicate: "strtok whitespace (replicate k CHR '' '' @ s) = strtok whitespace s"
  by (induction k) (simp_all add: strtok_skip whitespace_set)

section \<open>Digits\<close>

lemma show_base_word: "2 \<le> b \<Longrightarrow> b \<le> 16 \<Longrightarrow> c \<in> set (show_base b n) \<Longrightarrow> c \<notin> blanks"
  using is_digit_chars(1) [OF show_base_digits [of b c n]]
  by (auto simp: blanks_def c_isspace_def)

lemma decimal_word: "word_ok (decimal n)"
  using show_base_word [of 10] by (auto simp: word_ok_def decimal_def)

lemma signed_word: "word_ok (signed_decimal n)"
  using decimal_word by (auto simp: word_ok_def signed_decimal_def blanks_def)

lemma takeWhile_digits: "2 \<le> b \<Longrightarrow> b \<le> 16 \<Longrightarrow> takeWhile (is_digit_of b) (show_base b n) = show_base b n"
  by (rule takeWhile_eq_all_conv [THEN iffD2]) (auto dest: show_base_digits)

lemma show_base_hd:
  assumes "0 < n" "2 \<le> b" "b \<le> 16"
  shows "hd (show_base b n) \<noteq> CHR ''0''"
proof -
  let ?d = "hd (digits_of b n)"
  have "?d < 16" using digits_of_less [of b _ n] hd_in_set [OF digits_of_not_Nil, of b n] assms by fastforce
  then have "digit_val (digit_char ?d) = ?d" by (rule digit_val_char)
  moreover have "digit_val (CHR ''0'') = 0" by (simp add: digit_val_def char_code_def)
  ultimately have "digit_char ?d \<noteq> CHR ''0''" using digits_of_hd [OF assms(1,2)] by metis
  then show ?thesis by (simp add: show_base_def list.map_sel(1))
qed

lemma show_base_0: "2 \<le> b \<Longrightarrow> show_base b 0 = ''0''"
proof -
  have "digit_char 0 = CHR ''0''" by code_simp
  then show "2 \<le> b \<Longrightarrow> show_base b 0 = ''0''" by (simp add: show_base_def digits_of.simps [of b 0])
qed

lemma scan_decimal: "scan_number 0 (decimal n) = (Some (False, n), [])"
proof (cases "n = 0")
  case True
  then show ?thesis
    by (simp add: decimal_def show_base_0 scan_number_def skip_space_def c_isspace_def scan_sign_def
        scan_base_def is_digit_of_def c_digit_def char_code_def digits_value_def)
next
  case False
  obtain c s where s: "decimal n = c # s" by (cases "decimal n") (auto simp: decimal_def)
  have c: "is_digit_of 10 c" using show_base_digits [of 10 c n] s by (simp add: decimal_def)
  have "skip_space (decimal n) = decimal n" "scan_sign (decimal n) = (False, decimal n)"
    using is_digit_chars [OF c] by (simp_all add: s skip_space_def scan_sign_def)
  moreover have "c \<noteq> CHR ''0''" using show_base_hd [of n 10] False s by (simp add: decimal_def)
  then have "scan_base 0 (decimal n) = (10, decimal n)"
    by (auto simp: s scan_base_def Let_def split: list.splits)
  ultimately show ?thesis
    by (simp add: takeWhile_digits scan_number_def decimal_def digits_value_show dropWhile_eq_Nil_conv show_base_digits Let_def)
qed

lemma scan_signed: "scan_number 0 (signed_decimal n) = (Some (n < 0, nat (abs n)), [])"
proof (cases "n < 0")
  case True
  obtain c s where s: "decimal (nat (- n)) = c # s" by (cases "decimal (nat (- n))") (auto simp: decimal_def)
  have "skip_space (decimal (nat (- n))) = decimal (nat (- n))" "scan_sign (decimal (nat (- n))) = (False, decimal (nat (- n)))"
    using is_digit_chars [OF show_base_digits [of 10 c "nat (- n)"]] s
    by (simp_all add: s [unfolded decimal_def] decimal_def skip_space_def scan_sign_def)
  then show ?thesis using scan_decimal [of "nat (- n)"] True
    by (auto simp: scan_number_def signed_decimal_def skip_space_def c_isspace_def scan_sign_def Let_def split: prod.splits if_splits)
qed (simp add: signed_decimal_def scan_decimal)

lemma strtoi_signed: "in_s32 n \<Longrightarrow> s_strtoi (signed_decimal n) = (n, False)"
  using word_okD(1) [OF signed_word [of n]]
  by (auto simp: s_strtoi_def strtol_def scan_signed Let_def in_s32_def)

lemma strtoul_decimal: "in_u32 n \<Longrightarrow> strtoul 0 (decimal (nat n)) = (n, False, [])"
  by (auto simp: strtoul_def strtoul_bits_def scan_decimal in_u32_def)

lemma u32_s32 [simp]: "u32 (s32 x) = u32 x"
  by (simp add: u32_def s32_def mod_diff_left_eq)

lemma strto_decimal:
  "s_strtou32 (decimal (nat (u32 x))) = (u32 x, False)"
  "s_strtoui (decimal (nat (u32 x))) = (u32 x, False)"
  "s_strtolirc_t (decimal (nat (u32 x))) = (s32 x, False)"
  using strtoul_decimal [OF in_u32_u32, of x] word_okD(1) [OF decimal_word [of "nat (u32 x)"]]
  by (simp_all add: s_strtou32_def s_strtoui_def s_strtolirc_t_def Let_def)


section \<open>Hexadecimal digits\<close>

definition upper_digit :: "nat \<Rightarrow> char" where
  "upper_digit d = (if d < 10 then char_of (48 + d) else char_of (55 + d))"

lemma upper_hex_digits: "upper_hex n = map upper_digit (digits_of 16 n)"
proof -
  have "(if 97 \<le> char_code (digit_char d) then char_of (char_code (digit_char d) - 32) else digit_char d)
      = upper_digit d" if "d < 16" for d
    using that by (auto simp: digit_char_def upper_digit_def char_code_def)
  then show ?thesis
    using digits_of_less [of 16 _ n] by (simp add: upper_hex_def show_base_def)
qed

lemma c_digit_upper: "d < 16 \<Longrightarrow> c_digit (upper_digit d) = Some d"
  by (auto simp: c_digit_def upper_digit_def char_code_def Let_def)

lemma zero_digit: "CHR ''0'' = upper_digit 0"
  by code_simp

lemma upper_value:
  "\<forall>d\<in>set ds. d < 16 \<Longrightarrow> digits_value 16 (map upper_digit ds) = foldl (\<lambda>v d. v * 16 + d) 0 ds"
proof -
  have "foldl (\<lambda>v c. v * 16 + the (c_digit c)) a (map upper_digit ds) = foldl (\<lambda>v d. v * 16 + d) a ds"
    if "\<forall>d\<in>set ds. d < 16" for a
    using that by (induction ds arbitrary: a) (auto simp: c_digit_upper)
  then show "\<forall>d\<in>set ds. d < 16 \<Longrightarrow> ?thesis" by (simp add: digits_value_def)
qed

lemma fmt_X_digits:
  assumes "0 \<le> w"
  obtains ds where "fmt_X w n = ''0x'' @ map upper_digit ds" "ds \<noteq> []" "\<forall>d\<in>set ds. d < 16"
    "foldl (\<lambda>v d. v * 16 + d) 0 ds = n"
proof
  let ?k = "nat w - length (digits_of 16 n)"
  let ?ds = "replicate ?k 0 @ digits_of 16 n"
  show "fmt_X w n = ''0x'' @ map upper_digit ?ds"
    using assms by (simp add: fmt_X_def pad_left_def upper_hex_digits zero_digit)
  show "\<forall>d\<in>set ?ds. d < 16" using digits_of_less [of 16 _ n] by auto
  have "foldl (\<lambda>v d. v * 16 + d) 0 (replicate k 0) = (0 :: nat)" for k by (induction k) simp_all
  then show "foldl (\<lambda>v d. v * 16 + d) 0 ?ds = n" by (simp add: foldl_digits_of)
qed simp

lemma upper_digit_of: "d < 16 \<Longrightarrow> is_digit_of 16 (upper_digit d)"
  by (simp add: is_digit_of_def c_digit_upper)

lemma fmt_X_word:
  assumes "0 \<le> w"
  shows "word_ok (fmt_X w n)"
proof -
  obtain ds where ds: "fmt_X w n = ''0x'' @ map upper_digit ds" "\<forall>d\<in>set ds. d < 16"
    using fmt_X_digits [OF assms] by metis
  have "upper_digit d \<notin> blanks" if "d < 16" for d
    using is_digit_chars(1) [OF upper_digit_of [OF that]] by (auto simp: blanks_def c_isspace_def)
  then have "set (map upper_digit ds) \<inter> blanks = {}" using ds(2) by auto
  moreover have "CHR ''0'' \<notin> blanks" "CHR ''x'' \<notin> blanks" by (simp_all add: blanks_def)
  ultimately show ?thesis unfolding ds(1) word_ok_def by simp
qed

lemma scan_hex:
  assumes "0 \<le> w"
  shows "scan_number 0 (fmt_X w n) = (Some (False, n), [])"
proof -
  obtain ds where ds: "fmt_X w n = ''0x'' @ map upper_digit ds" "ds \<noteq> []" "\<forall>d\<in>set ds. d < 16"
    "foldl (\<lambda>v d. v * 16 + d) 0 ds = n"
    using fmt_X_digits [OF assms] by metis
  let ?u = "map upper_digit ds"
  have all: "\<forall>c\<in>set ?u. is_digit_of 16 c" using ds(3) by (auto simp: upper_digit_of)
  then have tw: "takeWhile (is_digit_of 16) ?u = ?u" "dropWhile (is_digit_of 16) ?u = []"
    by (simp_all only: takeWhile_eq_all_conv dropWhile_eq_Nil_conv)
  have "scan_base 0 (''0x'' @ ?u) = (16, ?u)"
    using ds(2) all by (cases ds) (simp_all add: scan_base_def)
  moreover have "scan_sign (skip_space (''0x'' @ ?u)) = (False, ''0x'' @ ?u)"
    by (simp add: skip_space_def c_isspace_def scan_sign_def)
  ultimately show ?thesis
    using ds(2) upper_value [OF ds(3)] by (simp add: scan_number_def ds(1,4) tw Let_def)
qed

lemma strtocode_hex:
  assumes "0 \<le> w" "n < 2 ^ 64"
  shows "s_strtocode (fmt_X w n) = (word_of_nat n, False)"
proof -
  have "fmt_X w n \<noteq> []" using word_okD(1) [OF fmt_X_word [OF assms(1)]] .
  then show ?thesis using assms(2)
    by (simp add: s_strtocode_def strtoull_def strtoul_bits_def scan_hex [OF assms(1)])
qed

lemma strtocode_code [simp]: "s_strtocode (hex_code c) = (c, False)"
proof -
  have "unat c < 2 ^ LENGTH(64)" by (rule unsigned_less)
  then show ?thesis using strtocode_hex [of 0 "unat c"] by simp
qed

section \<open>Lengths\<close>

lemma length_decimal: "in_u32 n \<Longrightarrow> length (decimal (nat n)) \<le> 10"
proof -
  assume "in_u32 n"
  then have "nat n < 10 ^ 10" by (simp add: in_u32_def nat_less_iff)
  then show ?thesis using length_digits_of [of 10 10 "nat n"] by (simp add: decimal_def show_base_def)
qed

lemma length_printed: "length (decimal (nat (u32 x))) \<le> 10" "length (signed_decimal (s32 x)) \<le> 11"
proof -
  show "length (decimal (nat (u32 x))) \<le> 10" by (rule length_decimal) simp
  have "in_s32 (s32 x)" by simp
  then have "in_u32 (abs (s32 x))" unfolding in_s32_def in_u32_def by linarith
  then show "length (signed_decimal (s32 x)) \<le> 11"
    using length_decimal [of "abs (s32 x)"] by (auto simp: signed_decimal_def)
qed

lemma length_fmt_X:
  assumes "0 \<le> w" "n < 2 ^ 64"
  shows "length (fmt_X w n) \<le> nat w + 18"
proof -
  have "n < 16 ^ 16" using assms(2) by simp
  then have "length (digits_of 16 n) \<le> 16" by (intro length_digits_of) simp_all
  then show ?thesis using assms(1) by (simp add: fmt_X_def upper_hex_digits pad_left_def)
qed

lemma length_hex_code: "length (hex_code c) \<le> 18"
proof -
  have "unat c < 2 ^ LENGTH(64)" by (rule unsigned_less)
  then show ?thesis using length_fmt_X [of 0 "unat c"] by simp
qed

end
