(* ===== verification/Dump_Head.thy ===== *)
theory Dump_Head
  imports Printed_Values Config_Reader_Spec
begin

text \<open>
  The parser reads back the head of a remote that \<open>fprint_remote_head\<close> has written: the lines
  of the parameters, one by one, as a relation between the remote before and after them.
\<close>

section \<open>Text inside a remote\<close>

text \<open>
  Read inside a section \<open>remote\<close>, the text \<open>s\<close> turns the remote \<open>r\<close> into \<open>r'\<close> and changes
  nothing else, whatever comes behind it.
\<close>

definition reads :: "string \<Rightarrow> ir_remote \<Rightarrow> ir_remote \<Rightarrow> bool" where
  "reads s r r' \<longleftrightarrow> (\<forall>env child depth name st i rest.
     \<not> ce_dynamic_codes env \<longrightarrow> ps_mode st = ID_remote \<longrightarrow> ps_rem st = Some i \<longrightarrow> i < length (ps_store st)
     \<longrightarrow> ps_store st ! i = r \<longrightarrow> \<not> ps_err st
     \<longrightarrow> parse_lines env child depth name (s @ rest) st
       = parse_lines env child depth name rest (st\<lparr>ps_store := (ps_store st)[i := r']\<rparr>))"

lemma readsD:
  assumes "reads s r r'" "\<not> ce_dynamic_codes env" "ps_mode st = ID_remote" "ps_rem st = Some i"
    "i < length (ps_store st)" "ps_store st ! i = r" "\<not> ps_err st"
  shows "parse_lines env child depth name (s @ rest) st
    = parse_lines env child depth name rest (st\<lparr>ps_store := (ps_store st)[i := r']\<rparr>)"
  using assms unfolding reads_def by blast

named_theorems read_intros "what the parser makes of a printed text"

lemma same_store: "ps_store st ! i = r \<Longrightarrow> st\<lparr>ps_store := (ps_store st)[i := r]\<rparr> = st"
  by auto

lemma reads_Nil [read_intros]: "reads [] r r"
  by (simp add: reads_def same_store)

lemma reads_append [read_intros]: "reads s r r1 \<Longrightarrow> reads t r1 r' \<Longrightarrow> reads (s @ t) r r'"
  by (simp add: reads_def)

lemma reads_if [read_intros]: "(c \<Longrightarrow> reads s r r') \<Longrightarrow> (\<not> c \<Longrightarrow> r' = r) \<Longrightarrow> reads (put_if c s) r r'"
  by (auto simp: put_if_def reads_Nil)

text \<open>A line that leaves the remote alone.\<close>

lemma reads_idle:
  assumes "newline \<notin> set l" "length l + 1 < LINE_LEN"
    and "\<And>env child depth name st. parse_line env child depth name (l @ [newline]) st = Some st"
  shows "reads (l @ [newline]) r r"
  using assms by (simp add: reads_def parse_lines_Cons same_store)

lemma parse_line_blank: "parse_line env child depth name [newline] st = Some st"
  by (simp add: parse_line_def chop_def LINE_LEN_def)

lemma parse_line_comment: "carriage_return \<notin> set l \<Longrightarrow> parse_line env child depth name ((CHR ''#'' # l) @ [newline]) st = Some st"
  using chop_line [of "CHR ''#'' # l"] by (simp add: parse_line_def Let_def)

lemma reads_blank [read_intros]: "reads [newline] r r"
  using reads_idle [of "[]" r] parse_line_blank by (simp add: LINE_LEN_def)

section \<open>The line of a parameter\<close>

definition plain_key :: "string \<Rightarrow> bool" where
  "plain_key key \<longleftrightarrow> \<not> strcasecmp_eq ''include'' key \<and> \<not> strcasecmp_eq ''begin'' key \<and> \<not> strcasecmp_eq ''end'' key"

lemma reads_tokens:
  assumes "newline \<notin> set l" "carriage_return \<notin> set l" "length l + 1 < LINE_LEN" "hd l \<noteq> CHR ''#''"
    and "strtok whitespace l = Some (key, resta)" "strtok whitespace resta = Some (v, restb)"
    and "valb = map_option fst (strtok whitespace restb)" "plain_key key"
    and "defineRemote False key v valb r = (r', argc, False)"
  shows "reads (l @ [newline]) r r'"
  unfolding reads_def
proof (intro allI impI)
  fix env :: config_env and child depth name and st :: parse_state and i rest
  assume st: "\<not> ce_dynamic_codes env" "ps_mode st = ID_remote" "ps_rem st = Some i" "i < length (ps_store st)"
    "ps_store st ! i = r" "\<not> ps_err st"
  have "l \<noteq> []" using assms(5) by (auto simp: strtok_def)
  then have "parse_line env child depth name (l @ [newline]) st = parse_tokens env child depth name key resta st"
    using assms(1-5) by (intro parse_line_tokens) auto
  also have "\<dots> = remote_line False key v valb st"
    using assms(6-8) st by (simp add: parse_tokens_def plain_key_def mode_line_def split: option.split)
  also have "\<dots> = Some (st\<lparr>ps_store := (ps_store st)[i := r']\<rparr>)"
    using assms(9) st by (simp add: remote_line_def the_rem_def set_rem_def)
  finally show "parse_lines env child depth name ((l @ [newline]) @ rest) st
      = parse_lines env child depth name rest (st\<lparr>ps_store := (ps_store st)[i := r']\<rparr>)"
    using assms(1,3) st(6) by (simp add: parse_lines_Cons)
qed

text \<open>The label of a line: two blanks, the name of the parameter and more blanks.\<close>

definition label_of :: "string \<Rightarrow> nat \<Rightarrow> string" where
  "label_of key b = ''  '' @ key @ replicate (Suc b) CHR '' ''"

lemma label_tokens: "word_ok key \<Longrightarrow> strtok whitespace (label_of key b @ x) = Some (key, replicate b CHR '' '' @ x)"
  using strtok_word(4) [of key "replicate b CHR '' '' @ x"]
  by (simp add: label_of_def strtok_skip whitespace_set)

lemma blanks_pad: "set (pad_left n CHR '' '' v) \<subseteq> insert CHR '' '' (set v)"
  by (auto simp: pad_left_def)

lemma reads_line:
  assumes "label = label_of key b" "word_ok key" "plain_key key" "length label < 60"
    and "word_ok v" "length v < 900" "n < 20"
    and "defineRemote False key v None r = (r', argc, False)"
  shows "reads (put_line label (pad_left n CHR '' '' v)) r r'"
proof -
  let ?l = "label @ pad_left n CHR '' '' v"
  have "newline \<notin> set ?l" "carriage_return \<notin> set ?l" "length ?l + 1 < LINE_LEN" "hd ?l \<noteq> CHR ''#''"
    using word_okD(3,4) [OF assms(2)] word_okD(3,4) [OF assms(5)] blanks_pad [of n v] assms(4,6,7)
    by (auto simp: assms(1) label_of_def LINE_LEN_def pad_left_def)
  then have "reads (?l @ [newline]) r r'"
    by (rule reads_tokens [where key = key and v = v and resta = "replicate b CHR '' '' @ pad_left n CHR '' '' v" and restb = "[]"])
      (use assms(3,8) label_tokens [OF assms(2), of b] strtok_word(1) [OF assms(5), of n]
        in \<open>simp_all add: assms(1) strtok_replicate\<close>)
  then show ?thesis by (simp add: put_line_def)
qed

lemma reads_pair:
  assumes "label = label_of key b" "word_ok key" "plain_key key" "length label < 60"
    and "n < 20" "m < 20"
    and "defineRemote False key (decimal (nat (u32 x))) (Some (decimal (nat (u32 y)))) r = (r', argc, False)"
  shows "reads (label @ fmt_u n x @ '' '' @ fmt_u m y @ [newline]) r r'"
proof -
  let ?x = "decimal (nat (u32 x))" and ?y = "decimal (nat (u32 y))"
  let ?l = "label @ fmt_u n x @ '' '' @ fmt_u m y"
  have "newline \<notin> set ?l" "carriage_return \<notin> set ?l" "length ?l + 1 < LINE_LEN" "hd ?l \<noteq> CHR ''#''"
    using word_okD(3,4) [OF assms(2)] word_okD(3,4) [OF decimal_word] length_printed(1) [of x] length_printed(1) [of y]
      assms(4-6)
    by (auto simp: assms(1) label_of_def LINE_LEN_def pad_left_def fmt_u_def)
  then have "reads (?l @ [newline]) r r'"
    by (rule reads_tokens [where key = key and v = ?x
        and resta = "replicate b CHR '' '' @ fmt_u n x @ CHR '' '' # fmt_u m y" and restb = "pad_left m CHR '' '' ?y" and valb = "Some ?y"])
      (use assms(3,7) label_tokens [OF assms(2), of b] strtok_word(2) [OF decimal_word, of n "nat (u32 x)"]
        strtok_word(1) [OF decimal_word, of m "nat (u32 y)"]
        in \<open>simp_all add: assms(1) strtok_replicate fmt_u_def\<close>)
  then show ?thesis by simp
qed

section \<open>Kinds of parameters\<close>

definition good_label :: "string \<Rightarrow> string \<Rightarrow> bool" where
  "good_label label key \<longleftrightarrow> (\<exists>b. label = label_of key b) \<and> word_ok key \<and> plain_key key \<and> length label < 60"

lemma reads_value:
  assumes "good_label label key" "word_ok v" "length v < 900" "n < 20"
    and "defineRemote False key v None r = (r', argc, False)"
  shows "reads (put_line label (pad_left n CHR '' '' v)) r r'"
  using assms reads_line [of label key] by (auto simp: good_label_def)

lemma reads_signed:
  assumes "good_label label key" "n < 20" "\<And>v. defineRemote False key v None r = define1 f (s_strtoi v)"
  shows "reads (put_line label (fmt_d n x)) r (f (s32 x))"
  using length_printed(2) [of x] assms signed_word
  by (auto simp: fmt_d_def define1_def strtoi_signed intro!: reads_value [where argc = 1 and key = key])

lemma reads_unsigned:
  assumes "good_label label key" "n < 20" "\<And>v. defineRemote False key v None r = (f v, 1, err v)"
    and "\<not> err (decimal (nat (u32 x)))"
  shows "reads (put_line label (fmt_u n x)) r (f (decimal (nat (u32 x))))"
  using length_printed(1) [of x] assms decimal_word
  by (auto simp: fmt_u_def intro!: reads_value [where argc = 1 and key = key])

lemma reads_code:
  assumes "good_label label key" "\<And>v. defineRemote False key v None r = define1 f (s_strtocode v)"
  shows "reads (put_line label (hex_code c)) r (f c)"
proof -
  have "reads (put_line label (pad_left 0 CHR '' '' (hex_code c))) r (f c)"
    using assms length_hex_code [of c] fmt_X_word
    by (intro reads_value [where argc = 1 and key = key]) (auto simp: define1_def)
  then show ?thesis by (simp add: pad_left_def)
qed

lemma reads_text:
  assumes "good_label label key" "word_ok v" "length v < 900"
    and "defineRemote False key v None r = (r', argc, False)"
  shows "reads (put_line label v) r r'"
  using reads_value [OF assms(1-3), of 0] assms(4) by (simp add: pad_left_def)

lemma reads_two:
  assumes "good_label label key" "\<And>v v2. defineRemote False key v (Some v2) r = define2 f v v2"
  shows "reads (put_pair label x y) r (f (s32 x) (s32 y))"
  using assms reads_pair [of label key _ 5 5 x y r]
  by (auto simp: put_pair_def good_label_def define2_def strto_decimal)

section \<open>The parameters\<close>

lemma strcasecmp_simps:
  "strcasecmp_eq [] [] = True" "strcasecmp_eq (c # s) [] = False" "strcasecmp_eq [] (c # s) = False"
  "strcasecmp_eq (c # s) (d # t) = (c_tolower c = c_tolower d \<and> strcasecmp_eq s t)"
  by (auto simp: strcasecmp_eq_def)

lemmas key_simps = strcasecmp_simps c_tolower_def char_code_def defineRemote_def definePair_def

lemma good_labelI:
  "label = label_of key (length label - length key - 3) \<and> word_ok key \<and> plain_key key \<and> length label < 60 \<Longrightarrow> good_label label key"
  by (auto simp: good_label_def)

lemma labels:
  "good_label ''  manual_sort  '' ''manual_sort''"
  "good_label ''  bits        '' ''bits''"
  "good_label ''  eps         '' ''eps''"
  "good_label ''  aeps        '' ''aeps''"
  "good_label ''  ptrail      '' ''ptrail''"
  "good_label ''  plead       '' ''plead''"
  "good_label ''  pre_data_bits   '' ''pre_data_bits''"
  "good_label ''  pre_data       '' ''pre_data''"
  "good_label ''  post_data_bits  '' ''post_data_bits''"
  "good_label ''  post_data      '' ''post_data''"
  "good_label ''  repeat_gap   '' ''repeat_gap''"
  "good_label ''  suppress_repeat '' ''suppress_repeat''"
  "good_label ''  min_repeat      '' ''min_repeat''"
  "good_label ''  min_code_repeat '' ''min_code_repeat''"
  "good_label ''  toggle_bit_mask '' ''toggle_bit_mask''"
  "good_label ''  toggle_mask    '' ''toggle_mask''"
  "good_label ''  repeat_mask    '' ''repeat_mask''"
  "good_label ''  rc6_mask    '' ''rc6_mask''"
  "good_label ''  ignore_mask '' ''ignore_mask''"
  "good_label ''  baud            '' ''baud''"
  "good_label ''  frequency    '' ''frequency''"
  "good_label ''  duty_cycle   '' ''duty_cycle''"
  "good_label ''  name  '' ''name''"
  "good_label ''  driver '' ''driver''"
  "good_label ''  flags '' ''flags''"
  "good_label ''  gap          '' ''gap''"
  "good_label ''  serial_mode     '' ''serial_mode''"
  "good_label ''  header      '' ''header''"
  "good_label ''  three       '' ''three''"
  "good_label ''  two         '' ''two''"
  "good_label ''  one         '' ''one''"
  "good_label ''  zero        '' ''zero''"
  "good_label ''  foot        '' ''foot''"
  "good_label ''  repeat      '' ''repeat''"
  "good_label ''  pre         '' ''pre''"
  "good_label ''  post        '' ''post''"
  by (rule good_labelI; code_simp)+

lemma define_values:
  "defineRemote False ''manual_sort'' v None r = define1 (\<lambda>x. r\<lparr>r_manual_sort := x\<rparr>) (s_strtoi v)"
  "defineRemote False ''bits'' v None r = define1 (\<lambda>x. r\<lparr>r_bits := x\<rparr>) (s_strtoi v)"
  "defineRemote False ''eps'' v None r = define1 (\<lambda>x. r\<lparr>r_eps := x\<rparr>) (s_strtoi v)"
  "defineRemote False ''aeps'' v None r = define1 (\<lambda>x. r\<lparr>r_aeps := u32 x\<rparr>) (s_strtoi v)"
  "defineRemote False ''ptrail'' v None r = define1 (\<lambda>x. r\<lparr>r_ptrail := x\<rparr>) (s_strtolirc_t v)"
  "defineRemote False ''plead'' v None r = define1 (\<lambda>x. r\<lparr>r_plead := x\<rparr>) (s_strtolirc_t v)"
  "defineRemote False ''pre_data_bits'' v None r = define1 (\<lambda>x. r\<lparr>r_pre_data_bits := x\<rparr>) (s_strtoi v)"
  "defineRemote False ''pre_data'' v None r = define1 (\<lambda>x. r\<lparr>r_pre_data := x\<rparr>) (s_strtocode v)"
  "defineRemote False ''post_data_bits'' v None r = define1 (\<lambda>x. r\<lparr>r_post_data_bits := x\<rparr>) (s_strtoi v)"
  "defineRemote False ''post_data'' v None r = define1 (\<lambda>x. r\<lparr>r_post_data := x\<rparr>) (s_strtocode v)"
  "defineRemote False ''repeat_gap'' v None r = define1 (\<lambda>x. r\<lparr>r_repeat_gap := x\<rparr>) (s_strtou32 v)"
  "defineRemote False ''suppress_repeat'' v None r = define1 (\<lambda>x. r\<lparr>r_suppress_repeat := x\<rparr>) (s_strtoi v)"
  "defineRemote False ''min_repeat'' v None r = define1 (\<lambda>x. r\<lparr>r_min_repeat := x\<rparr>) (s_strtoi v)"
  "defineRemote False ''min_code_repeat'' v None r = define1 (\<lambda>x. r\<lparr>r_min_code_repeat := u32 x\<rparr>) (s_strtoi v)"
  "defineRemote False ''toggle_bit_mask'' v None r = define1 (\<lambda>x. r\<lparr>r_toggle_bit_mask := x\<rparr>) (s_strtocode v)"
  "defineRemote False ''toggle_mask'' v None r = define1 (\<lambda>x. r\<lparr>r_toggle_mask := x\<rparr>) (s_strtocode v)"
  "defineRemote False ''repeat_mask'' v None r = define1 (\<lambda>x. r\<lparr>r_repeat_mask := x\<rparr>) (s_strtocode v)"
  "defineRemote False ''rc6_mask'' v None r = define1 (\<lambda>x. r\<lparr>r_rc6_mask := x\<rparr>) (s_strtocode v)"
  "defineRemote False ''ignore_mask'' v None r = define1 (\<lambda>x. r\<lparr>r_ignore_mask := x\<rparr>) (s_strtocode v)"
  "defineRemote False ''baud'' v None r = define1 (\<lambda>x. r\<lparr>r_baud := x\<rparr>) (s_strtoui v)"
  "defineRemote False ''frequency'' v None r = define1 (\<lambda>x. r\<lparr>r_freq := x\<rparr>) (s_strtoui v)"
  "defineRemote False ''duty_cycle'' v None r = define1 (\<lambda>x. r\<lparr>r_duty_cycle := x\<rparr>) (s_strtoui v)"
  by (simp_all add: key_simps)

lemma define_pairs:
  "defineRemote False ''header'' v (Some v2) r = define2 (\<lambda>p s. r\<lparr>r_phead := p, r_shead := s\<rparr>) v v2"
  "defineRemote False ''three'' v (Some v2) r = define2 (\<lambda>p s. r\<lparr>r_pthree := p, r_sthree := s\<rparr>) v v2"
  "defineRemote False ''two'' v (Some v2) r = define2 (\<lambda>p s. r\<lparr>r_ptwo := p, r_stwo := s\<rparr>) v v2"
  "defineRemote False ''one'' v (Some v2) r = define2 (\<lambda>p s. r\<lparr>r_pone := p, r_sone := s\<rparr>) v v2"
  "defineRemote False ''zero'' v (Some v2) r = define2 (\<lambda>p s. r\<lparr>r_pzero := p, r_szero := s\<rparr>) v v2"
  "defineRemote False ''foot'' v (Some v2) r = define2 (\<lambda>p s. r\<lparr>r_pfoot := p, r_sfoot := s\<rparr>) v v2"
  "defineRemote False ''repeat'' v (Some v2) r = define2 (\<lambda>p s. r\<lparr>r_prepeat := p, r_srepeat := s\<rparr>) v v2"
  "defineRemote False ''pre'' v (Some v2) r = define2 (\<lambda>p s. r\<lparr>r_pre_p := p, r_pre_s := s\<rparr>) v v2"
  "defineRemote False ''post'' v (Some v2) r = define2 (\<lambda>p s. r\<lparr>r_post_p := p, r_post_s := s\<rparr>) v v2"
  by (simp_all add: key_simps)

lemma define_others:
  "defineRemote False ''name'' v val2 r = (r\<lparr>r_name := v\<rparr>, 1, False)"
  "defineRemote False ''driver'' v val2 r = (r\<lparr>r_driver := v\<rparr>, 1, False)"
  "defineRemote False ''flags'' v val2 r = define1 (\<lambda>x. r\<lparr>r_flags := r_flags r OR x\<rparr>) (parseFlags v)"
  "defineRemote False ''gap'' v val2 r = defineGap v val2 r"
  "defineRemote False ''serial_mode'' v val2 r = defineSerialMode v r"
  by (simp_all add: key_simps)

end
