(* ===== verification/Dump_Read.thy ===== *)
theory Dump_Read
  imports Dump_Head
begin

text \<open>
  The head of a remote: the parameters that \<open>fprint_remote_head\<close> writes are those that the
  parser stores.
\<close>

section \<open>The flags\<close>

primrec flag_names :: "(string \<times> 32 word) list \<Rightarrow> 32 word \<Rightarrow> (string \<times> 32 word) list" where
  "flag_names [] flags = []"
| "flag_names (e # es) flags =
     (if flags AND snd e \<noteq> 0 then e # flag_names es (flags AND NOT (snd e)) else flag_names es flags)"

definition barred :: "(string \<times> 32 word) list \<Rightarrow> string" where
  "barred es = concat (map (\<lambda>e. CHR ''|'' # fst e) es)"

lemma flags_text_started: "flags_text es flags True = barred (flag_names es flags) @ [newline]"
  by (induction es arbitrary: flags) (simp_all add: barred_def)

lemma flags_text_names:
  "flags_text es flags False =
     (case flag_names es flags of [] \<Rightarrow> [] | e # r \<Rightarrow> put_line ''  flags '' (fst e @ barred r))"
  by (induction es) (simp_all add: flags_text_started put_line_def)

lemma flag_names_set: "set (flag_names es flags) \<subseteq> set es"
proof (induction es arbitrary: flags)
  case (Cons e es)
  then show ?case using Cons.IH [of flags] Cons.IH [of "flags AND NOT (snd e)"] by auto
qed simp

definition single :: "32 word \<Rightarrow> bool" where
  "single f \<longleftrightarrow> (\<exists>k<32. f = 2 ^ k)"

lemma all_flags_single: "\<forall>e\<in>set all_flags. single (snd e)"
proof -
  have "map snd all_flags = map (\<lambda>k. 2 ^ k) [0, 1, 1, 2, 3, 4, 5, 6, 7, 8, 9, 10, 11, 12, 13, 14, 15]"
    by code_simp
  then have "snd ` set all_flags = (\<lambda>k. 2 ^ k) ` set [0, 1, 1, 2, 3, 4, 5, 6, 7, 8, 9, 10, 11, 12, 13, 14, 15]"
    by (metis list.set_map)
  moreover have "\<forall>k\<in>set [0, 1, 1, 2, 3, 4, 5, 6, 7, 8, 9, 10, 11, 12, 13, 14, 15 :: nat]. single (2 ^ k)"
  proof
    fix k :: nat
    assume "k \<in> set [0, 1, 1, 2, 3, 4, 5, 6, 7, 8, 9, 10, 11, 12, 13, 14, 15]"
    then have "k < 32" by auto
    then show "single (2 ^ k)" unfolding single_def by blast
  qed
  ultimately have "\<forall>f\<in>snd ` set all_flags. single f" by (simp only: ball_simps(9))
  then show ?thesis by blast
qed

lemma bit_single: "bit ((2 ^ k :: 32 word)) i \<longleftrightarrow> i = k \<and> k < 32"
  by (auto simp: bit_exp_iff)

lemma and_single: "k < 32 \<Longrightarrow> flags AND 2 ^ k \<noteq> 0 \<longleftrightarrow> bit (flags :: 32 word) k"
proof
  assume "flags AND 2 ^ k \<noteq> 0"
  then obtain i where "bit (flags AND 2 ^ k) i" using bit_eqI [of "flags AND 2 ^ k" 0] by auto
  then show "bit flags k" by (auto simp: bit_and_iff bit_single)
next
  assume "k < 32" "bit flags k"
  then have "bit (flags AND 2 ^ k) k" by (simp add: bit_and_iff bit_single)
  then show "flags AND 2 ^ k \<noteq> 0" by auto
qed

lemma clear_single: "k < 32 \<Longrightarrow> bit (flags AND NOT (2 ^ k) :: 32 word) i \<longleftrightarrow> bit flags i \<and> i \<noteq> k"
  using bit_imp_le_length [of flags i] by (auto simp: bit_and_iff bit_not_iff bit_single)

definition flags_or :: "32 word \<Rightarrow> (string \<times> 32 word) list \<Rightarrow> 32 word" where
  "flags_or acc es = fold (\<lambda>e a. a OR snd e) es acc"

lemma flags_or_simps [simp]: "flags_or acc [] = acc" "flags_or acc (e # es) = flags_or (acc OR snd e) es"
  by (simp_all add: flags_or_def)

lemma bit_flags_or: "bit (flags_or acc es) i \<longleftrightarrow> bit acc i \<or> (\<exists>e\<in>set es. bit (snd e) i)"
  by (induction es arbitrary: acc) (auto simp: bit_or_iff)

lemma flag_names_bits:
  assumes "\<forall>e\<in>set es. single (snd e)"
  shows "(\<exists>e\<in>set (flag_names es flags). bit (snd e) i) \<longleftrightarrow> bit flags i \<and> (\<exists>e\<in>set es. bit (snd e) i)"
  using assms
proof (induction es arbitrary: flags)
  case (Cons e es)
  obtain k where k: "snd e = 2 ^ k" "k < 32" using Cons.prems by (auto simp: single_def)
  have "\<forall>e\<in>set es. single (snd e)" using Cons.prems by simp
  then show ?case
    using Cons.IH [of "flags AND NOT (snd e)"] Cons.IH [of flags] and_single [OF k(2), of flags] clear_single [OF k(2), of flags]
    by (auto simp: k bit_single)
qed simp

text \<open>At most one protocol is set, and nothing that has no name.\<close>

definition flags_ok :: "32 word \<Rightarrow> bool" where
  "flags_ok flags \<longleftrightarrow> flags AND NOT 0xFFFF = 0
     \<and> flags AND IR_PROTOCOL_MASK \<in> set (0 # map (\<lambda>k. 2 ^ k) [0..<11])"

lemma flag_found: "e \<in> set all_flags \<Longrightarrow> find_flag (fst e) = Some (snd e) \<and> CHR ''|'' \<notin> set (fst e) \<and> word_ok (fst e)
    \<and> length (fst e) < 20"
proof -
  have "\<forall>e\<in>set all_flags. find_flag (fst e) = Some (snd e) \<and> CHR ''|'' \<notin> set (fst e) \<and> word_ok (fst e) \<and> length (fst e) < 20"
    by (simp add: all_flags_def find_flag_def strcasecmp_simps c_tolower_def char_code_def word_ok_def blanks_def)
  then show "e \<in> set all_flags \<Longrightarrow> ?thesis" by blast
qed

text \<open>Of the flags to come none is a protocol when one has been read.\<close>

fun one_protocol :: "32 word \<Rightarrow> (string \<times> 32 word) list \<Rightarrow> bool" where
  "one_protocol acc [] \<longleftrightarrow> True"
| "one_protocol acc (e # es) \<longleftrightarrow>
     (snd e AND IR_PROTOCOL_MASK = 0 \<or> acc AND IR_PROTOCOL_MASK = 0) \<and> one_protocol (acc OR snd e) es"

lemma parse_barred:
  assumes "set (e # es) \<subseteq> set all_flags" "one_protocol acc (e # es)"
  shows "parse_flags_loop acc (fst e @ barred es) = (flags_or acc (e # es), False)"
  using assms
proof (induction es arbitrary: acc e)
  case Nil
  have f: "find_flag (fst e) = Some (snd e)" "\<forall>c\<in>set (fst e). c \<noteq> CHR ''|''" using flag_found [of e] Nil by auto
  have tw: "takeWhile (\<lambda>c. c \<noteq> CHR ''|'') (fst e @ barred []) = fst e"
    "dropWhile (\<lambda>c. c \<noteq> CHR ''|'') (fst e @ barred []) = []"
    using f(2) by (simp_all add: barred_def takeWhile_eq_all_conv dropWhile_eq_Nil_conv)
  show ?case using Nil(2) by (subst parse_flags_loop.simps) (simp add: tw f(1) Let_def)
next
  case (Cons d es)
  have f: "find_flag (fst e) = Some (snd e)" "\<forall>c\<in>set (fst e). c \<noteq> CHR ''|''" using flag_found [of e] Cons.prems by auto
  have tw: "takeWhile (\<lambda>c. c \<noteq> CHR ''|'') (fst e @ barred (d # es)) = fst e"
    "dropWhile (\<lambda>c. c \<noteq> CHR ''|'') (fst e @ barred (d # es)) = CHR ''|'' # fst d @ barred es"
    using f(2) by (simp_all add: barred_def takeWhile_append2 dropWhile_append2)
  have "parse_flags_loop (acc OR snd e) (fst d @ barred es) = (flags_or (acc OR snd e) (d # es), False)"
    using Cons.prems by (intro Cons.IH) auto
  then show ?case using Cons.prems(2) by (subst parse_flags_loop.simps) (simp add: tw f(1) Let_def)
qed

lemma bit_protocol: "bit IR_PROTOCOL_MASK i \<longleftrightarrow> i < 11"
proof -
  have "IR_PROTOCOL_MASK = mask 11" by (simp add: IR_PROTOCOL_MASK_def mask_numeral)
  then have "bit IR_PROTOCOL_MASK i \<longleftrightarrow> bit (mask 11 :: 32 word) i" by (rule arg_cong)
  then show ?thesis by (auto simp: bit_mask_iff)
qed

lemma no_protocol: "w AND IR_PROTOCOL_MASK = 0 \<longleftrightarrow> (\<forall>i<11. \<not> bit w i)"
proof
  assume "w AND IR_PROTOCOL_MASK = 0"
  then have none: "\<not> bit (w AND IR_PROTOCOL_MASK) i" for i by simp
  show "\<forall>i<11. \<not> bit w i"
  proof (intro allI impI)
    fix i :: nat
    assume "i < 11"
    then show "\<not> bit w i" using none [of i] by (simp add: bit_and_iff bit_protocol)
  qed
next
  assume "\<forall>i<11. \<not> bit w i"
  then show "w AND IR_PROTOCOL_MASK = 0" by (auto simp: bit_and_iff bit_protocol intro!: bit_eqI)
qed

definition few :: "32 word \<Rightarrow> bool" where
  "few flags \<longleftrightarrow> (\<forall>j k. j < 11 \<longrightarrow> k < 11 \<longrightarrow> bit flags j \<longrightarrow> bit flags k \<longrightarrow> j = k)"

lemma one_protocol_names:
  assumes "\<forall>e\<in>set es. single (snd e)" "few flags"
    "acc AND IR_PROTOCOL_MASK = 0 \<or> flags AND IR_PROTOCOL_MASK = 0"
  shows "one_protocol acc (flag_names es flags)"
  using assms
proof (induction es arbitrary: acc flags)
  case (Cons e es)
  obtain k where k: "snd e = 2 ^ k" "k < 32" using Cons.prems by (auto simp: single_def)
  show ?case
  proof (cases "flags AND snd e = 0")
    case True
    then show ?thesis using Cons by simp
  next
    case False
    let ?f = "flags AND NOT (snd e)"
    have bk: "bit flags k" using False and_single [OF k(2)] by (simp add: k(1))
    have rest: "bit ?f i \<longleftrightarrow> bit flags i \<and> i \<noteq> k" for i using clear_single [OF k(2)] by (simp add: k(1))
    have few: "few ?f" using Cons.prems(2) by (simp add: few_def rest)
    have e: "snd e AND IR_PROTOCOL_MASK = 0 \<longleftrightarrow> 11 \<le> k" 
      unfolding no_protocol k(1) bit_single using k(2) by (metis leD not_le_imp_less)
    have "(acc OR snd e) AND IR_PROTOCOL_MASK = 0 \<or> ?f AND IR_PROTOCOL_MASK = 0"
    proof (cases "k < 11")
      case True
      then show ?thesis using Cons.prems(2) bk by (auto simp: no_protocol rest few_def)
    next
      case False
      then have "bit (acc OR snd e) i \<longleftrightarrow> bit acc i" if "i < 11" for i
        using that by (auto simp: bit_or_iff k(1) bit_single)
      then show ?thesis using Cons.prems(3) rest by (auto simp: no_protocol)
    qed
    then have "one_protocol (acc OR snd e) (flag_names es ?f)" using Cons.IH few Cons.prems(1) by simp
    moreover have "snd e AND IR_PROTOCOL_MASK = 0 \<or> acc AND IR_PROTOCOL_MASK = 0"
      using Cons.prems(3) bk e by (auto simp: no_protocol)
    ultimately show ?thesis using False by simp
  qed
qed simp

lemma flags_ok_few: "flags_ok flags \<Longrightarrow> few flags"
proof -
  assume "flags_ok flags"
  then obtain n where "flags AND IR_PROTOCOL_MASK = 0 \<or> flags AND IR_PROTOCOL_MASK = 2 ^ n"
    by (auto simp: flags_ok_def)
  moreover have "bit flags i \<longleftrightarrow> bit (flags AND IR_PROTOCOL_MASK) i" if "i < 11" for i
    using that by (simp add: bit_and_iff bit_protocol)
  ultimately show ?thesis by (auto simp: few_def bit_single)
qed

lemma flag_names_or: "flags_ok flags \<Longrightarrow> flags_or 0 (flag_names all_flags flags) = flags"
proof (rule bit_eqI)
  fix i :: nat
  assume ok: "flags_ok flags" and "possible_bit TYPE(32 word) i"
  then have i: "i < 32" by simp
  have "i < 16" if "bit flags i"
  proof (rule ccontr)
    assume "\<not> i < 16"
    moreover note that
    ultimately have "bit (flags AND NOT (mask 16)) i" using i by (simp add: bit_and_iff bit_not_iff bit_mask_iff)
    moreover have m: "(0xFFFF :: 32 word) = mask 16" by (simp add: mask_numeral)
    have "flags AND NOT (mask 16) = 0" using ok unfolding flags_ok_def m by blast
    ultimately show False by simp
  qed
  moreover have "\<exists>e\<in>set all_flags. bit (snd e) i" if "i < 16"
  proof -
    have "list_all (\<lambda>j. list_ex (\<lambda>e. bit (snd e) j) all_flags) [0..<16]" by code_simp
    then show ?thesis using that by (auto simp: list_all_iff list_ex_iff)
  qed
  ultimately show "bit (flags_or 0 (flag_names all_flags flags)) i \<longleftrightarrow> bit flags i"
    using flag_names_bits [OF all_flags_single, of flags i] by (auto simp: bit_flags_or)
qed

lemma parse_flags_text:
  assumes "flags_ok flags" "flag_names all_flags flags = e # es"
  shows "parseFlags (fst e @ barred es) = (flags, False)"
proof -
  have "one_protocol 0 (e # es)"
    using one_protocol_names [OF all_flags_single flags_ok_few [OF assms(1)], of 0] assms(2) by simp
  moreover have "set (e # es) \<subseteq> set all_flags" using flag_names_set [of all_flags flags] assms(2) by simp
  ultimately have "parseFlags (fst e @ barred es) = (flags_or 0 (e # es), False)"
    unfolding parseFlags_def by (intro parse_barred)
  then show ?thesis using flag_names_or [OF assms(1)] assms(2) by simp
qed

lemma length_flag_names: "length (flag_names es flags) \<le> length es"
  by (induction es arbitrary: flags) (auto intro: le_SucI)

lemma barred_word:
  assumes "set (e # es) \<subseteq> set all_flags"
  shows "word_ok (fst e @ barred es)" "length (fst e @ barred es) \<le> 20 * length (e # es)"
proof -
  have each: "set (fst d) \<inter> blanks = {}" "length (fst d) < 20" "fst d \<noteq> []" if "d \<in> set all_flags" for d
    using flag_found [OF that] by (simp_all add: word_ok_def)
  have bar: "CHR ''|'' \<notin> blanks" by (simp add: blanks_def)
  have bars: "set es \<subseteq> set all_flags \<Longrightarrow> set (barred es) \<inter> blanks = {} \<and> length (barred es) \<le> 20 * length es" for es
  proof (induction es)
    case (Cons d ds)
    then show ?case using each(1,2) [of d] bar by (simp add: barred_def Int_Un_distrib2)
  qed (simp add: barred_def)
  have "e \<in> set all_flags" "set es \<subseteq> set all_flags" using assms by simp_all
  then show "word_ok (fst e @ barred es)" "length (fst e @ barred es) \<le> 20 * length (e # es)"
    using each [of e] bars [of es] by (simp_all add: word_ok_def Int_Un_distrib2)
qed

lemma reads_flags:
  assumes "flags_ok flags" "r_flags r = 0"
  shows "reads (fprint_flags flags) r (r\<lparr>r_flags := flags\<rparr>)"
proof (cases "flag_names all_flags flags")
  case Nil
  then have "flags = 0" using flag_names_or [OF assms(1)] by simp
  then have "r\<lparr>r_flags := flags\<rparr> = r" using assms(2) by (cases r) simp
  then show ?thesis using reads_Nil [of r] by (simp only: fprint_flags_def flags_text_names Nil list.case)
next
  case (Cons e es)
  have sub: "set (e # es) \<subseteq> set all_flags" using flag_names_set [of all_flags flags] Cons by simp
  have "length (e # es) \<le> 17" using length_flag_names [of all_flags flags] Cons by (simp add: all_flags_def)
  then have "length (fst e @ barred es) < 900" using barred_word(2) [OF sub] by simp
  then have "reads (put_line ''  flags '' (fst e @ barred es)) r (r\<lparr>r_flags := flags\<rparr>)"
    using parse_flags_text [OF assms(1) Cons] barred_word(1) [OF sub] labels
    by (intro reads_text [where key = "''flags''" and argc = 1]) (auto simp: define_others define1_def assms(2))
  then show ?thesis by (simp add: fprint_flags_def flags_text_names Cons)
qed

section \<open>The other lines\<close>

lemma serial_word:
  assumes "5 \<le> r_bits_in_byte rem" "r_bits_in_byte rem \<le> 9"
    and "r_stop_bits rem = 3 \<or> (r_stop_bits rem mod 2 = 0 \<and> in_u32 (r_stop_bits rem))"
  shows "word_ok (serial_mode_text rem)" "length (serial_mode_text rem) < 900"
    "defineSerialMode (serial_mode_text rem) r
       = (r\<lparr>r_bits_in_byte := r_bits_in_byte rem, r_parity := IR_PARITY_NONE, r_stop_bits := r_stop_bits rem\<rparr>, 1, False)"
proof -
  obtain n where n: "r_bits_in_byte rem = int n" "n < 10" "5 \<le> n" using assms(1,2) by (cases "r_bits_in_byte rem") auto
  have digit: "signed_decimal (r_bits_in_byte rem) = [digit_char n]"
    using n by (simp add: signed_decimal_def decimal_def show_base_def digits_of.simps)
  have code: "char_code (digit_char n) = 48 + n"
    using n(2) by (simp add: digit_char_def char_code_def)
  have s: "s32 (r_bits_in_byte rem) = r_bits_in_byte rem" "s32 (r_stop_bits rem div 2) = r_stop_bits rem div 2"
    using assms by (auto simp: in_u32_def intro!: s32_id in_s32I)
  let ?s = "signed_decimal (r_stop_bits rem div 2) @ (if r_stop_bits rem mod 2 \<noteq> 0 then ''.5'' else [])"
  have printed: "serial_mode_text rem = digit_char n # CHR ''N'' # ?s"
    by (simp add: serial_mode_text_def fmt_d_def pad_left_def s digit)
  have "digit_char n \<notin> blanks" using is_digit_chars(1) [OF is_digit_digit_char [of n 10]] n(2)
    by (auto simp: blanks_def c_isspace_def)
  then show "word_ok (serial_mode_text rem)"
    using signed_word [of "r_stop_bits rem div 2"] by (auto simp: printed word_ok_def blanks_def)
  show "length (serial_mode_text rem) < 900" using length_printed(2) [of "r_stop_bits rem div 2"] by (simp add: printed s)
  have up: "c_toupper CHR ''N'' = CHR ''N''" by code_simp
  let ?r = "r\<lparr>r_bits_in_byte := r_bits_in_byte rem, r_parity := IR_PARITY_NONE\<rparr>"
  have "defineSerialMode (serial_mode_text rem) r =
      (if ?s = ''1.5'' then (?r\<lparr>r_stop_bits := 3\<rparr>, 1, False)
       else define1 (\<lambda>x. ?r\<lparr>r_stop_bits := u32 (x * 2)\<rparr>) (s_strtoui ?s))"
    using n by (simp add: printed defineSerialMode_def code up Let_def)
  also have "\<dots> = (?r\<lparr>r_stop_bits := r_stop_bits rem\<rparr>, 1, False)"
  proof (cases "r_stop_bits rem = 3")
    case True
    have "signed_decimal 1 = ''1''" by (simp add: signed_decimal_def decimal_def show_base_def digits_of.simps digit_char_def) code_simp
    then show ?thesis by (simp add: True)
  next
    case False
    then have ev: "r_stop_bits rem mod 2 = 0" "in_u32 (r_stop_bits rem)" using assms(3) by auto
    have "in_u32 (r_stop_bits rem div 2)" "r_stop_bits rem div 2 * 2 = r_stop_bits rem"
      using ev by (auto simp: in_u32_def)
    moreover from this have "s_strtoui (decimal (nat (r_stop_bits rem div 2))) = (r_stop_bits rem div 2, False)"
      using strto_decimal(2) [of "r_stop_bits rem div 2"] by simp
    moreover have "CHR ''.'' \<notin> set (decimal k)" for k
      using is_digit_chars show_base_digits [of 10 "CHR ''.''" k]
      by (auto simp: decimal_def is_digit_of_def c_digit_def char_code_def)
    then have "decimal k \<noteq> ''1.5''" for k by (metis list.set_intros)
    ultimately show ?thesis using ev by (simp add: signed_decimal_def define1_def in_u32_def)
  qed
  finally show "defineSerialMode (serial_mode_text rem) r
       = (r\<lparr>r_bits_in_byte := r_bits_in_byte rem, r_parity := IR_PARITY_NONE, r_stop_bits := r_stop_bits rem\<rparr>, 1, False)"
    by simp
qed

lemma reads_serial:
  assumes "5 \<le> r_bits_in_byte rem" "r_bits_in_byte rem \<le> 9"
    and "r_stop_bits rem = 3 \<or> (r_stop_bits rem mod 2 = 0 \<and> in_u32 (r_stop_bits rem))"
  shows "reads (put_line ''  serial_mode     '' (serial_mode_text rem)) r
    (r\<lparr>r_bits_in_byte := r_bits_in_byte rem, r_parity := IR_PARITY_NONE, r_stop_bits := r_stop_bits rem\<rparr>)"
  using serial_word [OF assms] labels by (intro reads_text [where key = "''serial_mode''" and argc = 1]) (auto simp: define_others)

lemma reads_gap:
  assumes "in_u32 (r_gap rem)" "in_u32 (r_gap2 rem)" "r_gap2 r = 0"
  shows "reads (fprint_remote_gap rem) r (r\<lparr>r_gap2 := r_gap2 rem, r_gap := r_gap rem\<rparr>)"
proof -
  have g: "good_label ''  gap          '' ''gap''" by (rule labels)
  show ?thesis
  proof (cases "r_gap2 rem = 0")
    case True
    have dec: "s_strtou32 (decimal (nat (r_gap rem))) = (r_gap rem, False)"
      using strto_decimal(1) [of "r_gap rem"] assms(1) by simp
    have "reads (put_line ''  gap          '' (fmt_u 0 (r_gap rem))) r (r\<lparr>r_gap := fst (s_strtou32 (decimal (nat (u32 (r_gap rem)))))\<rparr>)"
      by (rule reads_unsigned [OF g, where err = "\<lambda>v. snd (s_strtou32 v)"])
        (simp_all add: define_others defineGap_def strto_decimal)
    moreover have "r\<lparr>r_gap2 := 0, r_gap := r_gap rem\<rparr> = r\<lparr>r_gap := r_gap rem\<rparr>" using assms(3) by (cases r) simp
    ultimately show ?thesis using True assms(1) by (simp add: fprint_remote_gap_def put_line_def dec)
  next
    case False
    have dec: "s_strtou32 (decimal (nat (u32 (r_gap rem)))) = (r_gap rem, False)"
      "s_strtou32 (decimal (nat (u32 (r_gap2 rem)))) = (r_gap2 rem, False)"
      using strto_decimal(1) [of "r_gap rem"] strto_decimal(1) [of "r_gap2 rem"] assms(1,2) by simp_all
    obtain b where b: "''  gap          '' = label_of ''gap'' b" "word_ok ''gap''" "plain_key ''gap''"
        "length ''  gap          '' < 60"
      using g unfolding good_label_def by blast
    have "defineRemote False ''gap'' (decimal (nat (u32 (r_gap rem)))) (Some (decimal (nat (u32 (r_gap2 rem))))) r
        = (r\<lparr>r_gap2 := r_gap2 rem, r_gap := r_gap rem\<rparr>, 2, False)"
      by (simp only: define_others defineGap_def dec option.case fst_conv snd_conv simp_thms)
    then have "reads (''  gap          '' @ fmt_u 0 (r_gap rem) @ '' '' @ fmt_u 0 (r_gap2 rem) @ [newline]) r
        (r\<lparr>r_gap2 := r_gap2 rem, r_gap := r_gap rem\<rparr>)"
      by (rule reads_pair [OF b, rotated 2]) simp_all
    then show ?thesis using False by (simp add: fprint_remote_gap_def)
  qed
qed

lemma reads_comment:
  assumes "newline \<notin> set l" "carriage_return \<notin> set l" "length l < 900"
  shows "reads (CHR ''#'' # l @ [newline]) r r"
  using reads_idle [of "CHR ''#'' # l" r] parse_line_comment [of l] assms by (simp add: LINE_LEN_def)

section \<open>The kinds of lines\<close>

lemma reads_eq: "reads s r r1 \<Longrightarrow> r1 = r' \<Longrightarrow> reads s r r'"
  by simp

lemma reads_lirc:
  assumes "good_label label key" "n < 20" "\<And>v. defineRemote False key v None r = define1 f (s_strtolirc_t v)"
  shows "reads (put_line label (fmt_u n x)) r (f (s32 x))"
  using reads_unsigned [OF assms(1,2), of r "\<lambda>v. f (fst (s_strtolirc_t v))" "\<lambda>v. snd (s_strtolirc_t v)" x] assms(3)
  by (simp add: define1_def strto_decimal)

lemma reads_u32:
  assumes "good_label label key" "n < 20" "\<And>v. defineRemote False key v None r = define1 f (s_strtou32 v)"
  shows "reads (put_line label (fmt_u n x)) r (f (u32 x))"
  using reads_unsigned [OF assms(1,2), of r "\<lambda>v. f (fst (s_strtou32 v))" "\<lambda>v. snd (s_strtou32 v)" x] assms(3)
  by (simp add: define1_def strto_decimal)

lemma reads_ui:
  assumes "good_label label key" "n < 20" "\<And>v. defineRemote False key v None r = define1 f (s_strtoui v)"
  shows "reads (put_line label (fmt_u n x)) r (f (u32 x))"
  using reads_unsigned [OF assms(1,2), of r "\<lambda>v. f (fst (s_strtoui v))" "\<lambda>v. snd (s_strtoui v)" x] assms(3)
  by (simp add: define1_def strto_decimal)

lemma strtoui_signed: "in_u32 x \<Longrightarrow> in_s32 x \<Longrightarrow> s_strtoui (signed_decimal (s32 x)) = (x, False)"
  using strto_decimal(2) [of x] by (simp add: signed_decimal_def in_u32_def)

text \<open>The baud rate is printed as a signed number and read as an unsigned one.\<close>

lemma reads_baud:
  assumes "in_u32 x" "in_s32 x"
  shows "reads (put_line ''  baud            '' (fmt_d 0 x)) r (r\<lparr>r_baud := x\<rparr>)"
  using length_printed(2) [of x] strtoui_signed [OF assms] signed_word labels unfolding fmt_d_def
  by (intro reads_value [where argc = 1 and key = "''baud''"]) (simp_all add: define_values define1_def)

lemma reads_values:
  "reads (put_line ''  manual_sort  '' (fmt_d 0 x)) r (r\<lparr>r_manual_sort := s32 x\<rparr>)"
  "reads (put_line ''  bits        '' (fmt_d 5 x)) r (r\<lparr>r_bits := s32 x\<rparr>)"
  "reads (put_line ''  eps         '' (fmt_d 5 x)) r (r\<lparr>r_eps := s32 x\<rparr>)"
  "reads (put_line ''  aeps        '' (fmt_d 5 x)) r (r\<lparr>r_aeps := u32 (s32 x)\<rparr>)"
  "reads (put_line ''  ptrail      '' (fmt_u 5 x)) r (r\<lparr>r_ptrail := s32 x\<rparr>)"
  "reads (put_line ''  plead       '' (fmt_u 5 x)) r (r\<lparr>r_plead := s32 x\<rparr>)"
  "reads (put_line ''  pre_data_bits   '' (fmt_d 0 x)) r (r\<lparr>r_pre_data_bits := s32 x\<rparr>)"
  "reads (put_line ''  pre_data       '' (hex_code c)) r (r\<lparr>r_pre_data := c\<rparr>)"
  "reads (put_line ''  post_data_bits  '' (fmt_d 0 x)) r (r\<lparr>r_post_data_bits := s32 x\<rparr>)"
  "reads (put_line ''  post_data      '' (hex_code c)) r (r\<lparr>r_post_data := c\<rparr>)"
  "reads (put_line ''  repeat_gap   '' (fmt_u 0 x)) r (r\<lparr>r_repeat_gap := u32 x\<rparr>)"
  "reads (put_line ''  suppress_repeat '' (fmt_d 0 x)) r (r\<lparr>r_suppress_repeat := s32 x\<rparr>)"
  "reads (put_line ''  min_repeat      '' (fmt_d 0 x)) r (r\<lparr>r_min_repeat := s32 x\<rparr>)"
  "reads (put_line ''  min_code_repeat '' (fmt_d 0 x)) r (r\<lparr>r_min_code_repeat := u32 (s32 x)\<rparr>)"
  "reads (put_line ''  toggle_bit_mask '' (hex_code c)) r (r\<lparr>r_toggle_bit_mask := c\<rparr>)"
  "reads (put_line ''  toggle_mask    '' (hex_code c)) r (r\<lparr>r_toggle_mask := c\<rparr>)"
  "reads (put_line ''  repeat_mask    '' (hex_code c)) r (r\<lparr>r_repeat_mask := c\<rparr>)"
  "reads (put_line ''  rc6_mask    '' (hex_code c)) r (r\<lparr>r_rc6_mask := c\<rparr>)"
  "reads (put_line ''  ignore_mask '' (hex_code c)) r (r\<lparr>r_ignore_mask := c\<rparr>)"
  "reads (put_line ''  frequency    '' (fmt_u 0 x)) r (r\<lparr>r_freq := u32 x\<rparr>)"
  "reads (put_line ''  duty_cycle   '' (fmt_u 0 x)) r (r\<lparr>r_duty_cycle := u32 x\<rparr>)"
  by (rule reads_signed [where f = "\<lambda>x. r\<lparr>r_manual_sort := x\<rparr>"], rule labels, simp, rule define_values,
      rule reads_signed [where f = "\<lambda>x. r\<lparr>r_bits := x\<rparr>"], rule labels, simp, rule define_values,
      rule reads_signed [where f = "\<lambda>x. r\<lparr>r_eps := x\<rparr>"], rule labels, simp, rule define_values,
      rule reads_signed [where f = "\<lambda>x. r\<lparr>r_aeps := u32 x\<rparr>"], rule labels, simp, rule define_values,
      rule reads_lirc [where f = "\<lambda>x. r\<lparr>r_ptrail := x\<rparr>"], rule labels, simp, rule define_values,
      rule reads_lirc [where f = "\<lambda>x. r\<lparr>r_plead := x\<rparr>"], rule labels, simp, rule define_values,
      rule reads_signed [where f = "\<lambda>x. r\<lparr>r_pre_data_bits := x\<rparr>"], rule labels, simp, rule define_values,
      rule reads_code [where f = "\<lambda>x. r\<lparr>r_pre_data := x\<rparr>"], rule labels, rule define_values,
      rule reads_signed [where f = "\<lambda>x. r\<lparr>r_post_data_bits := x\<rparr>"], rule labels, simp, rule define_values,
      rule reads_code [where f = "\<lambda>x. r\<lparr>r_post_data := x\<rparr>"], rule labels, rule define_values,
      rule reads_u32 [where f = "\<lambda>x. r\<lparr>r_repeat_gap := x\<rparr>"], rule labels, simp, rule define_values,
      rule reads_signed [where f = "\<lambda>x. r\<lparr>r_suppress_repeat := x\<rparr>"], rule labels, simp, rule define_values,
      rule reads_signed [where f = "\<lambda>x. r\<lparr>r_min_repeat := x\<rparr>"], rule labels, simp, rule define_values,
      rule reads_signed [where f = "\<lambda>x. r\<lparr>r_min_code_repeat := u32 x\<rparr>"], rule labels, simp, rule define_values,
      rule reads_code [where f = "\<lambda>x. r\<lparr>r_toggle_bit_mask := x\<rparr>"], rule labels, rule define_values,
      rule reads_code [where f = "\<lambda>x. r\<lparr>r_toggle_mask := x\<rparr>"], rule labels, rule define_values,
      rule reads_code [where f = "\<lambda>x. r\<lparr>r_repeat_mask := x\<rparr>"], rule labels, rule define_values,
      rule reads_code [where f = "\<lambda>x. r\<lparr>r_rc6_mask := x\<rparr>"], rule labels, rule define_values,
      rule reads_code [where f = "\<lambda>x. r\<lparr>r_ignore_mask := x\<rparr>"], rule labels, rule define_values,
      rule reads_ui [where f = "\<lambda>x. r\<lparr>r_freq := x\<rparr>"], rule labels, simp, rule define_values,
      rule reads_ui [where f = "\<lambda>x. r\<lparr>r_duty_cycle := x\<rparr>"], rule labels, simp, rule define_values)

lemma reads_pairs:
  "reads (put_pair ''  header      '' x y) r (r\<lparr>r_phead := s32 x, r_shead := s32 y\<rparr>)"
  "reads (put_pair ''  three       '' x y) r (r\<lparr>r_pthree := s32 x, r_sthree := s32 y\<rparr>)"
  "reads (put_pair ''  two         '' x y) r (r\<lparr>r_ptwo := s32 x, r_stwo := s32 y\<rparr>)"
  "reads (put_pair ''  one         '' x y) r (r\<lparr>r_pone := s32 x, r_sone := s32 y\<rparr>)"
  "reads (put_pair ''  zero        '' x y) r (r\<lparr>r_pzero := s32 x, r_szero := s32 y\<rparr>)"
  "reads (put_pair ''  foot        '' x y) r (r\<lparr>r_pfoot := s32 x, r_sfoot := s32 y\<rparr>)"
  "reads (put_pair ''  repeat      '' x y) r (r\<lparr>r_prepeat := s32 x, r_srepeat := s32 y\<rparr>)"
  "reads (put_pair ''  pre         '' x y) r (r\<lparr>r_pre_p := s32 x, r_pre_s := s32 y\<rparr>)"
  "reads (put_pair ''  post        '' x y) r (r\<lparr>r_post_p := s32 x, r_post_s := s32 y\<rparr>)"
  by (rule reads_two, rule labels, rule define_pairs)+

end
