(* ===== verification/Dump_Kept.thy ===== *)
theory Dump_Kept
  imports Dump_Read
begin

text \<open>
  Which remotes can be printed without a loss, and what the parser makes of their heads: the
  fields that a configuration file holds.
\<close>

section \<open>What a file keeps\<close>

text \<open>
  A remote with the parameters of \<open>rem\<close>, no codes, and the state of a new remote. The frequency 0
  is not printed and read as the default; the parity is always printed as N.
\<close>

definition kept :: "ir_remote \<Rightarrow> ir_remote" where
  "kept rem = (zero_remote (r_name rem))\<lparr>
     r_driver := r_driver rem, r_bits := r_bits rem, r_flags := r_flags rem, r_eps := r_eps rem,
     r_aeps := r_aeps rem, r_phead := r_phead rem, r_shead := r_shead rem, r_pthree := r_pthree rem,
     r_sthree := r_sthree rem, r_ptwo := r_ptwo rem, r_stwo := r_stwo rem, r_pone := r_pone rem,
     r_sone := r_sone rem, r_pzero := r_pzero rem, r_szero := r_szero rem, r_plead := r_plead rem,
     r_ptrail := r_ptrail rem, r_pfoot := r_pfoot rem, r_sfoot := r_sfoot rem,
     r_prepeat := r_prepeat rem, r_srepeat := r_srepeat rem, r_pre_data_bits := r_pre_data_bits rem,
     r_pre_data := r_pre_data rem, r_post_data_bits := r_post_data_bits rem,
     r_post_data := r_post_data rem, r_pre_p := r_pre_p rem, r_pre_s := r_pre_s rem,
     r_post_p := r_post_p rem, r_post_s := r_post_s rem, r_gap := r_gap rem, r_gap2 := r_gap2 rem,
     r_repeat_gap := r_repeat_gap rem, r_toggle_bit_mask := r_toggle_bit_mask rem,
     r_suppress_repeat := r_suppress_repeat rem, r_min_repeat := r_min_repeat rem,
     r_min_code_repeat := r_min_code_repeat rem, 
     r_freq := (if r_freq rem = 0 then DEFAULT_FREQ else r_freq rem), r_duty_cycle := r_duty_cycle rem,
     r_toggle_mask := r_toggle_mask rem, r_rc6_mask := r_rc6_mask rem, r_baud := r_baud rem,
     r_bits_in_byte := r_bits_in_byte rem, r_parity := IR_PARITY_NONE, r_stop_bits := r_stop_bits rem,
     r_ignore_mask := r_ignore_mask rem, r_repeat_mask := r_repeat_mask rem,
     r_manual_sort := r_manual_sort rem\<rparr>"

text \<open>The values are in the range of their types.\<close>

definition ranges_ok :: "ir_remote \<Rightarrow> bool" where
  "ranges_ok rem \<longleftrightarrow>
     list_all (\<lambda>f. in_s32 (f rem)) [r_bits, r_eps, r_phead, r_shead, r_pthree, r_sthree, r_ptwo, r_stwo,
       r_pone, r_sone, r_pzero, r_szero, r_plead, r_ptrail, r_pfoot, r_sfoot, r_prepeat, r_srepeat,
       r_pre_data_bits, r_post_data_bits, r_pre_p, r_pre_s, r_post_p, r_post_s, r_suppress_repeat,
       r_min_repeat, r_manual_sort]
     \<and> list_all (\<lambda>f. in_u32 (f rem)) [r_aeps, r_gap, r_gap2, r_repeat_gap, r_min_code_repeat, r_freq,
       r_duty_cycle]"

text \<open>What the printer leaves out is zero: half a pair, data of no bits, a negative number.\<close>

definition nothing_lost :: "ir_remote \<Rightarrow> bool" where
  "nothing_lost rem \<longleftrightarrow>
     (has_header rem \<or> r_phead rem = 0 \<and> r_shead rem = 0)
     \<and> (has_foot rem \<or> r_pfoot rem = 0 \<and> r_sfoot rem = 0)
     \<and> (has_repeat rem \<or> r_prepeat rem = 0 \<and> r_srepeat rem = 0)
     \<and> (r_pre_data_bits rem > 0 \<or> r_pre_data_bits rem = 0 \<and> r_pre_data rem = 0)
     \<and> (r_post_data_bits rem > 0 \<or> r_post_data_bits rem = 0 \<and> r_post_data rem = 0)
     \<and> (r_pre_p rem \<noteq> 0 \<and> r_pre_s rem \<noteq> 0 \<or> r_pre_p rem = 0 \<and> r_pre_s rem = 0)
     \<and> (r_post_p rem \<noteq> 0 \<and> r_post_s rem \<noteq> 0 \<or> r_post_p rem = 0 \<and> r_post_s rem = 0)
     \<and> r_suppress_repeat rem \<ge> 0 \<and> r_min_repeat rem \<ge> 0"

definition serial_ok :: "ir_remote \<Rightarrow> bool" where
  "serial_ok rem \<longleftrightarrow>
     (if is_serial rem
      then in_s32 (r_baud rem) \<and> in_u32 (r_baud rem) \<and> 5 \<le> r_bits_in_byte rem \<and> r_bits_in_byte rem \<le> 9
        \<and> (r_stop_bits rem = 3 \<or> r_stop_bits rem mod 2 = 0 \<and> in_u32 (r_stop_bits rem))
      else r_baud rem = 0 \<and> r_bits_in_byte rem = 0 \<and> r_stop_bits rem = 0)"

text \<open>The parameters that are not printed for raw remotes.\<close>

definition raw_plain :: "ir_remote \<Rightarrow> bool" where
  "raw_plain rem \<longleftrightarrow> list_all (\<lambda>f. f rem = 0) [r_bits, r_phead, r_shead, r_pthree, r_sthree, r_ptwo, r_stwo,
       r_pone, r_sone, r_pzero, r_szero, r_plead, r_pfoot, r_sfoot, r_pre_data_bits, r_post_data_bits,
       r_pre_p, r_pre_s, r_post_p, r_post_s, r_min_code_repeat]
     \<and> list_all (\<lambda>f. f rem = 0) [r_pre_data, r_post_data, r_toggle_bit_mask, r_toggle_mask, r_repeat_mask,
       r_rc6_mask, r_ignore_mask]"

definition head_ok :: "ir_remote \<Rightarrow> bool" where
  "head_ok rem \<longleftrightarrow> word_ok (r_name rem) \<and> length (r_name rem) < 800
     \<and> (r_driver rem = [] \<or> word_ok (r_driver rem) \<and> length (r_driver rem) < 800)
     \<and> flags_ok (r_flags rem) \<and> ranges_ok rem \<and> nothing_lost rem \<and> serial_ok rem
     \<and> (is_raw rem \<longrightarrow> raw_plain rem)"

section \<open>Reading the head\<close>

lemma reads_uncomment:
  "reads (put_line ''#  suppress_repeat '' (fmt_d 0 x)) r r"
  "reads (put_line ''#  uncomment to suppress unwanted repeats'' []) r r"
proof -
  have "newline \<notin> set (fmt_d 0 x)" "carriage_return \<notin> set (fmt_d 0 x)" "length (fmt_d 0 x) \<le> 11"
    using word_okD [OF signed_word] length_printed by (simp_all add: fmt_d_def pad_left_def)
  then show "reads (put_line ''#  suppress_repeat '' (fmt_d 0 x)) r r"
    using reads_comment [of "''  suppress_repeat '' @ fmt_d 0 x" r] by (simp add: put_line_def)
  show "reads (put_line ''#  uncomment to suppress unwanted repeats'' []) r r"
    using reads_comment [of "''  uncomment to suppress unwanted repeats''" r] by (simp add: put_line_def)
qed

lemma reads_name: "word_ok v \<Longrightarrow> length v < 800 \<Longrightarrow> reads (put_line ''  name  '' v) r (r\<lparr>r_name := v\<rparr>)"
  using labels by (intro reads_text [where key = "''name''" and argc = 1]) (auto simp: define_others)

lemma reads_driver: "word_ok v \<Longrightarrow> length v < 800 \<Longrightarrow> reads (put_line ''  driver '' v) r (r\<lparr>r_driver := v\<rparr>)"
  using labels by (intro reads_text [where key = "''driver''" and argc = 1]) (auto simp: define_others)

lemma rangesD:
  assumes "ranges_ok rem"
  shows "in_s32 (r_bits rem)" "in_s32 (r_eps rem)" "in_s32 (r_phead rem)" "in_s32 (r_shead rem)"
    "in_s32 (r_pthree rem)" "in_s32 (r_sthree rem)" "in_s32 (r_ptwo rem)" "in_s32 (r_stwo rem)"
    "in_s32 (r_pone rem)" "in_s32 (r_sone rem)" "in_s32 (r_pzero rem)" "in_s32 (r_szero rem)"
    "in_s32 (r_plead rem)" "in_s32 (r_ptrail rem)" "in_s32 (r_pfoot rem)" "in_s32 (r_sfoot rem)"
    "in_s32 (r_prepeat rem)" "in_s32 (r_srepeat rem)" "in_s32 (r_pre_data_bits rem)"
    "in_s32 (r_post_data_bits rem)" "in_s32 (r_pre_p rem)" "in_s32 (r_pre_s rem)" "in_s32 (r_post_p rem)"
    "in_s32 (r_post_s rem)" "in_s32 (r_suppress_repeat rem)" "in_s32 (r_min_repeat rem)"
    "in_s32 (r_manual_sort rem)"
    "in_u32 (r_aeps rem)" "in_u32 (r_gap rem)" "in_u32 (r_gap2 rem)" "in_u32 (r_repeat_gap rem)"
    "in_u32 (r_min_code_repeat rem)" "in_u32 (r_freq rem)" "in_u32 (r_duty_cycle rem)"
  using assms by (simp_all add: ranges_ok_def)

lemma zeros: "s32 0 = 0" "u32 0 = 0"
  by (simp_all add: s32_def u32_def)

lemma reads_freq:
  "reads (put_if (x \<noteq> 0) (put_line ''  frequency    '' (fmt_u 0 x))) r (r\<lparr>r_freq := (if x = 0 then r_freq r else u32 x)\<rparr>)"
  using reads_values by (auto simp: put_if_def intro: reads_Nil)

text \<open>The lines behind \<open>begin remote\<close>.\<close>

definition head_body :: "ir_remote \<Rightarrow> string" where
  "head_body rem =
     put_line ''  name  '' (r_name rem)
     @ put_if (r_manual_sort rem \<noteq> 0) (put_line ''  manual_sort  '' (fmt_d 0 (r_manual_sort rem)))
     @ put_if (r_driver rem \<noteq> []) (put_line ''  driver '' (r_driver rem))
     @ put_if (\<not> is_raw rem) (put_line ''  bits        '' (fmt_d 5 (r_bits rem)))
     @ fprint_flags (r_flags rem)
     @ put_line ''  eps         '' (fmt_d 5 (r_eps rem))
     @ put_line ''  aeps        '' (fmt_d 5 (r_aeps rem)) @ [newline]
     @ head_pulses rem @ head_data rem @ fprint_remote_gap rem @ head_repeats rem @ head_masks rem
     @ [newline]"

lemmas line_reads = reads_freq reads_append reads_if reads_name reads_driver reads_values reads_pairs reads_flags
  reads_gap reads_serial reads_baud reads_uncomment reads_blank reads_Nil

lemma reads_head:
  assumes "head_ok rem"
  shows "reads (head_body rem) ((zero_remote [])\<lparr>r_freq := DEFAULT_FREQ\<rparr>) (kept rem)"
proof -
  have ok: "word_ok (r_name rem)" "length (r_name rem) < 800" "r_driver rem \<noteq> [] \<Longrightarrow> word_ok (r_driver rem)"
    "r_driver rem \<noteq> [] \<Longrightarrow> length (r_driver rem) < 800" "flags_ok (r_flags rem)" 
    using assms by (auto simp: head_ok_def)
  have range: "ranges_ok rem" using assms by (simp add: head_ok_def)
  have lost: "\<not> has_header rem \<Longrightarrow> r_phead rem = 0" "\<not> has_header rem \<Longrightarrow> r_shead rem = 0"
    "\<not> has_foot rem \<Longrightarrow> r_pfoot rem = 0" "\<not> has_foot rem \<Longrightarrow> r_sfoot rem = 0"
    "\<not> has_repeat rem \<Longrightarrow> r_prepeat rem = 0" "\<not> has_repeat rem \<Longrightarrow> r_srepeat rem = 0"
    "\<not> 0 < r_pre_data_bits rem \<Longrightarrow> r_pre_data_bits rem = 0" "\<not> 0 < r_pre_data_bits rem \<Longrightarrow> r_pre_data rem = 0"
    "\<not> 0 < r_post_data_bits rem \<Longrightarrow> r_post_data_bits rem = 0" "\<not> 0 < r_post_data_bits rem \<Longrightarrow> r_post_data rem = 0"
    "r_pre_p rem = 0 \<longleftrightarrow> r_pre_s rem = 0" "r_post_p rem = 0 \<longleftrightarrow> r_post_s rem = 0"
    "\<not> 0 < r_suppress_repeat rem \<Longrightarrow> r_suppress_repeat rem = 0" "\<not> 0 < r_min_repeat rem \<Longrightarrow> r_min_repeat rem = 0"
    using assms by (auto simp: head_ok_def nothing_lost_def)
  have serial: "is_serial rem \<Longrightarrow> in_s32 (r_baud rem)" "is_serial rem \<Longrightarrow> in_u32 (r_baud rem)"
    "is_serial rem \<Longrightarrow> 5 \<le> r_bits_in_byte rem" "is_serial rem \<Longrightarrow> r_bits_in_byte rem \<le> 9"
    "is_serial rem \<Longrightarrow> r_stop_bits rem = 3 \<or> r_stop_bits rem mod 2 = 0 \<and> in_u32 (r_stop_bits rem)"
    "\<not> is_serial rem \<Longrightarrow> r_baud rem = 0" "\<not> is_serial rem \<Longrightarrow> r_bits_in_byte rem = 0" "\<not> is_serial rem \<Longrightarrow> r_stop_bits rem = 0"
    using assms by (simp_all add: head_ok_def serial_ok_def IR_PARITY_NONE_def)
  have "is_raw rem \<Longrightarrow> \<not> is_serial rem" by (simp add: is_raw_def is_serial_def RAW_CODES_def SERIAL_def)
  note raw = this
  have plain: "is_raw rem \<Longrightarrow> raw_plain rem" using assms by (simp add: head_ok_def)
  have unsigned: "\<not> has_repeat_gap rem \<Longrightarrow> r_repeat_gap rem = 0" "\<not> 0 < r_min_code_repeat rem \<Longrightarrow> r_min_code_repeat rem = 0"
    "\<not> has_toggle_mask rem \<Longrightarrow> r_toggle_mask rem = 0" "\<not> has_ignore_mask rem \<Longrightarrow> r_ignore_mask rem = 0"
    using rangesD [OF range] by (auto simp: in_u32_def has_repeat_gap_def has_toggle_mask_def has_ignore_mask_def word_gt_0)
  show ?thesis
    unfolding head_body_def head_pulses_def head_data_def head_repeats_def head_masks_def
    by (rule reads_eq, (rule line_reads
        | (simp add: ok rangesD [OF range] lost serial unsigned zeros zero_remote_def IR_PARITY_NONE_def; fail)
        | (use plain in \<open>simp add: raw_plain_def zeros zero_remote_def serial raw IR_PARITY_NONE_def; fail\<close>)
        | (simp add: kept_def ok rangesD [OF range] lost serial unsigned zeros zero_remote_def IR_PARITY_NONE_def; fail))+)
qed

end
