(* ===== verification/Dump_Codes.thy ===== *)
theory Dump_Codes
  imports Dump_Kept
begin

text \<open>The parser reads back the codes of a remote, decoded ones and raw ones.\<close>

section \<open>Runs of the parser\<close>

definition runs :: "string \<Rightarrow> parse_state \<Rightarrow> parse_state \<Rightarrow> bool" where
  "runs s st st' \<longleftrightarrow> (\<forall>env child depth name rest. \<not> ce_dynamic_codes env
     \<longrightarrow> parse_lines env child depth name (s @ rest) st = parse_lines env child depth name rest st')"

lemma runsD: "runs s st st' \<Longrightarrow> \<not> ce_dynamic_codes env
    \<Longrightarrow> parse_lines env child depth name (s @ rest) st = parse_lines env child depth name rest st'"
  by (simp add: runs_def)

lemma runs_Nil: "runs [] st st"
  by (simp add: runs_def)

lemma runs_append: "runs s st st1 \<Longrightarrow> runs t st1 st' \<Longrightarrow> runs (s @ t) st st'"
  by (simp add: runs_def)

lemma runs_line:
  assumes "newline \<notin> set l" "length l + 1 < LINE_LEN" "\<not> ps_err st'"
    and "\<And>env child depth name. \<not> ce_dynamic_codes env \<Longrightarrow> parse_line env child depth name (l @ [newline]) st = Some st'"
  shows "runs (l @ [newline]) st st'"
  using assms by (simp add: runs_def parse_lines_Cons)

text \<open>A line of which the first two words are known.\<close>

lemma runs_tokens:
  assumes "newline \<notin> set l" "carriage_return \<notin> set l" "length l + 1 < LINE_LEN" "hd l \<noteq> CHR ''#''" "\<not> ps_err st'"
    and "strtok whitespace l = Some (key, rest)"
    and "\<And>env child depth name. \<not> ce_dynamic_codes env \<Longrightarrow> parse_tokens env child depth name key rest st = Some st'"
  shows "runs (l @ [newline]) st st'"
proof (rule runs_line)
  fix env :: config_env and child depth name
  assume "\<not> ce_dynamic_codes env"
  moreover have "l \<noteq> []" using assms(6) by (auto simp: strtok_def)
  ultimately show "parse_line env child depth name (l @ [newline]) st = Some st'"
    using assms(1-4,6,7) by (subst parse_line_tokens) auto
qed (use assms in auto)

lemma runs_blank: "\<not> ps_err st \<Longrightarrow> runs [newline] st st"
  using runs_line [of "[]" st st] parse_line_blank by (simp add: LINE_LEN_def)

lemma runs_comment:
  assumes "newline \<notin> set l" "carriage_return \<notin> set l" "length l < 1000" "\<not> ps_err st"
  shows "runs (CHR ''#'' # l @ [newline]) st st"
  using runs_line [of "CHR ''#'' # l" st st] parse_line_comment [OF assms(2)] assms by (simp add: LINE_LEN_def)

lemma runs_reads:
  assumes "reads s r r'" "ps_mode st = ID_remote" "ps_rem st = Some i" "i < length (ps_store st)"
    "ps_store st ! i = r" "\<not> ps_err st"
  shows "runs s st (st\<lparr>ps_store := (ps_store st)[i := r']\<rparr>)"
  using readsD [OF assms(1) _ assms(2-)] by (simp add: runs_def)

section \<open>Sections\<close>

lemmas section_simps = LINE_LEN_def strtok_skip strtok_here whitespace_set parse_tokens_def strcasecmp_simps c_tolower_def
  char_code_def begin_line_def end_line_def checkMode_def put_line_def

lemma runs_begin_remote:
  assumes "ps_mode st = ID_none" "\<not> ps_err st"
  shows "runs (put_line ''begin remote'' []) st
    (st\<lparr>ps_mode := ID_remote, ps_store := ps_store st @ [(zero_remote [])\<lparr>r_freq := DEFAULT_FREQ\<rparr>],
        ps_rem := Some (length (ps_store st)), ps_top := ps_top st @ [length (ps_store st)]\<rparr>)"
  using runs_tokens [of "''begin remote''" _ "''begin''" "''remote''" st] assms
  by (simp add: section_simps begin_remote_def Let_def)

lemma runs_begin_codes:
  assumes "ps_mode st = ID_remote" "\<not> ps_err st" "the_rem st = Some rem" "r_codes rem = None"
  shows "runs (put_line ''      begin codes'' []) st (st\<lparr>ps_codes := init_void_array zero_ncode 30, ps_mode := ID_codes\<rparr>)"
  using runs_tokens [of "''      begin codes''" _ "''begin''" "''codes''" st] assms
  by (simp add: section_simps begin_codes_def)

lemma runs_end_codes:
  assumes "ps_mode st = ID_codes" "\<not> ps_err st" "the_rem st = Some rem"
  shows "runs (put_line ''      end codes'' []) st
    ((set_rem (rem\<lparr>r_codes := Some (get_void_array (ps_codes st))\<rparr>) st)\<lparr>ps_mode := ID_remote\<rparr>)"
  using runs_tokens [of "''      end codes''" _ "''end''" "''codes''" st] assms
  by (simp add: section_simps end_codes_def set_rem_def split: option.split)

lemma runs_end_remote:
  assumes "end_remote False st = Some st'" "\<not> ps_err st'"
  shows "runs (put_line ''end remote'' []) st st'"
  using runs_tokens [of "''end remote''" st' "''end''" "''remote''" st] assms
  by (simp add: section_simps)

section \<open>The line of a button\<close>

definition code_tail :: "int \<Rightarrow> nat list \<Rightarrow> string" where
  "code_tail w ns = concat (map (\<lambda>n. '' '' @ fmt_X w n) ns)"

lemma code_tail_simps [simp]: "code_tail w [] = []" "code_tail w (n # ns) = CHR '' '' # fmt_X w n @ code_tail w ns"
  by (simp_all add: code_tail_def)

lemma strtok_code:
  assumes "0 \<le> w"
  shows "strtok whitespace (fmt_X w n @ code_tail w ns) = Some (fmt_X w n, drop 1 (code_tail w ns))"
  using strtok_word(3,4) [OF fmt_X_word [OF assms, of n]] by (cases ns) simp_all

lemma strtok_tail:
  assumes "0 \<le> w"
  shows "strtok whitespace (drop 1 (code_tail w ns)) =
    (case ns of [] \<Rightarrow> None | n # ns \<Rightarrow> Some (fmt_X w n, drop 1 (code_tail w ns)))"
  using strtok_code [OF assms] by (cases ns) simp_all

lemma hd_fmt_X: "hd (fmt_X w n) = CHR ''0''"
  by (simp add: fmt_X_def)

lemma define_nodes_codes:
  assumes "0 \<le> w" "\<forall>n\<in>set ns. n < 2 ^ 64"
  shows "\<exists>cur. define_nodes code False (map_option fst (strtok whitespace (drop 1 (code_tail w ns)))) (drop 1 (code_tail w (tl ns)))
    = (code\<lparr>nc_next := nc_next code @ map word_of_nat ns, nc_current := cur\<rparr>, False)"
  using assms(2)
proof (induction ns arbitrary: code)
  case Nil
  show ?case by (rule exI [of _ "nc_current code"]) (simp add: define_nodes.simps [of _ _ None])
next
  case (Cons n ns)
  let ?c = "code\<lparr>nc_next := nc_next code @ [word_of_nat n], nc_current := Some (length (nc_next code))\<rparr>"
  have node: "defineNode code (fmt_X w n) = (?c, False)"
    using strtocode_hex [OF assms(1)] Cons.prems by (simp add: defineNode_def)
  obtain cur where "define_nodes ?c False (map_option fst (strtok whitespace (drop 1 (code_tail w ns)))) (drop 1 (code_tail w (tl ns)))
      = (?c\<lparr>nc_next := nc_next ?c @ map word_of_nat ns, nc_current := cur\<rparr>, False)"
    using Cons.IH [of ?c] Cons.prems by auto
  then have "define_nodes ?c False (map_option fst (strtok whitespace (drop 1 (code_tail w ns)))) (drop 1 (code_tail w (tl ns)))
      = (code\<lparr>nc_next := nc_next code @ map word_of_nat (n # ns), nc_current := cur\<rparr>, False)" by simp
  moreover have "define_nodes code False (map_option fst (strtok whitespace (drop 1 (code_tail w (n # ns))))) (drop 1 (code_tail w (tl (n # ns))))
      = define_nodes ?c False (map_option fst (strtok whitespace (drop 1 (code_tail w ns)))) (drop 1 (code_tail w (tl ns)))"
  proof (cases ns)
    case Nil
    then show ?thesis
      by (subst define_nodes.simps) (simp add: strtok_tail [OF assms(1)] node hd_fmt_X strtok_code [OF assms(1), of n "[]", simplified]
          define_nodes.simps [of _ _ None])
  next
    case (Cons m ms)
    have toks: "strtok whitespace (drop 1 (code_tail w (n # ns))) = Some (fmt_X w n, drop 1 (code_tail w ns))"
      "strtok whitespace (drop 1 (code_tail w (tl (n # ns)))) = Some (fmt_X w m, drop 1 (code_tail w ms))"
      using strtok_tail [OF assms(1), of "n # ns"] strtok_tail [OF assms(1), of ns] unfolding Cons
      by (simp_all only: list.case list.sel)
    have toks2: "strtok whitespace (drop 1 (code_tail w ns)) = Some (fmt_X w m, drop 1 (code_tail w ms))" "tl ns = ms"
      using toks(2) Cons by (simp_all only: list.sel)
    show ?thesis
      unfolding toks2 toks by (subst define_nodes.simps) (simp only: toks2 toks node hd_fmt_X option.map fst_conv snd_conv prod.case
          list.sel option.case, simp)
  qed
  ultimately show ?case by metis
qed

text \<open>What the parser stores for a button, and when it can tell a button from an earlier one.\<close>

definition plain_code :: "ir_ncode \<Rightarrow> ir_ncode" where
  "plain_code c = zero_ncode\<lparr>nc_name := nc_name c, nc_code := nc_code c, nc_next := nc_next c\<rparr>"

definition tells_apart :: "ir_ncode \<Rightarrow> ir_ncode \<Rightarrow> bool" where
  "tells_apart c d \<longleftrightarrow> nc_code c = nc_code d \<longrightarrow> nc_next c = [] \<or> nc_next d = [] \<or> hd (nc_next c) \<noteq> hd (nc_next d)"

lemma foreach_returns: "\<forall>c\<in>set cs. tells_apart c d \<Longrightarrow> foreach_code_equals cs d \<noteq> None"
proof (induction cs)
  case (Cons c cs)
  have "array_guest_code_equals c d \<noteq> None"
  proof (cases "nc_code c = nc_code d \<and> nc_next c \<noteq> []")
    case False
    then show ?thesis by (auto simp: array_guest_code_equals_def code_equals_loop.simps [of c d])
  next
    case True
    then have "\<not> ir_code_node_equals (nc_next c) (nc_next d)"
      using Cons.prems by (auto simp: tells_apart_def ir_code_node_equals_def split: list.splits)
    then show ?thesis by (auto simp: array_guest_code_equals_def code_equals_loop.simps [of c d])
  qed
  then show ?case using Cons by (auto split: option.split bool.split)
qed simp

text \<open>A button that fits into a line of the file.\<close>

definition button_ok :: "ir_remote \<Rightarrow> ir_ncode \<Rightarrow> bool" where
  "button_ok rem c \<longleftrightarrow> word_ok (nc_name c) \<and> plain_key (nc_name c)
     \<and> list_all (\<lambda>d. unat d < 2 ^ 32) (nc_next c) \<and> length (fprint_remote_signal rem c) < LINE_LEN"

lemma unat_code_less: "unat (c :: ir_code) < 2 ^ 64"
proof -
  have "unat c < 2 ^ LENGTH(64)" by (rule unsigned_less)
  then show ?thesis by simp
qed

lemma code_tail_chars: "0 \<le> w \<Longrightarrow> c \<in> set (code_tail w ns) \<Longrightarrow> c \<noteq> newline \<and> c \<noteq> carriage_return"
  using word_okD(3,4) [OF fmt_X_word] by (induction ns) auto

lemma runs_code:
  assumes "\<not> is_raw rem" "0 \<le> r_bits rem" "button_ok rem c" "ps_mode st = ID_codes" "\<not> ps_err st"
    and "\<forall>d\<in>set (get_void_array (ps_codes st)). tells_apart d c"
  shows "runs (fprint_remote_signal rem c) st
    (st\<lparr>ps_codes := add_void_array zero_ncode (ps_codes st) (plain_code c)\<rparr>)"
proof -
  define w where "w = (r_bits rem + 3) sdiv 4"
  have w: "0 \<le> w" using assms(2) by (simp add: w_def sdiv_nonneg)
  have small: "unat d mod 2 ^ 32 = unat d" if "d \<in> set (nc_next c)" for d
    using assms(3) that by (auto simp: button_ok_def list_all_iff)
  let ?ns = "map unat (nc_next c)"
  define l where "l = ''          '' @ pad_right 24 (nc_name c) @ CHR '' '' # fmt_X w (unat (nc_code c)) @ code_tail w ?ns"
  have printed: "fprint_remote_signal rem c = l @ [newline]"
    using assms(1) small by (auto simp: fprint_remote_signal_def Let_def l_def code_tail_def w_def cong: map_cong)
  have name: "word_ok (nc_name c)" "plain_key (nc_name c)" using assms(3) by (simp_all add: button_ok_def)
  obtain k where key: "strtok whitespace l
      = Some (nc_name c, replicate k CHR '' '' @ fmt_X w (unat (nc_code c)) @ code_tail w ?ns)"
    using pad_right_word [OF name(1), of 24 "fmt_X w (unat (nc_code c)) @ code_tail w ?ns"]
    by (auto simp: l_def strtok_skip whitespace_set)
  have "length l + 1 < LINE_LEN" using assms(3) by (simp add: button_ok_def printed)
  moreover have "newline \<notin> set l" "carriage_return \<notin> set l" "hd l \<noteq> CHR ''#''"
    using word_okD(3,4) [OF name(1)] word_okD(3,4) [OF fmt_X_word [OF w]] code_tail_chars [OF w]
    by (auto simp: l_def pad_right_def)
  moreover have "parse_tokens env child depth name (nc_name c)
      (replicate k CHR '' '' @ fmt_X w (unat (nc_code c)) @ code_tail w ?ns) st
      = Some (st\<lparr>ps_codes := add_void_array zero_ncode (ps_codes st) (plain_code c)\<rparr>)"
    if "\<not> ce_dynamic_codes env" for env :: config_env and child depth name
  proof -
    let ?c = "zero_ncode\<lparr>nc_name := nc_name c, nc_code := nc_code c\<rparr>"
    let ?val2 = "map_option fst (strtok whitespace (drop 1 (code_tail w ?ns)))" and ?rest = "drop 1 (code_tail w (tl ?ns))"
    have lt: "\<forall>n\<in>set ?ns. n < 2 ^ 64" using unat_code_less by auto
    have "(case strtok whitespace (drop 1 (code_tail w ?ns)) of None \<Rightarrow> (None, drop 1 (code_tail w ?ns)) | Some (v2, r) \<Rightarrow> (Some v2, r))
        = (?val2, ?rest)"
      unfolding strtok_tail [OF w] by (cases ?ns) simp_all
    then have "parse_tokens env child depth name (nc_name c)
        (replicate k CHR '' '' @ fmt_X w (unat (nc_code c)) @ code_tail w ?ns) st
        = code_line True (nc_name c) (fmt_X w (unat (nc_code c))) ?val2 ?rest st"
      using name(2) assms(4) 
      by (simp add: parse_tokens_def strtok_replicate strtok_code [OF w] plain_key_def mode_line_def del: One_nat_def)
    also have "\<dots> = map_option (\<lambda>_. st\<lparr>ps_codes := add_void_array zero_ncode (ps_codes st) (plain_code c)\<rparr>)
        (check_ncode_dups (ps_codes st) (plain_code c))"
    proof -
      have code: "defineCode (nc_name c) (fmt_X w (unat (nc_code c))) = (?c, False)"
        using strtocode_hex [OF w unat_code_less] by (simp add: defineCode_def)
      have next_codes: "map word_of_nat (map unat (nc_next c)) = nc_next c" by (simp add: o_def)
      obtain cur where nodes: "define_nodes ?c False ?val2 ?rest
          = (?c\<lparr>nc_next := nc_next ?c @ map word_of_nat ?ns, nc_current := cur\<rparr>, False)"
        using define_nodes_codes [OF w lt, of ?c] by blast
      moreover have "st\<lparr>ps_err := False\<rparr> = st" using assms(5) by (cases st) simp
      ultimately show ?thesis using assms(5)
        by (simp only: code_line_def code prod.case nodes next_codes Let_def simp_thms if_True)
          (simp add: plain_code_def zero_ncode_def)
    qed
    also have "\<dots> = Some (st\<lparr>ps_codes := add_void_array zero_ncode (ps_codes st) (plain_code c)\<rparr>)"
    proof -
      have "foreach_code_equals (get_void_array (ps_codes st)) (plain_code c) \<noteq> None"
        using assms(6) by (intro foreach_returns) (simp add: plain_code_def tells_apart_def)
      then show ?thesis by (auto simp: check_ncode_dups_def)
    qed
    finally show ?thesis .
  qed
  ultimately show ?thesis
    unfolding printed using key assms(5) by (intro runs_tokens) auto
qed

lemma va_foldl:
  "va_ok zero ar \<Longrightarrow> va_ok zero (foldl (add_void_array zero) ar xs)
     \<and> get_void_array (foldl (add_void_array zero) ar xs) = get_void_array ar @ xs"
  by (induction xs arbitrary: ar) (simp_all add: va_add)

lemma runs_codes:
  assumes "\<not> is_raw rem" "0 \<le> r_bits rem" "list_all (button_ok rem) cs" "sorted_wrt tells_apart cs"
    "va_ok zero_ncode (ps_codes st)" "ps_mode st = ID_codes" "\<not> ps_err st"
    and "\<forall>d\<in>set (get_void_array (ps_codes st)). \<forall>c\<in>set cs. tells_apart d c"
  shows "runs (concat (map (fprint_remote_signal rem) cs)) st
    (st\<lparr>ps_codes := foldl (add_void_array zero_ncode) (ps_codes st) (map plain_code cs)\<rparr>)"
  using assms(3-)
proof (induction cs arbitrary: st)
  case Nil
  then show ?case by (simp add: runs_Nil)
next
  case (Cons c cs)
  let ?st = "st\<lparr>ps_codes := add_void_array zero_ncode (ps_codes st) (plain_code c)\<rparr>"
  have "runs (fprint_remote_signal rem c) st ?st"
    using Cons.prems by (intro runs_code [OF assms(1,2)]) auto
  moreover have "\<forall>e\<in>set cs. tells_apart (plain_code c) e"
    using Cons.prems(2) by (simp add: tells_apart_def plain_code_def)
  then have "runs (concat (map (fprint_remote_signal rem) cs)) ?st
      (?st\<lparr>ps_codes := foldl (add_void_array zero_ncode) (ps_codes ?st) (map plain_code cs)\<rparr>)"
    using Cons.prems va_add(1,2) [OF Cons.prems(3), of "plain_code c"] by (intro Cons.IH) auto
  ultimately have "runs (fprint_remote_signal rem c @ concat (map (fprint_remote_signal rem) cs)) st
      (?st\<lparr>ps_codes := foldl (add_void_array zero_ncode) (ps_codes ?st) (map plain_code cs)\<rparr>)"
    by (rule runs_append)
  then show ?case by simp
qed

section \<open>Raw signals\<close>

definition signals_tail :: "lirc_t list \<Rightarrow> string" where
  "signals_tail xs = concat (map (\<lambda>x. '' '' @ fmt_u 7 x) xs)"

lemma signals_tail_simps [simp]:
  "signals_tail [] = []" "signals_tail (x # xs) = CHR '' '' # fmt_u 7 x @ signals_tail xs"
  by (simp_all add: signals_tail_def)

lemma drop_one: "drop 1 (c # s) = s"
  by simp

text \<open>The printer breaks the line behind the sixth value.\<close>

lemma raw_text_short: "0 < j \<Longrightarrow> j + length xs < 6 \<Longrightarrow> raw_signals_text j xs = signals_tail xs @ [newline, newline]"
  by (induction xs arbitrary: j) auto

lemma raw_text_full:
  "0 < j \<Longrightarrow> j < 6 \<Longrightarrow> 6 \<le> j + length xs
     \<Longrightarrow> raw_signals_text j xs = signals_tail (take (6 - j) xs) @ [newline] @ raw_signals_text 0 (drop (6 - j) xs)"
proof (induction xs arbitrary: j)
  case (Cons x xs)
  then show ?case
  proof (cases "j < 5")
    case True
    then have "6 - j = Suc (6 - (j + 1))" by simp
    then show ?thesis using Cons.IH [of "j + 1"] Cons.prems True by simp
  next
    case False
    then have "j = 5" using Cons.prems by simp
    then show ?thesis by simp
  qed
qed simp

lemma strtok_signals:
  "strtok whitespace (fmt_u 7 x @ signals_tail xs) = Some (decimal (nat (u32 x)), drop 1 (signals_tail xs))"
  using strtok_word(1,2) [OF decimal_word [of "nat (u32 x)"], of 7] by (cases xs) (simp_all add: fmt_u_def)

lemma addSignal_printed:
  "in_s32 x \<Longrightarrow> addSignal sig (decimal (nat (u32 x))) = (add_void_array 0 sig x, False)"
  by (simp add: addSignal_def strto_decimal)

lemma add_signals_tail:
  "list_all in_s32 xs \<Longrightarrow> add_signals sig (drop 1 (signals_tail xs)) = (foldl (add_void_array 0) sig xs, False)"
proof (induction xs arbitrary: sig)
  case Nil
  then show ?case by (simp add: add_signals.simps [of _ "[]"])
next
  case (Cons x xs)
  then show ?case
    by (subst add_signals.simps) (simp add: strtok_signals addSignal_printed drop_one del: One_nat_def)
qed

lemma decimal_key: "plain_key (decimal n)" "\<not> strcasecmp_eq ''name'' (decimal n)"
proof -
  obtain c s where s: "decimal n = c # s" by (cases "decimal n") (auto simp: decimal_def)
  have "is_digit_of 10 c" using show_base_digits [of 10 c n] s by (simp add: decimal_def)
  then have "char_code c \<le> 57" by (auto simp: is_digit_of_def c_digit_def Let_def split: if_splits)
  then have "c_tolower c = c" "c \<noteq> CHR ''i''" "c \<noteq> CHR ''b''" "c \<noteq> CHR ''e''" "c \<noteq> CHR ''n''"
    by (auto simp: c_tolower_def char_code_def)
  then show "plain_key (decimal n)" "\<not> strcasecmp_eq ''name'' (decimal n)"
    by (simp_all add: s plain_key_def strcasecmp_simps c_tolower_def char_code_def)
qed

lemma runs_signals_line:
  assumes "ps_mode st = ID_raw_name" "\<not> ps_err st" "list_all in_s32 (x # xs)" "length xs \<le> 5"
  shows "runs ((''          '' @ fmt_u 7 x @ signals_tail xs) @ [newline]) st
    (st\<lparr>ps_signals := foldl (add_void_array 0) (ps_signals st) (x # xs)\<rparr>)"
proof -
  let ?key = "decimal (nat (u32 x))" and ?st = "st\<lparr>ps_signals := foldl (add_void_array 0) (ps_signals st) (x # xs)\<rparr>"
  have one: "length (fmt_u 7 y) \<le> 10 \<and> newline \<notin> set (fmt_u 7 y) \<and> carriage_return \<notin> set (fmt_u 7 y)" for y
    using length_printed(1) [of y] word_okD(3,4) [OF decimal_word] by (simp add: fmt_u_def pad_left_def)
  have tail: "length (signals_tail ys) \<le> 11 * length ys \<and> newline \<notin> set (signals_tail ys)
      \<and> carriage_return \<notin> set (signals_tail ys)" for ys
  proof (induction ys)
    case (Cons y ys)
    then show ?case using one [of y] by simp
  qed simp
  have fold_err: "st\<lparr>ps_err := False\<rparr> = st" using assms(2) by (cases st) simp
  have "parse_tokens env child depth name ?key (drop 1 (signals_tail xs)) st = Some ?st"
    if "\<not> ce_dynamic_codes env" for env :: config_env and child depth name
  proof (cases xs)
    case Nil
    then show ?thesis using assms addSignal_printed [of x "ps_signals st"] fold_err by (simp add: parse_tokens_def)
  next
    case (Cons y ys)
    let ?v2 = "map_option fst (strtok whitespace (drop 1 (signals_tail ys)))" and ?rest = "drop 1 (signals_tail (tl ys))"
    have v2: "(case strtok whitespace (drop 1 (signals_tail ys)) of None \<Rightarrow> (None, drop 1 (signals_tail ys)) | Some (v2, r) \<Rightarrow> (Some v2, r))
        = (?v2, ?rest)"
      by (cases ys) (simp_all add: strtok_signals drop_one del: One_nat_def)
    have "parse_tokens env child depth name ?key (drop 1 (signals_tail xs)) st
        = Some (raw_line ?key (decimal (nat (u32 y))) ?v2 ?rest st)"
      using v2 decimal_key(1) assms(1) by (simp add: parse_tokens_def Cons strtok_signals plain_key_def mode_line_def drop_one del: One_nat_def)
    also have "\<dots> = Some ?st"
    proof (cases ys)
      case Nil
      then show ?thesis using assms Cons fold_err
        by (simp add: raw_line_def decimal_key signal_line_def addSignal_printed add_signals.simps [of _ "[]"])
    next
      case (Cons z zs)
      then show ?thesis using assms \<open>xs = y # ys\<close> fold_err add_signals_tail [of zs]
        by (simp add: raw_line_def decimal_key signal_line_def addSignal_printed strtok_signals drop_one del: One_nat_def)
    qed
    finally show ?thesis .
  qed
  moreover have "strtok whitespace (''          '' @ fmt_u 7 x @ signals_tail xs) = Some (?key, drop 1 (signals_tail xs))"
    using strtok_signals by (simp add: strtok_skip whitespace_set drop_one del: One_nat_def)
  ultimately show ?thesis using one [of x] tail [of xs] assms(2,4)
    by (intro runs_tokens) (auto simp: LINE_LEN_def)
qed

end
