(* ===== verification/Dump_Raw.thy ===== *)
theory Dump_Raw
  imports Dump_Codes
begin

text \<open>The parser reads back raw buttons: their names and signals.\<close>

section \<open>The signals of a button\<close>

lemma runs_raw_signals:
  "ps_mode st = ID_raw_name \<Longrightarrow> \<not> ps_err st \<Longrightarrow> list_all in_s32 xs
     \<Longrightarrow> runs (raw_signals_text 0 xs) st (st\<lparr>ps_signals := foldl (add_void_array 0) (ps_signals st) xs\<rparr>)"
proof (induction "length xs" arbitrary: xs st rule: less_induct)
  case less
  show ?case
  proof (cases xs)
    case Nil
    then show ?thesis using runs_blank [of st] less.prems by simp
  next
    case (Cons x ys)
    let ?st = "\<lambda>zs. st\<lparr>ps_signals := foldl (add_void_array 0) (ps_signals st) (x # zs)\<rparr>"
    have line: "runs ((''          '' @ fmt_u 7 x @ signals_tail zs) @ [newline]) st (?st zs)"
      if "list_all in_s32 zs" "length zs \<le> 5" for zs
      using less.prems that Cons by (intro runs_signals_line) auto
    show ?thesis
    proof (cases "length ys < 5")
      case True
      then have "raw_signals_text 0 xs = ((''          '' @ fmt_u 7 x @ signals_tail ys) @ [newline]) @ [newline]"
        using raw_text_short [of 1 ys] Cons by simp
      moreover have "runs (((''          '' @ fmt_u 7 x @ signals_tail ys) @ [newline]) @ [newline]) st (?st ys)"
        using less.prems Cons True by (intro runs_append [OF line runs_blank]) auto
      ultimately show ?thesis using Cons by simp
    next
      case False
      let ?zs = "take 5 ys" and ?rest = "drop 5 ys"
      have ok: "list_all in_s32 ?zs" "list_all in_s32 ?rest"
        using less.prems(3) Cons by (auto simp: list_all_iff dest: in_set_takeD in_set_dropD)
      have "raw_signals_text 0 xs = ((''          '' @ fmt_u 7 x @ signals_tail ?zs) @ [newline]) @ raw_signals_text 0 ?rest"
        using raw_text_full [of 1 ys] Cons False by simp
      moreover have "runs (raw_signals_text 0 ?rest) (?st ?zs)
          ((?st ?zs)\<lparr>ps_signals := foldl (add_void_array 0) (ps_signals (?st ?zs)) ?rest\<rparr>)"
        using less.prems ok Cons False by (intro less.hyps) auto
      then have "runs (((''          '' @ fmt_u 7 x @ signals_tail ?zs) @ [newline]) @ raw_signals_text 0 ?rest) st
          ((?st ?zs)\<lparr>ps_signals := foldl (add_void_array 0) (ps_signals (?st ?zs)) ?rest\<rparr>)"
        using ok by (intro runs_append [OF line]) auto
      moreover have "(?st ?zs)\<lparr>ps_signals := foldl (add_void_array 0) (ps_signals (?st ?zs)) ?rest\<rparr> = ?st ys"
        using foldl_append [of "add_void_array 0" "add_void_array 0 (ps_signals st) x" ?zs ?rest] by simp
      ultimately show ?thesis using Cons by simp
    qed
  qed
qed

section \<open>A button\<close>

text \<open>What the parser stores for the \<open>k\<close>th raw button: its code is its number.\<close>

definition raw_code :: "ir_code \<Rightarrow> ir_ncode \<Rightarrow> ir_ncode" where
  "raw_code k c = zero_ncode\<lparr>nc_name := nc_name c, nc_code := k, nc_length := nc_length c, nc_signals := Some (raw_signals c)\<rparr>"

primrec raw_codes :: "ir_code \<Rightarrow> ir_ncode list \<Rightarrow> ir_ncode list" where
  "raw_codes k [] = []"
| "raw_codes k (c # cs) = raw_code (k + 1) c # raw_codes (k + 1) cs"

definition raw_ok :: "ir_ncode \<Rightarrow> bool" where
  "raw_ok c \<longleftrightarrow> word_ok (nc_name c) \<and> length (nc_name c) < 800 \<and> nc_length c = int (length (raw_signals c))
     \<and> nc_length c mod 2 = 1 \<and> list_all in_s32 (raw_signals c)"

text \<open>The state once the button at work is complete.\<close>

definition closed :: "parse_state \<Rightarrow> parse_state" where
  "closed st = (if ps_mode st = ID_raw_name then close_raw_code st else st)"

definition raw_clean :: "ir_ncode \<Rightarrow> bool" where
  "raw_clean c \<longleftrightarrow> nc_next c = [] \<and> nc_current c = None \<and> nc_transmit_state c = None"

definition raw_inv :: "ir_code \<Rightarrow> parse_state \<Rightarrow> bool" where
  "raw_inv k st \<longleftrightarrow> (ps_mode st = ID_raw_codes \<or> ps_mode st = ID_raw_name) \<and> \<not> ps_err (closed st)
     \<and> va_ok zero_ncode (ps_raw_codes (closed st)) \<and> nc_code (ps_raw_code (closed st)) = k
     \<and> raw_clean (ps_raw_code (closed st))"

definition same_rest :: "parse_state \<Rightarrow> parse_state \<Rightarrow> bool" where
  "same_rest st st' \<longleftrightarrow> ps_store st' = ps_store st \<and> ps_top st' = ps_top st \<and> ps_rem st' = ps_rem st
     \<and> ps_sbuf st' = ps_sbuf st"

lemma closed_rest: "same_rest st (closed st)"
  by (simp add: same_rest_def closed_def close_raw_code_def Let_def)

lemma same_rest_trans: "same_rest a b \<Longrightarrow> same_rest b c \<Longrightarrow> same_rest a c"
  by (simp add: same_rest_def)

lemma nr_items_foldl: "va_nr_items (foldl (add_void_array zero) ar xs) = va_nr_items ar + length xs"
  by (induction xs arbitrary: ar) (simp_all add: add_void_array_def Let_def)

lemma runs_raw_name:
  assumes "word_ok nm" "length nm < 800" "ps_mode st = ID_raw_codes \<or> ps_mode st = ID_raw_name" "\<not> ps_err (closed st)"
  shows "runs (put_line ''          name '' nm) st
    ((closed st)\<lparr>ps_raw_code := (ps_raw_code (closed st))\<lparr>nc_name := nm, nc_code := nc_code (ps_raw_code (closed st)) + 1\<rparr>,
       ps_signals := init_void_array 0 50, ps_mode := ID_raw_name\<rparr>)" (is "runs _ st ?st")
proof -
  have nm: "strtok whitespace nm = Some (nm, [])" using assms(1) by (rule strtok_word)
  have "parse_tokens env child depth name ''name'' nm st = Some ?st"
    if "\<not> ce_dynamic_codes env" for env :: config_env and child depth name
  proof -
    have "parse_tokens env child depth name ''name'' nm st = Some (raw_line ''name'' nm None [] st)"
      using assms(3) by (auto simp: parse_tokens_def nm strcasecmp_simps c_tolower_def char_code_def mode_line_def)
    then show ?thesis by (simp add: raw_line_def closed_def Let_def)
  qed
  moreover have "strtok whitespace (''          name '' @ nm) = Some (''name'', nm)"
    by (simp add: strtok_skip strtok_here whitespace_set)
  ultimately have "runs ((''          name '' @ nm) @ [newline]) st ?st"
    using word_okD(3,4) [OF assms(1)] assms(2,4) by (intro runs_tokens) (auto simp: LINE_LEN_def)
  then show ?thesis by (simp add: put_line_def)
qed

lemma runs_raw_button:
  assumes "is_raw rem" "raw_ok c" "raw_inv k st"
  shows "\<exists>st'. runs (fprint_remote_signal rem c) st st' \<and> raw_inv (k + 1) st' \<and> same_rest st st'
    \<and> get_void_array (ps_raw_codes (closed st')) = get_void_array (ps_raw_codes (closed st)) @ [raw_code (k + 1) c]"
proof -
  let ?xs = "raw_signals c"
  define st1 where "st1 = (closed st)\<lparr>ps_raw_code := (ps_raw_code (closed st))\<lparr>nc_name := nc_name c, nc_code := k + 1\<rparr>,
       ps_signals := init_void_array 0 50, ps_mode := ID_raw_name\<rparr>"
  define st2 where "st2 = st1\<lparr>ps_signals := foldl (add_void_array 0) (ps_signals st1) ?xs\<rparr>"
  have c: "word_ok (nc_name c)" "length (nc_name c) < 800" "nc_length c = int (length ?xs)" "nc_length c mod 2 = 1"
    "list_all in_s32 ?xs" using assms(2) unfolding raw_ok_def by blast+
  have st: "ps_mode st = ID_raw_codes \<or> ps_mode st = ID_raw_name" "\<not> ps_err (closed st)"
    "va_ok zero_ncode (ps_raw_codes (closed st))" "nc_code (ps_raw_code (closed st)) = k" "raw_clean (ps_raw_code (closed st))"
    using assms(3) by (simp_all add: raw_inv_def)
  have "runs (put_line ''          name '' (nc_name c)) st st1"
    using runs_raw_name [OF c(1,2) st(1,2)] by (simp add: st1_def st(4))
  moreover have "runs (raw_signals_text 0 ?xs) st1 st2"
    unfolding st2_def using st(2) c(5) by (intro runs_raw_signals) (simp_all add: st1_def)
  ultimately have "runs (fprint_remote_signal rem c) st st2"
    using assms(1) by (simp add: fprint_remote_signal_def runs_append)
  moreover have sig: "get_void_array (ps_signals st2) = ?xs" "va_nr_items (ps_signals st2) = length ?xs"
    using va_foldl [of 0 "init_void_array 0 50" ?xs] va_init [of 50 "0 :: int"] nr_items_foldl [of 0 "init_void_array 0 50" ?xs]
    by (simp_all add: st2_def st1_def init_void_array_def)
  then have cl: "closed st2 = st2\<lparr>ps_raw_code := raw_code (k + 1) c, ps_err := False,
      ps_raw_codes := add_void_array zero_ncode (ps_raw_codes (closed st)) (raw_code (k + 1) c)\<rparr>"
  proof -
    have "closed st2 = close_raw_code st2" by (simp add: closed_def st2_def st1_def)
    moreover have "(ps_raw_code st2)\<lparr>nc_signals := Some ?xs, nc_length := int (length ?xs)\<rparr> = raw_code (k + 1) c"
      using st(5) c(3) by (cases "ps_raw_code (closed st)") (simp add: st2_def st1_def raw_code_def raw_clean_def zero_ncode_def)
    moreover have "\<not> ps_err st2" "ps_raw_codes st2 = ps_raw_codes (closed st)" using st(2) by (simp_all add: st2_def st1_def)
    moreover have "nc_length (raw_code (k + 1) c) mod 2 = 1" using c(4) by (simp add: raw_code_def)
    ultimately show ?thesis by (simp add: close_raw_code_def sig Let_def)
  qed
  have "raw_inv (k + 1) st2"
    using va_add(1) [OF st(3)] by (simp add: raw_inv_def cl) (simp add: st2_def st1_def raw_code_def raw_clean_def zero_ncode_def)
  moreover have "same_rest st st2"
    using closed_rest [of st] by (simp add: same_rest_def st2_def st1_def)
  moreover have "get_void_array (ps_raw_codes (closed st2)) = get_void_array (ps_raw_codes (closed st)) @ [raw_code (k + 1) c]"
    using va_add(2) [OF st(3)] by (simp add: cl)
  ultimately show ?thesis by blast
qed

lemma runs_raw_buttons:
  assumes "is_raw rem" "list_all raw_ok cs" "raw_inv k st"
  shows "\<exists>st'. runs (concat (map (fprint_remote_signal rem) cs)) st st' \<and> raw_inv (k + of_nat (length cs)) st' \<and> same_rest st st'
    \<and> get_void_array (ps_raw_codes (closed st')) = get_void_array (ps_raw_codes (closed st)) @ raw_codes k cs"
  using assms(2,3)
proof (induction cs arbitrary: k st)
  case Nil
  then show ?case by (intro exI [of _ st]) (simp add: runs_Nil same_rest_def)
next
  case (Cons c cs)
  then obtain st1 where st1: "runs (fprint_remote_signal rem c) st st1" "raw_inv (k + 1) st1" "same_rest st st1"
      "get_void_array (ps_raw_codes (closed st1)) = get_void_array (ps_raw_codes (closed st)) @ [raw_code (k + 1) c]"
    using runs_raw_button [OF assms(1), of c k st] by auto
  obtain st2 where st2: "runs (concat (map (fprint_remote_signal rem) cs)) st1 st2" "raw_inv (k + 1 + of_nat (length cs)) st2"
      "same_rest st1 st2"
      "get_void_array (ps_raw_codes (closed st2)) = get_void_array (ps_raw_codes (closed st1)) @ raw_codes (k + 1) cs"
    using Cons.IH [OF _ st1(2)] Cons.prems(1) by auto
  then show ?case using st1 runs_append [OF st1(1) st2(1)] same_rest_trans [OF st1(3) st2(3)]
    by (intro exI [of _ st2]) (simp add: ac_simps)
qed

section \<open>The section \<open>raw_codes\<close>\<close>

lemma raw_flags: "is_raw rem \<Longrightarrow> set_protocol rem RAW_CODES = rem"
proof -
  assume "is_raw rem"
  then have "(r_flags rem AND NOT IR_PROTOCOL_MASK) OR RAW_CODES
      = (r_flags rem AND NOT IR_PROTOCOL_MASK) OR (r_flags rem AND IR_PROTOCOL_MASK)" by (simp add: is_raw_def)
  also have "\<dots> = r_flags rem" by (rule bit_eqI) (auto simp: bit_or_iff bit_and_iff bit_not_iff)
  finally show ?thesis by (cases rem) (simp add: set_protocol_def)
qed

lemma runs_begin_raw_codes:
  assumes "ps_mode st = ID_remote" "\<not> ps_err st" "the_rem st = Some rem" "r_codes rem = None" "is_raw rem"
  shows "runs (put_line ''      begin raw_codes'' []) st
    ((set_rem rem st)\<lparr>ps_raw_code := (ps_raw_code st)\<lparr>nc_code := 0\<rparr>, ps_raw_codes := init_void_array zero_ncode 30,
       ps_mode := ID_raw_codes\<rparr>)"
  using runs_tokens [of "''      begin raw_codes''" _ "''begin''" "''raw_codes''" st] assms
  by (simp add: section_simps begin_raw_codes_def raw_flags set_rem_def split: option.split)

lemma runs_end_raw_codes:
  assumes "raw_inv k st" "the_rem st = Some rem"
  shows "runs (put_line ''      end raw_codes'' []) st
    ((set_rem (rem\<lparr>r_codes := Some (get_void_array (ps_raw_codes (closed st)))\<rparr>) (closed st))\<lparr>ps_mode := ID_remote\<rparr>)"
proof -
  have "the_rem (closed st) = Some rem" using assms(2) closed_rest [of st] by (simp add: same_rest_def the_rem_def)
  moreover have "ps_mode st = ID_raw_codes \<or> ps_mode st = ID_raw_name" "\<not> ps_err (closed st)" using assms(1) by (simp_all add: raw_inv_def)
  ultimately have "end_raw_codes st
      = Some ((set_rem (rem\<lparr>r_codes := Some (get_void_array (ps_raw_codes (closed st)))\<rparr>) (closed st))\<lparr>ps_mode := ID_remote\<rparr>)"
    by (auto simp: end_raw_codes_def closed_def checkMode_def the_rem_def set_rem_def split: option.splits)
  then show ?thesis
    using runs_tokens [of "''      end raw_codes''" _ "''end''" "''raw_codes''" st] \<open>\<not> ps_err (closed st)\<close>
    by (simp add: section_simps set_rem_def split: option.split)
qed

end
