(* ===== verification/Dump_Spec.thy ===== *)
theory Dump_Spec
  imports Dump_Raw
begin

text \<open>
  The printer \<open>dump_config.c\<close> and the parser \<open>config_file.c\<close> agree: what \<open>fprint_remotes\<close> writes,
  \<open>read_config_recursive\<close> reads.
\<close>

section \<open>The comment\<close>

definition line_ok :: "string \<Rightarrow> bool" where
  "line_ok l \<longleftrightarrow> newline \<notin> set l \<and> carriage_return \<notin> set l \<and> length l < 150"

definition comment_ok :: "comment \<Rightarrow> string option \<Rightarrow> bool" where
  "comment_ok cm commandline \<longleftrightarrow> line_ok (cm_version cm) \<and> line_ok (cm_driver cm)
     \<and> cm_time cm \<noteq> [] \<and> last (cm_time cm) = newline \<and> line_ok (butlast (cm_time cm))
     \<and> cm_uname cm \<noteq> [] \<and> last (cm_uname cm) = newline \<and> line_ok (butlast (cm_uname cm))
     \<and> (case commandline of None \<Rightarrow> line_ok (cm_cmd cm) | Some cl \<Rightarrow> line_ok (take 127 cl))"

definition comment_line :: "string \<Rightarrow> bool" where
  "comment_line l \<longleftrightarrow> newline \<notin> set l \<and> carriage_return \<notin> set l \<and> length l < 1000"

lemma runs_comments:
  "list_all comment_line ls \<Longrightarrow> \<not> ps_err st \<Longrightarrow> runs (concat (map (\<lambda>l. CHR ''#'' # l @ [newline]) ls)) st st"
proof (induction ls)
  case (Cons l ls)
  then have "runs (CHR ''#'' # l @ [newline]) st st" by (intro runs_comment) (simp_all add: comment_line_def)
  then have "runs ((CHR ''#'' # l @ [newline]) @ concat (map (\<lambda>l. CHR ''#'' # l @ [newline]) ls)) st st"
    using Cons by (intro runs_append) simp_all
  then show ?case by simp
qed (simp add: runs_Nil)

lemma runs_fprint_comment:
  assumes "comment_ok cm commandline" "word_ok (r_name rem)" "length (r_name rem) < 800" "\<not> ps_err st"
  shows "runs (fprint_comment cm rem commandline) st st"
proof -
  obtain t where t: "cm_time cm = t @ [newline]" "line_ok t"
    using assms(1) append_butlast_last_id [of "cm_time cm"] unfolding comment_ok_def by metis
  obtain u where u: "cm_uname cm = u @ [newline]" "line_ok u"
    using assms(1) append_butlast_last_id [of "cm_uname cm"] unfolding comment_ok_def by metis
  define cmd where "cmd = (case commandline of Some cl \<Rightarrow> take 127 cl | None \<Rightarrow> cm_cmd cm)"
  have cmd: "line_ok cmd" using assms(1) by (auto simp: comment_ok_def cmd_def split: option.splits)
  let ?ls = "[[], '' This config file was automatically generated'',
     '' using lirc-'' @ cm_version cm @ ''('' @ cm_driver cm @ '') on '' @ t, '' Command line used: '' @ cmd,
     '' Kernel version (uname -r): '' @ u, [], '' Remote name (as of config file): '' @ r_name rem,
     '' Brand of remote device, the thing you hold in your hand:'', '' Remote device model nr:'',
     '' Remote device info url:'', '' Does remote device has a bundled capture device e. g., a'',
     ''     usb dongle? :'', '' For bundled USB devices: usb vendor id, product id'',
     ''     and device string (use dmesg or lsusb):'', '' Type of device controlled'',
     ''     (TV, VCR, Audio, DVD, Satellite, Cable, HTPC, ...) :'', '' Device(s) controlled by this remote:'']"
  have eq: "fprint_comment cm rem commandline = concat (map (\<lambda>l. CHR ''#'' # l @ [newline]) ?ls) @ [newline]"
    by (simp add: fprint_comment_def t(1) u(1) cmd_def [symmetric] put_lines_def)
  have "list_all comment_line ?ls"
    using assms(1) t(2) u(2) cmd word_okD(3,4) [OF assms(2)] assms(3)
    by (simp add: comment_line_def line_ok_def comment_ok_def)
  then show ?thesis unfolding eq using assms(4) by (intro runs_append [OF runs_comments runs_blank])
qed

section \<open>A remote\<close>

text \<open>The codes of a remote that is not raw fit into the widths the remote declares.\<close>

definition decoded_ok :: "ir_remote \<Rightarrow> ir_ncode list \<Rightarrow> bool" where
  "decoded_ok rem cs \<longleftrightarrow> 0 \<le> r_bits rem \<and> list_all (button_ok rem) cs \<and> sorted_wrt tells_apart cs
     \<and> r_pre_data rem AND gen_mask (r_pre_data_bits rem) = r_pre_data rem
     \<and> r_post_data rem AND gen_mask (r_post_data_bits rem) = r_post_data rem
     \<and> list_all (\<lambda>c. list_all (\<lambda>d. d AND gen_mask (r_bits rem) = d) (nc_code c # nc_next c)) cs"

definition printable :: "ir_remote \<Rightarrow> bool" where
  "printable rem \<longleftrightarrow> head_ok rem \<and> (case r_codes rem of
       None \<Rightarrow> False
     | Some cs \<Rightarrow> if is_raw rem then list_all raw_ok cs else decoded_ok rem cs)"

text \<open>What the file holds of a remote: the parameters and the codes.\<close>

definition kept_remote :: "ir_remote \<Rightarrow> ir_remote" where
  "kept_remote rem = (kept rem)\<lparr>r_codes := Some
     (if is_raw rem then raw_codes 0 (codes_of rem) else map plain_code (codes_of rem))\<rparr>"

text \<open>The parser between two remotes.\<close>

definition between :: "parse_state \<Rightarrow> bool" where
  "between st \<longleftrightarrow> ps_mode st = ID_none \<and> \<not> ps_err st \<and> raw_clean (ps_raw_code st)
     \<and> set (ps_top st) \<subseteq> {..<length (ps_store st)}"

lemma kept_raw: "is_raw (kept rem) = is_raw rem"
  by (simp add: kept_def is_raw_def)

lemma fprint_head_body: "fprint_remote_head rem = put_line ''begin remote'' [] @ [newline] @ head_body rem"
  by (simp add: fprint_remote_head_def head_body_def)

lemma runs_head:
  assumes "head_ok rem" "ps_mode st = ID_none" "\<not> ps_err st"
  shows "runs (fprint_remote_head rem) st
    (st\<lparr>ps_mode := ID_remote, ps_rem := Some (length (ps_store st)), ps_top := ps_top st @ [length (ps_store st)],
        ps_store := ps_store st @ [kept rem]\<rparr>)"
proof -
  let ?st = "st\<lparr>ps_mode := ID_remote, ps_store := ps_store st @ [(zero_remote [])\<lparr>r_freq := DEFAULT_FREQ\<rparr>],
        ps_rem := Some (length (ps_store st)), ps_top := ps_top st @ [length (ps_store st)]\<rparr>"
  have "runs (head_body rem) ?st (?st\<lparr>ps_store := (ps_store ?st)[length (ps_store st) := kept rem]\<rparr>)"
    using assms(3) by (intro runs_reads [OF reads_head [OF assms(1)]]) simp_all
  then have "runs (put_line ''begin remote'' [] @ [newline] @ head_body rem) st
      (?st\<lparr>ps_store := (ps_store ?st)[length (ps_store st) := kept rem]\<rparr>)"
    using assms(2,3) by (intro runs_append [OF runs_begin_remote runs_append [OF runs_blank]]) simp_all
  then show ?thesis by (simp add: fprint_head_body)
qed

lemma runs_signals:
  assumes "printable rem" "ps_mode st = ID_remote" "\<not> ps_err st" "ps_rem st = Some i" "i < length (ps_store st)"
    and "ps_store st ! i = kept rem" "raw_clean (ps_raw_code st)"
  shows "\<exists>s st'. fprint_remote_signals rem = Some s \<and> runs s st st' \<and> ps_mode st' = ID_remote \<and> \<not> ps_err st'
    \<and> ps_rem st' = Some i \<and> ps_store st' = (ps_store st)[i := kept_remote rem] \<and> ps_top st' = ps_top st
    \<and> ps_sbuf st' = ps_sbuf st \<and> raw_clean (ps_raw_code st')"
proof -
  obtain cs where cs: "r_codes rem = Some cs" using assms(1) by (auto simp: printable_def split: option.splits)
  have the_rem: "the_rem st = Some (kept rem)" "r_codes (kept rem) = None"
    using assms(4,6) by (simp_all add: the_rem_def kept_def zero_remote_def)
  show ?thesis
  proof (cases "is_raw rem")
    case False
    let ?ar = "foldl (add_void_array zero_ncode) (init_void_array zero_ncode 30) (map plain_code cs)"
    let ?st1 = "st\<lparr>ps_codes := init_void_array zero_ncode 30, ps_mode := ID_codes\<rparr>"
    let ?st2 = "?st1\<lparr>ps_codes := ?ar\<rparr>"
    have ok: "0 \<le> r_bits rem" "list_all (button_ok rem) cs" "sorted_wrt tells_apart cs"
      using assms(1) False cs by (simp_all add: printable_def decoded_ok_def)
    have init: "va_ok zero_ncode (init_void_array zero_ncode 30)" "get_void_array (init_void_array zero_ncode 30) = []"
      using va_init [of 30 zero_ncode] by simp_all
    have ar: "get_void_array ?ar = map plain_code cs" using va_foldl [OF init(1)] init(2) by simp
    have "runs (concat (map (fprint_remote_signal rem) cs)) ?st1 ?st2"
      using runs_codes [OF False ok, of ?st1] assms(3) init by simp
    moreover have "runs (put_line ''      begin codes'' []) st ?st1"
      using assms(2,3) the_rem by (intro runs_begin_codes)
    moreover have "runs (put_line ''      end codes'' []) ?st2
        ((set_rem ((kept rem)\<lparr>r_codes := Some (map plain_code cs)\<rparr>) ?st2)\<lparr>ps_mode := ID_remote\<rparr>)"
      using runs_end_codes [of ?st2 "kept rem"] assms(3) the_rem by (simp add: ar the_rem_def)
    moreover have "(kept rem)\<lparr>r_codes := Some (map plain_code cs)\<rparr> = kept_remote rem"
      using False cs by (simp add: kept_remote_def codes_of_def)
    ultimately have run: "runs (put_line ''      begin codes'' [] @ concat (map (fprint_remote_signal rem) cs)
        @ put_line ''      end codes'' [] @ [newline]) st ((set_rem (kept_remote rem) ?st2)\<lparr>ps_mode := ID_remote\<rparr>)"
      using assms(3) by (auto intro!: runs_append runs_blank simp: set_rem_def split: option.splits)
    show ?thesis
    proof (intro exI conjI, rule_tac [2] run)
      show "fprint_remote_signals rem = Some (put_line ''      begin codes'' [] @ concat (map (fprint_remote_signal rem) cs)
        @ put_line ''      end codes'' [] @ [newline])"
        using False cs by (simp add: fprint_remote_signals_def fprint_remote_signal_head_def fprint_remote_signal_foot_def)
    qed (use assms in \<open>simp_all add: set_rem_def\<close>)
  next
    case True
    let ?st1 = "(set_rem (kept rem) st)\<lparr>ps_raw_code := (ps_raw_code st)\<lparr>nc_code := 0\<rparr>,
        ps_raw_codes := init_void_array zero_ncode 30, ps_mode := ID_raw_codes\<rparr>"
    have ok: "list_all raw_ok cs" using assms(1) True cs by (simp add: printable_def)
    have lens: "\<not> (\<exists>c\<in>set cs. int (length (raw_signals c)) < nc_length c)"
      using ok by (auto simp: raw_ok_def list_all_iff)
    have init: "va_ok zero_ncode (init_void_array zero_ncode 30)" "get_void_array (init_void_array zero_ncode 30) = []"
      using va_init [of 30 zero_ncode] by simp_all
    have st1: "raw_inv 0 ?st1" "closed ?st1 = ?st1"
      using assms(3,4,7) init by (simp_all add: raw_inv_def closed_def raw_clean_def set_rem_def)
    obtain st2 where st2: "runs (concat (map (fprint_remote_signal rem) cs)) ?st1 st2" "raw_inv (0 + of_nat (length cs)) st2"
        "same_rest ?st1 st2" "get_void_array (ps_raw_codes (closed st2)) = get_void_array (ps_raw_codes (closed ?st1)) @ raw_codes 0 cs"
      using runs_raw_buttons [OF True ok st1(1)] by blast
    have same: "set_rem (kept rem) st = st" using assms(4,6) by (simp add: set_rem_def same_store)
    have arr: "get_void_array (ps_raw_codes (closed st2)) = raw_codes 0 cs"
      using st2(4) init(2) by (simp only: st1(2)) simp
    have rest: "ps_store st2 = ps_store st" "ps_top st2 = ps_top st" "ps_rem st2 = Some i" "ps_sbuf st2 = ps_sbuf st"
      using st2(3) same assms(4) by (simp_all add: same_rest_def)
    then have "the_rem st2 = Some (kept rem)"
      using assms(6) by (simp add: the_rem_def)
    let ?st3 = "(set_rem (kept_remote rem) (closed st2))\<lparr>ps_mode := ID_remote\<rparr>"
    have "(kept rem)\<lparr>r_codes := Some (raw_codes 0 cs)\<rparr> = kept_remote rem"
      using True cs by (simp add: kept_remote_def codes_of_def)
    then have e: "runs (put_line ''      end raw_codes'' []) st2 ?st3"
      using runs_end_raw_codes [OF st2(2), of "kept rem"] arr \<open>the_rem st2 = Some (kept rem)\<close> by simp
    have b: "runs (put_line ''      begin raw_codes'' []) st ?st1"
      using assms(2,3) the_rem True by (intro runs_begin_raw_codes) (simp_all add: kept_raw)
    have err: "\<not> ps_err (closed st2)" "raw_clean (ps_raw_code (closed st2))" using st2(2) by (simp_all add: raw_inv_def)
    have "\<not> ps_err ?st1" "\<not> ps_err ?st3" using assms(3) err by (simp_all add: set_rem_def split: option.split)
    then have nl: "runs [newline] ?st1 ?st1" "runs [newline] ?st3 ?st3" using runs_blank by metis+
    note run = runs_append [OF runs_append [OF b nl(1)] runs_append [OF st2(1) runs_append [OF e nl(2)]]]
    show ?thesis
    proof (intro exI conjI, rule_tac [2] run)
      show "fprint_remote_signals rem = Some ((put_line ''      begin raw_codes'' [] @ [newline])
        @ concat (map (fprint_remote_signal rem) cs) @ put_line ''      end raw_codes'' [] @ [newline])"
        using True cs lens
        by (simp add: fprint_remote_signals_def fprint_remote_signal_head_def fprint_remote_signal_foot_def)
    qed (use rest err closed_rest [of st2] in \<open>simp_all add: set_rem_def same_rest_def\<close>)
  qed
qed

lemma sanity_kept:
  assumes "printable rem"
  shows "sanityChecks (kept_remote rem) = Some (True, kept_remote rem)"
proof -
  have name: "r_name (kept_remote rem) \<noteq> []"
    using assms word_okD(1) [of "r_name rem"] by (simp add: printable_def head_ok_def kept_remote_def kept_def zero_remote_def)
  have raw: "is_raw (kept_remote rem) = is_raw rem" by (simp add: kept_remote_def kept_def is_raw_def)
  show ?thesis
  proof (cases "is_raw rem")
    case True
    then show ?thesis using name raw by (simp add: sanityChecks_def)
  next
    case False
    obtain cs where cs: "r_codes rem = Some cs" using assms by (auto simp: printable_def split: option.splits)
    have fit: "r_pre_data rem AND gen_mask (r_pre_data_bits rem) = r_pre_data rem"
      "r_post_data rem AND gen_mask (r_post_data_bits rem) = r_post_data rem"
      "\<forall>c\<in>set cs. nc_code c AND gen_mask (r_bits rem) = nc_code c \<and> (\<forall>d\<in>set (nc_next c). d AND gen_mask (r_bits rem) = d)"
      using assms False cs by (auto simp: printable_def decoded_ok_def list_all_iff)
    have "mask_code (r_bits rem) (plain_code c) = plain_code c" if "c \<in> set cs" for c
    proof -
      have "map (\<lambda>n. n AND gen_mask (r_bits rem)) (nc_next c) = nc_next c"
        using fit(3) that by (intro map_idI) auto
      then show ?thesis using fit(3) that by (simp add: mask_code_def plain_code_def zero_ncode_def)
    qed
    then have "map (mask_code (r_bits rem)) (map plain_code cs) = map plain_code cs" by (intro map_idI) auto
    then have "(kept_remote rem)\<lparr>r_pre_data := r_pre_data (kept_remote rem) AND gen_mask (r_pre_data_bits (kept_remote rem)),
        r_post_data := r_post_data (kept_remote rem) AND gen_mask (r_post_data_bits (kept_remote rem)),
        r_codes := Some (map (mask_code (r_bits (kept_remote rem))) (map plain_code cs))\<rparr> = kept_remote rem"
      using False cs fit(1,2) by (simp add: kept_remote_def kept_def codes_of_def zero_remote_def)
    moreover have "r_codes (kept_remote rem) = Some (map plain_code cs)"
      using False cs by (simp add: kept_remote_def codes_of_def)
    ultimately show ?thesis using name raw False by (simp add: sanityChecks_def)
  qed
qed

lemma cut_after_last: "i \<notin> set xs \<Longrightarrow> cut_after i (xs @ [i]) = xs @ [i]"
  by (simp add: cut_after_def) (subst takeWhile_append2, auto)

lemma runs_remote:
  assumes "printable rem" "comment_ok cm commandline" "between st"
  shows "\<exists>s st'. fprint_remote cm rem commandline = Some s \<and> runs s st st' \<and> between st'
    \<and> ps_store st' = ps_store st @ [kept_remote rem] \<and> ps_top st' = ps_top st @ [length (ps_store st)]
    \<and> ps_sbuf st' = ps_sbuf st"
proof -
  let ?i = "length (ps_store st)"
  let ?st1 = "st\<lparr>ps_mode := ID_remote, ps_rem := Some ?i, ps_top := ps_top st @ [?i], ps_store := ps_store st @ [kept rem]\<rparr>"
  have st: "ps_mode st = ID_none" "\<not> ps_err st" "raw_clean (ps_raw_code st)" "set (ps_top st) \<subseteq> {..<?i}"
    using assms(3) by (simp_all add: between_def)
  have head: "head_ok rem" "word_ok (r_name rem)" "length (r_name rem) < 800"
    using assms(1) by (simp_all add: printable_def head_ok_def)
  note c = runs_fprint_comment [OF assms(2) head(2,3) st(2)]
  note h = runs_head [OF head(1) st(1,2)]
  obtain s st2 where s: "fprint_remote_signals rem = Some s" "runs s ?st1 st2" "ps_mode st2 = ID_remote" "\<not> ps_err st2"
      "ps_rem st2 = Some ?i" "ps_store st2 = (ps_store ?st1)[?i := kept_remote rem]" "ps_top st2 = ps_top ?st1"
      "ps_sbuf st2 = ps_sbuf ?st1" "raw_clean (ps_raw_code st2)"
    using runs_signals [OF assms(1), of ?st1 ?i] st by auto
  have store: "ps_store st2 = ps_store st @ [kept_remote rem]" using s(6) by simp
  let ?st3 = "st2\<lparr>ps_mode := ID_none\<rparr>"
  have "(kept_remote rem)\<lparr>r_last_code := None\<rparr> = kept_remote rem"
    by (simp add: kept_remote_def kept_def zero_remote_def)
  moreover have "set_rem (kept_remote rem) st2 = st2"
    using s(5) store by (simp add: set_rem_def same_store)
  moreover have "cut_after ?i (ps_top st2) = ps_top st2"
    using st(4) s(7) by (auto intro: cut_after_last)
  ultimately have "end_remote False st2 = Some ?st3"
    using s(3,5) store sanity_kept [OF assms(1)] by (simp add: end_remote_def checkMode_def Let_def)
  then have e: "runs (put_line ''end remote'' []) st2 ?st3" using s(4) by (intro runs_end_remote) simp_all
  note run = runs_append [OF c runs_append [OF h runs_append [OF s(2) e]]]
  show ?thesis
  proof (intro exI conjI, rule_tac [2] run)
    show "fprint_remote cm rem commandline
        = Some (fprint_comment cm rem commandline @ fprint_remote_head rem @ s @ put_line ''end remote'' [])"
      by (simp add: fprint_remote_def s(1) fprint_remote_foot_def)
    show "between ?st3" using s(4,7,9) st(4) store by (auto simp: between_def)
  qed (use s(7,8) store in simp_all)
qed

lemma runs_remotes:
  assumes "list_all printable rs" "comment_ok cm commandline" "between st"
  shows "\<exists>s st'. fprint_remotes cm rs commandline = Some s \<and> runs s st st' \<and> between st'
    \<and> ps_store st' = ps_store st @ map kept_remote rs
    \<and> ps_top st' = ps_top st @ [length (ps_store st)..<length (ps_store st) + length rs]
    \<and> ps_sbuf st' = ps_sbuf st"
  using assms(1,3)
proof (induction rs arbitrary: st)
  case Nil
  then show ?case by (intro exI [of _ "[]"] exI [of _ st]) (simp add: runs_Nil)
next
  case (Cons r rs)
  obtain s st1 where s: "fprint_remote cm r commandline = Some s" "runs s st st1" "between st1"
      "ps_store st1 = ps_store st @ [kept_remote r]" "ps_top st1 = ps_top st @ [length (ps_store st)]" "ps_sbuf st1 = ps_sbuf st"
    using runs_remote [OF _ assms(2) Cons.prems(2), of r] Cons.prems(1) by auto
  obtain t st2 where t: "fprint_remotes cm rs commandline = Some t" "runs t st1 st2" "between st2"
      "ps_store st2 = ps_store st1 @ map kept_remote rs"
      "ps_top st2 = ps_top st1 @ [length (ps_store st1)..<length (ps_store st1) + length rs]" "ps_sbuf st2 = ps_sbuf st1"
    using Cons.IH [OF _ s(3)] Cons.prems(1) by auto
  have nl: "runs [newline] st1 st1" using s(3) by (simp add: between_def runs_blank)
  have "runs (s @ [newline, newline] @ t) st st2"
    using runs_append [OF s(2) runs_append [OF nl runs_append [OF nl t(2)]]] by simp
  moreover have "ps_top st2 = ps_top st @ [length (ps_store st)..<length (ps_store st) + length (r # rs)]"
    using t(5) s(4,5) upt_conv_Cons [of "length (ps_store st)" "length (ps_store st) + length (r # rs)"] by simp
  ultimately show ?case using s t by (intro exI [of _ "s @ [newline, newline] @ t"] exI [of _ st2]) simp
qed

section \<open>Sample remotes\<close>

lemma short_button:
  assumes "nc_next c = []" "length (nc_name c) < 500" "0 \<le> r_bits rem" "r_bits rem \<le> 64" "\<not> is_raw rem"
  shows "length (fprint_remote_signal rem c) < LINE_LEN"
proof -
  have w: "0 \<le> (r_bits rem + 3) sdiv 4" "(r_bits rem + 3) sdiv 4 < 20" using assms(3,4) by (simp_all add: sdiv_nonneg)
  have "length (fmt_X ((r_bits rem + 3) sdiv 4) (unat (nc_code c))) \<le> nat ((r_bits rem + 3) sdiv 4) + 18"
    by (rule length_fmt_X [OF w(1) unat_code_less])
  then show ?thesis using assms w(2) by (simp add: fprint_remote_signal_def Let_def pad_right_def LINE_LEN_def)
qed

definition sample_comment :: comment where
  "sample_comment = \<lparr>cm_version = ''0.9.4d'', cm_driver = ''default'', cm_time = ''Thu Jan  1'' @ [newline],
     cm_uname = ''4.14'' @ [newline], cm_cmd = []\<rparr>"

definition printed_samples :: "ir_remote list" where
  "printed_samples = [sample_nec\<lparr>r_freq := 38000\<rparr>, sample_raw\<lparr>r_freq := 38000\<rparr>]"

lemma printable_samples: "list_all printable printed_samples"
proof -
  let ?nec = "sample_nec\<lparr>r_freq := 38000\<rparr>" and ?raw = "sample_raw\<lparr>r_freq := 38000\<rparr>"
  have cs: "r_codes ?nec = Some sample_codes" "r_codes ?raw = Some [sample_raw_code]"
    by (simp_all add: sample_nec_def sample_raw_def)
  have raw: "\<not> is_raw ?nec" "is_raw ?raw" by code_simp+
  have "button_ok ?nec c" if "c \<in> set sample_codes" for c
  proof -
    have "list_all (\<lambda>c. nc_next c = [] \<and> length (nc_name c) < 500 \<and> word_ok (nc_name c) \<and> plain_key (nc_name c)) sample_codes"
      by code_simp
    moreover have "0 \<le> r_bits ?nec \<and> r_bits ?nec \<le> 64" by code_simp
    ultimately show ?thesis using short_button [of c ?nec] that raw(1) by (simp add: button_ok_def list_all_iff)
  qed
  moreover have "sorted_wrt tells_apart sample_codes" by (simp add: sample_codes_def tells_apart_def zero_ncode_def)
  moreover have "r_pre_data ?nec AND gen_mask (r_pre_data_bits ?nec) = r_pre_data ?nec" 
     "r_post_data ?nec AND gen_mask (r_post_data_bits ?nec) = r_post_data ?nec"
     "list_all (\<lambda>c. list_all (\<lambda>d. d AND gen_mask (r_bits ?nec) = d) (nc_code c # nc_next c)) sample_codes"
     "0 \<le> r_bits ?nec" by code_simp+
  ultimately have "decoded_ok ?nec sample_codes" by (simp only: decoded_ok_def list_all_iff) simp
  moreover have "list_all raw_ok [sample_raw_code]" by code_simp
  moreover have "head_ok ?nec" "head_ok ?raw" by code_simp+
  ultimately show ?thesis using cs raw by (simp add: printed_samples_def printable_def)
qed

section \<open>The round trip\<close>

text \<open>
  C5: What \<open>fprint_remotes\<close> writes, the parser reads: a file with any remotes, decoded or raw, is
  read without an error, and gives one new remote for each, with the parameters, the buttons,
  their codes and signals of the remote that was printed; what follows is the normalisation the
  parser applies to every remote it has read. The remotes must be printable: names without
  blanks, values in the range of their types, no half pairs, buttons of one line. Two
  parameters change: the frequency 0 becomes the default, and every parity becomes N.
\<close>

theorem printed_remotes_read_back:
  assumes "list_all printable rs" "comment_ok cm commandline" "\<not> ce_dynamic_codes env"
  shows "\<exists>content. fprint_remotes cm rs commandline = Some content
    \<and> read_file env child depth content name store sb
      = map_option (\<lambda>(store', sb'). (store', sb', False, Some [length store..<length store + length rs]))
          (finish_remotes [length store..<length store + length rs] (store @ map kept_remote rs) sb)"
proof -
  let ?st = "start_state store sb"
  have "between ?st" by (simp add: between_def start_state_def raw_clean_def zero_ncode_def)
  then obtain s st' where s: "fprint_remotes cm rs commandline = Some s" "runs s ?st st'" "between st'"
      "ps_store st' = ps_store ?st @ map kept_remote rs"
      "ps_top st' = ps_top ?st @ [length (ps_store ?st)..<length (ps_store ?st) + length rs]" "ps_sbuf st' = ps_sbuf ?st"
    using runs_remotes [OF assms(1,2)] by blast
  have "parse_lines env child depth name s ?st = Some st'"
    using runsD [OF s(2) assms(3), of child depth name "[]"] by simp
  then have "read_file env child depth s name store sb
      = map_option (\<lambda>(store', sb'). (store', sb', False, Some [length store..<length store + length rs]))
          (finish_remotes [length store..<length store + length rs] (store @ map kept_remote rs) sb)"
    using s(3-6) by (auto simp: read_file_def between_def start_state_def split: option.split)
  then show ?thesis using s(1) by blast
qed

theorem printed_remotes_read_back_witness:
  "\<exists>content. fprint_remotes sample_comment printed_samples None = Some content
    \<and> read_file sample_env (\<lambda>_ _ _ _. None) 0 content None [] send_buffer_init
      = map_option (\<lambda>(store', sb'). (store', sb', False, Some [0..<2]))
          (finish_remotes [0..<2] (map kept_remote printed_samples) send_buffer_init)"
proof -
  have "comment_ok sample_comment None" by code_simp
  then show ?thesis
    using printed_remotes_read_back [OF printable_samples, of sample_comment None sample_env "\<lambda>_ _ _ _. None" 0 None "[]" send_buffer_init]
    by (simp add: sample_env_def printed_samples_def eval_nat_numeral)
qed

end
