(* ===== verification/Config_Types.thy ===== *)
theory Config_Types
  imports Config_Reader_Spec
begin

text \<open>
  The types of the parameters: the model has an \<open>int\<close> wherever C has a signed or an unsigned
  integer of 32 bits; here is the invariant that every value the reader of \<open>lircd.conf\<close> stores is
  in the range of its C type.
\<close>

section \<open>Typed remotes\<close>

definition typed_code :: "ir_ncode \<Rightarrow> bool" where
  "typed_code c \<longleftrightarrow> (case nc_signals c of None \<Rightarrow> True | Some xs \<Rightarrow> list_all in_s32 xs)"

text \<open>The fields of type \<open>int\<close> and \<open>lirc_t\<close>, those that are unsigned, and the signals.\<close>

definition typed :: "ir_remote \<Rightarrow> bool" where
  "typed r \<longleftrightarrow>
     list_all (\<lambda>f. in_s32 (f r)) [r_bits, r_eps, r_phead, r_shead, r_pthree, r_sthree, r_ptwo, r_stwo,
       r_pone, r_sone, r_pzero, r_szero, r_plead, r_ptrail, r_pfoot, r_sfoot, r_prepeat, r_srepeat,
       r_pre_data_bits, r_post_data_bits, r_pre_p, r_pre_s, r_post_p, r_post_s, r_toggle_bit,
       r_suppress_repeat, r_min_repeat, r_manual_sort]
     \<and> list_all (\<lambda>f. in_u32 (f r)) [r_aeps, r_gap, r_gap2, r_repeat_gap, r_min_code_repeat, r_freq,
       r_duty_cycle, r_baud, r_bits_in_byte, r_parity, r_stop_bits]
     \<and> (case r_codes r of None \<Rightarrow> True | Some cs \<Rightarrow> list_all typed_code cs)"

lemma typed_words [simp]:
  "typed (r\<lparr>r_name := s\<rparr>) = typed r" "typed (r\<lparr>r_driver := s\<rparr>) = typed r" "typed (r\<lparr>r_dyncodes_name := s\<rparr>) = typed r"
  "typed (r\<lparr>r_dyncodes := cs\<rparr>) = typed r" "typed (r\<lparr>r_last_code := l\<rparr>) = typed r" "typed (r\<lparr>r_flags := f\<rparr>) = typed r"
  "typed (r\<lparr>r_pre_data := c\<rparr>) = typed r" "typed (r\<lparr>r_post_data := c\<rparr>) = typed r" "typed (r\<lparr>r_repeat_mask := c\<rparr>) = typed r"
  "typed (r\<lparr>r_toggle_bit_mask := c\<rparr>) = typed r" "typed (r\<lparr>r_toggle_mask := c\<rparr>) = typed r"
  "typed (r\<lparr>r_rc6_mask := c\<rparr>) = typed r" "typed (r\<lparr>r_ignore_mask := c\<rparr>) = typed r"
  "typed (r\<lparr>r_toggle_bit_mask_state := c\<rparr>) = typed r"
  "typed (r\<lparr>r_min_total_signal_length := x\<rparr>) = typed r" "typed (r\<lparr>r_max_total_signal_length := x\<rparr>) = typed r"
  "typed (r\<lparr>r_min_gap_length := x\<rparr>) = typed r" "typed (r\<lparr>r_max_gap_length := x\<rparr>) = typed r"
  by (simp_all add: typed_def)






section \<open>Parameters\<close>

lemma strto_ranges [simp]:
  "in_s32 (fst (s_strtoi v))" "in_s32 (fst (s_strtolirc_t v))" "in_u32 (fst (s_strtoui v))" "in_u32 (fst (s_strtou32 v))"
proof -
  have zero: "in_s32 0" "in_u32 0" by (simp_all add: in_s32_def in_u32_def)
  show "in_s32 (fst (s_strtoi v))" "in_s32 (fst (s_strtolirc_t v))" "in_u32 (fst (s_strtoui v))"
    by (auto simp: s_strtoi_def s_strtolirc_t_def s_strtoui_def Let_def zero split: prod.split) (metis in_s32_s32 in_u32_u32)+
  show "in_u32 (fst (s_strtou32 v))"
    using strtoul_range [of 0 v] by (auto simp: s_strtou32_def zero split: prod.splits)
qed

lemma typed_define1: "(\<And>x. x = fst v \<Longrightarrow> typed (f x)) \<Longrightarrow> typed (fst (define1 f v))"
  by (simp add: define1_def)



section \<open>Lines\<close>

definition typed_state :: "parse_state \<Rightarrow> bool" where
  "typed_state st \<longleftrightarrow> (\<forall>r\<in>set (ps_store st). typed r) \<and> (\<forall>c\<in>set (va_ptr (ps_codes st)). typed_code c)
     \<and> (\<forall>c\<in>set (va_ptr (ps_raw_codes st)). typed_code c) \<and> (\<forall>x\<in>set (va_ptr (ps_signals st)). in_s32 x)
     \<and> typed_code (ps_raw_code st)"


lemma typed_fields [simp]:
  "typed_state (st\<lparr>ps_err := e\<rparr>) = typed_state st" "typed_state (st\<lparr>ps_mode := m\<rparr>) = typed_state st"
  "typed_state (st\<lparr>ps_top := is\<rparr>) = typed_state st" "typed_state (st\<lparr>ps_rem := i\<rparr>) = typed_state st"
  "typed_state (st\<lparr>ps_sbuf := sb\<rparr>) = typed_state st" "typed_state (fail st) = typed_state st"
  by (simp_all add: typed_state_def fail_def)













section \<open>Raw signals\<close>







section \<open>Files\<close>









section \<open>The end of a file\<close>











end
