(* ===== verification/Spec2Isabelle.thy ===== *)
theory Spec2Isabelle
  imports Transmit_Spec Inline_Spec Remote_Spec Release_Spec Decode_All Loopback_Spec Ciniparser_Spec Config_Reader_Spec Orbiter_Spec Client_Spec Client_Input_Spec
    Record_Data_Spec Record_Spec Dump_Spec Config_Types
begin

text \<open>
  A verification library for the orbiter, a loudspeaker that moves on a rail around a listener. The
  program has two layers, and both are modelled:

  \<^item> the application (\<open>src/main.cpp\<close>, \<open>src/Toolbox.cpp\<close>, \<open>src/StimuliLibrary.cpp\<close>, \<open>src/MusicScale.cpp\<close>,
    \<open>src/cmaxonmotor.cpp\<close>): a main loop that takes commands of a host and of an infrared remote
    control from two queues, moves the motor and plays sounds;
  \<^item> the infrared library it carries along, LIRC 0.9.4d (\<open>src/lirc-0.9.4d/lib\<close>): the remotes and
    their buttons, the transmitter, the receiver, the decoders, the release generator, the reader of
    \<open>lircd.conf\<close>, and the ini files of the options.

  All files named below without a directory are in \<open>src/lirc-0.9.4d/lib\<close>.

  \<^bold>\<open>How the parts work together.\<close> \<open>config_file.c\<close> reads \<open>struct ir_remote\<close> and its buttons from a file
  and simulates every button with the transmitter to find the lengths of its signals. \<open>transmit.c\<close>
  turns a button into pulses and spaces in a buffer. \<open>receive.c\<close> takes pulses and spaces from a driver
  and decodes a code for one remote; \<open>ir_remote.c\<close> tries all remotes (\<open>decode_all\<close>), splits the code,
  finds the button, and tells \<open>release.c\<close>, which reports when a button has been let go. The application
  gets the names of the buttons from the LIRC client and compares texts.

  \<^bold>\<open>Basics.\<close>
  \<^item> \<open>Prelude\<close>: C integers (an \<open>int\<close> is an integer with \<open>s32\<close> and \<open>u32\<close> where the code converts; an
    \<open>ir_code\<close> is a word of 64 bits), characters, list and bit lemmas.
  \<^item> \<open>C_Text\<close>: \<open>fgets\<close>, \<open>strtok\<close>, the \<open>strto\<close> functions. \<open>Floats\<close>: single and double precision as exact
    rationals with rounding to nearest even, and a calculus of relative errors.
  \<^item> \<open>Simulation\<close> and \<open>State_System\<close>: the contracts of a refinement and of a state machine with an
    invariant, as locales; \<open>Samples\<close>: remotes for the witnesses.

  \<^bold>\<open>Remotes.\<close> \<open>Ir_Types\<close> has the structures of \<open>ir_remote_types.h\<close> as records with the fields in the
  order of the source, the flags and the driver, a parameter. \<open>Ir_Inline\<close> is \<open>ir_remote.h\<close>, \<open>Ir_Remote\<close>
  and \<open>Decode_All\<close> are \<open>ir_remote.c\<close>. Pointers to remotes are addresses of a store, pointers to buttons
  are positions. \<open>Inline_Spec\<close> (bit reversal, population count, tolerance windows, the clock) and
  \<open>Remote_Spec\<close> (splitting and mapping of codes, lookup of buttons, filter parameters, messages) hold
  the properties.

  \<^bold>\<open>Transmitter.\<close> \<open>Transmit\<close> is \<open>transmit.c\<close>: the buffer, one definition per part of a signal, the
  encoders of all protocols, and the loop over repeats and sequences, which has fuel that
  \<open>Send_Loop\<close> shows to be enough: the minimum of the repeats and the rest of the sequence bound the
  rounds. \<open>Send_Refine\<close> refines the buffer to merged lists of events (interpretation \<open>sb\<close>),
  \<open>Send_Events\<close> gives the events of every encoder, \<open>Send_Props\<close> and \<open>Transmit_Spec\<close> what
  \<open>send_buffer_put\<close> promises: it returns, what it sends is well formed, which durations it sends.

  \<^bold>\<open>Receiver.\<close> \<open>Receive\<close> and \<open>Receive_Decode\<close> are \<open>receive.c\<close>: the buffer, the expectations with pending
  pulses and spaces, the decoders, \<open>receive_decode\<close>. The driver is the list of values its \<open>readdata\<close>
  returns. \<open>Tape\<close> sees the receiver as a head on a tape; \<open>Codec\<close> proves the decoding loops once, in
  the locale \<open>symbol_codec\<close>, which \<open>Data_Roundtrip\<close> interprets for space encoded bits, RC-MM and XMP.
  \<open>Loopback\<close> and \<open>Loopback_Spec\<close> join both sides: a button that is sent and received with durations
  off by the tolerance is found again.

  \<^bold>\<open>Releases.\<close> \<open>Release\<close> is \<open>release.c\<close>; \<open>Release_Spec\<close> has its operations as a step relation and its
  invariant, and what happens to a held button when it is replaced, times out, or when the
  configuration is read again.

  \<^bold>\<open>Ini files.\<close> \<open>Dictionary\<close> is \<open>dictionary.c\<close> with the locale \<open>string_dict\<close> of its promise, interpreted
  on the hash table; \<open>Dictionary_Spec\<close> refines whole histories to maps. \<open>Ciniparser\<close> is \<open>ciniparser.c\<close>;
  \<open>Ciniparser_Spec\<close> shows that what is dumped is read back, and two ways in which errors get lost.

  \<^bold>\<open>lircd.conf.\<close> \<open>Config_Values\<close> (arrays, numbers, flags), \<open>Config_Remote\<close> (parameters, checks, old
  formats, signal lengths, sorting) and \<open>Config_Parse\<close> (lines, sections, includes, files) are
  \<open>config_file.c\<close>. The recursion of includes is on the depth that is left, as the code stops at
  \<open>MAX_INCLUDES\<close>. Files and the matches of \<open>glob\<close> are the environment. \<open>Config_Spec\<close> has the properties of
  the parts, \<open>Config_Inv\<close> the invariant of the parser, \<open>Config_Reader_Spec\<close> what a whole file leads to.

  \<open>Config_Types\<close> shows that the parser never stores a number that its C type could not hold.

  \<^bold>\<open>Printing remotes.\<close> \<open>Dump_Config\<close> is \<open>dump_config.c\<close>: every function is the text it prints.
  \<open>Printed_Values\<close> shows that the conversions of \<open>printf\<close> and those of the parser are inverse,
  \<open>Dump_Read\<close> what one line of the file does to the state of the parser, \<open>Dump_Head\<close> the pieces of
  the head, \<open>Dump_Kept\<close> which remotes lose nothing, \<open>Dump_Codes\<close> and \<open>Dump_Raw\<close> the buttons, and
  \<open>Dump_Spec\<close> the round trip of a file of remotes.

  \<^bold>\<open>Recording.\<close> \<open>Record_Data\<close> is the first part of \<open>irrecord.c\<close>, which rearranges the codes of a remote;
  \<open>Record_Data_Spec\<close> shows that the transmitter emits the same events before and after.
  \<open>Record_Lengths\<close> has the classes of durations and the parameters derived from them, with the list of
  pulses that may become a circle, \<open>Record_Analysis\<close> the machine that collects signals, and
  \<open>Record_Buttons\<close> the emulated receiver, the gap, the toggle bits and the recording of buttons, where
  whatever the driver delivers is an argument. \<open>Record_Spec\<close> shows what the classes say of the samples,
  that a space encoding is found, that a raw signal is recorded as it was delivered, and where the
  analysis hangs or truncates.

  \<^bold>\<open>Client library.\<close> \<open>Client_Input\<close> has the socket side of \<open>lirc_client.c\<close>: buffers as lists of bytes, the
  lines of the daemon and the replies to command packets, whose loop has fuel because it need not end.
  \<open>Client_Code\<close> is the machine that turns buttons into the strings of an entry, \<open>Client_Config\<close> the reader
  of \<open>lircrc\<close> files with its stack of included files; its loop ends by the lexicographic order of the
  lengths of the texts on the stack. \<open>Client_Sequence\<close> shows that the rebasing of sequences is an
  incremental matcher; \<open>Client_Spec\<close> ties it to a plain comparison and has a client as a state machine
  whose invariant keeps all pointers valid; \<open>Client_Input_Spec\<close> has the cutting into lines, the
  refinement of replies, and what broken connections do.

  \<^bold>\<open>Application.\<close> \<open>Host_Data\<close> is \<open>Toolbox.cpp\<close>, with exceptions as None. \<open>Motor\<close> is \<open>cmaxonmotor.cpp\<close> over
  the EPOS library, which answers every call from the history of the calls. \<open>Stimuli\<close> is the sound
  library over FMOD, of which the lengths of the files are a parameter and the calls are recorded.
  \<open>Orbiter\<close> is \<open>main.cpp\<close>: the rounds of the main loop, and the threads as steps that append to the
  queues. \<open>Orbiter_Spec\<close> shows that the loop never reaches undefined behaviour but for one overrun of an
  array, that movements run in order, how exact positions are, and what an invalid message does.

  \<^bold>\<open>Undefined behaviour.\<close> Following NULL, leaving an array and loops without end are the value None, or a
  flag of the state where the code goes on; theorems say when they occur.

  \<^bold>\<open>Not modelled.\<close> Logging, sockets, device I/O, dynamic loading and process handling; the plugins of
  the drivers (a driver is a parameter); the daemons and command line tools; a client that shares its
  configuration over \<open>lircrcd\<close>; the dialog of \<open>irrecord.c\<close> with the hardware;
  release of memory and failing allocations; overflow of \<open>int\<close> in the application, whose positions are
  shown to stay in range for the angles of the protocol. Vendored headers have no code of their own.
\<close>

end
